(* ===== verification/Json.thy ===== *)
theory Json
  imports Prelude
begin

text \<open>
  Python floats with their exceptional values, the JSON values that cross the program's trust
  boundaries, Python's truthiness and \<open>str\<close> on them, and \<open>json.dumps\<close> in the two layouts the
  sources use. The decimal spelling of a finite float is the argument \<open>fr\<close> of the printers.
\<close>

section \<open>Floats\<close>

text \<open>A finite float is its real value; rounding of float arithmetic is not modelled.\<close>

datatype pfloat = Fin real | PInf | NInf | NaN

text \<open>The comparison \<open>a < b\<close>: false as soon as one side is NaN.\<close>

fun flt_lt :: "pfloat \<Rightarrow> pfloat \<Rightarrow> bool" where
  "flt_lt NaN b = False"
| "flt_lt a NaN = False"
| "flt_lt (Fin x) (Fin y) = (x < y)"
| "flt_lt NInf NInf = False"
| "flt_lt NInf b = True"
| "flt_lt a NInf = False"
| "flt_lt PInf b = False"
| "flt_lt a PInf = True"

text \<open>\<open>a >= b\<close> is not the negation of \<open>a < b\<close> on NaN.\<close>

fun flt_ge :: "pfloat \<Rightarrow> pfloat \<Rightarrow> bool" where
  "flt_ge a b = (a \<noteq> NaN \<and> b \<noteq> NaN \<and> \<not> flt_lt a b)"

text \<open>The builtins \<open>min(a, b)\<close> and \<open>max(a, b)\<close> keep the first argument unless the second wins.\<close>

definition py_min :: "pfloat \<Rightarrow> pfloat \<Rightarrow> pfloat" where
  "py_min a b = (if flt_lt b a then b else a)"

definition py_max :: "pfloat \<Rightarrow> pfloat \<Rightarrow> pfloat" where
  "py_max a b = (if flt_lt a b then b else a)"

section \<open>JSON values\<close>

datatype json =
    JNull
  | JBool bool
  | JInt int
  | JFloat pfloat
  | JStr string
  | JArr "json list"
  | JObj "(string \<times> json) list"

fun jget :: "json \<Rightarrow> string \<Rightarrow> json option" where
  "jget (JObj kvs) k = map_of kvs k"
| "jget _ k = None"

text \<open>\<open>bool(v)\<close>\<close>

fun truthy :: "json \<Rightarrow> bool" where
  "truthy JNull = False"
| "truthy (JBool b) = b"
| "truthy (JInt i) = (i \<noteq> 0)"
| "truthy (JFloat f) = (f \<noteq> Fin 0)"
| "truthy (JStr s) = (s \<noteq> [])"
| "truthy (JArr xs) = (xs \<noteq> [])"
| "truthy (JObj kvs) = (kvs \<noteq> [])"

section \<open>Printing\<close>

definition hex_digit :: "nat \<Rightarrow> char" where
  "hex_digit n = char_of (if n < 10 then 48 + n else 87 + n)"

definition hex2 :: "char \<Rightarrow> string" where
  "hex2 c = (let n = of_char c :: nat in [hex_digit (n div 16), hex_digit (n mod 16)])"

definition json_escape_char :: "char \<Rightarrow> string" where
  "json_escape_char c =
     (if c = CHR 0x22 then [CHR 0x5C, CHR 0x22]
      else if c = CHR 0x5C then [CHR 0x5C, CHR 0x5C]
      else if c = CHR 0x0A then [CHR 0x5C, CHR ''n'']
      else if c = CHR 0x0D then [CHR 0x5C, CHR ''r'']
      else if c = CHR 0x09 then [CHR 0x5C, CHR ''t'']
      else if c = CHR 0x0C then [CHR 0x5C, CHR ''f'']
      else if c = CHR 0x08 then [CHR 0x5C, CHR ''b'']
      else if CHR '' '' \<le> c \<and> c \<le> CHR 0x7E then [c]
      else CHR 0x5C # ''u00'' @ hex2 c)"

definition json_string :: "string \<Rightarrow> string" where
  "json_string s = [CHR 0x22] @ concat (map json_escape_char s) @ [CHR 0x22]"

fun float_text :: "(real \<Rightarrow> string) \<Rightarrow> pfloat \<Rightarrow> string" where
  "float_text fr (Fin x) = fr x"
| "float_text fr PInf = ''Infinity''"
| "float_text fr NInf = ''-Infinity''"
| "float_text fr NaN = ''NaN''"

definition indent_to :: "nat \<Rightarrow> string" where
  "indent_to n = newline @ replicate n (CHR '' '')"

definition sort_items :: "(string \<times> 'a) list \<Rightarrow> (string \<times> 'a) list" where
  "sort_items kvs = sort_key fst kvs"

text \<open>\<open>json.dumps(v, sort_keys=True)\<close>\<close>

fun dumps :: "(real \<Rightarrow> string) \<Rightarrow> json \<Rightarrow> string" where
  "dumps fr JNull = ''null''"
| "dumps fr (JBool b) = (if b then ''true'' else ''false'')"
| "dumps fr (JInt i) = str_int i"
| "dumps fr (JFloat f) = float_text fr f"
| "dumps fr (JStr s) = json_string s"
| "dumps fr (JArr xs) = ''['' @ str_join '', '' (map (dumps fr) xs) @ '']''"
| "dumps fr (JObj kvs) =
     CHR 0x7B # str_join '', ''
       (map snd (sort_items (map (\<lambda>(k, v). (k, json_string k @ '': '' @ dumps fr v)) kvs)))
     @ [CHR 0x7D]"

text \<open>\<open>json.dumps(v, indent=2, sort_keys=True)\<close>, at nesting depth \<open>n\<close>\<close>

fun dumps_indent :: "(real \<Rightarrow> string) \<Rightarrow> nat \<Rightarrow> json \<Rightarrow> string" where
  "dumps_indent fr n (JArr xs) =
     (if xs = [] then ''[]''
      else ''['' @ indent_to (n + 2)
        @ str_join (CHR '','' # indent_to (n + 2)) (map (dumps_indent fr (n + 2)) xs)
        @ indent_to n @ '']'')"
| "dumps_indent fr n (JObj kvs) =
     (if kvs = [] then [CHR 0x7B, CHR 0x7D]
      else CHR 0x7B # indent_to (n + 2)
        @ str_join (CHR '','' # indent_to (n + 2))
            (map snd (sort_items
               (map (\<lambda>(k, v). (k, json_string k @ '': '' @ dumps_indent fr (n + 2) v)) kvs)))
        @ indent_to n @ [CHR 0x7D])"
| "dumps_indent fr n v = dumps fr v"

text \<open>\<open>repr\<close> of a string and \<open>str\<close> of a JSON value\<close>

definition repr_char :: "char \<Rightarrow> char \<Rightarrow> string" where
  "repr_char q c =
     (if c = q then [CHR 0x5C, q]
      else if c = CHR 0x5C then [CHR 0x5C, CHR 0x5C]
      else if c = CHR 0x0A then [CHR 0x5C, CHR ''n'']
      else if c = CHR 0x0D then [CHR 0x5C, CHR ''r'']
      else if c = CHR 0x09 then [CHR 0x5C, CHR ''t'']
      else if (CHR '' '' \<le> c \<and> c \<le> CHR 0x7E) \<or> (CHR 0xA1 \<le> c \<and> c \<noteq> CHR 0xAD) then [c]
      else CHR 0x5C # CHR ''x'' # hex2 c)"

definition str_repr :: "string \<Rightarrow> string" where
  "str_repr s =
     (let q = (if CHR 0x27 \<in> set s \<and> CHR 0x22 \<notin> set s then CHR 0x22 else CHR 0x27)
      in q # concat (map (repr_char q) s) @ [q])"

fun float_repr :: "(real \<Rightarrow> string) \<Rightarrow> pfloat \<Rightarrow> string" where
  "float_repr fr (Fin x) = fr x"
| "float_repr fr PInf = ''inf''"
| "float_repr fr NInf = ''-inf''"
| "float_repr fr NaN = ''nan''"

fun py_repr :: "(real \<Rightarrow> string) \<Rightarrow> json \<Rightarrow> string" where
  "py_repr fr JNull = ''None''"
| "py_repr fr (JBool b) = (if b then ''True'' else ''False'')"
| "py_repr fr (JInt i) = str_int i"
| "py_repr fr (JFloat f) = float_repr fr f"
| "py_repr fr (JStr s) = str_repr s"
| "py_repr fr (JArr xs) = ''['' @ str_join '', '' (map (py_repr fr) xs) @ '']''"
| "py_repr fr (JObj kvs) =
     CHR 0x7B # str_join '', '' (map (\<lambda>(k, v). str_repr k @ '': '' @ py_repr fr v) kvs)
     @ [CHR 0x7D]"

fun py_str :: "(real \<Rightarrow> string) \<Rightarrow> json \<Rightarrow> string" where
  "py_str fr (JStr s) = s"
| "py_str fr v = py_repr fr v"

end
