(* ===== verification/Models.thy ===== *)
theory Models
  imports Json
begin

text \<open>
  The contracts of \<^verbatim>\<open>keel/models.py\<close>: the task-state machine's states, the enumerations with their
  wire values, the records of plans, artifacts, gates, approvals, results, audit events, metrics
  and adapter calls, and the small computations attached to them. \<open>sha\<close> stands for the first
  sixteen hexadecimal digits of SHA-256.
\<close>

section \<open>Task state\<close>

datatype task_state =
  SUBMITTED | WORKING | COMPLETED | FAILED | CANCELED | INPUT_REQUIRED | REJECTED | AUTH_REQUIRED

fun ts_value :: "task_state \<Rightarrow> string" where
  "ts_value SUBMITTED = ''submitted''"
| "ts_value WORKING = ''working''"
| "ts_value COMPLETED = ''completed''"
| "ts_value FAILED = ''failed''"
| "ts_value CANCELED = ''canceled''"
| "ts_value INPUT_REQUIRED = ''input_required''"
| "ts_value REJECTED = ''rejected''"
| "ts_value AUTH_REQUIRED = ''auth_required''"

fun ts_name :: "task_state \<Rightarrow> string" where
  "ts_name SUBMITTED = ''SUBMITTED''"
| "ts_name WORKING = ''WORKING''"
| "ts_name COMPLETED = ''COMPLETED''"
| "ts_name FAILED = ''FAILED''"
| "ts_name CANCELED = ''CANCELED''"
| "ts_name INPUT_REQUIRED = ''INPUT_REQUIRED''"
| "ts_name REJECTED = ''REJECTED''"
| "ts_name AUTH_REQUIRED = ''AUTH_REQUIRED''"

definition all_task_states :: "task_state list" where
  "all_task_states =
     [SUBMITTED, WORKING, COMPLETED, FAILED, CANCELED, INPUT_REQUIRED, REJECTED, AUTH_REQUIRED]"

text \<open>\<open>TaskState(value)\<close> and \<open>TaskState[name]\<close>; \<open>None\<close> is the \<open>ValueError\<close> or \<open>KeyError\<close>.\<close>

definition ts_of_value :: "string \<Rightarrow> task_state option" where
  "ts_of_value v = find (\<lambda>s. ts_value s = v) all_task_states"

definition ts_of_name :: "string \<Rightarrow> task_state option" where
  "ts_of_name v = find (\<lambda>s. ts_name s = v) all_task_states"

definition is_terminal :: "task_state \<Rightarrow> bool" where
  "is_terminal s \<longleftrightarrow> s \<in> {COMPLETED, FAILED, CANCELED, REJECTED}"

definition is_interrupted :: "task_state \<Rightarrow> bool" where
  "is_interrupted s \<longleftrightarrow> s \<in> {INPUT_REQUIRED, AUTH_REQUIRED}"

text \<open>
  The protobuf enum of the A2A SDK is outside the repository: \<open>pb_value\<close> maps its member names
  to numbers, \<open>pb_name\<close> maps back.
\<close>

definition to_a2a :: "(string \<Rightarrow> int option) \<Rightarrow> task_state \<Rightarrow> int option" where
  "to_a2a pb_value s = pb_value (''TASK_STATE_'' @ ts_name s)"

definition remove_prefix :: "string \<Rightarrow> string \<Rightarrow> string" where
  "remove_prefix p s = (if str_startswith s p then drop (length p) s else s)"

definition from_a2a :: "(int \<Rightarrow> string option) \<Rightarrow> int \<Rightarrow> task_state option" where
  "from_a2a pb_name v =
     (case pb_name v of None \<Rightarrow> None | Some n \<Rightarrow> ts_of_name (remove_prefix ''TASK_STATE_'' n))"

section \<open>Enumerations\<close>

datatype stage_kind = ANALYZE | DESIGN_STAGE | IMPLEMENT_STAGE | TEST_STAGE | DOCUMENT_STAGE
  | REVIEW_STAGE | RELEASE_CHECK

fun sk_value :: "stage_kind \<Rightarrow> string" where
  "sk_value ANALYZE = ''analyze''"
| "sk_value DESIGN_STAGE = ''design''"
| "sk_value IMPLEMENT_STAGE = ''implement''"
| "sk_value TEST_STAGE = ''test''"
| "sk_value DOCUMENT_STAGE = ''document''"
| "sk_value REVIEW_STAGE = ''review''"
| "sk_value RELEASE_CHECK = ''release_check''"

definition all_stages :: "stage_kind list" where
  "all_stages = [ANALYZE, DESIGN_STAGE, IMPLEMENT_STAGE, TEST_STAGE, DOCUMENT_STAGE, REVIEW_STAGE,
     RELEASE_CHECK]"

definition sk_of_value :: "string \<Rightarrow> stage_kind option" where
  "sk_of_value v = find (\<lambda>k. sk_value k = v) all_stages"

datatype model_tier = DEEP | FAST

fun mt_value :: "model_tier \<Rightarrow> string" where
  "mt_value DEEP = ''deep''"
| "mt_value FAST = ''fast''"

definition model_for :: "(string \<Rightarrow> string option) \<Rightarrow> string \<Rightarrow> string \<Rightarrow> string" where
  "model_for getenv tier_env dflt = (case getenv tier_env of None \<Rightarrow> dflt | Some v \<Rightarrow> v)"

fun model_for_tier :: "(string \<Rightarrow> string option) \<Rightarrow> model_tier \<Rightarrow> string" where
  "model_for_tier getenv DEEP = model_for getenv ''KEEL_DEEP_MODEL'' ''claude-opus-5''"
| "model_for_tier getenv FAST = model_for getenv ''KEEL_FAST_MODEL'' ''claude-haiku-4-5''"

definition model_pricing :: "(string, real \<times> real) dict" where
  "model_pricing =
     [(''claude-fable-5'', (10, 50)), (''claude-opus-5'', (5, 25)),
      (''claude-sonnet-5'', (3, 15)), (''claude-haiku-4-5'', (1, 5))]"

fun price_prefix :: "(string, real \<times> real) dict \<Rightarrow> string \<Rightarrow> real \<times> real" where
  "price_prefix [] model = (0, 0)"
| "price_prefix ((known, rates) # rest) model =
     (if str_startswith model known then rates else price_prefix rest model)"

definition price_for :: "string \<Rightarrow> real \<times> real" where
  "price_for model =
     (case dget model_pricing model of
        Some rates \<Rightarrow> rates
      | None \<Rightarrow> price_prefix model_pricing model)"

datatype scenario_kind = GREENFIELD | BROWNFIELD | AMBIGUOUS

fun sc_value :: "scenario_kind \<Rightarrow> string" where
  "sc_value GREENFIELD = ''greenfield''"
| "sc_value BROWNFIELD = ''brownfield''"
| "sc_value AMBIGUOUS = ''ambiguous''"

definition sc_of_value :: "string \<Rightarrow> scenario_kind option" where
  "sc_of_value v = find (\<lambda>k. sc_value k = v) [GREENFIELD, BROWNFIELD, AMBIGUOUS]"

datatype run_mode = LIVE | REPLAY

datatype severity = SEV_INFO | SEV_LOW | SEV_MEDIUM | SEV_HIGH | SEV_CRITICAL

fun sev_value :: "severity \<Rightarrow> string" where
  "sev_value SEV_INFO = ''info''"
| "sev_value SEV_LOW = ''low''"
| "sev_value SEV_MEDIUM = ''medium''"
| "sev_value SEV_HIGH = ''high''"
| "sev_value SEV_CRITICAL = ''critical''"

definition sev_blocks :: "severity \<Rightarrow> bool" where
  "sev_blocks s \<longleftrightarrow> s \<in> {SEV_HIGH, SEV_CRITICAL}"

datatype impact_level = IMPACT_LOW | IMPACT_MEDIUM | IMPACT_HIGH

fun impact_value :: "impact_level \<Rightarrow> string" where
  "impact_value IMPACT_LOW = ''low''"
| "impact_value IMPACT_MEDIUM = ''medium''"
| "impact_value IMPACT_HIGH = ''high''"

section \<open>Requirement understanding\<close>

record ambiguity =
  amb_question :: string
  amb_why :: string
  amb_blocking :: bool
  amb_options :: "string list"
  amb_answer :: "string option"

definition amb_resolved :: "ambiguity \<Rightarrow> bool" where
  "amb_resolved a \<longleftrightarrow> amb_answer a \<noteq> None"

record engineering_problem =
  ep_raw_requirement :: string
  ep_intent :: string
  ep_acceptance_criteria :: "string list"
  ep_constraints :: "string list"
  ep_ambiguities :: "ambiguity list"
  ep_scenario :: scenario_kind
  ep_confidence :: pfloat
  ep_notes :: string

definition blocking_ambiguities :: "engineering_problem \<Rightarrow> ambiguity list" where
  "blocking_ambiguities p = filter (\<lambda>a. amb_blocking a \<and> \<not> amb_resolved a) (ep_ambiguities p)"

definition is_plannable :: "engineering_problem \<Rightarrow> pfloat \<Rightarrow> bool" where
  "is_plannable p threshold \<longleftrightarrow>
     blocking_ambiguities p = [] \<and> flt_ge (ep_confidence p) threshold"

section \<open>Plans\<close>

record retry_policy =
  rp_max_attempts :: int
  rp_backoff_seconds :: real
  rp_backoff_multiplier :: real
  rp_fallback_tier :: "model_tier option"
  rp_fallback_hint :: "string option"

definition default_retry :: retry_policy where
  "default_retry = \<lparr>rp_max_attempts = 2, rp_backoff_seconds = 1, rp_backoff_multiplier = 2,
     rp_fallback_tier = None, rp_fallback_hint = None\<rparr>"

text \<open>\<open>None\<close> is the \<open>ValueError\<close> of a retry number below one.\<close>

definition delay_for :: "retry_policy \<Rightarrow> int \<Rightarrow> real option" where
  "delay_for r attempt =
     (if attempt < 1 then None
      else Some (rp_backoff_seconds r * rp_backoff_multiplier r ^ nat (attempt - 1)))"

record node_spec =
  ns_id :: string
  ns_kind :: stage_kind
  ns_description :: string
  ns_depends_on :: "string list"
  ns_skill_id :: string
  ns_model_tier :: model_tier
  ns_retry :: retry_policy
  ns_impact :: impact_level
  ns_entry_rules :: "string list"
  ns_exit_rules :: "string list"
  ns_produces :: "string list"
  ns_rollback :: bool

definition node_default :: node_spec where
  "node_default = \<lparr>ns_id = [], ns_kind = ANALYZE, ns_description = [], ns_depends_on = [],
     ns_skill_id = [], ns_model_tier = DEEP, ns_retry = default_retry, ns_impact = IMPACT_LOW,
     ns_entry_rules = [], ns_exit_rules = [], ns_produces = [], ns_rollback = True\<rparr>"

definition needs_approval :: "node_spec \<Rightarrow> bool" where
  "needs_approval n \<longleftrightarrow> ns_impact n = IMPACT_HIGH"

record plan =
  pl_nodes :: "node_spec list"
  pl_version :: int
  pl_rationale :: string
  pl_supersedes :: "int option"

definition plan_by_id :: "plan \<Rightarrow> string \<Rightarrow> node_spec option" where
  "plan_by_id p i = find (\<lambda>n. ns_id n = i) (pl_nodes p)"

definition plan_node_ids :: "plan \<Rightarrow> string set" where
  "plan_node_ids p = set (map ns_id (pl_nodes p))"

section \<open>Artifacts, gates, approvals\<close>

record artifact =
  art_name :: string
  art_content :: string
  art_produced_by :: string
  art_path :: "string option"
  art_media_type :: string

definition text_artifact :: "string \<Rightarrow> string \<Rightarrow> string \<Rightarrow> artifact" where
  "text_artifact name content by_node = \<lparr>art_name = name, art_content = content,
     art_produced_by = by_node, art_path = None, art_media_type = ''text/plain''\<rparr>"

definition art_sha :: "(string \<Rightarrow> string) \<Rightarrow> artifact \<Rightarrow> string" where
  "art_sha sha a = sha (art_content a)"

record lineage_edge =
  le_artifact_name :: string
  le_artifact_sha :: string
  le_produced_by :: string
  le_consumed_by :: string

record policy_violation =
  pv_rule_id :: string
  pv_severity :: severity
  pv_message :: string
  pv_location :: "string option"

definition pv_blocks :: "policy_violation \<Rightarrow> bool" where
  "pv_blocks v = sev_blocks (pv_severity v)"

record gate_decision =
  gd_gate :: string
  gd_node_id :: string
  gd_allowed :: bool
  gd_reason :: string
  gd_violations :: "policy_violation list"

definition gate_allow :: "string \<Rightarrow> string \<Rightarrow> string \<Rightarrow> gate_decision" where
  "gate_allow gate n reason =
     \<lparr>gd_gate = gate, gd_node_id = n, gd_allowed = True, gd_reason = reason, gd_violations = []\<rparr>"

definition gate_deny :: "string \<Rightarrow> string \<Rightarrow> string \<Rightarrow> policy_violation list \<Rightarrow> gate_decision" where
  "gate_deny gate n reason vs =
     \<lparr>gd_gate = gate, gd_node_id = n, gd_allowed = False, gd_reason = reason, gd_violations = vs\<rparr>"

record approval_request =
  aq_node_id :: string
  aq_reason :: string
  aq_impact :: impact_level
  aq_details :: string
  aq_request_id :: string

record approval_decision =
  ad_request_id :: string
  ad_approved :: bool
  ad_decided_by :: string
  ad_note :: string

section \<open>Results, audit events, metrics\<close>

record node_result =
  nr_node_id :: string
  nr_state :: task_state
  nr_attempts :: int
  nr_artifacts :: "artifact list"
  nr_error :: "string option"
  nr_started_at :: real
  nr_ended_at :: real
  nr_rolled_back :: bool
  nr_used_fallback :: bool
  nr_input_tokens :: int
  nr_output_tokens :: int
  nr_cost_usd :: real
  nr_gate_decisions :: "gate_decision list"

definition nr_new :: "string \<Rightarrow> task_state \<Rightarrow> node_result" where
  "nr_new n s = \<lparr>nr_node_id = n, nr_state = s, nr_attempts = 1, nr_artifacts = [], nr_error = None,
     nr_started_at = 0, nr_ended_at = 0, nr_rolled_back = False, nr_used_fallback = False,
     nr_input_tokens = 0, nr_output_tokens = 0, nr_cost_usd = 0, nr_gate_decisions = []\<rparr>"

definition nr_duration :: "node_result \<Rightarrow> real" where
  "nr_duration r = max 0 (nr_ended_at r - nr_started_at r)"

datatype event_type = RUN_STARTED | RUN_FINISHED | INTAKE | PLAN_CREATED | PLAN_REVISED
  | NODE_STARTED | NODE_FINISHED | GATE_DECISION | POLICY_VIOLATION | RETRY | FALLBACK | ROLLBACK
  | REPAIR_STARTED | APPROVAL_REQUESTED | APPROVAL_DECIDED | SAFE_STOP | MODEL_CALL
  | ARTIFACT_WRITTEN

fun et_value :: "event_type \<Rightarrow> string" where
  "et_value RUN_STARTED = ''run_started''"
| "et_value RUN_FINISHED = ''run_finished''"
| "et_value INTAKE = ''intake''"
| "et_value PLAN_CREATED = ''plan_created''"
| "et_value PLAN_REVISED = ''plan_revised''"
| "et_value NODE_STARTED = ''node_started''"
| "et_value NODE_FINISHED = ''node_finished''"
| "et_value GATE_DECISION = ''gate_decision''"
| "et_value POLICY_VIOLATION = ''policy_violation''"
| "et_value RETRY = ''retry''"
| "et_value FALLBACK = ''fallback''"
| "et_value ROLLBACK = ''rollback''"
| "et_value REPAIR_STARTED = ''repair_started''"
| "et_value APPROVAL_REQUESTED = ''approval_requested''"
| "et_value APPROVAL_DECIDED = ''approval_decided''"
| "et_value SAFE_STOP = ''safe_stop''"
| "et_value MODEL_CALL = ''model_call''"
| "et_value ARTIFACT_WRITTEN = ''artifact_written''"

definition all_event_types :: "event_type list" where
  "all_event_types = [RUN_STARTED, RUN_FINISHED, INTAKE, PLAN_CREATED, PLAN_REVISED, NODE_STARTED,
     NODE_FINISHED, GATE_DECISION, POLICY_VIOLATION, RETRY, FALLBACK, ROLLBACK, REPAIR_STARTED,
     APPROVAL_REQUESTED, APPROVAL_DECIDED, SAFE_STOP, MODEL_CALL, ARTIFACT_WRITTEN]"

definition et_of_value :: "string \<Rightarrow> event_type option" where
  "et_of_value v = find (\<lambda>t. et_value t = v) all_event_types"

record audit_event =
  ae_run_id :: string
  ae_event_type :: event_type
  ae_payload :: "(string, json) dict"
  ae_node_id :: "string option"
  ae_at :: real
  ae_seq :: int

record run_metrics =
  rm_run_id :: string
  rm_total_nodes :: nat
  rm_succeeded :: nat
  rm_failed :: nat
  rm_retries :: int
  rm_rollbacks :: nat
  rm_fallbacks :: nat
  rm_approvals_requested :: nat
  rm_plan_revisions :: nat
  rm_e2e_latency_seconds :: real
  rm_mttr_seconds :: "real option"
  rm_cost_usd :: real
  rm_input_tokens :: int
  rm_output_tokens :: int

definition success_rate :: "run_metrics \<Rightarrow> real" where
  "success_rate m = (if rm_total_nodes m \<noteq> 0 then real (rm_succeeded m) / real (rm_total_nodes m) else 0)"

section \<open>Adapter calls\<close>

record adapter_request =
  rq_node_id :: string
  rq_skill_id :: string
  rq_tier :: model_tier
  rq_system :: string
  rq_prompt :: string
  rq_json_schema :: "(string, json) dict option"

definition cassette_key :: "(string \<Rightarrow> string) \<Rightarrow> (real \<Rightarrow> string) \<Rightarrow> adapter_request \<Rightarrow> string" where
  "cassette_key sha fr q =
     (let schema = (case rq_json_schema q of
                      None \<Rightarrow> ''none''
                    | Some s \<Rightarrow> if s = [] then ''none'' else dumps fr (JObj s))
      in sha (str_join newline
                [rq_skill_id q, mt_value (rq_tier q), rq_system q, rq_prompt q, schema]))"

record adapter_response =
  rs_text :: string
  rs_parsed :: "(string, json) dict option"
  rs_model :: string
  rs_input_tokens :: int
  rs_output_tokens :: int
  rs_latency_seconds :: real
  rs_from_replay :: bool

definition rs_cost_usd :: "adapter_response \<Rightarrow> real" where
  "rs_cost_usd r =
     (case price_for (rs_model r) of (rate_in, rate_out) \<Rightarrow>
        (of_int (rs_input_tokens r) * rate_in + of_int (rs_output_tokens r) * rate_out) / 1000000)"

section \<open>Lemmas\<close>

lemma ts_of_value_ts_value [simp]: "ts_of_value (ts_value s) = Some s"
  by (cases s) (simp_all add: ts_of_value_def all_task_states_def)

lemma ts_of_value_Some: "ts_of_value v = Some s \<Longrightarrow> ts_value s = v"
  by (auto simp: ts_of_value_def find_Some_iff)

lemma ts_of_name_ts_name [simp]: "ts_of_name (ts_name s) = Some s"
  by (cases s) (simp_all add: ts_of_name_def all_task_states_def)

lemma sk_of_value_sk_value [simp]: "sk_of_value (sk_value k) = Some k"
  by (cases k) (simp_all add: sk_of_value_def all_stages_def)

lemma et_of_value_et_value [simp]: "et_of_value (et_value t) = Some t"
  by (cases t) (simp_all add: et_of_value_def all_event_types_def)

lemma sc_of_value_sc_value [simp]: "sc_of_value (sc_value k) = Some k"
  by (cases k) (simp_all add: sc_of_value_def)

lemma remove_prefix_append [simp]: "remove_prefix p (p @ s) = s"
  by (simp add: remove_prefix_def)

lemma terminal_not_interrupted: "is_terminal s \<Longrightarrow> \<not> is_interrupted s"
  by (auto simp: is_terminal_def is_interrupted_def)

lemma gate_deny_sel [simp]:
  "gd_allowed (gate_deny g n r vs) = False" "gd_violations (gate_deny g n r vs) = vs"
  "gd_reason (gate_deny g n r vs) = r"
  by (simp_all add: gate_deny_def)

lemma nr_new_sel [simp]:
  "nr_node_id (nr_new n s) = n" "nr_state (nr_new n s) = s" "nr_attempts (nr_new n s) = 1"
  "nr_rolled_back (nr_new n s) = False" "nr_used_fallback (nr_new n s) = False"
  "nr_gate_decisions (nr_new n s) = []" "nr_artifacts (nr_new n s) = []"
  by (simp_all add: nr_new_def)

text \<open>
  Task states survive the trip over the A2A wire and stay distinct on it. Whenever the SDK's
  protobuf enum looks a number up under the name it was found by, \<open>from_a2a\<close> undoes \<open>to_a2a\<close>, and no
  two of the eight states are sent as the same number.
\<close>

theorem a2a_state_roundtrip:
  assumes "\<forall>n v. pb_value n = Some v \<longrightarrow> pb_name v = Some n"
    and "to_a2a pb_value s = Some v"
  shows "from_a2a pb_name v = Some s \<and> (\<forall>s'. to_a2a pb_value s' = Some v \<longrightarrow> s' = s)"
proof -
  have inverse: "from_a2a pb_name v = Some t" if "to_a2a pb_value t = Some v" for t
  proof -
    from that assms(1) have "pb_name v = Some (''TASK_STATE_'' @ ts_name t)" by (simp add: to_a2a_def)
    then show ?thesis by (simp only: from_a2a_def option.case remove_prefix_append ts_of_name_ts_name)
  qed
  have "s' = s" if "to_a2a pb_value s' = Some v" for s' using inverse [OF that] inverse [OF assms(2)] by simp
  with inverse [OF assms(2)] show ?thesis by blast
qed

definition pb_names :: "(string \<times> int) list" where
  "pb_names = [(''TASK_STATE_SUBMITTED'', 1), (''TASK_STATE_WORKING'', 2), (''TASK_STATE_COMPLETED'', 3),
     (''TASK_STATE_FAILED'', 4), (''TASK_STATE_CANCELED'', 5), (''TASK_STATE_INPUT_REQUIRED'', 6),
     (''TASK_STATE_REJECTED'', 7), (''TASK_STATE_AUTH_REQUIRED'', 8)]"

lemma pb_names_inverse: "map_of pb_names n = Some v \<longrightarrow> map_of (map (\<lambda>(n, v). (v, n)) pb_names) v = Some n"
  by (auto simp: pb_names_def split: if_splits)

theorem a2a_state_roundtrip_witness:
  "to_a2a (map_of pb_names) INPUT_REQUIRED = Some 6
     \<and> from_a2a (map_of (map (\<lambda>(n, v). (v, n)) pb_names)) 6 = Some INPUT_REQUIRED"
proof -
  have "to_a2a (map_of pb_names) INPUT_REQUIRED = Some 6" by code_simp
  with a2a_state_roundtrip [of "map_of pb_names" "map_of (map (\<lambda>(n, v). (v, n)) pb_names)"]
    pb_names_inverse show ?thesis by simp
qed

end
