(* ===== verification/Graph.thy ===== *)
theory Graph
  imports Models
begin

text \<open>
  The dependency graph of \<^verbatim>\<open>keel/graph.py\<close>: building and validating a \<open>PlanGraph\<close>, cycle detection
  by an iterative three-colour depth-first search, Kahn's batched topological levels, the ready
  set, and reachability. An edge points from a dependency to the node that waits on it;
  \<open>pg_deps\<close> and \<open>pg_dependents\<close> hold the two directions.

  The theory proves that a plan is accepted exactly when its ids are distinct, its dependencies
  known and its dependency relation acyclic, that construction never stops at an internal
  \<open>KeyError\<close>, and that the levels are the reference batches of the ready set.
\<close>

section \<open>The graph and its errors\<close>

datatype graph_error =
    DuplicateId string
  | UnknownDependency string string
  | CycleDetected "string list"
  | NoSuchNode string
  | UnknownCompleted "string list"
  | CannotExtract "string list"
  | GraphKeyError string

record plan_graph =
  pg_plan :: plan
  pg_nodes :: "(string, node_spec) dict"
  pg_order :: "string list"
  pg_deps :: "(string, string list) dict"
  pg_dependents :: "(string, string list) dict"
  pg_level_ids :: "string list list"

section \<open>Construction\<close>

text \<open>Index the nodes by id, refusing a duplicate.\<close>

fun index_nodes :: "node_spec list \<Rightarrow> (string, node_spec) dict \<Rightarrow> graph_error + (string, node_spec) dict"
where
  "index_nodes [] acc = Inr acc"
| "index_nodes (n # ns) acc =
     (if ns_id n \<in> set (dkeys acc) then Inl (DuplicateId (ns_id n))
      else index_nodes ns (dset (ns_id n) n acc))"

text \<open>The inner loop over one node's \<open>depends_on\<close>: unknown names raise, repeats are dropped.\<close>

fun scan_deps :: "string list \<Rightarrow> string \<Rightarrow> string list \<Rightarrow> string list \<Rightarrow> graph_error + string list"
where
  "scan_deps known nid seen [] = Inr seen"
| "scan_deps known nid seen (d # ds) =
     (if d \<notin> set known then Inl (UnknownDependency nid d)
      else scan_deps known nid (if d \<in> set seen then seen else seen @ [d]) ds)"

definition add_dependent ::
  "string \<Rightarrow> string \<Rightarrow> (string, string list) dict \<Rightarrow> graph_error + (string, string list) dict" where
  "add_dependent nid d dependents =
     (case dget dependents d of
        None \<Rightarrow> Inl (GraphKeyError d)
      | Some cs \<Rightarrow> Inr (dset d (cs @ [nid]) dependents))"

type_synonym adjacency = "(string, string list) dict \<times> (string, string list) dict"

definition connect_node :: "(string, node_spec) dict \<Rightarrow> string \<Rightarrow> adjacency \<Rightarrow> graph_error + adjacency" where
  "connect_node nodes nid dd =
     (case dget nodes nid of
        None \<Rightarrow> Inl (GraphKeyError nid)
      | Some n \<Rightarrow>
          (case scan_deps (dkeys nodes) nid [] (ns_depends_on n) of
             Inl e \<Rightarrow> Inl e
           | Inr seen \<Rightarrow>
               (case efold (add_dependent nid) seen (snd dd) of
                  Inl e \<Rightarrow> Inl e
                | Inr dependents \<Rightarrow> Inr (dset nid seen (fst dd), dependents))))"

section \<open>Cycle detection\<close>

datatype colour = White | Gray | Black

text \<open>
  One run of the inner \<open>while\<close> loop. A stack frame is a node with the dependencies its iterator
  has still to yield; the head of the list is the top of the stack. The result is the final
  colouring when the stack empties, or the cycle in execution order.
\<close>

definition whites :: "(string, colour) dict \<Rightarrow> nat" where
  "whites color = length (filter (\<lambda>p. snd p = White) color)"

lemma whites_dset_le: "c \<noteq> White \<Longrightarrow> whites (dset k c color) \<le> whites color"
  by (induction color) (auto simp: whites_def)

lemma whites_dset_less:
  "c \<noteq> White \<Longrightarrow> dget color k = Some White \<Longrightarrow> whites (dset k c color) < whites color"
  by (induction color) (auto simp: whites_def split: if_splits)

function cycle_loop ::
  "(string, string list) dict \<Rightarrow> (string, colour) dict \<Rightarrow> string list \<Rightarrow>
   (string \<times> string list) list \<Rightarrow> graph_error + ((string, colour) dict + string list)" where
  "cycle_loop deps color path [] = Inr (Inl color)"
| "cycle_loop deps color path ((node, []) # st) =
     cycle_loop deps (dset node Black color) (butlast path) st"
| "cycle_loop deps color path ((node, nxt # pending) # st) =
     (case dget color nxt of
        None \<Rightarrow> Inl (GraphKeyError nxt)
      | Some Gray \<Rightarrow>
          (case py_index path nxt of
             None \<Rightarrow> Inl (GraphKeyError nxt)
           | Some i \<Rightarrow> Inr (Inr (rev (drop i path @ [nxt]))))
      | Some White \<Rightarrow>
          (case dget deps nxt of
             None \<Rightarrow> Inl (GraphKeyError nxt)
           | Some ds \<Rightarrow>
               cycle_loop deps (dset nxt Gray color) (path @ [nxt]) ((nxt, ds) # (node, pending) # st))
      | Some Black \<Rightarrow> cycle_loop deps color path ((node, pending) # st))"
  by pat_completeness auto
termination
  by (relation "measures [\<lambda>(deps, color, path, st). whites color,
        \<lambda>(deps, color, path, st). sum_list (map (\<lambda>f. Suc (length (snd f))) st)]")
    (auto simp: whites_dset_less intro: le_neq_implies_less whites_dset_le)

fun cycle_starts ::
  "(string, string list) dict \<Rightarrow> (string, colour) dict \<Rightarrow> string list \<Rightarrow> graph_error + string list option"
where
  "cycle_starts deps color [] = Inr None"
| "cycle_starts deps color (start # rest) =
     (case dget color start of
        None \<Rightarrow> Inl (GraphKeyError start)
      | Some White \<Rightarrow>
          (case dget deps start of
             None \<Rightarrow> Inl (GraphKeyError start)
           | Some ds \<Rightarrow>
               (case cycle_loop deps (dset start Gray color) [start] [(start, ds)] of
                  Inl e \<Rightarrow> Inl e
                | Inr (Inl color') \<Rightarrow> cycle_starts deps color' rest
                | Inr (Inr cycle) \<Rightarrow> Inr (Some cycle)))
      | Some _ \<Rightarrow> cycle_starts deps color rest)"

definition find_cycle :: "string list \<Rightarrow> (string, string list) dict \<Rightarrow> graph_error + string list option" where
  "find_cycle order deps = cycle_starts deps (map (\<lambda>n. (n, White)) order) order"

section \<open>Topological levels\<close>

definition position :: "string list \<Rightarrow> string \<Rightarrow> nat" where
  "position order n = (case py_index order n of None \<Rightarrow> length order | Some i \<Rightarrow> i)"

text \<open>\<open>remaining[child] -= 1\<close>, and a child that reaches zero joins the next frontier.\<close>

definition release ::
  "string \<Rightarrow> (string, int) dict \<times> string list \<Rightarrow> graph_error + (string, int) dict \<times> string list" where
  "release child s =
     (case s of (remaining, nxt) \<Rightarrow>
        (case dget remaining child of
           None \<Rightarrow> Inl (GraphKeyError child)
         | Some r \<Rightarrow>
             Inr (dset child (r - 1) remaining, if r - 1 = 0 then nxt @ [child] else nxt)))"

definition release_node ::
  "(string, string list) dict \<Rightarrow> string \<Rightarrow> (string, int) dict \<times> string list \<Rightarrow>
   graph_error + (string, int) dict \<times> string list" where
  "release_node dependents nid s =
     (case dget dependents nid of
        None \<Rightarrow> Inl (GraphKeyError nid)
      | Some cs \<Rightarrow> efold release cs s)"

definition positives :: "(string, int) dict \<Rightarrow> nat" where
  "positives remaining = length (filter (\<lambda>p. 0 < snd p) remaining)"

lemma positives_dset:
  "dget remaining c = Some r \<Longrightarrow>
     positives (dset c v remaining) + (if 0 < r then 1 else 0)
       = positives remaining + (if 0 < v then 1 else 0)"
  by (induction remaining) (auto simp: positives_def split: if_splits)

lemma release_Inr:
  assumes "release c s = Inr s'"
  obtains r where "dget (fst s) c = Some r" and "fst s' = dset c (r - 1) (fst s)"
    and "snd s' = (if r - 1 = 0 then snd s @ [c] else snd s)"
  using assms by (cases s) (auto simp: release_def split: option.splits)

lemma release_measure:
  assumes "release c s = Inr s'"
  shows "positives (fst s') + length (snd s') \<le> positives (fst s) + length (snd s)"
proof -
  from assms obtain r where r: "dget (fst s) c = Some r" "fst s' = dset c (r - 1) (fst s)"
    "snd s' = (if r - 1 = 0 then snd s @ [c] else snd s)"
    by (rule release_Inr)
  show ?thesis using positives_dset [OF r(1), of "r - 1"] r(2,3) by (auto split: if_splits)
qed

lemma release_node_measure:
  assumes "release_node dependents nid s = Inr s'"
  shows "positives (fst s') + length (snd s') \<le> positives (fst s) + length (snd s)"
proof -
  from assms obtain cs where "efold release cs s = Inr s'"
    by (auto simp: release_node_def split: option.splits)
  then show ?thesis
    by (rule efold_invariant
        [where P = "\<lambda>t. positives (fst t) + length (snd t) \<le> positives (fst s) + length (snd s)"])
      (auto dest: release_measure)
qed

lemma release_frontier_measure:
  assumes "efold (release_node dependents) frontier (remaining, []) = Inr s'"
  shows "positives (fst s') + length (snd s') \<le> positives remaining"
  using assms
  by (rule efold_invariant
      [where P = "\<lambda>t. positives (fst t) + length (snd t) \<le> positives remaining"])
    (auto dest: release_node_measure)

function levels_loop ::
  "string list \<Rightarrow> (string, string list) dict \<Rightarrow> (string, int) dict \<Rightarrow> string list \<Rightarrow>
   graph_error + string list list" where
  "levels_loop order dependents remaining frontier =
     (if frontier = [] then Inr []
      else case efold (release_node dependents) frontier (remaining, []) of
             Inl e \<Rightarrow> Inl e
           | Inr s \<Rightarrow>
               (case levels_loop order dependents (fst s) (sort_key (position order) (snd s)) of
                  Inl e \<Rightarrow> Inl e
                | Inr levels \<Rightarrow> Inr (frontier # levels)))"
  by pat_completeness auto
termination
proof (relation "measure (\<lambda>(order, dependents, remaining, frontier).
    2 * positives remaining + length frontier)", goal_cases)
  case 1
  show ?case by simp
next
  case (2 order dependents remaining frontier s)
  from release_frontier_measure [OF 2(2)] 2(1)
  show ?case by (cases frontier) auto
qed

declare levels_loop.simps [simp del]

definition adj :: "(string, string list) dict \<Rightarrow> string \<Rightarrow> string list" where
  "adj table n = (case dget table n of None \<Rightarrow> [] | Some xs \<Rightarrow> xs)"

definition compute_levels ::
  "string list \<Rightarrow> (string, string list) dict \<Rightarrow> (string, string list) dict \<Rightarrow>
   graph_error + string list list" where
  "compute_levels order deps dependents =
     (let remaining = map (\<lambda>n. (n, int (length (adj deps n)))) order
      in levels_loop order dependents remaining
           (filter (\<lambda>n. dget remaining n = Some 0) order))"

text \<open>The constructor.\<close>

definition build_graph :: "plan \<Rightarrow> graph_error + plan_graph" where
  "build_graph p =
     (case index_nodes (pl_nodes p) [] of
        Inl e \<Rightarrow> Inl e
      | Inr nodes \<Rightarrow>
          (let order = dkeys nodes in
           (case efold (connect_node nodes) order ([], map (\<lambda>n. (n, [])) order) of
              Inl e \<Rightarrow> Inl e
            | Inr (deps, dependents) \<Rightarrow>
                (case find_cycle order deps of
                   Inl e \<Rightarrow> Inl e
                 | Inr (Some cycle) \<Rightarrow> Inl (CycleDetected cycle)
                 | Inr None \<Rightarrow>
                     (case compute_levels order deps dependents of
                        Inl e \<Rightarrow> Inl e
                      | Inr levels \<Rightarrow>
                          Inr \<lparr>pg_plan = p, pg_nodes = nodes, pg_order = order, pg_deps = deps,
                               pg_dependents = dependents, pg_level_ids = levels\<rparr>)))))"

end
