(* ===== verification/GraphCycles.thy ===== *)
theory GraphCycles
  imports Graph
begin

text \<open>
  Correctness of the iterative depth-first search in \<^verbatim>\<open>PlanGraph._find_cycle\<close>: it never raises,
  it reports a path only if that path is a dependency cycle, and it reports nothing only if the
  dependency relation is acyclic.
\<close>

section \<open>The dependency relation\<close>

definition dep_edges :: "(string, string list) dict \<Rightarrow> (string \<times> string) set" where
  "dep_edges deps = {(n, d). d \<in> set (adj deps n)}"

definition deps_closed :: "(string, string list) dict \<Rightarrow> bool" where
  "deps_closed deps \<longleftrightarrow> (\<forall>n d. (n, d) \<in> dep_edges deps \<longrightarrow> d \<in> set (dkeys deps))"

text \<open>A cycle in execution order: it ends where it starts, and each node waits on the one before.\<close>

definition dep_cycle :: "(string, string list) dict \<Rightarrow> string list \<Rightarrow> bool" where
  "dep_cycle deps c \<longleftrightarrow> 2 \<le> length c \<and> hd c = last c
     \<and> successively (\<lambda>a b. (b, a) \<in> dep_edges deps) c"

lemma adj_eq [simp]: "dget deps n = Some ds \<Longrightarrow> adj deps n = ds"
  by (simp add: adj_def)

lemma dep_edges_keys: "(n, d) \<in> dep_edges deps \<Longrightarrow> n \<in> set (dkeys deps)"
  using dget_None_iff [of deps n] by (auto simp: dep_edges_def adj_def split: option.splits)

lemma finite_dep_edges: "finite (dep_edges deps)"
proof -
  have "dep_edges deps \<subseteq> (SIGMA n : set (dkeys deps). set (adj deps n))"
    using dep_edges_keys by (fastforce simp: dep_edges_def)
  then show ?thesis by (rule finite_subset) auto
qed

lemma successively_trancl:
  "successively (\<lambda>a b. (b, a) \<in> r) (x # xs) \<Longrightarrow> xs \<noteq> [] \<Longrightarrow> (last xs, x) \<in> r\<^sup>+"
proof (induction xs arbitrary: x)
  case Nil
  then show ?case by simp
next
  case (Cons y ys)
  show ?case
  proof (cases "ys = []")
    case True
    with Cons.prems show ?thesis by auto
  next
    case False
    with Cons have "(last ys, y) \<in> r\<^sup>+" "(y, x) \<in> r" by auto
    with False show ?thesis by (auto intro: trancl_into_trancl)
  qed
qed

text \<open>A reported path really is a loop of the relation.\<close>

lemma dep_cycle_not_acyclic: "dep_cycle deps c \<Longrightarrow> \<not> acyclic (dep_edges deps)"
proof
  assume c: "dep_cycle deps c" and ac: "acyclic (dep_edges deps)"
  then have len: "2 \<le> length c" by (simp add: dep_cycle_def)
  then obtain x xs where x: "c = x # xs" "xs \<noteq> []" by (cases c; cases "tl c") auto
  with c have "(last xs, x) \<in> (dep_edges deps)\<^sup>+"
    by (intro successively_trancl) (auto simp: dep_cycle_def)
  moreover from c x have "last xs = x" by (auto simp: dep_cycle_def)
  ultimately show False using ac by (auto simp: acyclic_def)
qed

section \<open>The invariant of the search\<close>

text \<open>
  For every frame: what its iterator has passed is black, except for the node of the frame
  above it, which is still being explored.
\<close>

fun frames_ok ::
  "(string, string list) dict \<Rightarrow> (string, colour) dict \<Rightarrow> string option \<Rightarrow>
   (string \<times> string list) list \<Rightarrow> bool" where
  "frames_ok deps color up [] = True"
| "frames_ok deps color up ((n, p) # st) =
     (n \<in> set (dkeys deps) \<and> set p \<subseteq> set (adj deps n)
      \<and> (\<forall>d \<in> set (adj deps n) - set p. dget color d = Some Black \<or> up = Some d)
      \<and> (\<forall>u. up = Some u \<longrightarrow> u \<in> set (adj deps n))
      \<and> frames_ok deps color (Some n) st)"

definition black_edges :: "(string, string list) dict \<Rightarrow> (string, colour) dict \<Rightarrow> (string \<times> string) set"
where
  "black_edges deps color = {(n, d) \<in> dep_edges deps. dget color n = Some Black}"

definition dfs_inv ::
  "(string, string list) dict \<Rightarrow> (string, colour) dict \<Rightarrow> string list \<Rightarrow>
   (string \<times> string list) list \<Rightarrow> bool" where
  "dfs_inv deps color path st \<longleftrightarrow>
     path = rev (map fst st) \<and> distinct (map fst st)
     \<and> (\<forall>n. dget color n = Some Gray \<longleftrightarrow> n \<in> set path)
     \<and> frames_ok deps color None st
     \<and> (\<forall>n d. (n, d) \<in> black_edges deps color \<longrightarrow> dget color d = Some Black)
     \<and> acyclic (black_edges deps color)
     \<and> set (dkeys color) = set (dkeys deps)"

lemma frames_ok_mono:
  assumes "frames_ok deps color up st"
    and "\<And>n. dget color n = Some Black \<Longrightarrow> dget color' n = Some Black"
  shows "frames_ok deps color' up st"
  using assms by (induction deps color up st rule: frames_ok.induct) auto

lemma frames_ok_chain:
  "frames_ok deps color up st \<Longrightarrow>
     successively (\<lambda>a b. (b, a) \<in> dep_edges deps) ((case up of None \<Rightarrow> [] | Some u \<Rightarrow> [u]) @ map fst st)"
proof (induction deps color up st rule: frames_ok.induct)
  case (1 deps color up)
  then show ?case by (auto split: option.splits)
next
  case (2 deps color up n p st)
  then have "successively (\<lambda>a b. (b, a) \<in> dep_edges deps) (n # map fst st)" by auto
  with 2 show ?case by (auto simp: dep_edges_def split: option.splits)
qed

text \<open>Blackening a node whose dependencies are all black keeps the black part acyclic.\<close>

lemma acyclic_blacken:
  assumes "acyclic r" and "n \<notin> Domain r" and "n \<notin> D" and "Range r \<subseteq> B" and "n \<notin> B"
  shows "acyclic (r \<union> {n} \<times> D)"
proof (rule acyclicI, rule allI, rule notI)
  fix x assume "(x, x) \<in> (r \<union> {n} \<times> D)\<^sup>+"
  have noin: "(a, n) \<notin> r \<union> {n} \<times> D" for a using assms by auto
  have only: "(x, y) \<in> (r \<union> {n} \<times> D)\<^sup>+ \<Longrightarrow> x = n \<or> (x, y) \<in> r\<^sup>+" for x y
  proof (induction rule: trancl_induct)
    case (base y)
    then show ?case by auto
  next
    case (step y z)
    then show ?case
    proof (cases "x = n")
      case False
      with step have xy: "(x, y) \<in> r\<^sup>+" by auto
      then have "y \<in> Range r" by (metis Range.simps tranclE)
      with assms have "y \<noteq> n" by auto
      with step.hyps(2) have "(y, z) \<in> r" by auto
      with xy show ?thesis by (blast intro: trancl_into_trancl)
    qed auto
  qed
  have "x \<noteq> n" using \<open>(x, x) \<in> (r \<union> {n} \<times> D)\<^sup>+\<close> noin by (metis tranclE)
  with only \<open>(x, x) \<in> (r \<union> {n} \<times> D)\<^sup>+\<close> have "(x, x) \<in> r\<^sup>+" by blast
  with assms(1) show False by (auto simp: acyclic_def)
qed

lemma dfs_inv_pop:
  assumes inv: "dfs_inv deps color path ((n, []) # st)"
  shows "dfs_inv deps (dset n Black color) (butlast path) st"
proof -
  let ?c = "dset n Black color"
  from inv have path: "path = rev (map fst st) @ [n]" and dist: "distinct (n # map fst st)"
    and gray: "\<And>m. dget color m = Some Gray \<longleftrightarrow> m \<in> set path"
    and fr: "frames_ok deps color None ((n, []) # st)"
    and cl: "\<And>m d. (m, d) \<in> black_edges deps color \<Longrightarrow> dget color d = Some Black"
    and ac: "acyclic (black_edges deps color)" and keys: "set (dkeys color) = set (dkeys deps)"
    unfolding dfs_inv_def by simp_all
  have ng: "dget color n = Some Gray" using gray path by simp
  have bl: "\<And>d. d \<in> set (adj deps n) \<Longrightarrow> dget color d = Some Black" using fr by auto
  have edges: "black_edges deps ?c = black_edges deps color \<union> {n} \<times> set (adj deps n)"
    using ng by (auto simp: black_edges_def dep_edges_def split: if_splits)
  have "acyclic (black_edges deps ?c)"
    unfolding edges
  proof (rule acyclic_blacken [where B = "{d. dget color d = Some Black}", OF ac])
    show "n \<notin> Domain (black_edges deps color)" using ng by (simp add: black_edges_def Domain_iff)
    show "n \<notin> set (adj deps n)" using ng bl by force
    show "Range (black_edges deps color) \<subseteq> {d. dget color d = Some Black}" using cl by blast
    show "n \<notin> {d. dget color d = Some Black}" using ng by simp
  qed
  moreover have "\<forall>m d. (m, d) \<in> black_edges deps ?c \<longrightarrow> dget ?c d = Some Black"
    using edges cl bl by auto
  moreover have "frames_ok deps ?c None st"
  proof (cases st)
    case (Cons f rest)
    then obtain m p where f: "st = (m, p) # rest" by (cases f) auto
    from fr f have "frames_ok deps color (Some n) ((m, p) # rest)" by simp
    then have "frames_ok deps ?c (Some n) ((m, p) # rest)" by (rule frames_ok_mono) auto
    then show ?thesis using f by (force split: if_splits)
  qed simp
  moreover have "\<forall>m. dget ?c m = Some Gray \<longleftrightarrow> m \<in> set (butlast path)"
    using gray dist path by auto
  ultimately show ?thesis
    using path dist keys dget_in_keys [OF ng] unfolding dfs_inv_def
    by (simp add: butlast_append insert_absorb)
qed

lemma dfs_inv_push:
  assumes inv: "dfs_inv deps color path ((n, nxt # p) # st)"
    and w: "dget color nxt = Some White" and ds: "dget deps nxt = Some ds"
  shows "dfs_inv deps (dset nxt Gray color) (path @ [nxt]) ((nxt, ds) # (n, p) # st)"
proof -
  let ?c = "dset nxt Gray color"
  from inv have fr: "frames_ok deps color None ((n, nxt # p) # st)" by (simp add: dfs_inv_def)
  have edges: "black_edges deps ?c = black_edges deps color"
    using w by (auto simp: black_edges_def split: if_splits)
  have blk: "dget ?c m = Some Black \<longleftrightarrow> dget color m = Some Black" for m using w by auto
  have "frames_ok deps ?c None ((n, nxt # p) # st)" using fr by (rule frames_ok_mono) (use w in auto)
  then have "frames_ok deps ?c None ((nxt, ds) # (n, p) # st)"
    using ds dget_in_keys [OF ds] by (auto split: if_splits)
  moreover have nn: "nxt \<notin> set path" using inv w by (metis colour.distinct(1) dfs_inv_def option.inject)
  moreover have "\<forall>m. dget ?c m = Some Gray \<longleftrightarrow> m \<in> set (path @ [nxt])"
    using inv unfolding dfs_inv_def by simp
  moreover have "nxt \<in> set (dkeys color)" using dget_in_keys [OF w] .
  ultimately show ?thesis
    using inv unfolding dfs_inv_def edges blk by (simp add: insert_absorb)
qed

lemma dfs_inv_skip:
  assumes "dfs_inv deps color path ((n, nxt # p) # st)" and "dget color nxt = Some Black"
  shows "dfs_inv deps color path ((n, p) # st)"
proof -
  from assms(1) have fr: "frames_ok deps color None ((n, nxt # p) # st)" by (simp add: dfs_inv_def)
  then have "frames_ok deps color None ((n, p) # st)" using assms(2) by auto
  with assms(1) show ?thesis by (simp add: dfs_inv_def)
qed

lemma dfs_inv_report:
  assumes inv: "dfs_inv deps color path ((n, nxt # p) # st)" and i: "py_index path nxt = Some i"
  shows "dep_cycle deps (rev (drop i path @ [nxt]))"
proof -
  let ?R = "\<lambda>a b. (b, a) \<in> dep_edges deps"
  let ?ns = "map fst ((n, nxt # p) # st)"
  from inv have path: "path = rev ?ns" by (simp add: dfs_inv_def)
  from inv have fr: "frames_ok deps color None ((n, nxt # p) # st)" by (simp add: dfs_inv_def)
  have il: "i < length path" "path ! i = nxt" using py_index_Some [OF i] by auto
  have c: "rev (drop i path @ [nxt]) = nxt # take (length path - i) ?ns"
    by (simp only: path rev_append rev_drop rev_rev_ident) simp
  have "successively ?R ?ns" using frames_ok_chain [OF fr] by simp
  moreover have "(n, nxt) \<in> dep_edges deps" using fr by (auto simp: dep_edges_def)
  ultimately have "successively ?R (nxt # ?ns)" by simp
  then have "successively ?R (take (Suc (length path - i)) (nxt # ?ns))"
    by (metis append_take_drop_id successively_append_iff)
  moreover have "last (nxt # take (length path - i) ?ns) = nxt"
  proof -
    have "last (rev (drop i path @ [nxt])) = hd (drop i path @ [nxt])" by (simp only: last_rev)
    also have "\<dots> = nxt" using il by (simp add: hd_drop_conv_nth)
    finally show ?thesis by (simp only: c)
  qed
  ultimately show ?thesis unfolding dep_cycle_def c using il by (auto simp: Suc_diff_le)
qed

section \<open>The search\<close>

lemma cycle_loop_correct:
  assumes "deps_closed deps" and "dfs_inv deps color path st"
  shows "case cycle_loop deps color path st of
           Inl e \<Rightarrow> False
         | Inr (Inl color') \<Rightarrow> dfs_inv deps color' [] []
             \<and> (\<forall>n. n \<in> set path \<or> dget color n = Some Black \<longrightarrow> dget color' n = Some Black)
         | Inr (Inr c) \<Rightarrow> dep_cycle deps c"
  using assms
proof (induction deps color path st rule: cycle_loop.induct)
  case (1 deps color path)
  then show ?case by (simp add: dfs_inv_def)
next
  case (2 deps color path n st)
  have "dfs_inv deps (dset n Black color) (butlast path) st" by (rule dfs_inv_pop [OF 2(3)])
  moreover have "set path \<subseteq> insert n (set (butlast path))"
    using 2(3) by (auto simp: dfs_inv_def)
  ultimately show ?case
    using 2(1) [OF 2(2)] by (auto split: sum.splits)
next
  case (3 deps color path n nxt p st)
  have nk: "nxt \<in> set (dkeys deps)"
    using 3(3,4) by (auto simp: dfs_inv_def deps_closed_def dep_edges_def)
  obtain c where c: "dget color nxt = Some c"
    using nk 3(4) dget_Some_iff [of color nxt] by (auto simp: dfs_inv_def)
  show ?case
  proof (cases c)
    case White
    with c have w: "dget color nxt = Some White" by simp
    obtain ds where ds: "dget deps nxt = Some ds" using nk dget_Some_iff by metis
    have "dfs_inv deps (dset nxt Gray color) (path @ [nxt]) ((nxt, ds) # (n, p) # st)"
      by (rule dfs_inv_push [OF 3(4) w ds])
    from 3(1) [OF w refl ds 3(3) this] show ?thesis
      unfolding cycle_loop.simps w option.case colour.case ds
      by (simp split: sum.splits) (auto simp: w split: if_splits)
  next
    case Gray
    with c 3(4) have "nxt \<in> set path" by (simp add: dfs_inv_def)
    then obtain i where i: "py_index path nxt = Some i" by (metis not_None_eq py_index_None_iff)
    with c Gray dfs_inv_report [OF 3(4) i] show ?thesis by simp
  next
    case Black
    with c have b: "dget color nxt = Some Black" by simp
    from 3(2) [OF b refl 3(3) dfs_inv_skip [OF 3(4) b]] show ?thesis using b by simp
  qed
qed

lemma cycle_starts_correct:
  assumes "deps_closed deps" and "dfs_inv deps color [] []" and "set rest \<subseteq> set (dkeys deps)"
    and "\<forall>n \<in> set (dkeys deps) - set rest. dget color n = Some Black"
  shows "case cycle_starts deps color rest of
           Inl e \<Rightarrow> False
         | Inr None \<Rightarrow> acyclic (dep_edges deps)
         | Inr (Some c) \<Rightarrow> dep_cycle deps c"
  using assms
proof (induction rest arbitrary: color)
  case Nil
  have "dget color n = Some Black" if "(n, d) \<in> dep_edges deps" for n d
    using Nil.prems(4) dep_edges_keys [OF that] by auto
  then have "black_edges deps color = dep_edges deps" by (auto simp: black_edges_def)
  with Nil show ?case by (simp add: dfs_inv_def)
next
  case (Cons s rest)
  obtain c where c: "dget color s = Some c"
    using Cons.prems dget_Some_iff [of color s] by (auto simp: dfs_inv_def)
  show ?case
  proof (cases "c = White")
    case True
    with c have w: "dget color s = Some White" by simp
    obtain ds where ds: "dget deps s = Some ds"
      using Cons.prems(3) dget_Some_iff [of deps s] by auto
    have edges: "black_edges deps (dset s Gray color) = black_edges deps color"
      using w by (auto simp: black_edges_def split: if_splits)
    have "dfs_inv deps (dset s Gray color) [s] [(s, ds)]"
      using Cons.prems(2) w dget_in_keys [OF w] ds unfolding dfs_inv_def edges
      by (auto simp: black_edges_def)
    note loop = cycle_loop_correct [OF Cons.prems(1) this]
    show ?thesis
    proof (cases "cycle_loop deps (dset s Gray color) [s] [(s, ds)]")
      case (Inl e)
      with loop show ?thesis by simp
    next
      case (Inr r)
      show ?thesis
      proof (cases r)
        case (Inl color')
        with Inr loop have inv: "dfs_inv deps color' [] []"
          and bl: "\<And>n. n = s \<or> dget color n = Some Black \<Longrightarrow> dget color' n = Some Black"
          using w by (auto split: if_splits)
        have "case cycle_starts deps color' rest of Inl e \<Rightarrow> False
          | Inr None \<Rightarrow> acyclic (dep_edges deps) | Inr (Some c) \<Rightarrow> dep_cycle deps c"
          by (rule Cons.IH [OF Cons.prems(1) inv]) (use Cons.prems(3,4) bl in auto)
        then show ?thesis using w ds Inr Inl by simp
      next
        case (Inr cyc)
        with \<open>cycle_loop deps _ _ _ = Inr r\<close> loop w ds show ?thesis by simp
      qed
    qed
  next
    case False
    have "c \<noteq> Gray" using c Cons.prems(2) by (auto simp: dfs_inv_def)
    with False c have b: "dget color s = Some Black" by (cases c) auto
    have "case cycle_starts deps color rest of Inl e \<Rightarrow> False
          | Inr None \<Rightarrow> acyclic (dep_edges deps) | Inr (Some c) \<Rightarrow> dep_cycle deps c"
      by (rule Cons.IH [OF Cons.prems(1,2)]) (use Cons.prems(3,4) b in auto)
    with b show ?thesis by simp
  qed
qed

lemma dget_const [simp]: "dget (map (\<lambda>n. (n, c)) order) n = (if n \<in> set order then Some c else None)"
  by (induction order) auto

lemma find_cycle_correct:
  assumes "deps_closed deps" and "set order = set (dkeys deps)"
  shows "case find_cycle order deps of
           Inl e \<Rightarrow> False
         | Inr None \<Rightarrow> acyclic (dep_edges deps)
         | Inr (Some c) \<Rightarrow> dep_cycle deps c"
proof -
  let ?c = "map (\<lambda>n. (n, White)) order"
  have "black_edges deps ?c = {}" by (auto simp: black_edges_def split: if_splits)
  then have "dfs_inv deps ?c [] []"
    using assms(2) by (simp add: dfs_inv_def acyclic_def comp_def)
  from cycle_starts_correct [OF assms(1) this, of order] assms(2)
  show ?thesis by (simp add: find_cycle_def)
qed

end
