(* ===== verification/GraphLevels.thy ===== *)
theory GraphLevels
  imports GraphCycles
begin

text \<open>
  Kahn's algorithm in \<^verbatim>\<open>PlanGraph._compute_levels\<close> against its reference: each level is the
  plan-ordered batch of the nodes that are not done and whose dependencies are all done. The
  interface every scheduler of a dependency graph relies on is the locale \<open>schedulable\<close>: as
  long as something is left, something can start.
\<close>

section \<open>Progress in a dependency graph\<close>

locale schedulable =
  fixes valid :: "'g \<Rightarrow> bool" and ids :: "'g \<Rightarrow> 'a list" and preds :: "'g \<Rightarrow> 'a \<Rightarrow> 'a list"
  assumes preds_closed: "valid g \<Longrightarrow> n \<in> set (ids g) \<Longrightarrow> set (preds g n) \<subseteq> set (ids g)"
    and preds_acyclic: "valid g \<Longrightarrow> acyclic {(n, d). n \<in> set (ids g) \<and> d \<in> set (preds g n)}"
begin

lemma wf_preds:
  assumes "valid g"
  shows "wf {(d, n). n \<in> set (ids g) \<and> d \<in> set (preds g n)}"
proof (rule finite_acyclic_wf)
  let ?r = "{(n, d). n \<in> set (ids g) \<and> d \<in> set (preds g n)}"
  have conv: "{(d, n). n \<in> set (ids g) \<and> d \<in> set (preds g n)} = ?r\<inverse>" by auto
  have "?r \<subseteq> set (ids g) \<times> set (ids g)" using preds_closed [OF assms] by auto
  then have "finite ?r" by (rule finite_subset) simp
  then show "finite {(d, n). n \<in> set (ids g) \<and> d \<in> set (preds g n)}" by (simp only: conv finite_converse)
  show "acyclic {(d, n). n \<in> set (ids g) \<and> d \<in> set (preds g n)}"
    using preds_acyclic [OF assms] by (simp only: conv acyclic_converse)
qed

lemma progress:
  assumes "valid g" and "n \<in> set (ids g)" and "n \<notin> C"
  obtains m where "m \<in> set (ids g)" and "m \<notin> C" and "set (preds g m) \<subseteq> C"
proof -
  from assms(2,3) have n: "n \<in> {m \<in> set (ids g). m \<notin> C}" by simp
  show thesis
  proof (rule wfE_min [OF wf_preds [OF assms(1)] n])
    fix m
    assume in_rest: "m \<in> {m \<in> set (ids g). m \<notin> C}"
      and min: "\<And>d. (d, m) \<in> {(d, n). n \<in> set (ids g) \<and> d \<in> set (preds g n)} \<Longrightarrow>
        d \<notin> {m \<in> set (ids g). m \<notin> C}"
    from in_rest have m: "m \<in> set (ids g)" "m \<notin> C" by simp_all
    have "set (preds g m) \<subseteq> C" using min m preds_closed [OF assms(1) m(1)] by auto
    with m show thesis by (rule that)
  qed
qed

text \<open>A run that can start nothing more has finished everything.\<close>

lemma stuck_is_done:
  assumes "valid g" and "\<And>m. m \<in> set (ids g) \<Longrightarrow> set (preds g m) \<subseteq> C \<Longrightarrow> m \<in> C"
  shows "set (ids g) \<subseteq> C"
  using progress [OF assms(1)] assms(2) by blast

end

text \<open>The adjacency tables of a graph without cycles are schedulable.\<close>

definition dag_tables :: "string list \<times> (string, string list) dict \<Rightarrow> bool" where
  "dag_tables t \<longleftrightarrow> distinct (fst t) \<and> set (fst t) = set (dkeys (snd t)) \<and> deps_closed (snd t)
     \<and> acyclic (dep_edges (snd t))"

interpretation tables: schedulable dag_tables fst "\<lambda>t. adj (snd t)"
proof unfold_locales
  fix t :: "string list \<times> (string, string list) dict" and n
  assume "dag_tables t" and "n \<in> set (fst t)"
  then show "set (adj (snd t) n) \<subseteq> set (fst t)"
    by (auto simp: dag_tables_def deps_closed_def dep_edges_def)
next
  fix t :: "string list \<times> (string, string list) dict"
  assume "dag_tables t"
  then have "acyclic (dep_edges (snd t))" by (simp add: dag_tables_def)
  then show "acyclic {(n, d). n \<in> set (fst t) \<and> d \<in> set (adj (snd t) n)}"
    by (rule acyclic_subset) (auto simp: dep_edges_def)
qed

section \<open>The reference batches\<close>

function levels_spec :: "string list \<Rightarrow> (string, string list) dict \<Rightarrow> string list \<Rightarrow> string list list"
where
  "levels_spec order deps finished =
     (let l = filter (\<lambda>n. n \<notin> set finished \<and> set (adj deps n) \<subseteq> set finished) order
      in if l = [] then [] else l # levels_spec order deps (finished @ l))"
  by pat_completeness auto
termination
proof (relation "measure (\<lambda>(order, deps, finished). length (filter (\<lambda>n. n \<notin> set finished) order))",
    goal_cases)
  case 1
  show ?case by simp
next
  case (2 order deps finished l)
  then obtain x where x: "x \<in> set l" by (meson hd_in_set)
  then have xo: "x \<in> set (filter (\<lambda>n. n \<notin> set finished) order)" using 2 by auto
  have "filter (\<lambda>n. n \<notin> set (finished @ l)) order
      = filter (\<lambda>n. n \<notin> set l) (filter (\<lambda>n. n \<notin> set finished) order)"
    by (simp add: conj_commute)
  with length_filter_less [OF xo, of "\<lambda>n. n \<notin> set l"] x show ?case by simp
qed

declare levels_spec.simps [simp del]

lemma levels_spec_Nil:
  "filter (\<lambda>n. n \<notin> set finished \<and> set (adj deps n) \<subseteq> set finished) order = [] \<Longrightarrow>
     levels_spec order deps finished = []"
  by (subst levels_spec.simps) simp

lemma levels_spec_Cons:
  "filter (\<lambda>n. n \<notin> set finished \<and> set (adj deps n) \<subseteq> set finished) order = l \<Longrightarrow> l \<noteq> [] \<Longrightarrow>
     levels_spec order deps finished = l # levels_spec order deps (finished @ l)"
  by (subst levels_spec.simps) (simp add: Let_def)

text \<open>In an acyclic graph the batches contain every node exactly once.\<close>

lemma levels_spec_set:
  assumes "dag_tables (order, deps)" and "set finished \<subseteq> set order"
  shows "set finished \<union> set (concat (levels_spec order deps finished)) = set order"
  using assms
proof (induction order deps finished rule: levels_spec.induct)
  case (1 order deps finished)
  let ?l = "filter (\<lambda>n. n \<notin> set finished \<and> set (adj deps n) \<subseteq> set finished) order"
  show ?case
  proof (cases "?l = []")
    case True
    then have "\<And>m. m \<in> set order \<Longrightarrow> set (adj deps m) \<subseteq> set finished \<Longrightarrow> m \<in> set finished"
      by (auto simp: filter_empty_conv)
    with tables.stuck_is_done [OF 1(2), of "set finished"] 1(3) have "set finished = set order"
      by auto
    with levels_spec_Nil [OF True] show ?thesis by simp
  next
    case False
    have "set (finished @ ?l) \<union> set (concat (levels_spec order deps (finished @ ?l))) = set order"
      by (rule 1(1) [OF refl False 1(2)]) (use 1(3) in auto)
    then show ?thesis by (simp only: levels_spec_Cons [OF refl False]) auto
  qed
qed

lemma levels_spec_distinct:
  assumes "distinct order"
  shows "distinct (concat (levels_spec order deps finished))
     \<and> set finished \<inter> set (concat (levels_spec order deps finished)) = {}"
  using assms
proof (induction order deps finished rule: levels_spec.induct)
  case (1 order deps finished)
  let ?l = "filter (\<lambda>n. n \<notin> set finished \<and> set (adj deps n) \<subseteq> set finished) order"
  show ?case
  proof (cases "?l = []")
    case True
    then show ?thesis by (simp add: levels_spec_Nil)
  next
    case False
    have "distinct (concat (levels_spec order deps (finished @ ?l)))
      \<and> set (finished @ ?l) \<inter> set (concat (levels_spec order deps (finished @ ?l))) = {}"
      by (rule 1(1) [OF refl False 1(2)])
    moreover have "set finished \<inter> set ?l = {}" "distinct ?l" using 1(2) by auto
    ultimately show ?thesis
      by (simp only: levels_spec_Cons [OF refl False] concat.simps distinct_append set_append) blast
  qed
qed

text \<open>Every dependency of a node of a batch is done before that batch.\<close>

lemma levels_spec_deps:
  assumes "ls = levels_spec order deps finished" and "i < length ls" and "n \<in> set (ls ! i)"
  shows "set (adj deps n) \<subseteq> set finished \<union> set (concat (take i ls))"
  using assms
proof (induction order deps finished arbitrary: i ls rule: levels_spec.induct)
  case (1 order deps finished)
  let ?l = "filter (\<lambda>n. n \<notin> set finished \<and> set (adj deps n) \<subseteq> set finished) order"
  have ne: "?l \<noteq> []" using 1(2,3) levels_spec_Nil by fastforce
  have ls: "ls = ?l # levels_spec order deps (finished @ ?l)"
    using 1(2) levels_spec_Cons [OF refl ne] by simp
  show ?case
  proof (cases i)
    case 0
    with ls 1(4) show ?thesis by auto
  next
    case (Suc j)
    have "set (adj deps n) \<subseteq> set (finished @ ?l)
        \<union> set (concat (take j (levels_spec order deps (finished @ ?l))))"
      by (rule 1(1) [OF refl ne refl]) (use Suc ls 1(3,4) in auto)
    then show ?thesis by (auto simp: ls Suc)
  qed
qed

section \<open>One round of Kahn's algorithm\<close>

text \<open>The two tables describe the same edges.\<close>

definition transposed ::
  "string list \<Rightarrow> (string, string list) dict \<Rightarrow> (string, string list) dict \<Rightarrow> bool" where
  "transposed order deps dependents \<longleftrightarrow>
     set (dkeys deps) = set order \<and> set (dkeys dependents) = set order
     \<and> (\<forall>n \<in> set order. distinct (adj deps n) \<and> distinct (adj dependents n))
     \<and> (\<forall>n \<in> set order. set (adj dependents n) = {c \<in> set order. n \<in> set (adj deps c)})"

lemma release_all:
  assumes "set cs \<subseteq> set (dkeys remaining)"
    and "\<And>c r. dget remaining c = Some r \<Longrightarrow> int (count_list cs c) \<le> r"
    and "distinct nxt" and "set nxt \<inter> set cs = {}"
  shows "\<exists>remaining' nxt'. efold release cs (remaining, nxt) = Inr (remaining', nxt')
     \<and> set (dkeys remaining') = set (dkeys remaining)
     \<and> (\<forall>c. dget remaining' c = map_option (\<lambda>r. r - int (count_list cs c)) (dget remaining c))
     \<and> distinct nxt'
     \<and> set nxt' = set nxt \<union> {c \<in> set cs. dget remaining c = Some (int (count_list cs c))}"
  using assms
proof (induction cs arbitrary: remaining nxt)
  case Nil
  then show ?case by (auto simp: option.map_ident)
next
  case (Cons x xs)
  obtain r where r: "dget remaining x = Some r"
    using Cons.prems(1) dget_Some_iff [of remaining x] by auto
  let ?rem = "dset x (r - 1) remaining"
  let ?nxt = "if r - 1 = 0 then nxt @ [x] else nxt"
  have step: "release x (remaining, nxt) = Inr (?rem, ?nxt)" using r by (simp add: release_def)
  have once: "r = 1 \<Longrightarrow> x \<notin> set xs"
    using Cons.prems(2) [OF r] by (auto simp: count_list_0_iff)
  have "\<exists>remaining' nxt'. efold release xs (?rem, ?nxt) = Inr (remaining', nxt')
     \<and> set (dkeys remaining') = set (dkeys ?rem)
     \<and> (\<forall>c. dget remaining' c = map_option (\<lambda>r. r - int (count_list xs c)) (dget ?rem c))
     \<and> distinct nxt'
     \<and> set nxt' = set ?nxt \<union> {c \<in> set xs. dget ?rem c = Some (int (count_list xs c))}"
  proof (rule Cons.IH)
    show "set xs \<subseteq> set (dkeys ?rem)" using Cons.prems(1) by auto
    show "int (count_list xs c) \<le> v" if "dget ?rem c = Some v" for c v
    proof (cases "c = x")
      case True
      with that Cons.prems(2) [OF r] show ?thesis by simp
    next
      case False
      with that Cons.prems(2) [of c v] show ?thesis by simp
    qed
    show "distinct ?nxt" "set ?nxt \<inter> set xs = {}" using Cons.prems(3,4) once by auto
  qed
  then obtain remaining' nxt' where IH: "efold release xs (?rem, ?nxt) = Inr (remaining', nxt')"
    "set (dkeys remaining') = set (dkeys ?rem)"
    "\<And>c. dget remaining' c = map_option (\<lambda>r. r - int (count_list xs c)) (dget ?rem c)"
    "distinct nxt'"
    "set nxt' = set ?nxt \<union> {c \<in> set xs. dget ?rem c = Some (int (count_list xs c))}"
    by blast
  have mem: "c \<in> set nxt' \<longleftrightarrow>
      c \<in> set nxt \<or> (c \<in> set (x # xs) \<and> dget remaining c = Some (int (count_list (x # xs) c)))" for c
  proof (cases "c = x")
    case True
    have "x \<notin> set xs \<Longrightarrow> count_list xs x = 0" by (simp add: count_list_0_iff)
    then show ?thesis unfolding IH(5) using True r once Cons.prems(4) by auto
  next
    case False
    then show ?thesis unfolding IH(5) by auto
  qed
  then have "set nxt' = set nxt \<union> {c \<in> set (x # xs). dget remaining c = Some (int (count_list (x # xs) c))}"
    by blast
  moreover have "dget remaining' c = map_option (\<lambda>r. r - int (count_list (x # xs) c)) (dget remaining c)"
    for c using IH(3) [of c] r by auto
  moreover have "set (dkeys remaining') = set (dkeys remaining)"
    using IH(2) dget_in_keys [OF r] by (simp add: insert_absorb)
  ultimately show ?case using IH(1,4) step by auto
qed

lemma release_frontier_flat:
  assumes "set F \<subseteq> set (dkeys dependents)"
  shows "efold (release_node dependents) F s = efold release (concat (map (adj dependents) F)) s"
  using assms
proof (induction F arbitrary: s)
  case Nil
  then show ?case by simp
next
  case (Cons f F)
  obtain cs where "dget dependents f = Some cs"
    using Cons.prems dget_Some_iff [of dependents f] by auto
  then have "release_node dependents f s = efold release (adj dependents f) s" for s
    by (simp add: release_node_def)
  with Cons show ?case by (simp add: efold_append split: sum.splits)
qed

lemma count_dependents:
  assumes "transposed order deps dependents" and "distinct F" and "set F \<subseteq> set order"
    and "c \<in> set order"
  shows "count_list (concat (map (adj dependents) F)) c = card (set (adj deps c) \<inter> set F)"
  using assms(2,3)
proof (induction F)
  case Nil
  then show ?case by simp
next
  case (Cons f F)
  have "count_list (adj dependents f) c = (if f \<in> set (adj deps c) then 1 else 0)"
    using assms(1,4) Cons.prems(2)
    by (auto simp: transposed_def count_list_0_iff count_list_distinct)
  moreover have "set (adj deps c) \<inter> set (f # F)
      = (if f \<in> set (adj deps c) then insert f (set (adj deps c) \<inter> set F) else set (adj deps c) \<inter> set F)"
    by auto
  ultimately show ?case using Cons by auto
qed

text \<open>Sorting by plan position restores the plan order of a set of nodes.\<close>

lemma map_position: "distinct order \<Longrightarrow> map (position order) order = [0..<length order]"
  by (rule nth_equalityI) (auto simp: position_def py_index_nth)

lemma position_inj: "inj_on (position order) (set order)"
proof (rule inj_onI)
  fix x y assume x: "x \<in> set order" and y: "y \<in> set order" and eq: "position order x = position order y"
  obtain i j where ij: "py_index order x = Some i" "py_index order y = Some j"
    using x y py_index_None_iff by (metis not_None_eq)
  with eq have "i = j" by (simp add: position_def)
  with py_index_Some [OF ij(1)] py_index_Some [OF ij(2)] show "x = y" by simp
qed

lemma sort_position:
  assumes "distinct order" and "distinct xs" and "set xs = {n \<in> set order. P n}"
  shows "sort_key (position order) xs = filter P order"
proof (rule map_sorted_distinct_set_unique [where f = "position order"])
  have sub: "set (sort_key (position order) xs) \<union> set (filter P order) \<subseteq> set order"
    using assms(3) by auto
  show inj: "inj_on (position order) (set (sort_key (position order) xs) \<union> set (filter P order))"
    by (rule inj_on_subset [OF position_inj sub])
  show "sorted (map (position order) (sort_key (position order) xs))" by simp
  show "distinct (map (position order) (sort_key (position order) xs))"
    using assms(2) inj by (simp add: distinct_map inj_on_Un)
  have "sorted (map (position order) order)" using map_position [OF assms(1)] by simp
  then show "sorted (map (position order) (filter P order))" by (rule sorted_filter)
  show "distinct (map (position order) (filter P order))"
    using assms(1) inj by (simp add: distinct_map inj_on_Un)
  show "set (sort_key (position order) xs) = set (filter P order)" using assms(3) by simp
qed

section \<open>Kahn's algorithm computes the reference batches\<close>

definition kahn_inv ::
  "string list \<Rightarrow> (string, string list) dict \<Rightarrow> (string, int) dict \<Rightarrow> string list \<Rightarrow> string list \<Rightarrow> bool"
where
  "kahn_inv order deps remaining frontier finished \<longleftrightarrow>
     set (dkeys remaining) = set order
     \<and> (\<forall>n \<in> set order. dget remaining n = Some (int (card (set (adj deps n) - set finished))))
     \<and> frontier = filter (\<lambda>n. n \<notin> set finished \<and> set (adj deps n) \<subseteq> set finished) order
     \<and> (\<forall>n \<in> set order \<inter> set finished. set (adj deps n) \<subseteq> set finished)"

lemma kahn_round:
  assumes tr: "transposed order deps dependents" and dist: "distinct order"
    and inv: "kahn_inv order deps remaining frontier finished"
  shows "\<exists>remaining' nxt. efold (release_node dependents) frontier (remaining, []) = Inr (remaining', nxt)
     \<and> kahn_inv order deps remaining' (sort_key (position order) nxt) (finished @ frontier)"
proof -
  let ?cs = "concat (map (adj dependents) frontier)"
  from inv have keys: "set (dkeys remaining) = set order"
    and rem: "\<And>n. n \<in> set order \<Longrightarrow> dget remaining n = Some (int (card (set (adj deps n) - set finished)))"
    and F: "frontier = filter (\<lambda>n. n \<notin> set finished \<and> set (adj deps n) \<subseteq> set finished) order"
    and closed: "\<And>n. n \<in> set order \<Longrightarrow> n \<in> set finished \<Longrightarrow> set (adj deps n) \<subseteq> set finished"
    by (simp_all add: kahn_inv_def)
  have Fo: "set frontier \<subseteq> set order" "distinct frontier" "set frontier \<inter> set finished = {}"
    using F dist by auto
  have cs: "set ?cs \<subseteq> set order" using tr Fo(1) by (auto simp: transposed_def)
  have count: "count_list ?cs c = card (set (adj deps c) \<inter> set frontier)" if "c \<in> set order" for c
    by (rule count_dependents [OF tr Fo(2,1) that])
  have split: "card (set (adj deps c) - set finished)
      = card (set (adj deps c) \<inter> set frontier) + card (set (adj deps c) - set (finished @ frontier))" for c
  proof -
    have "set (adj deps c) - set finished
        = (set (adj deps c) \<inter> set frontier) \<union> (set (adj deps c) - set (finished @ frontier))"
      using Fo(3) by auto
    then show ?thesis by (simp add: card_Un_disjoint Int_Diff_disjoint disjoint_iff)
  qed
  obtain remaining' nxt where R: "efold release ?cs (remaining, []) = Inr (remaining', nxt)"
    "set (dkeys remaining') = set (dkeys remaining)"
    "\<And>c. dget remaining' c = map_option (\<lambda>r. r - int (count_list ?cs c)) (dget remaining c)"
    "distinct nxt"
    "set nxt = {c \<in> set ?cs. dget remaining c = Some (int (count_list ?cs c))}"
  proof -
    have "int (count_list ?cs c) \<le> r" if "dget remaining c = Some r" for c r
      using that dget_in_keys [OF that] keys rem [of c] count [of c] split [of c] by auto
    with release_all [of ?cs remaining "[]"] cs keys show thesis by (auto intro: that)
  qed
  have edge: "c \<in> set (adj dependents f) \<longleftrightarrow> f \<in> set (adj deps c)"
    if "c \<in> set order" "f \<in> set frontier" for c f
    using tr Fo(1) that unfolding transposed_def by blast
  have in_cs: "c \<in> set ?cs \<longleftrightarrow> set (adj deps c) \<inter> set frontier \<noteq> {}" if "c \<in> set order" for c
    using edge [OF that] by auto
  have "set nxt = {c \<in> set order. c \<notin> set (finished @ frontier) \<and> set (adj deps c) \<subseteq> set (finished @ frontier)}"
  proof (rule set_eqI, rule iffI)
    fix c assume "c \<in> set nxt"
    with R(5) cs have c: "c \<in> set order" "c \<in> set ?cs"
      and eq: "dget remaining c = Some (int (count_list ?cs c))" by auto
    have "card (set (adj deps c) - set (finished @ frontier)) = 0"
      using eq rem [OF c(1)] count [OF c(1)] split [of c] by simp
    then have "set (adj deps c) \<subseteq> set (finished @ frontier)" by auto
    moreover have "c \<notin> set (finished @ frontier)"
      using in_cs [OF c(1)] c(2) closed [OF c(1)] Fo(3) F by auto
    ultimately show "c \<in> {c \<in> set order. c \<notin> set (finished @ frontier)
        \<and> set (adj deps c) \<subseteq> set (finished @ frontier)}" using c(1) by simp
  next
    fix c assume c: "c \<in> {c \<in> set order. c \<notin> set (finished @ frontier)
        \<and> set (adj deps c) \<subseteq> set (finished @ frontier)}"
    then have "c \<in> set order" "\<not> set (adj deps c) \<subseteq> set finished" using F by auto
    with c have "set (adj deps c) \<inter> set frontier \<noteq> {}" by auto
    moreover from c have "set (adj deps c) - set (finished @ frontier) = {}" by auto
    ultimately show "c \<in> set nxt"
      using R(5) in_cs rem count split [of c] \<open>c \<in> set order\<close> by auto
  qed
  from sort_position [OF dist R(4) this] have srt: "sort_key (position order) nxt
    = filter (\<lambda>n. n \<notin> set (finished @ frontier) \<and> set (adj deps n) \<subseteq> set (finished @ frontier)) order" .
  have rem': "dget remaining' n = Some (int (card (set (adj deps n) - set (finished @ frontier))))"
    if "n \<in> set order" for n
    using R(3) [of n] rem [OF that] count [OF that] split [of n] by simp
  have "set frontier \<subseteq> set (dkeys dependents)" using tr Fo(1) by (auto simp: transposed_def)
  with R(1) have "efold (release_node dependents) frontier (remaining, []) = Inr (remaining', nxt)"
    by (simp add: release_frontier_flat)
  moreover have "kahn_inv order deps remaining' (sort_key (position order) nxt) (finished @ frontier)"
    unfolding kahn_inv_def srt
  proof (intro conjI ballI)
    show "set (dkeys remaining') = set order" using R(2) keys by simp
    show "dget remaining' n = Some (int (card (set (adj deps n) - set (finished @ frontier))))"
      if "n \<in> set order" for n using rem' [OF that] .
    show "set (adj deps n) \<subseteq> set (finished @ frontier)"
      if "n \<in> set order \<inter> set (finished @ frontier)" for n
      using that closed [of n] F by auto
  qed (rule refl)
  ultimately show ?thesis by blast
qed

lemma levels_loop_spec:
  assumes "transposed order deps dependents" and "distinct order"
    and "kahn_inv order deps remaining frontier finished"
  shows "levels_loop order dependents remaining frontier = Inr (levels_spec order deps finished)"
  using assms
proof (induction order dependents remaining frontier arbitrary: finished rule: levels_loop.induct)
  case (1 order dependents remaining frontier)
  have F: "frontier = filter (\<lambda>n. n \<notin> set finished \<and> set (adj deps n) \<subseteq> set finished) order"
    using 1(4) by (simp add: kahn_inv_def)
  show ?case
  proof (cases "frontier = []")
    case True
    then have "levels_loop order dependents remaining frontier = Inr []"
      by (subst levels_loop.simps) simp
    with levels_spec_Nil [OF F [symmetric, unfolded True]] show ?thesis by simp
  next
    case False
    from kahn_round [OF 1(2,3,4)] obtain remaining' nxt where
      R: "efold (release_node dependents) frontier (remaining, []) = Inr (remaining', nxt)"
      and inv: "kahn_inv order deps remaining' (sort_key (position order) nxt) (finished @ frontier)"
      by blast
    from 1(1) [OF False R 1(2,3)] inv
    have "levels_loop order dependents remaining' (sort_key (position order) nxt)
        = Inr (levels_spec order deps (finished @ frontier))" by simp
    then have "levels_loop order dependents remaining frontier
        = Inr (frontier # levels_spec order deps (finished @ frontier))"
      by (subst levels_loop.simps) (simp add: False R)
    with levels_spec_Cons [OF F [symmetric] False] show ?thesis by simp
  qed
qed

lemma compute_levels_spec:
  assumes "transposed order deps dependents" and "distinct order"
  shows "compute_levels order deps dependents = Inr (levels_spec order deps [])"
proof -
  let ?rem = "map (\<lambda>n. (n, int (length (adj deps n)))) order"
  have get: "dget ?rem n = Some (int (length (adj deps n)))" if "n \<in> set order" for n
    using that by (induction order) auto
  have "kahn_inv order deps ?rem (filter (\<lambda>n. dget ?rem n = Some 0) order) []"
    unfolding kahn_inv_def
    using get assms(1) by (auto simp: transposed_def distinct_card comp_def intro!: filter_cong)
  from levels_loop_spec [OF assms this] show ?thesis by (simp add: compute_levels_def Let_def)
qed

end
