(* ===== verification/GraphBuild.thy ===== *)
theory GraphBuild
  imports GraphLevels
begin

text \<open>
  Correctness of the constructor \<^verbatim>\<open>PlanGraph.__init__\<close>: a plan becomes a graph exactly when its ids
  are distinct, every dependency names a node and the declared dependencies are acyclic; the
  graph it becomes is well formed (\<open>wf_graph\<close>); and construction never dies on a \<open>KeyError\<close>.
\<close>

section \<open>The tables a plan gives rise to\<close>

text \<open>\<open>tables_of ids D\<close>: the two adjacency tables after the nodes \<open>ids\<close> have been connected.\<close>

definition deps_table :: "(string \<Rightarrow> string list) \<Rightarrow> string list \<Rightarrow> (string, string list) dict" where
  "deps_table D ids = map (\<lambda>n. (n, uniq (D n))) ids"

definition dependents_table ::
  "(string \<Rightarrow> string list) \<Rightarrow> string list \<Rightarrow> string list \<Rightarrow> (string, string list) dict" where
  "dependents_table D order ids = map (\<lambda>d. (d, filter (\<lambda>n. d \<in> set (D n)) ids)) order"

lemma dget_map_table [simp]:
  "dget (map (\<lambda>x. (x, T x)) xs) k = (if k \<in> set xs then Some (T k) else None)"
  by (induction xs) auto

lemma dset_map_table:
  "distinct xs \<Longrightarrow> k \<in> set xs \<Longrightarrow>
     dset k v (map (\<lambda>x. (x, T x)) xs) = map (\<lambda>x. (x, (T(k := v)) x)) xs"
  by (induction xs) auto

lemma dset_new: "k \<notin> set (dkeys d) \<Longrightarrow> dset k v d = d @ [(k, v)]"
  by (induction d) auto

lemma index_nodes_eq:
  "(if distinct (dkeys acc @ map ns_id ns)
    then index_nodes ns acc = Inr (acc @ map (\<lambda>n. (ns_id n, n)) ns)
    else distinct (dkeys acc) \<longrightarrow> (\<exists>i. index_nodes ns acc = Inl (DuplicateId i)))"
proof (induction ns arbitrary: acc)
  case Nil
  then show ?case by simp
next
  case (Cons n ns)
  show ?case
  proof (cases "ns_id n \<in> set (dkeys acc)")
    case True
    then show ?thesis by auto
  next
    case False
    have "distinct (dkeys (acc @ [(ns_id n, n)]) @ map ns_id ns)
        = distinct (dkeys acc @ map ns_id (n # ns))" by auto
    with False Cons.IH [of "acc @ [(ns_id n, n)]"] show ?thesis
      by (simp add: dset_new split: if_splits)
  qed
qed

lemma index_nodes_ok:
  "distinct (map ns_id ns) \<Longrightarrow> index_nodes ns [] = Inr (map (\<lambda>n. (ns_id n, n)) ns)"
  using index_nodes_eq [of "[]" ns] by (simp split: if_splits)

lemma index_nodes_dup:
  "\<not> distinct (map ns_id ns) \<Longrightarrow> \<exists>i. index_nodes ns [] = Inl (DuplicateId i)"
  using index_nodes_eq [of "[]" ns] by (simp split: if_splits)

lemma scan_deps_eq:
  "(if set ds \<subseteq> set known then scan_deps known nid seen ds = Inr (uniq_from seen ds)
    else \<exists>d. scan_deps known nid seen ds = Inl (UnknownDependency nid d))"
  by (induction ds arbitrary: seen) auto

lemma add_dependents_eq:
  assumes "distinct seen" and "set seen \<subseteq> set order" and "distinct order"
  shows "efold (add_dependent nid) seen (map (\<lambda>d. (d, T d)) order)
       = Inr (map (\<lambda>d. (d, if d \<in> set seen then T d @ [nid] else T d)) order)"
  using assms
proof (induction seen arbitrary: T)
  case Nil
  then show ?case by simp
next
  case (Cons x xs)
  let ?T = "T(x := T x @ [nid])"
  have "add_dependent nid x (map (\<lambda>d. (d, T d)) order) = Inr (map (\<lambda>d. (d, ?T d)) order)"
    using Cons.prems by (simp add: add_dependent_def dset_map_table)
  moreover have "efold (add_dependent nid) xs (map (\<lambda>d. (d, ?T d)) order)
      = Inr (map (\<lambda>d. (d, if d \<in> set xs then ?T d @ [nid] else ?T d)) order)"
    using Cons.prems by (intro Cons.IH) auto
  moreover have "map (\<lambda>d. (d, if d \<in> set xs then ?T d @ [nid] else ?T d)) order
      = map (\<lambda>d. (d, if d \<in> set (x # xs) then T d @ [nid] else T d)) order"
    using Cons.prems(1) by (intro map_cong) auto
  ultimately show ?case by simp
qed

lemma connect_node_eq:
  assumes "dget nodes n = Some x" and "D n = ns_depends_on x" and "distinct (dkeys nodes)"
    and "n \<notin> set ids"
  shows "if set (D n) \<subseteq> set (dkeys nodes)
         then connect_node nodes n (deps_table D ids, dependents_table D (dkeys nodes) ids)
            = Inr (deps_table D (ids @ [n]), dependents_table D (dkeys nodes) (ids @ [n]))
         else \<exists>d. connect_node nodes n (deps_table D ids, dependents_table D (dkeys nodes) ids)
            = Inl (UnknownDependency n d)"
proof (cases "set (D n) \<subseteq> set (dkeys nodes)")
  case True
  then have scan: "scan_deps (dkeys nodes) n [] (ns_depends_on x) = Inr (uniq (D n))"
    using scan_deps_eq [of "ns_depends_on x" "dkeys nodes" n "[]"] assms(2) by (simp add: uniq_def)
  have "efold (add_dependent n) (uniq (D n)) (dependents_table D (dkeys nodes) ids)
      = Inr (map (\<lambda>d. (d, if d \<in> set (uniq (D n)) then filter (\<lambda>n. d \<in> set (D n)) ids @ [n]
                             else filter (\<lambda>n. d \<in> set (D n)) ids)) (dkeys nodes))"
    unfolding dependents_table_def using True assms(3) by (intro add_dependents_eq) auto
  also have "\<dots> = Inr (dependents_table D (dkeys nodes) (ids @ [n]))"
    by (auto simp: dependents_table_def)
  finally have deps: "efold (add_dependent n) (uniq (D n)) (dependents_table D (dkeys nodes) ids)
      = Inr (dependents_table D (dkeys nodes) (ids @ [n]))" .
  have "n \<notin> set (dkeys (deps_table D ids))" using assms(4) by (auto simp: deps_table_def)
  from dset_new [OF this] have "dset n (uniq (D n)) (deps_table D ids) = deps_table D (ids @ [n])"
    by (simp add: deps_table_def)
  with True assms(1) scan deps show ?thesis by (simp add: connect_node_def)
next
  case False
  then obtain d where "scan_deps (dkeys nodes) n [] (ns_depends_on x) = Inl (UnknownDependency n d)"
    using scan_deps_eq [of "ns_depends_on x" "dkeys nodes" n "[]"] assms(2) by auto
  with False assms(1) show ?thesis by (simp add: connect_node_def)
qed

lemma connect_all_eq:
  assumes "distinct (dkeys nodes)" and "dkeys nodes = ids @ todo"
    and "\<And>n x. dget nodes n = Some x \<Longrightarrow> D n = ns_depends_on x"
  shows "if \<forall>n \<in> set todo. set (D n) \<subseteq> set (dkeys nodes)
         then efold (connect_node nodes) todo (deps_table D ids, dependents_table D (dkeys nodes) ids)
            = Inr (deps_table D (ids @ todo), dependents_table D (dkeys nodes) (ids @ todo))
         else \<exists>n d. efold (connect_node nodes) todo (deps_table D ids, dependents_table D (dkeys nodes) ids)
            = Inl (UnknownDependency n d)"
  using assms(2)
proof (induction todo arbitrary: ids)
  case Nil
  then show ?case by simp
next
  case (Cons n todo)
  have n: "n \<in> set (dkeys nodes)" "n \<notin> set ids" using Cons.prems assms(1) by auto
  then obtain x where x: "dget nodes n = Some x" using dget_Some_iff [of nodes n] by auto
  note step = connect_node_eq [where D = D and ids = ids, OF x assms(3) [OF x] assms(1) n(2)]
  show ?case
  proof (cases "set (D n) \<subseteq> set (dkeys nodes)")
    case True
    with step have s: "connect_node nodes n (deps_table D ids, dependents_table D (dkeys nodes) ids)
        = Inr (deps_table D (ids @ [n]), dependents_table D (dkeys nodes) (ids @ [n]))" by simp
    show ?thesis
    proof (cases "\<forall>m \<in> set todo. set (D m) \<subseteq> set (dkeys nodes)")
      case all: True
      with Cons.IH [of "ids @ [n]"] Cons.prems s True show ?thesis by simp
    next
      case False
      have "dkeys nodes = (ids @ [n]) @ todo" using Cons.prems by simp
      from Cons.IH [OF this] obtain m d where
        "efold (connect_node nodes) todo (deps_table D (ids @ [n]), dependents_table D (dkeys nodes) (ids @ [n]))
          = Inl (UnknownDependency m d)"
        unfolding if_not_P [OF False] by blast
      then have e: "efold (connect_node nodes) (n # todo) (deps_table D ids, dependents_table D (dkeys nodes) ids)
          = Inl (UnknownDependency m d)" using s by simp
      from False have nf: "\<not> (\<forall>m \<in> set (n # todo). set (D m) \<subseteq> set (dkeys nodes))" by simp
      show ?thesis unfolding if_not_P [OF nf] using e by blast
    qed
  next
    case False
    with step obtain d where "connect_node nodes n (deps_table D ids, dependents_table D (dkeys nodes) ids)
        = Inl (UnknownDependency n d)" by auto
    with False show ?thesis by auto
  qed
qed

section \<open>What a valid plan is\<close>

definition plan_ids :: "plan \<Rightarrow> string list" where
  "plan_ids p = map ns_id (pl_nodes p)"

definition plan_dep_edges :: "plan \<Rightarrow> (string \<times> string) set" where
  "plan_dep_edges p = {(ns_id n, d) | n d. n \<in> set (pl_nodes p) \<and> d \<in> set (ns_depends_on n)}"

definition valid_plan :: "plan \<Rightarrow> bool" where
  "valid_plan p \<longleftrightarrow> distinct (plan_ids p)
     \<and> (\<forall>n \<in> set (pl_nodes p). set (ns_depends_on n) \<subseteq> set (plan_ids p))
     \<and> acyclic (plan_dep_edges p)"

definition wf_graph :: "plan_graph \<Rightarrow> bool" where
  "wf_graph g \<longleftrightarrow> valid_plan (pg_plan g)
     \<and> pg_nodes g = map (\<lambda>n. (ns_id n, n)) (pl_nodes (pg_plan g))
     \<and> pg_order g = plan_ids (pg_plan g)
     \<and> pg_deps g = map (\<lambda>n. (ns_id n, uniq (ns_depends_on n))) (pl_nodes (pg_plan g))
     \<and> transposed (pg_order g) (pg_deps g) (pg_dependents g)
     \<and> pg_level_ids g = levels_spec (pg_order g) (pg_deps g) []"

definition declared_deps :: "plan \<Rightarrow> string \<Rightarrow> string list" where
  "declared_deps p i = (case dget (map (\<lambda>n. (ns_id n, n)) (pl_nodes p)) i of
     None \<Rightarrow> [] | Some n \<Rightarrow> ns_depends_on n)"

lemma dget_nodes: "distinct (plan_ids p) \<Longrightarrow> n \<in> set (pl_nodes p) \<Longrightarrow>
    dget (map (\<lambda>n. (ns_id n, n)) (pl_nodes p)) (ns_id n) = Some n"
  by (rule map_of_is_SomeI) (auto simp: plan_ids_def comp_def)

lemma declared_deps_node: "distinct (plan_ids p) \<Longrightarrow> n \<in> set (pl_nodes p) \<Longrightarrow>
    declared_deps p (ns_id n) = ns_depends_on n"
  by (simp only: declared_deps_def dget_nodes option.case)

lemma deps_table_plan:
  "distinct (plan_ids p) \<Longrightarrow> deps_table (declared_deps p) (plan_ids p)
     = map (\<lambda>n. (ns_id n, uniq (ns_depends_on n))) (pl_nodes p)"
  by (simp add: deps_table_def plan_ids_def declared_deps_node [unfolded plan_ids_def] cong: map_cong)

lemma adj_deps_table [simp]:
  "adj (deps_table D ids) n = (if n \<in> set ids then uniq (D n) else [])"
  by (simp add: adj_def deps_table_def)

lemma dkeys_deps_table [simp]: "dkeys (deps_table D ids) = ids"
  by (simp add: deps_table_def comp_def)

lemma dep_edges_table:
  assumes "distinct (plan_ids p)"
  shows "dep_edges (deps_table (declared_deps p) (plan_ids p)) = plan_dep_edges p"
proof (rule set_eqI)
  fix e :: "string \<times> string"
  obtain i d where e: "e = (i, d)" by (cases e)
  show "e \<in> dep_edges (deps_table (declared_deps p) (plan_ids p)) \<longleftrightarrow> e \<in> plan_dep_edges p"
    using declared_deps_node [OF assms]
    by (auto simp: e dep_edges_def plan_dep_edges_def plan_ids_def split: if_splits)
qed

lemma transposed_table:
  assumes "distinct ids"
  shows "transposed ids (deps_table D ids) (dependents_table D ids ids)"
proof -
  have "adj (dependents_table D ids ids) n = (if n \<in> set ids then filter (\<lambda>c. n \<in> set (D c)) ids else [])"
    for n by (simp add: adj_def dependents_table_def)
  moreover have "dkeys (dependents_table D ids ids) = ids"
    by (simp add: dependents_table_def comp_def)
  ultimately show ?thesis using assms by (auto simp: transposed_def)
qed

section \<open>The constructor\<close>

lemma build_graph_cases:
  "(valid_plan p \<longrightarrow> (\<exists>g. build_graph p = Inr g \<and> wf_graph g \<and> pg_plan g = p))
   \<and> (\<not> distinct (plan_ids p) \<longrightarrow> (\<exists>i. build_graph p = Inl (DuplicateId i)))
   \<and> (distinct (plan_ids p) \<and> \<not> (\<forall>n \<in> set (pl_nodes p). set (ns_depends_on n) \<subseteq> set (plan_ids p))
        \<longrightarrow> (\<exists>n d. build_graph p = Inl (UnknownDependency n d)))
   \<and> (distinct (plan_ids p) \<and> (\<forall>n \<in> set (pl_nodes p). set (ns_depends_on n) \<subseteq> set (plan_ids p))
        \<and> \<not> acyclic (plan_dep_edges p)
        \<longrightarrow> (\<exists>c. build_graph p = Inl (CycleDetected c)
              \<and> dep_cycle (deps_table (declared_deps p) (plan_ids p)) c))"
proof (cases "distinct (plan_ids p)")
  case False
  then obtain i where "index_nodes (pl_nodes p) [] = Inl (DuplicateId i)"
    using index_nodes_dup [of "pl_nodes p"] by (auto simp: plan_ids_def)
  with False show ?thesis by (simp add: build_graph_def valid_plan_def)
next
  case True
  let ?D = "declared_deps p" and ?ids = "plan_ids p"
  let ?nodes = "map (\<lambda>n. (ns_id n, n)) (pl_nodes p)"
  let ?deps = "deps_table ?D ?ids"
  have idx: "index_nodes (pl_nodes p) [] = Inr ?nodes"
    using True by (simp add: index_nodes_ok plan_ids_def)
  have keys: "dkeys ?nodes = ?ids" by (simp add: plan_ids_def comp_def)
  have D: "\<And>n x. dget ?nodes n = Some x \<Longrightarrow> ?D n = ns_depends_on x" by (simp add: declared_deps_def)
  have known: "(\<forall>n \<in> set ?ids. set (?D n) \<subseteq> set ?ids)
      \<longleftrightarrow> (\<forall>n \<in> set (pl_nodes p). set (ns_depends_on n) \<subseteq> set ?ids)"
    using declared_deps_node [OF True] by (auto simp: plan_ids_def)
  have start: "([], map (\<lambda>n. (n, [])) ?ids) = (deps_table ?D [], dependents_table ?D ?ids [])"
    by (simp add: deps_table_def dependents_table_def)
  note conn = connect_all_eq [where nodes = ?nodes and D = ?D and ids = "[]" and todo = ?ids, unfolded keys,
      OF True _ D, simplified]
  have bg: "build_graph p =
     (case efold (connect_node ?nodes) ?ids (deps_table ?D [], dependents_table ?D ?ids []) of
        Inl e \<Rightarrow> Inl e
      | Inr (deps, dependents) \<Rightarrow>
          (case find_cycle ?ids deps of
             Inl e \<Rightarrow> Inl e
           | Inr (Some cycle) \<Rightarrow> Inl (CycleDetected cycle)
           | Inr None \<Rightarrow>
               (case compute_levels ?ids deps dependents of
                  Inl e \<Rightarrow> Inl e
                | Inr levels \<Rightarrow>
                    Inr \<lparr>pg_plan = p, pg_nodes = ?nodes, pg_order = ?ids, pg_deps = deps,
                         pg_dependents = dependents, pg_level_ids = levels\<rparr>)))"
    unfolding build_graph_def idx sum.case Let_def keys start by (rule refl)
  show ?thesis
  proof (cases "\<forall>n \<in> set (pl_nodes p). set (ns_depends_on n) \<subseteq> set ?ids")
    case False
    with known have "\<not> (\<forall>n \<in> set ?ids. set (?D n) \<subseteq> set ?ids)" by blast
    with conn obtain n d where
      "efold (connect_node ?nodes) ?ids (deps_table ?D [], dependents_table ?D ?ids [])
        = Inl (UnknownDependency n d)" by auto
    with True False show ?thesis by (auto simp add: bg valid_plan_def)
  next
    case ok: True
    with known conn have c: "efold (connect_node ?nodes) ?ids (deps_table ?D [], dependents_table ?D ?ids [])
        = Inr (?deps, dependents_table ?D ?ids ?ids)" by auto
    have edges: "dep_edges ?deps = plan_dep_edges p" by (rule dep_edges_table [OF True])
    have closed: "deps_closed ?deps"
      unfolding deps_closed_def edges using ok by (auto simp: plan_dep_edges_def)
    note fc = find_cycle_correct [OF closed, of ?ids, unfolded edges, simplified]
    have lv: "compute_levels ?ids ?deps (dependents_table ?D ?ids ?ids) = Inr (levels_spec ?ids ?deps [])"
      by (rule compute_levels_spec [OF transposed_table [OF True] True])
    show ?thesis
    proof (cases "acyclic (plan_dep_edges p)")
      case False
      then obtain cyc where "find_cycle ?ids ?deps = Inr (Some cyc)" "dep_cycle ?deps cyc"
        using fc by (auto split: sum.splits option.splits)
      with True ok False c show ?thesis by (simp add: bg valid_plan_def)
    next
      case ac: True
      have "find_cycle ?ids ?deps = Inr None"
        using fc ac dep_cycle_not_acyclic [of ?deps] edges by (auto split: sum.splits option.splits)
      with c lv have "build_graph p = Inr \<lparr>pg_plan = p, pg_nodes = ?nodes, pg_order = ?ids,
          pg_deps = ?deps, pg_dependents = dependents_table ?D ?ids ?ids,
          pg_level_ids = levels_spec ?ids ?deps []\<rparr>" by (simp add: bg)
      with True ok ac show ?thesis
        by (simp add: valid_plan_def wf_graph_def transposed_table deps_table_plan [symmetric])
    qed
  qed
qed

lemma build_graph_Inr: "build_graph p = Inr g \<Longrightarrow> wf_graph g \<and> pg_plan g = p \<and> valid_plan p"
  using build_graph_cases [of p] unfolding valid_plan_def by fastforce

lemma build_graph_ok: "valid_plan p \<Longrightarrow> \<exists>g. build_graph p = Inr g \<and> wf_graph g \<and> pg_plan g = p"
  using build_graph_cases [of p] by blast

lemma wf_graph_tables: "wf_graph g \<Longrightarrow> dag_tables (pg_order g, pg_deps g)"
proof -
  assume g: "wf_graph g"
  then have v: "valid_plan (pg_plan g)" by (simp add: wf_graph_def)
  then have d: "distinct (plan_ids (pg_plan g))" by (simp add: valid_plan_def)
  have deps: "pg_deps g = deps_table (declared_deps (pg_plan g)) (plan_ids (pg_plan g))"
    using g deps_table_plan [OF d] by (simp add: wf_graph_def)
  have "deps_closed (pg_deps g)"
    unfolding deps_closed_def deps dep_edges_table [OF d]
    using v by (auto simp: plan_dep_edges_def valid_plan_def)
  moreover have "set (dkeys (pg_deps g)) = set (plan_ids (pg_plan g))"
    by (simp only: deps dkeys_deps_table)
  moreover have "acyclic (dep_edges (pg_deps g))"
    using v by (simp only: deps dep_edges_table [OF d] valid_plan_def)
  moreover have "pg_order g = plan_ids (pg_plan g)" using g by (simp add: wf_graph_def)
  ultimately show ?thesis using d by (simp only: dag_tables_def fst_conv snd_conv simp_thms)
qed

lemma wf_graph_adj:
  assumes "wf_graph g" and "n \<in> set (pl_nodes (pg_plan g))"
  shows "adj (pg_deps g) (ns_id n) = uniq (ns_depends_on n)"
proof -
  have d: "distinct (plan_ids (pg_plan g))" using assms(1) by (simp add: wf_graph_def valid_plan_def)
  have "pg_deps g = deps_table (declared_deps (pg_plan g)) (plan_ids (pg_plan g))"
    using assms(1) deps_table_plan [OF d] by (simp add: wf_graph_def)
  then show ?thesis using assms(2) declared_deps_node [OF d assms(2)] by (simp add: plan_ids_def)
qed

interpretation pgraph: schedulable wf_graph pg_order "\<lambda>g. adj (pg_deps g)"
proof unfold_locales
  fix g n assume "wf_graph g" and "n \<in> set (pg_order g)"
  with tables.preds_closed [OF wf_graph_tables] show "set (adj (pg_deps g) n) \<subseteq> set (pg_order g)"
    by simp
next
  fix g assume "wf_graph g"
  from tables.preds_acyclic [OF wf_graph_tables [OF this]]
  show "acyclic {(n, d). n \<in> set (pg_order g) \<and> d \<in> set (adj (pg_deps g) n)}" by simp
qed

end
