(* ===== verification/GraphQueries.thy ===== *)
theory GraphQueries
  imports GraphBuild
begin

text \<open>
  The queries of \<^verbatim>\<open>PlanGraph\<close>: basic access, the ready set, reachability and staleness, extraction
  of a sub-plan, the critical path and the mermaid rendering. The adjacency tables of a built
  graph are total on its ids, so the direct reads of the source cannot raise; a query on an
  unknown id is the error \<open>NoSuchNode\<close>.
\<close>

section \<open>Basic access\<close>

definition pg_node :: "plan_graph \<Rightarrow> string \<Rightarrow> graph_error + node_spec" where
  "pg_node g nid = (case dget (pg_nodes g) nid of None \<Rightarrow> Inl (NoSuchNode nid) | Some n \<Rightarrow> Inr n)"

definition require_node :: "plan_graph \<Rightarrow> string \<Rightarrow> graph_error + unit" where
  "require_node g nid = (if nid \<in> set (dkeys (pg_nodes g)) then Inr () else Inl (NoSuchNode nid))"

definition dependencies :: "plan_graph \<Rightarrow> string \<Rightarrow> graph_error + string list" where
  "dependencies g nid =
     (case require_node g nid of Inl e \<Rightarrow> Inl e | Inr _ \<Rightarrow> Inr (adj (pg_deps g) nid))"

definition dependents :: "plan_graph \<Rightarrow> string \<Rightarrow> graph_error + string list" where
  "dependents g nid =
     (case require_node g nid of Inl e \<Rightarrow> Inl e | Inr _ \<Rightarrow> Inr (adj (pg_dependents g) nid))"

definition roots :: "plan_graph \<Rightarrow> string list" where
  "roots g = filter (\<lambda>n. adj (pg_deps g) n = []) (pg_order g)"

definition leaves :: "plan_graph \<Rightarrow> string list" where
  "leaves g = filter (\<lambda>n. adj (pg_dependents g) n = []) (pg_order g)"

definition levels :: "plan_graph \<Rightarrow> node_spec list list" where
  "levels g = map (\<lambda>level. concat (map (\<lambda>n. case dget (pg_nodes g) n of None \<Rightarrow> [] | Some x \<Rightarrow> [x]) level))
     (pg_level_ids g)"

section \<open>The ready set\<close>

definition ready :: "plan_graph \<Rightarrow> string list \<Rightarrow> graph_error + node_spec list" where
  "ready g completed =
     (let unknown = sort (uniq (filter (\<lambda>c. c \<notin> set (dkeys (pg_nodes g))) completed))
      in if unknown \<noteq> [] then Inl (UnknownCompleted unknown)
         else Inr (map snd (filter (\<lambda>(nid, _). nid \<notin> set completed
                  \<and> list_all (\<lambda>d. d \<in> set completed) (adj (pg_deps g) nid)) (pg_nodes g))))"

section \<open>Reachability and staleness\<close>

text \<open>
  The frontier is a stack with its top at the head; the neighbours of the popped node that were
  not seen are recorded and pushed in turn.
\<close>

definition reach_visit :: "string \<Rightarrow> string list \<times> string list \<Rightarrow> string list \<times> string list" where
  "reach_visit nxt s = (if nxt \<in> set (fst s) then s else (fst s @ [nxt], nxt # snd s))"

definition unseen :: "(string, string list) dict \<Rightarrow> string list \<Rightarrow> nat" where
  "unseen edges seen = length (filter (\<lambda>n. n \<notin> set seen) (remdups (concat (dvals edges))))"

lemma unseen_snoc:
  assumes "x \<in> set (concat (dvals edges))" and "x \<notin> set seen"
  shows "Suc (unseen edges (seen @ [x])) \<le> unseen edges seen"
proof -
  let ?l = "filter (\<lambda>n. n \<notin> set seen) (remdups (concat (dvals edges)))"
  have x: "x \<in> set ?l" using assms by auto
  have "filter (\<lambda>n. n \<notin> set (seen @ [x])) (remdups (concat (dvals edges))) = filter (\<lambda>n. n \<noteq> x) ?l"
    by (simp add: conj_commute)
  with length_filter_less [OF x, of "\<lambda>n. n \<noteq> x"] show ?thesis by (simp add: unseen_def)
qed

lemma reach_visit_measure:
  assumes "set ns \<subseteq> set (concat (dvals edges))"
  shows "unseen edges (fst (fold reach_visit ns s)) + length (snd (fold reach_visit ns s))
           \<le> unseen edges (fst s) + length (snd s)
       \<and> unseen edges (fst (fold reach_visit ns s)) \<le> unseen edges (fst s)"
  using assms
proof (induction ns arbitrary: s)
  case Nil
  then show ?case by simp
next
  case (Cons n ns)
  have "unseen edges (fst (reach_visit n s)) + length (snd (reach_visit n s))
      \<le> unseen edges (fst s) + length (snd s)
    \<and> unseen edges (fst (reach_visit n s)) \<le> unseen edges (fst s)"
    using unseen_snoc [of n edges "fst s"] Cons.prems by (auto simp: reach_visit_def)
  moreover note Cons.IH [of "reach_visit n s"]
  ultimately show ?case using Cons.prems by auto
qed

lemma adj_in_vals: "set (adj edges n) \<subseteq> set (concat (dvals edges))"
proof (cases "dget edges n")
  case None
  then show ?thesis by (simp add: adj_def)
next
  case (Some xs)
  then have "xs \<in> set (dvals edges)" using map_of_SomeD [OF Some] by force
  with Some show ?thesis by (auto simp: adj_def)
qed

function reach_loop ::
  "(string, string list) dict \<Rightarrow> string list \<Rightarrow> string list \<Rightarrow> string list" where
  "reach_loop edges seen [] = seen"
| "reach_loop edges seen (current # frontier) =
     reach_loop edges (fst (fold reach_visit (adj edges current) (seen, frontier)))
       (snd (fold reach_visit (adj edges current) (seen, frontier)))"
  by pat_completeness auto
termination
proof (relation "measure (\<lambda>(edges, seen, frontier). 2 * unseen edges seen + length frontier)", goal_cases)
  case 1
  show ?case by simp
next
  case (2 edges seen current frontier)
  from reach_visit_measure [OF adj_in_vals, of edges current "(seen, frontier)"]
  show ?case by (simp add: case_prod_beta)
qed

declare reach_loop.simps [simp del]

definition reach :: "plan_graph \<Rightarrow> string \<Rightarrow> (string, string list) dict \<Rightarrow> graph_error + string set" where
  "reach g nid edges =
     (case require_node g nid of
        Inl e \<Rightarrow> Inl e
      | Inr _ \<Rightarrow> Inr (set (reach_loop edges [] [nid]) - {nid}))"

definition descendants :: "plan_graph \<Rightarrow> string \<Rightarrow> graph_error + string set" where
  "descendants g nid = reach g nid (pg_dependents g)"

definition ancestors :: "plan_graph \<Rightarrow> string \<Rightarrow> graph_error + string set" where
  "ancestors g nid = reach g nid (pg_deps g)"

definition mark_stale :: "plan_graph \<Rightarrow> string \<Rightarrow> graph_error + string set" where
  "mark_stale g nid =
     (case descendants g nid of Inl e \<Rightarrow> Inl e | Inr s \<Rightarrow> Inr (insert nid s))"

section \<open>Extraction\<close>

definition subgraph :: "plan_graph \<Rightarrow> string list \<Rightarrow> graph_error + plan" where
  "subgraph g ids =
     (let unknown = sort (uniq (filter (\<lambda>c. c \<notin> set (dkeys (pg_nodes g))) ids))
      in if unknown \<noteq> [] then Inl (CannotExtract unknown)
         else Inr \<lparr>pl_nodes =
                     map (\<lambda>(nid, n). n\<lparr>ns_depends_on :=
                            filter (\<lambda>d. d \<in> set ids) (adj (pg_deps g) nid)\<rparr>)
                       (filter (\<lambda>(nid, _). nid \<in> set ids) (pg_nodes g)),
                   pl_version = pl_version (pg_plan g),
                   pl_rationale = pl_rationale (pg_plan g),
                   pl_supersedes = pl_supersedes (pg_plan g)\<rparr>)"

section \<open>Critical path\<close>

type_synonym cp_tables = "(string, nat) dict \<times> (string, string option) dict"

definition cp_better :: "(string, nat) dict \<Rightarrow> string \<Rightarrow> nat \<times> string option \<Rightarrow> nat \<times> string option"
where
  "cp_better len dep best =
     (case dget len dep of
        None \<Rightarrow> best
      | Some l \<Rightarrow> if fst best < l then (l, Some dep) else best)"

definition cp_step :: "(string, string list) dict \<Rightarrow> string \<Rightarrow> cp_tables \<Rightarrow> cp_tables" where
  "cp_step deps nid t =
     (let best = fold (cp_better (fst t)) (adj deps nid) (0, None)
      in (dset nid (fst best + 1) (fst t), dset nid (snd best) (snd t)))"

definition cp_end_step :: "(string, nat) dict \<Rightarrow> string \<Rightarrow> string option \<Rightarrow> string option" where
  "cp_end_step len nid e =
     (case e of None \<Rightarrow> Some nid
      | Some m \<Rightarrow> if (case (dget len m, dget len nid) of (Some a, Some b) \<Rightarrow> a < b | _ \<Rightarrow> False)
                  then Some nid else e)"

text \<open>
  The walk back along \<open>previous\<close>, from the end: \<open>path.append(cursor)\<close> and the final \<open>reverse\<close> put
  the earlier nodes in front. \<open>None\<close> is out of fuel; \<open>critical_path\<close> gives one unit per node.
\<close>

fun cp_walk :: "nat \<Rightarrow> (string, string option) dict \<Rightarrow> string \<Rightarrow> string list option" where
  "cp_walk 0 previous cursor = None"
| "cp_walk (Suc fuel) previous cursor =
     (case dget previous cursor of
        None \<Rightarrow> None
      | Some None \<Rightarrow> Some [cursor]
      | Some (Some p) \<Rightarrow> map_option (\<lambda>path. path @ [cursor]) (cp_walk fuel previous p))"

definition cp_compute :: "plan_graph \<Rightarrow> cp_tables" where
  "cp_compute g = fold (cp_step (pg_deps g)) (concat (pg_level_ids g)) ([], [])"

definition critical_path :: "plan_graph \<Rightarrow> string list option" where
  "critical_path g =
     (let t = cp_compute g in
      case fold (cp_end_step (fst t)) (pg_order g) None of
        None \<Rightarrow> Some []
      | Some e \<Rightarrow> cp_walk (length (pg_order g)) (snd t) e)"

section \<open>Mermaid\<close>

definition mermaid_safe :: "string \<Rightarrow> string" where
  "mermaid_safe s = map (\<lambda>c. if is_alnum c \<or> c = CHR ''_'' then c else CHR ''_'') s"

fun mermaid_ids_from ::
  "nat \<Rightarrow> string list \<Rightarrow> string list \<Rightarrow> (string, string) dict \<Rightarrow> (string, string) dict" where
  "mermaid_ids_from i taken [] safe = safe"
| "mermaid_ids_from i taken (nid # rest) safe =
     (let c0 = mermaid_safe nid;
          c1 = (if c0 = [] \<or> \<not> is_alpha (hd c0) then ''n_'' @ c0 else c0);
          c2 = (if c1 \<in> set taken then c1 @ ''_'' @ str_nat i else c1)
      in mermaid_ids_from (Suc i) (c2 # taken) rest (dset nid c2 safe))"

definition mermaid_ids :: "string list \<Rightarrow> (string, string) dict" where
  "mermaid_ids order = mermaid_ids_from 0 [] order []"

definition replace_char :: "char \<Rightarrow> string \<Rightarrow> string \<Rightarrow> string" where
  "replace_char c r s = concat (map (\<lambda>x. if x = c then r else [x]) s)"

definition escape_label :: "string \<Rightarrow> string" where
  "escape_label text =
     replace_char (CHR '']'') ''#93;'' (replace_char (CHR ''['') ''#91;''
       (replace_char (CHR ''>'') ''#gt;'' (replace_char (CHR ''<'') ''#lt;''
         (replace_char (CHR 0x22) ''#quot;'' (replace_char (CHR 0x26) ''#amp;'' text)))))"

definition dget_str :: "(string, string) dict \<Rightarrow> string \<Rightarrow> string" where
  "dget_str d k = (case dget d k of None \<Rightarrow> [] | Some v \<Rightarrow> v)"

definition to_mermaid :: "plan_graph \<Rightarrow> string" where
  "to_mermaid g =
     (let safe = mermaid_ids (pg_order g) in
      str_join newline
        ([''%% keel plan v'' @ str_int (pl_version (pg_plan g)) @ '', ''
            @ str_nat (length (pg_order g)) @ '' nodes'', ''graph TD'']
         @ map (\<lambda>(nid, n). ''    '' @ dget_str safe nid @ ''['' @ [CHR 0x22] @ escape_label nid
              @ ''<br/>'' @ escape_label (sk_value (ns_kind n)) @ [CHR 0x22] @ '']'') (pg_nodes g)
         @ concat (map (\<lambda>nid. map (\<lambda>d. ''    '' @ dget_str safe d @ '' --> '' @ dget_str safe nid)
              (adj (pg_deps g) nid)) (pg_order g))))"

section \<open>The ready set is what it should be\<close>

lemma wf_graph_keys: "wf_graph g \<Longrightarrow> dkeys (pg_nodes g) = pg_order g \<and> pg_order g = plan_ids (pg_plan g)"
  by (simp add: wf_graph_def plan_ids_def comp_def)

lemma sort_uniq_Nil_iff: "sort (uniq (filter P xs)) = [] \<longleftrightarrow> (\<forall>x \<in> set xs. \<not> P x)"
  by (metis filter_empty_conv length_0_conv length_sort uniq_Nil_iff)

lemma ready_eq:
  assumes g: "wf_graph g" and c: "set completed \<subseteq> set (plan_ids (pg_plan g))"
  shows "ready g completed = Inr (filter (\<lambda>n. ns_id n \<notin> set completed
           \<and> set (ns_depends_on n) \<subseteq> set completed) (pl_nodes (pg_plan g)))"
proof -
  have nodes: "pg_nodes g = map (\<lambda>n. (ns_id n, n)) (pl_nodes (pg_plan g))"
    using g by (simp add: wf_graph_def)
  have "sort (uniq (filter (\<lambda>c. c \<notin> set (dkeys (pg_nodes g))) completed)) = []"
    unfolding sort_uniq_Nil_iff using c wf_graph_keys [OF g] by auto
  moreover have "map snd (filter (\<lambda>(nid, _). nid \<notin> set completed
        \<and> list_all (\<lambda>d. d \<in> set completed) (adj (pg_deps g) nid)) (pg_nodes g))
      = filter (\<lambda>n. ns_id n \<notin> set completed \<and> set (ns_depends_on n) \<subseteq> set completed)
          (pl_nodes (pg_plan g))"
    unfolding nodes filter_map comp_def map_map
    using wf_graph_adj [OF g] by (auto simp: list_all_iff intro!: filter_cong)
  ultimately show ?thesis by (simp add: ready_def Let_def)
qed

lemma ready_error:
  assumes "wf_graph g" and "\<not> set completed \<subseteq> set (plan_ids (pg_plan g))"
  shows "\<exists>u. u \<noteq> [] \<and> set u = set completed - set (plan_ids (pg_plan g))
     \<and> ready g completed = Inl (UnknownCompleted u)"
proof -
  let ?u = "sort (uniq (filter (\<lambda>c. c \<notin> set (dkeys (pg_nodes g))) completed))"
  have set_u: "set ?u = set completed - set (plan_ids (pg_plan g))"
    using wf_graph_keys [OF assms(1)] by auto
  have "set ?u \<noteq> {}" using assms(2) by (simp only: set_u) blast
  then have ne: "?u \<noteq> []" by (simp only: set_empty simp_thms)
  then have "ready g completed = Inl (UnknownCompleted ?u)"
    unfolding ready_def Let_def by (simp only: if_True simp_thms if_False)
  with set_u ne show ?thesis by blast
qed

lemma ready_nonempty:
  assumes g: "wf_graph g" and c: "set completed \<subset> set (plan_ids (pg_plan g))"
  obtains ns where "ready g completed = Inr ns" and "ns \<noteq> []"
proof -
  from c obtain n where n: "n \<in> set (pg_order g)" "n \<notin> set completed"
    using wf_graph_keys [OF g] by auto
  from pgraph.progress [OF g n] obtain m where m: "m \<in> set (pg_order g)" "m \<notin> set completed"
    "set (adj (pg_deps g) m) \<subseteq> set completed" by blast
  then obtain x where x: "x \<in> set (pl_nodes (pg_plan g))" "ns_id x = m"
    using wf_graph_keys [OF g] by (auto simp: plan_ids_def)
  with m wf_graph_adj [OF g x(1)]
  have "x \<in> set (filter (\<lambda>n. ns_id n \<notin> set completed \<and> set (ns_depends_on n) \<subseteq> set completed)
      (pl_nodes (pg_plan g)))" by simp
  then have "filter (\<lambda>n. ns_id n \<notin> set completed \<and> set (ns_depends_on n) \<subseteq> set completed)
      (pl_nodes (pg_plan g)) \<noteq> []" by (metis empty_iff empty_set)
  with ready_eq [OF g] c that show thesis by (meson psubset_imp_subset)
qed

section \<open>Reachability is the transitive closure\<close>

definition edge_rel :: "(string, string list) dict \<Rightarrow> (string \<times> string) set" where
  "edge_rel edges = {(a, b). b \<in> set (adj edges a)}"

lemma fold_reach_visit:
  "set (fst (fold reach_visit ns s)) = set (fst s) \<union> set ns
   \<and> set (snd s) \<subseteq> set (snd (fold reach_visit ns s))
   \<and> set ns - set (fst s) \<subseteq> set (snd (fold reach_visit ns s))
   \<and> set (snd (fold reach_visit ns s)) \<subseteq> set (snd s) \<union> set ns"
proof (induction ns arbitrary: s)
  case Nil
  then show ?case by simp
next
  case (Cons n ns)
  from Cons.IH [of "reach_visit n s"] show ?case by (auto simp: reach_visit_def split: if_splits)
qed

text \<open>Everything seen was reached, and what is no longer on the frontier has its successors seen.\<close>

lemma reach_loop_closed:
  assumes "\<And>a. a \<in> insert x (set seen) \<Longrightarrow> a \<notin> set frontier \<Longrightarrow> set (adj edges a) \<subseteq> set seen"
    and "set frontier \<subseteq> insert x (set seen)"
  shows "set seen \<subseteq> set (reach_loop edges seen frontier)
    \<and> (\<forall>a \<in> insert x (set (reach_loop edges seen frontier)).
         set (adj edges a) \<subseteq> set (reach_loop edges seen frontier))"
  using assms
proof (induction edges seen frontier rule: reach_loop.induct)
  case (1 edges seen)
  then show ?case by (auto simp: reach_loop.simps)
next
  case (2 edges seen c frontier)
  let ?s = "fold reach_visit (adj edges c) (seen, frontier)"
  have f: "set (fst ?s) = set seen \<union> set (adj edges c)" "set frontier \<subseteq> set (snd ?s)"
    "set (adj edges c) - set seen \<subseteq> set (snd ?s)" "set (snd ?s) \<subseteq> set frontier \<union> set (adj edges c)"
    using fold_reach_visit [of "adj edges c" "(seen, frontier)"] by auto
  have "set (fst ?s) \<subseteq> set (reach_loop edges (fst ?s) (snd ?s))
    \<and> (\<forall>a \<in> insert x (set (reach_loop edges (fst ?s) (snd ?s))).
         set (adj edges a) \<subseteq> set (reach_loop edges (fst ?s) (snd ?s)))"
  proof (rule 2(1))
    show "set (adj edges a) \<subseteq> set (fst ?s)"
      if "a \<in> insert x (set (fst ?s))" "a \<notin> set (snd ?s)" for a
    proof (cases "a = c")
      case True
      with f(1) show ?thesis by simp
    next
      case False
      with that f have "a \<in> insert x (set seen)" "a \<notin> set (c # frontier)" by auto
      with 2(2) f(1) show ?thesis by blast
    qed
    show "set (snd ?s) \<subseteq> insert x (set (fst ?s))" using f 2(3) by auto
  qed
  with f(1) show ?case by (auto simp: reach_loop.simps)
qed

lemma reach_loop_sound:
  assumes "\<And>a. a \<in> set seen \<Longrightarrow> (x, a) \<in> (edge_rel edges)\<^sup>+"
    and "\<And>a. a \<in> set frontier \<Longrightarrow> (x, a) \<in> (edge_rel edges)\<^sup>*"
    and "y \<in> set (reach_loop edges seen frontier)"
  shows "(x, y) \<in> (edge_rel edges)\<^sup>+"
  using assms
proof (induction edges seen frontier rule: reach_loop.induct)
  case (1 edges seen)
  then show ?case by (simp add: reach_loop.simps)
next
  case (2 edges seen c frontier)
  let ?s = "fold reach_visit (adj edges c) (seen, frontier)"
  have f: "set (fst ?s) = set seen \<union> set (adj edges c)"
    "set (snd ?s) \<subseteq> set frontier \<union> set (adj edges c)"
    using fold_reach_visit [of "adj edges c" "(seen, frontier)"] by auto
  have step: "(x, a) \<in> (edge_rel edges)\<^sup>+" if "a \<in> set (adj edges c)" for a
    using 2(3) [of c] that by (auto simp: edge_rel_def intro: rtrancl_into_trancl1)
  show ?case
  proof (rule 2(1))
    show "(x, a) \<in> (edge_rel edges)\<^sup>+" if "a \<in> set (fst ?s)" for a
      using that f(1) step 2(2) by auto
    show "(x, a) \<in> (edge_rel edges)\<^sup>*" if "a \<in> set (snd ?s)" for a
      using that f(2) step 2(3) by (auto intro: trancl_into_rtrancl)
    show "y \<in> set (reach_loop edges (fst ?s) (snd ?s))" using 2(4) by (simp add: reach_loop.simps)
  qed
qed

lemma reach_loop_eq: "set (reach_loop edges [] [x]) = {y. (x, y) \<in> (edge_rel edges)\<^sup>+}"
proof (rule set_eqI, rule iffI)
  fix y assume "y \<in> set (reach_loop edges [] [x])"
  then show "y \<in> {y. (x, y) \<in> (edge_rel edges)\<^sup>+}"
    using reach_loop_sound [of "[]" x edges "[x]" y] by simp
next
  fix y assume "y \<in> {y. (x, y) \<in> (edge_rel edges)\<^sup>+}"
  then have "(x, y) \<in> (edge_rel edges)\<^sup>+" by simp
  moreover have closed: "\<And>a. a \<in> insert x (set (reach_loop edges [] [x])) \<Longrightarrow>
      set (adj edges a) \<subseteq> set (reach_loop edges [] [x])"
    using reach_loop_closed [of x "[]" "[x]" edges] by auto
  ultimately show "y \<in> set (reach_loop edges [] [x])"
    by (induction rule: trancl_induct) (use closed in \<open>auto simp: edge_rel_def\<close>)
qed

lemma edge_rel_deps: "edge_rel (pg_deps g) = dep_edges (pg_deps g)"
  by (simp add: edge_rel_def dep_edges_def)

lemma wf_graph_dep_edges: "wf_graph g \<Longrightarrow> dep_edges (pg_deps g) = plan_dep_edges (pg_plan g)"
proof -
  assume g: "wf_graph g"
  then have d: "distinct (plan_ids (pg_plan g))" by (simp add: wf_graph_def valid_plan_def)
  have "pg_deps g = deps_table (declared_deps (pg_plan g)) (plan_ids (pg_plan g))"
    using g deps_table_plan [OF d] unfolding wf_graph_def by argo
  then show ?thesis by (simp only: dep_edges_table [OF d])
qed

lemma edge_rel_dependents: "wf_graph g \<Longrightarrow> edge_rel (pg_dependents g) = (dep_edges (pg_deps g))\<inverse>"
proof -
  assume g: "wf_graph g"
  then have tr: "transposed (pg_order g) (pg_deps g) (pg_dependents g)"
    unfolding wf_graph_def by blast
  have cl: "deps_closed (pg_deps g)" using wf_graph_tables [OF g] by (simp add: dag_tables_def)
  show ?thesis
  proof (rule set_eqI)
    fix e :: "string \<times> string"
    obtain a b where e: "e = (a, b)" by (cases e)
    have "b \<in> set (adj (pg_dependents g) a) \<longleftrightarrow> a \<in> set (adj (pg_deps g) b)"
    proof (cases "a \<in> set (pg_order g)")
      case True
      have "a \<in> set (adj (pg_deps g) b) \<Longrightarrow> b \<in> set (pg_order g)"
        using dep_edges_keys [of b a "pg_deps g"] tr by (simp add: dep_edges_def transposed_def)
      with True tr show ?thesis unfolding transposed_def by blast
    next
      case False
      then have "adj (pg_dependents g) a = []"
        using tr dget_None_iff [of "pg_dependents g" a] by (simp add: adj_def transposed_def)
      moreover have "a \<notin> set (adj (pg_deps g) b)"
        using False cl tr by (auto simp: deps_closed_def dep_edges_def transposed_def)
      ultimately show ?thesis by simp
    qed
    then show "e \<in> edge_rel (pg_dependents g) \<longleftrightarrow> e \<in> (dep_edges (pg_deps g))\<inverse>"
      by (simp add: e edge_rel_def dep_edges_def)
  qed
qed

lemma require_node_ok: "wf_graph g \<Longrightarrow> n \<in> set (plan_ids (pg_plan g)) \<Longrightarrow> require_node g n = Inr ()"
  using wf_graph_keys [of g] by (simp add: require_node_def)

lemma descendants_eq:
  assumes "wf_graph g" and "n \<in> set (plan_ids (pg_plan g))"
  shows "descendants g n = Inr {m. (m, n) \<in> (plan_dep_edges (pg_plan g))\<^sup>+}"
proof -
  have "(n, n) \<notin> (plan_dep_edges (pg_plan g))\<^sup>+"
    using assms(1) by (simp add: wf_graph_def valid_plan_def acyclic_def)
  then show ?thesis
    using assms by (auto simp: descendants_def reach_def require_node_ok reach_loop_eq
        edge_rel_dependents wf_graph_dep_edges trancl_converse)
qed

lemma ancestors_eq:
  assumes "wf_graph g" and "n \<in> set (plan_ids (pg_plan g))"
  shows "ancestors g n = Inr {m. (n, m) \<in> (plan_dep_edges (pg_plan g))\<^sup>+}"
proof -
  have "(n, n) \<notin> (plan_dep_edges (pg_plan g))\<^sup>+"
    using assms(1) by (simp add: wf_graph_def valid_plan_def acyclic_def)
  then show ?thesis
    using assms by (auto simp: ancestors_def reach_def require_node_ok reach_loop_eq
        edge_rel_deps wf_graph_dep_edges)
qed

end
