(* ===== verification/GraphPaths.thy ===== *)
theory GraphPaths
  imports GraphQueries
begin

text \<open>
  The longest dependency chain: \<^verbatim>\<open>PlanGraph.critical_path\<close> walks the levels once, keeping for every
  node the length of the longest chain that ends there and the dependency it came from. The
  lookups of the source cannot miss because the levels are a topological order.
\<close>

definition dep_chain :: "(string, string list) dict \<Rightarrow> string list \<Rightarrow> bool" where
  "dep_chain deps c \<longleftrightarrow> successively (\<lambda>a b. a \<in> set (adj deps b)) c"

definition cp_inv :: "(string, string list) dict \<Rightarrow> string list \<Rightarrow> cp_tables \<Rightarrow> bool" where
  "cp_inv deps xs t \<longleftrightarrow> set (dkeys (fst t)) = set xs \<and>
     (\<forall>n \<in> set xs. \<exists>l pr. dget (fst t) n = Some l \<and> dget (snd t) n = Some pr
        \<and> 1 \<le> l \<and> l \<le> length xs
        \<and> (\<forall>d \<in> set (adj deps n). \<exists>k. dget (fst t) d = Some k \<and> k < l)
        \<and> (case pr of None \<Rightarrow> l = 1
           | Some p \<Rightarrow> p \<in> set (adj deps n) \<and> dget (fst t) p = Some (l - 1)))"

lemma cp_inv_Some:
  assumes "cp_inv deps xs t" and "n \<in> set xs"
  obtains l pr where "dget (fst t) n = Some l" and "dget (snd t) n = Some pr"
    and "1 \<le> l" and "l \<le> length xs"
    and "\<forall>d \<in> set (adj deps n). \<exists>k. dget (fst t) d = Some k \<and> k < l"
    and "pr = None \<longrightarrow> l = 1"
    and "\<forall>p. pr = Some p \<longrightarrow> p \<in> set (adj deps n) \<and> dget (fst t) p = Some (l - 1)"
proof -
  from assms obtain l pr where "dget (fst t) n = Some l \<and> dget (snd t) n = Some pr
        \<and> 1 \<le> l \<and> l \<le> length xs
        \<and> (\<forall>d \<in> set (adj deps n). \<exists>k. dget (fst t) d = Some k \<and> k < l)
        \<and> (case pr of None \<Rightarrow> l = 1
           | Some p \<Rightarrow> p \<in> set (adj deps n) \<and> dget (fst t) p = Some (l - 1))"
    unfolding cp_inv_def by blast
  then show thesis by (intro that [of l pr]) (auto split: option.splits)
qed

lemma cp_better_fold:
  assumes "\<And>d. d \<in> set ds \<Longrightarrow> \<exists>k. dget len d = Some k \<and> 1 \<le> k"
    and "\<And>p. snd b = Some p \<Longrightarrow> p \<in> D \<and> dget len p = Some (fst b)"
    and "snd b = None \<Longrightarrow> fst b = 0" and "set ds \<subseteq> D"
  shows "(\<forall>p. snd (fold (cp_better len) ds b) = Some p \<longrightarrow>
            p \<in> D \<and> dget len p = Some (fst (fold (cp_better len) ds b)))
    \<and> (snd (fold (cp_better len) ds b) = None \<longrightarrow> fst (fold (cp_better len) ds b) = 0)
    \<and> fst b \<le> fst (fold (cp_better len) ds b)
    \<and> (\<forall>d \<in> set ds. \<forall>k. dget len d = Some k \<longrightarrow> k \<le> fst (fold (cp_better len) ds b))"
  using assms
proof (induction ds arbitrary: b)
  case Nil
  then show ?case by simp
next
  case (Cons d ds)
  from Cons.prems(1) obtain k where k: "dget len d = Some k" "1 \<le> k" by auto
  let ?b = "cp_better len d b"
  have b: "fst b \<le> fst ?b" "k \<le> fst ?b" using k by (auto simp: cp_better_def)
  have p1: "p \<in> D \<and> dget len p = Some (fst ?b)" if "snd ?b = Some p" for p
    using that Cons.prems(2) [of p] Cons.prems(4) k by (auto simp: cp_better_def split: if_splits)
  have p2: "snd ?b = None \<Longrightarrow> fst ?b = 0"
    using Cons.prems(3) k by (auto simp: cp_better_def split: if_splits)
  have "set ds \<subseteq> D" using Cons.prems(4) by simp
  with Cons.IH [of ?b] Cons.prems(1) p1 p2 b k show ?case by auto
qed

lemma cp_step_inv:
  assumes inv: "cp_inv deps xs t" and n: "n \<notin> set xs" and ds: "set (adj deps n) \<subseteq> set xs"
  shows "cp_inv deps (xs @ [n]) (cp_step deps n t)"
proof -
  let ?b = "fold (cp_better (fst t)) (adj deps n) (0, None)"
  have known: "\<exists>k. dget (fst t) d = Some k \<and> 1 \<le> k \<and> k \<le> length xs" if "d \<in> set (adj deps n)" for d
    using cp_inv_Some [OF inv] ds that by (metis subsetD)
  note b = cp_better_fold [of "adj deps n" "fst t" "(0, None)" "set (adj deps n)"]
  have b1: "\<And>p. snd ?b = Some p \<Longrightarrow> p \<in> set (adj deps n) \<and> dget (fst t) p = Some (fst ?b)"
    and b2: "snd ?b = None \<Longrightarrow> fst ?b = 0"
    and b3: "\<And>d k. d \<in> set (adj deps n) \<Longrightarrow> dget (fst t) d = Some k \<Longrightarrow> k \<le> fst ?b"
    using b known by (simp_all, blast+)
  have le: "fst ?b \<le> length xs"
    using b1 b2 known by (cases "snd ?b") fastforce+
  have step: "cp_step deps n t = (dset n (fst ?b + 1) (fst t), dset n (snd ?b) (snd t))"
    by (simp add: cp_step_def Let_def)
  show ?thesis
    unfolding cp_inv_def
  proof (intro conjI ballI)
    show "set (dkeys (fst (cp_step deps n t))) = set (xs @ [n])"
      using inv by (simp add: step cp_inv_def)
  next
    fix m assume "m \<in> set (xs @ [n])"
    then consider "m = n" | "m \<in> set xs" "m \<noteq> n" using n by auto
    then show "\<exists>l pr. dget (fst (cp_step deps n t)) m = Some l \<and> dget (snd (cp_step deps n t)) m = Some pr
        \<and> 1 \<le> l \<and> l \<le> length (xs @ [n])
        \<and> (\<forall>d \<in> set (adj deps m). \<exists>k. dget (fst (cp_step deps n t)) d = Some k \<and> k < l)
        \<and> (case pr of None \<Rightarrow> l = 1
           | Some p \<Rightarrow> p \<in> set (adj deps m) \<and> dget (fst (cp_step deps n t)) p = Some (l - 1))"
    proof cases
      case 1
      have "d \<noteq> n" if "d \<in> set (adj deps n)" for d using that ds n by auto
      then show ?thesis
        using 1 le known b1 b2 b3 by (fastforce simp: step split: option.splits)
    next
      case 2
      from inv 2(1) obtain l pr where lp: "dget (fst t) m = Some l" "dget (snd t) m = Some pr"
        "1 \<le> l" "l \<le> length xs"
        "\<forall>d \<in> set (adj deps m). \<exists>k. dget (fst t) d = Some k \<and> k < l"
        "pr = None \<longrightarrow> l = 1"
        "\<forall>p. pr = Some p \<longrightarrow> p \<in> set (adj deps m) \<and> dget (fst t) p = Some (l - 1)"
        by (rule cp_inv_Some)
      have "dget (fst t) n = None" using inv n by (simp only: dget_None_iff cp_inv_def) blast
      then have "d \<noteq> n" if "d \<in> set (adj deps m)" for d using lp(5) that by fastforce
      with 2 lp show ?thesis by (auto simp: step split: option.splits)
    qed
  qed
qed

lemma cp_fold_inv:
  assumes "cp_inv deps xs t" and "distinct (xs @ ys)"
    and "\<And>us n vs. ys = us @ n # vs \<Longrightarrow> set (adj deps n) \<subseteq> set xs \<union> set us"
  shows "cp_inv deps (xs @ ys) (fold (cp_step deps) ys t)"
  using assms
proof (induction ys arbitrary: xs t)
  case Nil
  then show ?case by simp
next
  case (Cons n ys)
  have "set (adj deps n) \<subseteq> set xs" using Cons.prems(3) [of "[]" n ys] by simp
  then have "cp_inv deps (xs @ [n]) (cp_step deps n t)" using Cons.prems by (intro cp_step_inv) auto
  moreover have "set (adj deps m) \<subseteq> set (xs @ [n]) \<union> set us" if "ys = us @ m # vs" for us m vs
    using Cons.prems(3) [of "n # us" m vs] that by auto
  ultimately have "cp_inv deps ((xs @ [n]) @ ys) (fold (cp_step deps) ys (cp_step deps n t))"
    using Cons.prems(2) by (intro Cons.IH) auto
  then show ?case by simp
qed

lemma concat_split:
  assumes "concat ls = us @ n # vs"
  obtains i where "i < length ls" and "n \<in> set (ls ! i)" and "set (concat (take i ls)) \<subseteq> set us"
  using assms
proof (induction ls arbitrary: us thesis)
  case Nil
  then show ?case by simp
next
  case (Cons l ls)
  from Cons.prems(2) have eq: "l @ concat ls = us @ n # vs" by simp
  consider ws where "l = us @ n # ws" | ws where "us = l @ ws" "concat ls = ws @ n # vs"
  proof -
    from eq consider zs where "l = us @ zs" "zs @ concat ls = n # vs"
      | zs where "l @ zs = us" "concat ls = zs @ n # vs"
      by (auto simp: append_eq_append_conv2)
    then show thesis
    proof cases
      case (1 zs)
      then show thesis using that by (cases zs) (auto simp: that(2))
    next
      case (2 zs)
      then show thesis using that(2) [of zs] by simp
    qed
  qed
  then show ?case
  proof cases
    case 1
    then show ?thesis using Cons.prems(1) [of 0] by simp
  next
    case 2
    from Cons.IH [OF _ 2(2)] obtain i where "i < length ls" "n \<in> set (ls ! i)"
      "set (concat (take i ls)) \<subseteq> set ws" by blast
    then show ?thesis using Cons.prems(1) [of "Suc i"] 2(1) by auto
  qed
qed

lemma wf_graph_levels:
  assumes "wf_graph g"
  shows "distinct (concat (pg_level_ids g))" and "set (concat (pg_level_ids g)) = set (plan_ids (pg_plan g))"
    and "\<And>i n. i < length (pg_level_ids g) \<Longrightarrow> n \<in> set (pg_level_ids g ! i) \<Longrightarrow>
          set (adj (pg_deps g) n) \<subseteq> set (concat (take i (pg_level_ids g)))"
proof -
  have l: "pg_level_ids g = levels_spec (pg_order g) (pg_deps g) []"
    and o: "pg_order g = plan_ids (pg_plan g)" using assms unfolding wf_graph_def by blast+
  have t: "dag_tables (pg_order g, pg_deps g)" using wf_graph_tables [OF assms] .
  then have "distinct (pg_order g)" by (simp add: dag_tables_def)
  from levels_spec_distinct [OF this, of "pg_deps g" "[]"] show "distinct (concat (pg_level_ids g))"
    by (simp only: l)
  from levels_spec_set [OF t, of "[]"] show "set (concat (pg_level_ids g)) = set (plan_ids (pg_plan g))"
    by (simp only: l o) simp
  show "set (adj (pg_deps g) n) \<subseteq> set (concat (take i (pg_level_ids g)))"
    if "i < length (pg_level_ids g)" "n \<in> set (pg_level_ids g ! i)" for i n
    using levels_spec_deps [OF l that] by simp
qed

lemma cp_compute_inv:
  assumes "wf_graph g"
  shows "cp_inv (pg_deps g) (concat (pg_level_ids g)) (cp_compute g)"
proof -
  have "cp_inv (pg_deps g) ([] @ concat (pg_level_ids g)) (cp_compute g)"
    unfolding cp_compute_def
  proof (rule cp_fold_inv)
    show "cp_inv (pg_deps g) [] ([], [])" by (simp add: cp_inv_def)
    show "distinct ([] @ concat (pg_level_ids g))" using wf_graph_levels(1) [OF assms] by simp
    show "set (adj (pg_deps g) n) \<subseteq> set [] \<union> set us"
      if "concat (pg_level_ids g) = us @ n # vs" for us n vs
      using that
    proof (rule concat_split)
      fix i assume "i < length (pg_level_ids g)" "n \<in> set (pg_level_ids g ! i)"
        "set (concat (take i (pg_level_ids g))) \<subseteq> set us"
      with wf_graph_levels(3) [OF assms this(1,2)] show ?thesis by (meson le_supI2 order_trans)
    qed
  qed
  then show ?thesis by simp
qed

lemma cp_walk_chain:
  assumes inv: "cp_inv deps xs t" and closed: "\<And>n. n \<in> set xs \<Longrightarrow> set (adj deps n) \<subseteq> set xs"
    and "n \<in> set xs" and "dget (fst t) n = Some l" and "l \<le> fuel"
  shows "\<exists>path. cp_walk fuel (snd t) n = Some path \<and> path \<noteq> [] \<and> last path = n \<and> length path = l
     \<and> dep_chain deps path \<and> set path \<subseteq> set xs"
  using assms(3-)
proof (induction fuel arbitrary: n l)
  case 0
  from inv 0(1) obtain k where "dget (fst t) n = Some k" "1 \<le> k" by (rule cp_inv_Some) blast
  with 0 show ?case by simp
next
  case (Suc fuel)
  from inv Suc.prems(1) obtain l' pr where lp: "dget (fst t) n = Some l'" "dget (snd t) n = Some pr"
    "1 \<le> l'" "pr = None \<longrightarrow> l' = 1"
    "\<forall>p. pr = Some p \<longrightarrow> p \<in> set (adj deps n) \<and> dget (fst t) p = Some (l' - 1)"
    by (rule cp_inv_Some)
  with Suc.prems(2) have l: "l' = l" by simp
  show ?case
  proof (cases pr)
    case None
    with lp l Suc.prems show ?thesis by (simp add: dep_chain_def)
  next
    case (Some p)
    have prv: "p \<in> set (adj deps n)" "dget (fst t) p = Some (l' - 1)" using lp(5) Some by simp_all
    then have p: "p \<in> set xs" using closed [OF Suc.prems(1)] by auto
    have "l' - 1 \<le> fuel" using Suc.prems(3) l by simp
    from Suc.IH [OF p prv(2) this] obtain path where
      path: "cp_walk fuel (snd t) p = Some path" "path \<noteq> []" "last path = p" "length path = l' - 1"
        "dep_chain deps path" "set path \<subseteq> set xs" by auto
    then have "dep_chain deps (path @ [n])"
      using prv(1) by (simp add: dep_chain_def successively_append_iff)
    with path lp(1-3) Some l Suc.prems(1) show ?thesis by simp
  qed
qed

lemma cp_chain_bound:
  assumes inv: "cp_inv deps xs t" and "c \<noteq> []" and "dep_chain deps c" and "set c \<subseteq> set xs"
  shows "\<exists>l. dget (fst t) (last c) = Some l \<and> length c \<le> l"
  using assms(2-)
proof (induction c rule: rev_induct)
  case Nil
  then show ?case by simp
next
  case (snoc n c)
  then have n: "n \<in> set xs" by simp
  from inv n obtain l where lp: "dget (fst t) n = Some l" "1 \<le> l"
    "\<forall>d \<in> set (adj deps n). \<exists>k. dget (fst t) d = Some k \<and> k < l"
    by (rule cp_inv_Some) blast
  show ?case
  proof (cases "c = []")
    case True
    with lp show ?thesis by simp
  next
    case False
    with snoc.prems(2) have "dep_chain deps c" "last c \<in> set (adj deps n)"
      by (auto simp: dep_chain_def successively_append_iff)
    with snoc.IH False snoc.prems(3) lp show ?thesis by fastforce
  qed
qed

lemma cp_end_fold:
  assumes "\<And>n. n \<in> set xs \<union> set_option e \<Longrightarrow> \<exists>l. dget len n = Some l" and "xs \<noteq> [] \<or> e \<noteq> None"
  shows "\<exists>m. fold (cp_end_step len) xs e = Some m \<and> m \<in> set xs \<union> set_option e
     \<and> (\<forall>n \<in> set xs \<union> set_option e. \<forall>a b. dget len n = Some a \<longrightarrow> dget len m = Some b \<longrightarrow> a \<le> b)"
  using assms
proof (induction xs arbitrary: e)
  case Nil
  then show ?case by auto
next
  case (Cons x xs)
  obtain l where l: "dget len x = Some l" using Cons.prems(1) by auto
  obtain y where y: "cp_end_step len x e = Some y"
    by (cases "cp_end_step len x e") (auto simp: cp_end_step_def split: option.splits if_splits)
  have ye: "y \<in> insert x (set_option e)" using y by (auto simp: cp_end_step_def split: option.splits if_splits)
  have max: "a \<le> b" if "n \<in> insert x (set_option e)" "dget len n = Some a" "dget len y = Some b" for n a b
    using that y l by (cases e) (auto simp: cp_end_step_def split: option.splits if_splits)
  have "\<exists>l. dget len n = Some l" if "n \<in> set xs \<union> set_option (Some y)" for n
    using that ye Cons.prems(1) by auto
  from Cons.IH [OF this] obtain m where m: "fold (cp_end_step len) xs (Some y) = Some m"
    "m \<in> set xs \<union> set_option (Some y)"
    "\<forall>n \<in> set xs \<union> set_option (Some y). \<forall>a b. dget len n = Some a \<longrightarrow> dget len m = Some b \<longrightarrow> a \<le> b"
    by blast
  obtain k where k: "dget len y = Some k" using ye Cons.prems(1) by auto
  have "a \<le> b" if "n \<in> set (x # xs) \<union> set_option e" "dget len n = Some a" "dget len m = Some b" for n a b
  proof (cases "n \<in> set xs")
    case True
    with that m(3) show ?thesis by auto
  next
    case False
    with that(1) have "n \<in> insert x (set_option e)" by auto
    from max [OF this that(2) k] m(3) that(3) k show ?thesis by fastforce
  qed
  with m y ye show ?case by auto
qed

lemma critical_path_spec:
  assumes g: "wf_graph g"
  shows "\<exists>path. critical_path g = Some path \<and> dep_chain (pg_deps g) path
     \<and> set path \<subseteq> set (plan_ids (pg_plan g))
     \<and> (\<forall>c. dep_chain (pg_deps g) c \<longrightarrow> set c \<subseteq> set (plan_ids (pg_plan g)) \<longrightarrow> length c \<le> length path)"
proof (cases "pg_order g = []")
  case True
  then have "plan_ids (pg_plan g) = []" using wf_graph_keys [OF g] by simp
  with True show ?thesis by (auto simp: critical_path_def Let_def dep_chain_def)
next
  case False
  let ?t = "cp_compute g" and ?xs = "concat (pg_level_ids g)"
  note inv = cp_compute_inv [OF g]
  have ids: "set ?xs = set (plan_ids (pg_plan g))" and ord: "set (pg_order g) = set ?xs"
    using wf_graph_levels(2) [OF g] wf_graph_keys [OF g] by simp_all
  have some: "\<exists>l. dget (fst ?t) n = Some l" if "n \<in> set ?xs" for n
    using cp_inv_Some [OF inv that] by metis
  have dom: "set (pg_order g) \<union> set_option None = set ?xs" by (simp only: ord) simp
  have "\<exists>l. dget (fst ?t) n = Some l" if "n \<in> set (pg_order g) \<union> set_option None" for n
    using that some unfolding dom by blast
  from cp_end_fold [OF this, of "pg_order g" None] False obtain e where
    e: "fold (cp_end_step (fst ?t)) (pg_order g) None = Some e" "e \<in> set ?xs"
      "\<forall>n \<in> set ?xs. \<forall>a b. dget (fst ?t) n = Some a \<longrightarrow> dget (fst ?t) e = Some b \<longrightarrow> a \<le> b"
    unfolding dom by blast
  from inv e(2) obtain l where l: "dget (fst ?t) e = Some l" "l \<le> length ?xs"
    by (rule cp_inv_Some) blast
  have "distinct (pg_order g)" using wf_graph_tables [OF g] by (simp add: dag_tables_def)
  then have "length ?xs = length (pg_order g)"
    using wf_graph_levels(1) [OF g] ord by (metis distinct_card)
  with l have fuel: "l \<le> length (pg_order g)" by simp
  have closed: "set (adj (pg_deps g) n) \<subseteq> set ?xs" if "n \<in> set ?xs" for n
    using tables.preds_closed [OF wf_graph_tables [OF g], of n] that ord by simp
  from cp_walk_chain [OF inv closed e(2) l(1) fuel] obtain path where
    p: "cp_walk (length (pg_order g)) (snd ?t) e = Some path" "length path = l"
      "dep_chain (pg_deps g) path" "set path \<subseteq> set ?xs" by blast
  have "length c \<le> length path" if "dep_chain (pg_deps g) c" "set c \<subseteq> set ?xs" for c
  proof (cases "c = []")
    case False
    from cp_chain_bound [OF inv False that] obtain k where "dget (fst ?t) (last c) = Some k" "length c \<le> k"
      by blast
    moreover have "last c \<in> set ?xs" using that(2) last_in_set [OF False] by (rule subsetD)
    ultimately show ?thesis using e(3) l(1) p(2) by fastforce
  qed simp
  moreover have "critical_path g = Some path"
    using e(1) p(1) by (simp add: critical_path_def Let_def)
  ultimately show ?thesis using p ids by auto
qed

section \<open>Facts the graph properties share\<close>

lemma plan_accepted_cycle:
  assumes "build_graph p = Inl (CycleDetected c)"
  shows "distinct (plan_ids p) \<and> \<not> acyclic (plan_dep_edges p)
    \<and> (\<forall>n \<in> set (pl_nodes p). set (ns_depends_on n) \<subseteq> set (plan_ids p))"
  using build_graph_cases [of p] assms unfolding valid_plan_def by force

lemma levels_spec_nth:
  assumes "ls = levels_spec order deps finished" and "i < length ls"
  shows "ls ! i = filter (\<lambda>n. n \<notin> set (finished @ concat (take i ls))
      \<and> set (adj deps n) \<subseteq> set (finished @ concat (take i ls))) order \<and> ls ! i \<noteq> []"
  using assms
proof (induction order deps finished arbitrary: ls i rule: levels_spec.induct)
  case (1 order deps finished)
  let ?l = "filter (\<lambda>n. n \<notin> set finished \<and> set (adj deps n) \<subseteq> set finished) order"
  show ?case
  proof (cases "?l = []")
    case True
    with 1(2,3) levels_spec_Nil [of finished deps order] show ?thesis by simp
  next
    case False
    with 1(2) levels_spec_Cons [OF refl False] have ls: "ls = ?l # levels_spec order deps (finished @ ?l)"
      by simp
    show ?thesis
    proof (cases i)
      case 0
      with ls False show ?thesis by simp
    next
      case (Suc j)
      have "j < length (levels_spec order deps (finished @ ?l))" using 1(3) ls Suc by simp
      from 1(1) [OF refl False refl this] show ?thesis
        unfolding ls Suc nth_Cons_Suc take_Suc_Cons concat.simps append_assoc .
    qed
  qed
qed

lemma ready_ids:
  assumes g: "wf_graph g" and c: "set completed \<subseteq> set (plan_ids (pg_plan g))"
  shows "map_sum id (map ns_id) (ready g completed) =
     Inr (filter (\<lambda>n. n \<notin> set completed \<and> set (adj (pg_deps g) n) \<subseteq> set completed)
       (plan_ids (pg_plan g)))"
  unfolding ready_eq [OF g c] plan_ids_def filter_map
  using wf_graph_adj [OF g] by (auto intro!: arg_cong [where f = "map ns_id"] filter_cong)

lemma set_concat_take_subset: "set (concat (take i ls)) \<subseteq> set (concat ls)"
  using in_set_takeD by fastforce

lemma subgraph_nodes:
  assumes g: "wf_graph g" and c: "set ids \<subseteq> set (plan_ids (pg_plan g))"
  obtains q where "subgraph g ids = Inr q"
    and "pl_nodes q = map (\<lambda>n. n\<lparr>ns_depends_on := filter (\<lambda>d. d \<in> set ids) (adj (pg_deps g) (ns_id n))\<rparr>)
           (filter (\<lambda>n. ns_id n \<in> set ids) (pl_nodes (pg_plan g)))"
proof -
  have nodes: "pg_nodes g = map (\<lambda>n. (ns_id n, n)) (pl_nodes (pg_plan g))"
    using g by (simp add: wf_graph_def)
  have "sort (uniq (filter (\<lambda>c. c \<notin> set (dkeys (pg_nodes g))) ids)) = []"
    unfolding sort_uniq_Nil_iff using c wf_graph_keys [OF g] by auto
  then show thesis
    by (intro that) (auto simp: subgraph_def Let_def nodes filter_map comp_def)
qed

end
