(* ===== verification/GraphProps.thy ===== *)
theory GraphProps
  imports GraphPaths
begin

text \<open>
  What the planner and the executor rely on, stated over the operations of \<open>PlanGraph\<close> alone: which
  plans are accepted, what a reported cycle is, that the ready set never runs dry before the plan
  is finished, that the levels are the successive ready sets, what goes stale, which plan
  \<open>subgraph\<close> carves out and how long a run must be.
\<close>

section \<open>A sample plan\<close>

definition sample_node :: "string \<Rightarrow> string list \<Rightarrow> node_spec" where
  "sample_node i ds = node_default\<lparr>ns_id := i, ns_depends_on := ds\<rparr>"

definition sample_plan :: plan where
  "sample_plan = \<lparr>pl_nodes = [sample_node ''a'' [], sample_node ''b'' [''a''],
      sample_node ''c'' [''a'', ''a''], sample_node ''d'' [''b'', ''c'']],
     pl_version = 1, pl_rationale = [], pl_supersedes = None\<rparr>"

definition cyclic_plan :: plan where
  "cyclic_plan = \<lparr>pl_nodes = [sample_node ''a'' [''c''], sample_node ''b'' [''a''],
      sample_node ''c'' [''b'']],
     pl_version = 1, pl_rationale = [], pl_supersedes = None\<rparr>"

lemma sample_accepted: "case build_graph sample_plan of Inl e \<Rightarrow> False | Inr g \<Rightarrow> True"
  by code_simp

lemma sample_graph: "\<exists>g. build_graph sample_plan = Inr g"
  using sample_accepted by (cases "build_graph sample_plan") auto

lemma sample_ids [simp]: "plan_ids sample_plan = [''a'', ''b'', ''c'', ''d'']"
  by (simp add: plan_ids_def sample_plan_def sample_node_def)

lemma cyclic_report: "build_graph cyclic_plan = Inl (CycleDetected [''a'', ''b'', ''c'', ''a''])"
  by code_simp

section \<open>Acceptance\<close>

text \<open>
  C2: The constructor accepts exactly the valid plans: ids distinct, every dependency a node of
  the plan, and the dependency relation acyclic. Whatever the plan, it never fails with an
  internal \<open>KeyError\<close>, a query error or a cycle that is not there.
\<close>

theorem plan_accepted_iff_valid:
  "((\<exists>g. build_graph p = Inr g) \<longleftrightarrow> valid_plan p)
   \<and> ((\<exists>i. build_graph p = Inl (DuplicateId i)) \<longleftrightarrow> \<not> distinct (plan_ids p))
   \<and> ((\<exists>n d. build_graph p = Inl (UnknownDependency n d)) \<longleftrightarrow>
        distinct (plan_ids p) \<and> (\<exists>n \<in> set (pl_nodes p). \<not> set (ns_depends_on n) \<subseteq> set (plan_ids p)))
   \<and> ((\<exists>c. build_graph p = Inl (CycleDetected c)) \<longleftrightarrow>
        distinct (plan_ids p)
        \<and> \<not> (\<exists>n \<in> set (pl_nodes p). \<not> set (ns_depends_on n) \<subseteq> set (plan_ids p))
        \<and> \<not> acyclic (plan_dep_edges p))"
proof -
  note c = build_graph_cases [of p]
  consider "valid_plan p" | "\<not> distinct (plan_ids p)"
    | "distinct (plan_ids p)" "\<not> (\<forall>n \<in> set (pl_nodes p). set (ns_depends_on n) \<subseteq> set (plan_ids p))"
    | "distinct (plan_ids p)" "\<forall>n \<in> set (pl_nodes p). set (ns_depends_on n) \<subseteq> set (plan_ids p)"
      "\<not> acyclic (plan_dep_edges p)"
    unfolding valid_plan_def by blast
  then show ?thesis
  proof cases
    case 1
    with c obtain g where "build_graph p = Inr g" by blast
    with 1 show ?thesis by (simp add: valid_plan_def)
  next
    case 2
    with c obtain i where "build_graph p = Inl (DuplicateId i)" by blast
    with 2 show ?thesis by (simp add: valid_plan_def)
  next
    case 3
    with c obtain n d where "build_graph p = Inl (UnknownDependency n d)" by blast
    with 3 show ?thesis unfolding valid_plan_def by auto
  next
    case 4
    with c obtain cyc where "build_graph p = Inl (CycleDetected cyc)" by blast
    with 4 show ?thesis unfolding valid_plan_def by auto
  qed
qed

text \<open>
  A reported cycle is a real one, in execution order: it closes on its first node, and every
  node on it is a node of the plan that declares the node before it as a dependency.
\<close>

theorem reported_cycle_is_real:
  assumes "build_graph p = Inl (CycleDetected c)"
  shows "2 \<le> length c \<and> hd c = last c
    \<and> (\<forall>i < length c - 1. (c ! Suc i, c ! i) \<in> plan_dep_edges p)"
proof -
  have d: "distinct (plan_ids p)"
    and closed: "\<forall>n \<in> set (pl_nodes p). set (ns_depends_on n) \<subseteq> set (plan_ids p)"
    and "\<not> acyclic (plan_dep_edges p)"
    using plan_accepted_cycle [OF assms] by blast+
  with build_graph_cases [of p] assms have "dep_cycle (deps_table (declared_deps p) (plan_ids p)) c"
    by auto
  then show ?thesis
    by (auto simp: dep_cycle_def dep_edges_table [OF d] successively_conv_nth)
qed

theorem reported_cycle_is_real_witness:
  "(''a'', ''c'') \<in> plan_dep_edges cyclic_plan"
  using reported_cycle_is_real [OF cyclic_report] by (auto simp: nth_Cons' numeral_nat dest: spec [of _ 2])

section \<open>Scheduling\<close>

text \<open>
  C3: The scheduler never deadlocks: as long as some node of an accepted plan is not completed,
  \<open>ready\<close> offers at least one, and everything it offers is an unfinished node of the plan whose
  dependencies have all completed.
\<close>

theorem ready_progress:
  assumes "build_graph p = Inr g" and "set completed \<subset> set (plan_ids p)"
  shows "\<exists>ns. ready g completed = Inr ns \<and> ns \<noteq> []
    \<and> (\<forall>n \<in> set ns. n \<in> set (pl_nodes p) \<and> ns_id n \<notin> set completed
          \<and> set (ns_depends_on n) \<subseteq> set completed)"
proof -
  from build_graph_Inr [OF assms(1)] have g: "wf_graph g" "pg_plan g = p" by simp_all
  from ready_nonempty [OF g(1)] assms(2) g(2) obtain ns where ns: "ready g completed = Inr ns" "ns \<noteq> []"
    by metis
  with ready_eq [OF g(1), of completed] assms(2) g(2) show ?thesis by auto
qed

theorem ready_progress_witness:
  "\<exists>g ns. build_graph sample_plan = Inr g \<and> ready g [''a''] = Inr ns \<and> ns \<noteq> []"
  using sample_graph ready_progress [of sample_plan _ "[''a'']"] by fastforce

text \<open>
  C10: The levels are the successive ready sets. Every node is in exactly one level, and level \<open>i\<close> is
  what \<open>ready\<close> answers, in plan order, when exactly the earlier levels have completed: Kahn's
  counting loop computes the batches the scheduler would see.
\<close>

theorem levels_are_ready_sets:
  assumes "build_graph p = Inr g"
  shows "distinct (concat (pg_level_ids g)) \<and> set (concat (pg_level_ids g)) = set (plan_ids p)
    \<and> (\<forall>i < length (pg_level_ids g).
         map_sum id (map ns_id) (ready g (concat (take i (pg_level_ids g)))) = Inr (pg_level_ids g ! i)
         \<and> pg_level_ids g ! i \<noteq> [])"
proof -
  from build_graph_Inr [OF assms] have g: "wf_graph g" "pg_plan g = p" by simp_all
  then have lv: "pg_level_ids g = levels_spec (plan_ids p) (pg_deps g) []"
    using wf_graph_keys [OF g(1)] unfolding wf_graph_def by argo
  have ids: "set (concat (pg_level_ids g)) = set (plan_ids p)" using wf_graph_levels(2) [OF g(1)] g(2) by simp
  have "map_sum id (map ns_id) (ready g (concat (take i (pg_level_ids g)))) = Inr (pg_level_ids g ! i)
      \<and> pg_level_ids g ! i \<noteq> []" if "i < length (pg_level_ids g)" for i
  proof -
    have sub: "set (concat (take i (pg_level_ids g))) \<subseteq> set (plan_ids (pg_plan g))"
      using set_concat_take_subset [of i "pg_level_ids g"] ids g(2) by simp
    from levels_spec_nth [OF lv that] show ?thesis
      unfolding ready_ids [OF g(1) sub] g(2) append_Nil by metis
  qed
  with wf_graph_levels(1) [OF g(1)] ids show ?thesis by blast
qed

theorem levels_are_ready_sets_witness:
  "\<exists>g. build_graph sample_plan = Inr g \<and> set (concat (pg_level_ids g)) = {''a'', ''b'', ''c'', ''d''}"
  using sample_graph levels_are_ready_sets [of sample_plan] by fastforce

section \<open>Staleness and extraction\<close>

text \<open>
  C11: When a node's output changes, \<open>mark_stale\<close> is exactly the node and everything that depends on
  it, directly or through other nodes; \<open>ancestors\<close> and \<open>descendants\<close> are converse closures and never
  contain the node itself. An id that is not in the plan is refused by all three.
\<close>

theorem staleness_is_transitive_closure:
  assumes "build_graph p = Inr g" and "n \<in> set (plan_ids p)"
  shows "mark_stale g n = Inr {m. (m, n) \<in> (plan_dep_edges p)\<^sup>*}
    \<and> descendants g n = Inr {m. (m, n) \<in> (plan_dep_edges p)\<^sup>+}
    \<and> ancestors g n = Inr {m. (n, m) \<in> (plan_dep_edges p)\<^sup>+}
    \<and> (n, n) \<notin> (plan_dep_edges p)\<^sup>+"
proof -
  from build_graph_Inr [OF assms(1)] have g: "wf_graph g" "pg_plan g = p" "valid_plan p" by simp_all
  note d = descendants_eq [OF g(1)] and a = ancestors_eq [OF g(1)]
  have "mark_stale g n = Inr (insert n {m. (m, n) \<in> (plan_dep_edges p)\<^sup>+})"
    using d [of n] assms(2) g(2) by (simp add: mark_stale_def)
  moreover have "insert n {m. (m, n) \<in> (plan_dep_edges p)\<^sup>+} = {m. (m, n) \<in> (plan_dep_edges p)\<^sup>*}"
    by (auto simp: rtrancl_eq_or_trancl)
  ultimately show ?thesis
    using d [of n] a [of n] assms(2) g(2,3) by (simp add: valid_plan_def acyclic_def)
qed

theorem staleness_is_transitive_closure_witness:
  "\<exists>g. build_graph sample_plan = Inr g
     \<and> mark_stale g ''b'' = Inr {m. (m, ''b'') \<in> (plan_dep_edges sample_plan)\<^sup>*}"
  using sample_graph staleness_is_transitive_closure [of sample_plan _ "''b''"] by auto

text \<open>
  \<open>subgraph\<close> carves out a plan that can be built again: its nodes are the chosen ones in plan
  order, its edges the edges of the plan inside the chosen set, and it is valid.
\<close>

theorem subgraph_is_valid_plan:
  assumes "build_graph p = Inr g" and "set ids \<subseteq> set (plan_ids p)"
  shows "\<exists>q. subgraph g ids = Inr q \<and> valid_plan q
    \<and> plan_ids q = filter (\<lambda>i. i \<in> set ids) (plan_ids p)
    \<and> plan_dep_edges q = plan_dep_edges p \<inter> (set ids \<times> set ids)"
proof -
  from build_graph_Inr [OF assms(1)] have g: "wf_graph g" "pg_plan g = p" "valid_plan p" by simp_all
  let ?f = "\<lambda>n. n\<lparr>ns_depends_on := filter (\<lambda>d. d \<in> set ids) (adj (pg_deps g) (ns_id n))\<rparr>"
  let ?ns = "map ?f (filter (\<lambda>n. ns_id n \<in> set ids) (pl_nodes p))"
  obtain q where q: "subgraph g ids = Inr q" "pl_nodes q = ?ns"
    using subgraph_nodes [OF g(1), of ids, unfolded g(2), OF assms(2)] by blast
  have ids_q: "plan_ids q = filter (\<lambda>i. i \<in> set ids) (plan_ids p)"
    by (simp add: plan_ids_def q(2) filter_map comp_def)
  have nodes: "pl_nodes q = map (\<lambda>n. n\<lparr>ns_depends_on := filter (\<lambda>d. d \<in> set ids) (uniq (ns_depends_on n))\<rparr>)
      (filter (\<lambda>n. ns_id n \<in> set ids) (pl_nodes p))"
    unfolding q(2) using wf_graph_adj [OF g(1)] g(2) by (intro map_cong) auto
  have edges: "plan_dep_edges q = plan_dep_edges p \<inter> (set ids \<times> set ids)"
  proof (intro set_eqI)
    fix e :: "string \<times> string"
    have "e \<in> plan_dep_edges q \<longleftrightarrow> (\<exists>n \<in> set (pl_nodes q). fst e = ns_id n \<and> snd e \<in> set (ns_depends_on n))"
      by (cases e) (auto simp: plan_dep_edges_def)
    also have "\<dots> \<longleftrightarrow> e \<in> plan_dep_edges p \<inter> (set ids \<times> set ids)"
      unfolding nodes by (cases e) (auto simp: plan_dep_edges_def)
    finally show "e \<in> plan_dep_edges q \<longleftrightarrow> e \<in> plan_dep_edges p \<inter> (set ids \<times> set ids)" .
  qed
  have "\<forall>n \<in> set (pl_nodes q). set (ns_depends_on n) \<subseteq> set (plan_ids q)"
    unfolding q(2) ids_q using assms(2) by auto
  moreover have "distinct (plan_ids q)" using g(3) by (simp add: ids_q valid_plan_def)
  moreover have "acyclic (plan_dep_edges q)"
    using g(3) acyclic_subset [of "plan_dep_edges p" "plan_dep_edges q"] edges
    by (simp add: valid_plan_def)
  ultimately show ?thesis using q(1) ids_q edges by (simp add: valid_plan_def)
qed

theorem subgraph_is_valid_plan_witness:
  "\<exists>g q. build_graph sample_plan = Inr g \<and> subgraph g [''b'', ''d''] = Inr q \<and> valid_plan q"
  using sample_graph subgraph_is_valid_plan [of sample_plan _ "[''b'', ''d'']"] by fastforce

text \<open>
  C12: \<open>critical_path\<close> always returns, and what it returns is a dependency chain of the plan at least
  as long as every other one.
\<close>

theorem critical_path_is_longest:
  assumes "build_graph p = Inr g"
  shows "\<exists>path. critical_path g = Some path
    \<and> successively (\<lambda>a b. (b, a) \<in> plan_dep_edges p) path \<and> set path \<subseteq> set (plan_ids p)
    \<and> (\<forall>c. successively (\<lambda>a b. (b, a) \<in> plan_dep_edges p) c \<longrightarrow> set c \<subseteq> set (plan_ids p)
          \<longrightarrow> length c \<le> length path)"
proof -
  from build_graph_Inr [OF assms] have g: "wf_graph g" "pg_plan g = p" by simp_all
  have "dep_chain (pg_deps g) c \<longleftrightarrow> successively (\<lambda>a b. (b, a) \<in> plan_dep_edges p) c" for c
  proof -
    have "a \<in> set (adj (pg_deps g) b) \<longleftrightarrow> (b, a) \<in> plan_dep_edges p" for a b
      using wf_graph_dep_edges [OF g(1)] g(2) by (auto simp: dep_edges_def)
    then show ?thesis by (simp only: dep_chain_def)
  qed
  with critical_path_spec [OF g(1)] g(2) show ?thesis by simp
qed

theorem critical_path_is_longest_witness:
  "\<exists>g path. build_graph sample_plan = Inr g \<and> critical_path g = Some path \<and> 1 \<le> length path"
proof -
  obtain g where g: "build_graph sample_plan = Inr g" using sample_graph by blast
  from critical_path_is_longest [OF this] obtain path where p: "critical_path g = Some path"
    and "\<forall>c. successively (\<lambda>a b. (b, a) \<in> plan_dep_edges sample_plan) c \<longrightarrow>
      set c \<subseteq> set (plan_ids sample_plan) \<longrightarrow> length c \<le> length path" by blast
  then have "length [''a''] \<le> length path" by (metis sample_ids insert_iff list.set(2) successively.simps(2)
        empty_subsetI insert_subset list.set(1))
  with g p show ?thesis by auto
qed

section \<open>A collision in the mermaid identifiers\<close>

text \<open>
  \<open>_mermaid_ids\<close> documents its identifiers as unique. They are not: a renamed identifier is not
  checked against the ones already taken, so three distinct ids of an accepted plan can share a
  mermaid name.
\<close>

theorem mermaid_ids_collide:
  "(let ids = [''a_b_2'', ''a-b'', ''a.b''] in
     distinct ids \<and> dget (mermaid_ids ids) ''a.b'' = dget (mermaid_ids ids) ''a_b_2'')"
  by code_simp

end
