(* ===== verification/Planner.thy ===== *)
theory Planner
  imports GraphPaths
begin

text \<open>
  \<^verbatim>\<open>keel/planner.py\<close>: the deterministic derivation of the first plan from the analysed problem, and
  its revisions. \<open>caps\<close> is the set of skill ids discovered from Agent Cards (\<open>None\<close>: no restriction)
  and \<open>fmt2\<close> the \<open>.2f\<close> rendering of the confidence, which only enters the rationale.
\<close>

section \<open>Node ids\<close>

abbreviation IMPACT :: string where "IMPACT \<equiv> ''impact-analysis''"
abbreviation DESIGN :: string where "DESIGN \<equiv> ''design''"
abbreviation IMPLEMENT :: string where "IMPLEMENT \<equiv> ''implement''"
abbreviation AUTHOR_TESTS :: string where "AUTHOR_TESTS \<equiv> ''author-tests''"
abbreviation DOCUMENT :: string where "DOCUMENT \<equiv> ''document''"
abbreviation VERIFY :: string where "VERIFY \<equiv> ''verify''"
abbreviation REVIEW :: string where "REVIEW \<equiv> ''review''"
abbreviation RELEASE :: string where "RELEASE \<equiv> ''release-check''"
abbreviation REFACTOR :: string where "REFACTOR \<equiv> ''refactor-seam''"

record revision_request =
  rr_reason :: string
  rr_add :: "node_spec list"
  rr_remove :: "string set"
  rr_rewire :: "(string, string list) dict"

datatype planner_error = NotSliceable json

section \<open>The initial plan\<close>

definition available :: "string set option \<Rightarrow> stage_kind \<Rightarrow> bool" where
  "available caps kind = (case caps of None \<Rightarrow> True | Some cs \<Rightarrow> sk_value kind \<in> cs)"

definition impact_node :: node_spec where
  "impact_node = node_default\<lparr>ns_id := IMPACT, ns_kind := ANALYZE,
     ns_description := ''Identify impacted modules, routes and data flows.'',
     ns_skill_id := sk_value ANALYZE, ns_model_tier := DEEP,
     ns_entry_rules := [''existing_code_present''], ns_exit_rules := [''impact_surface_identified''],
     ns_produces := [''impact.json''], ns_rollback := False\<rparr>"

definition design_node :: "string list \<Rightarrow> node_spec" where
  "design_node design_deps = node_default\<lparr>ns_id := DESIGN, ns_kind := DESIGN_STAGE,
     ns_description := ''API surface, data model, and the trade-offs behind them.'',
     ns_depends_on := design_deps, ns_skill_id := sk_value DESIGN_STAGE, ns_model_tier := DEEP,
     ns_exit_rules := [''endpoints_defined'', ''redirect_status_justified''],
     ns_produces := [''design.json''], ns_rollback := False\<rparr>"

definition implement_node :: "bool \<Rightarrow> node_spec" where
  "implement_node brownfield = node_default\<lparr>ns_id := IMPLEMENT, ns_kind := IMPLEMENT_STAGE,
     ns_description := ''Generate the service source.'', ns_depends_on := [DESIGN],
     ns_skill_id := sk_value IMPLEMENT_STAGE, ns_model_tier := DEEP,
     ns_impact := (if brownfield then IMPACT_HIGH else IMPACT_MEDIUM),
     ns_retry := default_retry\<lparr>rp_max_attempts := 2, rp_fallback_hint := Some ''simplify_scope''\<rparr>,
     ns_entry_rules := [''design_available''],
     ns_exit_rules := [''files_written'', ''no_secrets'', ''no_destructive_ops''],
     ns_produces := [''app source files'']\<rparr>"

definition author_tests_node :: node_spec where
  "author_tests_node = node_default\<lparr>ns_id := AUTHOR_TESTS, ns_kind := TEST_STAGE,
     ns_description := ''Write tests from the design, including security cases.'',
     ns_depends_on := [DESIGN], ns_skill_id := sk_value TEST_STAGE, ns_model_tier := DEEP,
     ns_entry_rules := [''design_available''], ns_exit_rules := [''files_written''],
     ns_produces := [''test files'']\<rparr>"

definition document_node :: node_spec where
  "document_node = node_default\<lparr>ns_id := DOCUMENT, ns_kind := DOCUMENT_STAGE,
     ns_description := ''README and security posture for the generated service.'',
     ns_depends_on := [DESIGN], ns_skill_id := sk_value DOCUMENT_STAGE, ns_model_tier := FAST,
     ns_produces := [''README.md'']\<rparr>"

definition verify_node :: node_spec where
  "verify_node = node_default\<lparr>ns_id := VERIFY, ns_kind := TEST_STAGE,
     ns_description := ''Actually run the generated test suite against the code.'',
     ns_depends_on := [IMPLEMENT, AUTHOR_TESTS], ns_skill_id := sk_value TEST_STAGE,
     ns_model_tier := FAST, ns_retry := default_retry\<lparr>rp_max_attempts := 0\<rparr>,
     ns_entry_rules := [''code_and_tests_present''],
     ns_exit_rules := [''tests_executed'', ''tests_passed''],
     ns_produces := [''verify.json''], ns_rollback := False\<rparr>"

definition review_node :: node_spec where
  "review_node = node_default\<lparr>ns_id := REVIEW, ns_kind := REVIEW_STAGE,
     ns_description := ''Adversarial review of the generated code.'', ns_depends_on := [VERIFY],
     ns_skill_id := sk_value REVIEW_STAGE, ns_model_tier := DEEP,
     ns_exit_rules := [''no_critical_findings''], ns_produces := [''review.json''],
     ns_rollback := False\<rparr>"

definition release_node_spec :: "string list \<Rightarrow> node_spec" where
  "release_node_spec release_deps = node_default\<lparr>ns_id := RELEASE, ns_kind := RELEASE_CHECK,
     ns_description := ''Release readiness against the acceptance criteria.'',
     ns_depends_on := release_deps, ns_skill_id := sk_value RELEASE_CHECK, ns_model_tier := FAST,
     ns_produces := [''release.json''], ns_rollback := False\<rparr>"

definition rationale :: "(pfloat \<Rightarrow> string) \<Rightarrow> engineering_problem \<Rightarrow> bool \<Rightarrow> string" where
  "rationale fmt2 problem brownfield =
     str_join '' ''
       ([''Scenario: '' @ sc_value (ep_scenario problem) @ ''.'',
         ''Analyst confidence: '' @ fmt2 (ep_confidence problem) @ ''.'',
         ''Implementation, test authoring and documentation are independent given the '' @
         ''design, so they run concurrently; verification joins them.'']
        @ (if brownfield
           then [''Brownfield change touches an existing public surface, so implementation '' @
                 ''is marked high impact and requires human approval before it runs.'']
           else []))"

definition build :: "string set option \<Rightarrow> (pfloat \<Rightarrow> string) \<Rightarrow> engineering_problem \<Rightarrow> plan" where
  "build caps fmt2 problem =
     (let brownfield = (ep_scenario problem = BROWNFIELD);
          with_impact = (brownfield \<and> available caps ANALYZE);
          design_deps = (if with_impact then [IMPACT] else []);
          release_deps = [REVIEW] @ (if available caps DOCUMENT_STAGE then [DOCUMENT] else [])
      in \<lparr>pl_nodes =
            (if with_impact then [impact_node] else [])
            @ [design_node design_deps, implement_node brownfield, author_tests_node]
            @ (if available caps DOCUMENT_STAGE then [document_node] else [])
            @ [verify_node, review_node, release_node_spec release_deps],
          pl_version = 1, pl_rationale = rationale fmt2 problem brownfield, pl_supersedes = None\<rparr>)"

section \<open>Revision\<close>

definition revise_node :: "revision_request \<Rightarrow> node_spec \<Rightarrow> node_spec" where
  "revise_node req node =
     (case dget (rr_rewire req) (ns_id node) of
        Some ds \<Rightarrow> node\<lparr>ns_depends_on := ds\<rparr>
      | None \<Rightarrow>
          (let deps = filter (\<lambda>d. d \<notin> rr_remove req) (ns_depends_on node)
           in if deps \<noteq> ns_depends_on node then node\<lparr>ns_depends_on := deps\<rparr> else node))"

definition revise :: "plan \<Rightarrow> revision_request \<Rightarrow> plan" where
  "revise p req =
     \<lparr>pl_nodes = map (revise_node req) (filter (\<lambda>n. ns_id n \<notin> rr_remove req) (pl_nodes p)) @ rr_add req,
      pl_version = pl_version p + 1, pl_rationale = rr_reason req,
      pl_supersedes = Some (pl_version p)\<rparr>"

text \<open>\<open>findings[:5]\<close> of an evidence value: lists and strings slice, everything else raises.\<close>

definition slice5 :: "json \<Rightarrow> planner_error + json list" where
  "slice5 v = (case v of
      JArr xs \<Rightarrow> Inr (take 5 xs)
    | JStr s \<Rightarrow> Inr (map (\<lambda>c. JStr [c]) (take 5 s))
    | _ \<Rightarrow> Inl (NotSliceable v))"

definition evidence_get :: "(string, json) dict \<Rightarrow> string \<Rightarrow> json" where
  "evidence_get evidence k = (case dget evidence k of None \<Rightarrow> JNull | Some v \<Rightarrow> v)"

definition seam_node :: "string \<Rightarrow> node_spec" where
  "seam_node impacted = node_default\<lparr>ns_id := REFACTOR, ns_kind := IMPLEMENT_STAGE,
     ns_description := ''Introduce the extension point the change requires. '' @
       ''Impacted: '' @ (if impacted = [] then ''unspecified'' else impacted),
     ns_depends_on := [DESIGN], ns_skill_id := sk_value IMPLEMENT_STAGE, ns_model_tier := DEEP,
     ns_impact := IMPACT_HIGH, ns_entry_rules := [''design_available''],
     ns_exit_rules := [''files_written'', ''no_secrets''],
     ns_produces := [''refactored source files'']\<rparr>"

definition seam_request :: "string \<Rightarrow> revision_request" where
  "seam_request impacted =
     \<lparr>rr_reason = ''Impact analysis found no extension point for the requested change, '' @
        ''so the original plan would have implemented against a seam that does '' @
        ''not exist. Inserting a refactor stage ahead of implementation.'',
      rr_add = [seam_node impacted], rr_remove = {}, rr_rewire = [(IMPLEMENT, [DESIGN, REFACTOR])]\<rparr>"

definition revise_from_evidence ::
  "(real \<Rightarrow> string) \<Rightarrow> plan \<Rightarrow> (string, json) dict \<Rightarrow> planner_error + plan option" where
  "revise_from_evidence fr p evidence =
     (let raw = evidence_get evidence ''impacted_modules'';
          findings = (if truthy raw then raw else JArr []);
          needs_seam = truthy (evidence_get evidence ''missing_extension_point'')
      in if \<not> needs_seam \<or> REFACTOR \<in> plan_node_ids p then Inr None
         else case slice5 findings of
                Inl e \<Rightarrow> Inl e
              | Inr fs \<Rightarrow> Inr (Some (revise p (seam_request (str_join '', '' (map (py_str fr) fs))))))"

section \<open>Validity by a rank\<close>

text \<open>A plan whose dependencies have smaller rank than the nodes that declare them is acyclic.\<close>

lemma acyclic_by_rank:
  fixes f :: "string \<Rightarrow> nat"
  assumes "\<And>n d. n \<in> set (pl_nodes p) \<Longrightarrow> d \<in> set (ns_depends_on n) \<Longrightarrow> f d < f (ns_id n)"
  shows "acyclic (plan_dep_edges p)"
proof (rule acyclic_subset)
  show "plan_dep_edges p \<subseteq> (measure f)\<inverse>" using assms by (auto simp: plan_dep_edges_def)
  have "acyclic (measure f)" by (rule wf_acyclic) simp
  then show "acyclic ((measure f)\<inverse>)" by simp
qed

definition build_rank :: "string \<Rightarrow> nat" where
  "build_rank i = (if i = IMPACT then 0 else if i = DESIGN then 1 else if i = REFACTOR then 2
     else if i = VERIFY then 4 else if i = REVIEW then 5 else if i = RELEASE then 6 else 3)"

lemmas node_defs = impact_node_def design_node_def implement_node_def author_tests_node_def
  document_node_def verify_node_def review_node_def release_node_spec_def seam_node_def node_default_def

lemma build_ids:
  "plan_ids (build caps fmt2 problem) =
     (if ep_scenario problem = BROWNFIELD \<and> available caps ANALYZE then [IMPACT] else [])
     @ [DESIGN, IMPLEMENT, AUTHOR_TESTS] @ (if available caps DOCUMENT_STAGE then [DOCUMENT] else [])
     @ [VERIFY, REVIEW, RELEASE]"
  by (simp add: build_def plan_ids_def node_defs Let_def)

lemma build_ranked:
  "list_all (\<lambda>n. list_all (\<lambda>d. build_rank d < build_rank (ns_id n)) (ns_depends_on n))
     (pl_nodes (build caps fmt2 problem))"
  by (simp add: build_def Let_def node_defs build_rank_def)

lemma build_closed:
  "list_all (\<lambda>n. list_all (\<lambda>d. d \<in> set (plan_ids (build caps fmt2 problem))) (ns_depends_on n))
     (pl_nodes (build caps fmt2 problem))"
  unfolding build_ids by (simp add: build_def Let_def node_defs)

lemma build_valid: "valid_plan (build caps fmt2 problem)"
proof -
  have "acyclic (plan_dep_edges (build caps fmt2 problem))"
    using build_ranked [of caps fmt2 problem]
    by (intro acyclic_by_rank [where f = build_rank]) (simp add: list_all_iff)
  moreover have "distinct (plan_ids (build caps fmt2 problem))" by (simp add: build_ids)
  moreover have "\<forall>n \<in> set (pl_nodes (build caps fmt2 problem)).
      set (ns_depends_on n) \<subseteq> set (plan_ids (build caps fmt2 problem))"
    using build_closed [of caps fmt2 problem] by (simp add: list_all_iff subset_iff)
  ultimately show ?thesis by (simp add: valid_plan_def)
qed

section \<open>What a revision keeps\<close>

lemma revise_node_id [simp]: "ns_id (revise_node req n) = ns_id n"
  by (simp add: revise_node_def Let_def split: option.splits)

lemma revise_ids:
  "plan_ids (revise p req) =
     filter (\<lambda>i. i \<notin> rr_remove req) (plan_ids p) @ map ns_id (rr_add req)"
  by (simp add: revise_def plan_ids_def filter_map comp_def)

lemma revise_node_deps:
  "ns_depends_on (revise_node req n) =
     (case dget (rr_rewire req) (ns_id n) of Some ds \<Rightarrow> ds
      | None \<Rightarrow> filter (\<lambda>d. d \<notin> rr_remove req) (ns_depends_on n))"
  by (auto simp: revise_node_def Let_def split: option.splits)

lemma revise_edges:
  "plan_dep_edges (revise p req) =
     {(i, d) \<in> plan_dep_edges p. i \<notin> rr_remove req \<and> d \<notin> rr_remove req \<and> dget (rr_rewire req) i = None}
     \<union> {(ns_id n, d) | n ds d. n \<in> set (pl_nodes p) \<and> ns_id n \<notin> rr_remove req
            \<and> dget (rr_rewire req) (ns_id n) = Some ds \<and> d \<in> set ds}
     \<union> {(ns_id n, d) | n d. n \<in> set (rr_add req) \<and> d \<in> set (ns_depends_on n)}"
  (is "?l = ?a \<union> ?b \<union> ?c")
proof (rule set_eqI)
  fix e :: "string \<times> string"
  have "e \<in> ?l \<longleftrightarrow> (\<exists>n \<in> set (pl_nodes (revise p req)). fst e = ns_id n \<and> snd e \<in> set (ns_depends_on n))"
    by (cases e) (auto simp: plan_dep_edges_def)
  also have "\<dots> \<longleftrightarrow> (\<exists>n \<in> set (pl_nodes p). ns_id n \<notin> rr_remove req \<and> fst e = ns_id n
        \<and> snd e \<in> set (ns_depends_on (revise_node req n)))
      \<or> (\<exists>n \<in> set (rr_add req). fst e = ns_id n \<and> snd e \<in> set (ns_depends_on n))"
    by (simp add: revise_def bex_Un) blast
  also have "\<dots> \<longleftrightarrow> e \<in> ?a \<union> ?b \<union> ?c"
    by (cases e) (auto simp: plan_dep_edges_def revise_node_deps split: option.splits)
  finally show "e \<in> ?l \<longleftrightarrow> e \<in> ?a \<union> ?b \<union> ?c" .
qed

text \<open>Adding one source-to-target path around a fresh node keeps a relation acyclic.\<close>

lemma acyclic_insert_detour:
  assumes "acyclic r" and "(a, b) \<notin> r\<^sup>*" and "\<And>x. (x, m) \<notin> r" and "\<And>x. (m, x) \<notin> r" and "m \<noteq> a" "m \<noteq> b"
  shows "acyclic (insert (b, a) (insert (b, m) (insert (m, a) r)))"
proof -
  have m1: "(x, m) \<in> r\<^sup>* \<Longrightarrow> x = m" for x
    by (erule rtranclE) (use assms(3) in auto)
  have m2: "(m, x) \<in> r\<^sup>* \<Longrightarrow> x = m" for x
    by (erule converse_rtranclE) (use assms(4) in auto)
  have "acyclic (insert (m, a) r)"
    using assms(1,5) m1 by (auto simp: acyclic_insert)
  moreover have "(m, b) \<notin> (insert (m, a) r)\<^sup>*"
    using assms(2,6) m2 by (auto simp: rtrancl_insert)
  ultimately have "acyclic (insert (b, m) (insert (m, a) r))"
    by (simp add: acyclic_insert)
  moreover have "(a, b) \<notin> (insert (m, a) r)\<^sup>*"
    using assms(2) m1 assms(5) by (auto simp: rtrancl_insert)
  moreover have "(a, b) \<notin> (insert (b, m) (insert (m, a) r))\<^sup>*"
    using \<open>(a, b) \<notin> (insert (m, a) r)\<^sup>*\<close> by (auto simp: rtrancl_insert [of b m])
  ultimately show ?thesis by (simp add: acyclic_insert)
qed

end
