(* ===== verification/PlannerProps.thy ===== *)
theory PlannerProps
  imports Planner
begin

text \<open>
  What the planner promises: every plan it derives or revises is one the graph accepts, a revision
  is linked to the version it replaces and happens at most once, verification waits for both the
  code and the tests, and code on an existing public surface is written only under approval.
\<close>

section \<open>The plans of a run\<close>

inductive pipeline_plan ::
  "(real \<Rightarrow> string) \<Rightarrow> string set option \<Rightarrow> (pfloat \<Rightarrow> string) \<Rightarrow> engineering_problem \<Rightarrow> plan \<Rightarrow> bool"
  for fr caps fmt2 problem where
  initial: "pipeline_plan fr caps fmt2 problem (build caps fmt2 problem)"
| revised: "pipeline_plan fr caps fmt2 problem p \<Longrightarrow> revise_from_evidence fr p evidence = Inr (Some q)
    \<Longrightarrow> pipeline_plan fr caps fmt2 problem q"

section \<open>The seam revision\<close>

lemma revise_from_evidence_Some:
  assumes "revise_from_evidence fr p evidence = Inr (Some q)"
  obtains impacted where "q = revise p (seam_request impacted)" and "REFACTOR \<notin> set (plan_ids p)"
  using assms
  by (auto simp: revise_from_evidence_def Let_def plan_node_ids_def plan_ids_def
      split: if_splits sum.splits)

lemma seam_node_sel [simp]:
  "ns_id (seam_node t) = REFACTOR" "ns_kind (seam_node t) = IMPLEMENT_STAGE"
  "ns_depends_on (seam_node t) = [DESIGN]" "needs_approval (seam_node t)"
  by (simp_all add: seam_node_def needs_approval_def)

lemma seam_nodes [simp]:
  "pl_nodes (revise p (seam_request t)) = map (revise_node (seam_request t)) (pl_nodes p) @ [seam_node t]"
  by (simp add: revise_def seam_request_def)

lemma seam_ids: "plan_ids (revise p (seam_request t)) = plan_ids p @ [REFACTOR]"
  by (simp add: revise_ids seam_request_def node_defs)

lemma seam_node_deps:
  "ns_depends_on (revise_node (seam_request t) n) =
     (if ns_id n = IMPLEMENT then [DESIGN, REFACTOR] else ns_depends_on n)"
  by (simp add: revise_node_deps seam_request_def)

lemma seam_edges:
  "plan_dep_edges (revise p (seam_request t)) \<subseteq>
     insert (IMPLEMENT, DESIGN) (insert (IMPLEMENT, REFACTOR) (insert (REFACTOR, DESIGN) (plan_dep_edges p)))"
  by (auto simp: plan_dep_edges_def seam_node_deps split: if_splits)

lemma seam_plan_valid:
  assumes "valid_plan p" and "DESIGN \<in> set (plan_ids p)"
    and "(DESIGN, IMPLEMENT) \<notin> (plan_dep_edges p)\<^sup>+" and fresh: "REFACTOR \<notin> set (plan_ids p)"
  shows "valid_plan (revise p (seam_request t))"
proof -
  have closed: "(i, d) \<in> plan_dep_edges p \<Longrightarrow> i \<in> set (plan_ids p) \<and> d \<in> set (plan_ids p)" for i d
    using assms(1) by (auto simp: valid_plan_def plan_dep_edges_def plan_ids_def)
  have "acyclic (insert (IMPLEMENT, DESIGN) (insert (IMPLEMENT, REFACTOR) (insert (REFACTOR, DESIGN) (plan_dep_edges p))))"
  proof (rule acyclic_insert_detour)
    show "(DESIGN, IMPLEMENT) \<notin> (plan_dep_edges p)\<^sup>*"
      using assms(3) by (auto simp: rtrancl_eq_or_trancl)
    show "(x, REFACTOR) \<notin> plan_dep_edges p" "(REFACTOR, x) \<notin> plan_dep_edges p" for x
      using closed fresh by blast+
  qed (use assms(1) in \<open>simp_all add: valid_plan_def\<close>)
  then have "acyclic (plan_dep_edges (revise p (seam_request t)))"
    by (rule acyclic_subset [OF _ seam_edges])
  moreover have "\<forall>n \<in> set (pl_nodes (revise p (seam_request t))).
      set (ns_depends_on n) \<subseteq> set (plan_ids (revise p (seam_request t)))"
    using assms(1,2) by (auto simp: seam_ids seam_node_deps valid_plan_def split: if_splits)
  ultimately show ?thesis using assms(1) fresh by (simp add: seam_ids valid_plan_def)
qed

text \<open>
  C18: Inserting the refactor seam into a valid plan whose design does not itself wait for the
  implementation gives a valid plan again: it has exactly one more node, its version is the next
  one and names the plan it supersedes, and implementation now waits for design and seam.
\<close>

theorem seam_revision_valid:
  assumes "valid_plan p" and "DESIGN \<in> set (plan_ids p)"
    and "(DESIGN, IMPLEMENT) \<notin> (plan_dep_edges p)\<^sup>+"
    and "revise_from_evidence fr p evidence = Inr (Some q)"
  shows "valid_plan q \<and> plan_ids q = plan_ids p @ [REFACTOR]
    \<and> pl_version q = pl_version p + 1 \<and> pl_supersedes q = Some (pl_version p)
    \<and> (\<forall>n \<in> set (pl_nodes q). ns_id n = IMPLEMENT \<longrightarrow> ns_depends_on n = [DESIGN, REFACTOR])"
proof -
  from assms(4) obtain t where q: "q = revise p (seam_request t)" and fresh: "REFACTOR \<notin> set (plan_ids p)"
    by (rule revise_from_evidence_Some)
  have "valid_plan q" unfolding q by (rule seam_plan_valid [OF assms(1-3) fresh])
  then show ?thesis unfolding q by (auto simp: seam_ids seam_node_deps) (simp_all add: revise_def)
qed

section \<open>Invariants of every plan of a run\<close>

definition ranked :: "plan \<Rightarrow> bool" where
  "ranked p \<longleftrightarrow> (\<forall>n \<in> set (pl_nodes p). \<forall>d \<in> set (ns_depends_on n). build_rank d < build_rank (ns_id n))"

lemma ranked_build: "ranked (build caps fmt2 problem)"
  using build_ranked [of caps fmt2 problem] by (simp add: ranked_def list_all_iff)

lemma ranked_seam: "ranked p \<Longrightarrow> ranked (revise p (seam_request t))"
proof -
  have "build_rank DESIGN = 1" "build_rank REFACTOR = 2" "build_rank IMPLEMENT = 3"
    by (simp_all add: build_rank_def)
  then show "ranked p \<Longrightarrow> ranked (revise p (seam_request t))"
    by (simp add: ranked_def seam_node_deps ball_Un)
qed

lemma ranked_trancl:
  assumes "(i, d) \<in> (plan_dep_edges p)\<^sup>+" and "ranked p"
  shows "build_rank d < build_rank i"
  using assms by (induction rule: trancl_induct) (fastforce simp: ranked_def plan_dep_edges_def)+

definition verify_barrier :: "plan \<Rightarrow> bool" where
  "verify_barrier p \<longleftrightarrow> {DESIGN, IMPLEMENT, AUTHOR_TESTS, VERIFY} \<subseteq> set (plan_ids p)
     \<and> (\<forall>n \<in> set (pl_nodes p). ns_id n = VERIFY \<longrightarrow> ns_depends_on n = [IMPLEMENT, AUTHOR_TESTS])"

definition code_approved :: "plan \<Rightarrow> bool" where
  "code_approved p \<longleftrightarrow> (\<forall>n \<in> set (pl_nodes p). ns_kind n = IMPLEMENT_STAGE \<longrightarrow> needs_approval n)"

lemma revise_node_kind [simp]:
  "ns_kind (revise_node req n) = ns_kind n" "ns_impact (revise_node req n) = ns_impact n"
  by (simp_all add: revise_node_def Let_def split: option.splits)

lemma verify_barrier_build: "verify_barrier (build caps fmt2 problem)"
proof -
  have "list_all (\<lambda>n. ns_id n = VERIFY \<longrightarrow> ns_depends_on n = [IMPLEMENT, AUTHOR_TESTS])
      (pl_nodes (build caps fmt2 problem))"
    by (simp add: build_def Let_def node_defs)
  then show ?thesis by (simp add: verify_barrier_def list_all_iff build_ids)
qed

lemma verify_barrier_seam: "verify_barrier p \<Longrightarrow> verify_barrier (revise p (seam_request t))"
  unfolding verify_barrier_def seam_ids by (auto simp: seam_node_deps)

lemma code_approved_build:
  assumes "ep_scenario problem = BROWNFIELD"
  shows "code_approved (build caps fmt2 problem)"
proof -
  have "list_all (\<lambda>n. ns_kind n = IMPLEMENT_STAGE \<longrightarrow> needs_approval n) (pl_nodes (build caps fmt2 problem))"
    using assms by (simp add: build_def Let_def node_defs needs_approval_def)
  then show ?thesis by (simp add: code_approved_def list_all_iff)
qed

lemma code_approved_seam: "code_approved p \<Longrightarrow> code_approved (revise p (seam_request t))"
  by (auto simp: code_approved_def) (simp add: needs_approval_def)

lemma pipeline_plan_ranked:
  "pipeline_plan fr caps fmt2 problem p \<Longrightarrow> ranked p \<and> verify_barrier p \<and> valid_plan p"
proof (induction rule: pipeline_plan.induct)
  case initial
  show ?case using ranked_build verify_barrier_build build_valid by blast
next
  case (revised p evidence q)
  then obtain t where q: "q = revise p (seam_request t)" and fresh: "REFACTOR \<notin> set (plan_ids p)"
    by (auto elim: revise_from_evidence_Some)
  have "(DESIGN, IMPLEMENT) \<notin> (plan_dep_edges p)\<^sup>+"
    using ranked_trancl [of DESIGN IMPLEMENT p] revised.IH by (auto simp: build_rank_def)
  moreover have "DESIGN \<in> set (plan_ids p)" using revised.IH by (simp add: verify_barrier_def)
  ultimately have "valid_plan q" unfolding q using seam_plan_valid revised.IH fresh by blast
  with q revised.IH ranked_seam verify_barrier_seam show ?case by blast
qed

text \<open>
  C13: Every plan of a run, however often it was revised, is accepted by the graph; a revision
  happens at most once, because the plan it produces is never revised again.
\<close>

theorem pipeline_plans_accepted:
  assumes "pipeline_plan fr caps fmt2 problem p"
  shows "(\<exists>g. build_graph p = Inr g)
    \<and> (\<forall>evidence q. revise_from_evidence fr p evidence = Inr (Some q) \<longrightarrow>
         (\<exists>g. build_graph q = Inr g) \<and> (\<forall>e. revise_from_evidence fr q e = Inr None))"
proof -
  have "\<exists>g. build_graph q = Inr g \<and> revise_from_evidence fr q e = Inr None"
    if "revise_from_evidence fr p evidence = Inr (Some q)" for evidence q e
  proof -
    from that obtain t where q: "q = revise p (seam_request t)" by (rule revise_from_evidence_Some)
    have "REFACTOR \<in> plan_node_ids q" using seam_ids [of p t] by (simp add: q plan_node_ids_def plan_ids_def)
    moreover have "valid_plan q" using pipeline_plan_ranked [OF pipeline_plan.revised [OF assms that]] by simp
    ultimately show ?thesis using build_graph_ok [of q] by (auto simp: revise_from_evidence_def Let_def)
  qed
  moreover have "\<exists>g. build_graph p = Inr g" using pipeline_plan_ranked [OF assms] build_graph_ok by blast
  ultimately show ?thesis by metis
qed

text \<open>
  In every plan of a run verification is a barrier: a ready \<open>verify\<close> node means that both the
  implementation and the authored tests have completed.
\<close>

theorem verify_waits_for_code_and_tests:
  assumes "pipeline_plan fr caps fmt2 problem p" and "build_graph p = Inr g"
    and "ready g completed = Inr ns" and "n \<in> set ns" and "ns_id n = VERIFY"
  shows "IMPLEMENT \<in> set completed \<and> AUTHOR_TESTS \<in> set completed \<and> VERIFY \<notin> set completed"
proof -
  from build_graph_Inr [OF assms(2)] have g: "wf_graph g" "pg_plan g = p" by simp_all
  have "set completed \<subseteq> set (plan_ids p)"
    using ready_error [OF g(1), of completed] assms(3) g(2) by auto
  with ready_eq [OF g(1), of completed] assms(3,4) g(2)
  have "n \<in> set (pl_nodes p)" "ns_id n \<notin> set completed" "set (ns_depends_on n) \<subseteq> set completed" by auto
  moreover have "verify_barrier p" using pipeline_plan_ranked [OF assms(1)] by simp
  ultimately show ?thesis using assms(5) by (auto simp: verify_barrier_def)
qed

text \<open>
  In a brownfield run no plan, initial or revised, contains an implementation stage that could
  start without human approval.
\<close>

theorem brownfield_code_needs_approval:
  assumes "ep_scenario problem = BROWNFIELD" and "pipeline_plan fr caps fmt2 problem p"
  shows "\<forall>n \<in> set (pl_nodes p). ns_kind n = IMPLEMENT_STAGE \<longrightarrow> needs_approval n"
proof -
  from assms(2) have "code_approved p"
  proof (induction rule: pipeline_plan.induct)
    case initial
    show ?case by (rule code_approved_build [OF assms(1)])
  next
    case (revised p evidence q)
    then show ?case by (auto elim: revise_from_evidence_Some intro: code_approved_seam)
  qed
  then show ?thesis by (simp add: code_approved_def)
qed

section \<open>Capabilities the planner does not check\<close>

text \<open>
  The constructor's documentation says the capabilities let the planner refuse a stage no agent can
  serve. Only the analysis and documentation stages are checked: with no capability at all, the plan
  still schedules the six others.
\<close>

theorem unserved_stages_are_scheduled:
  "plan_ids (build (Some {}) fmt2 problem) = [DESIGN, IMPLEMENT, AUTHOR_TESTS, VERIFY, REVIEW, RELEASE]"
  by (simp add: build_ids available_def)

section \<open>Concrete runs\<close>

definition sample_problem :: engineering_problem where
  "sample_problem = \<lparr>ep_raw_requirement = [], ep_intent = [], ep_acceptance_criteria = [],
     ep_constraints = [], ep_ambiguities = [], ep_scenario = BROWNFIELD, ep_confidence = Fin (4/5),
     ep_notes = []\<rparr>"

definition seam_evidence :: "(string, json) dict" where
  "seam_evidence = [(''missing_extension_point'', JBool True)]"

lemma sample_revision:
  "revise_from_evidence fr (build caps fmt2 problem) seam_evidence
     = Inr (Some (revise (build caps fmt2 problem) (seam_request [])))"
  using build_ids [of caps fmt2 problem]
  by (simp add: revise_from_evidence_def seam_evidence_def Let_def evidence_get_def slice5_def
      plan_node_ids_def plan_ids_def)

theorem seam_revision_valid_witness:
  "valid_plan (revise (build None (\<lambda>_. []) sample_problem) (seam_request []))"
proof -
  have "ranked (build None (\<lambda>_. []) sample_problem)" by (rule ranked_build)
  from ranked_trancl [of DESIGN IMPLEMENT, OF _ this]
  have "(DESIGN, IMPLEMENT) \<notin> (plan_dep_edges (build None (\<lambda>_. []) sample_problem))\<^sup>+"
    by (auto simp: build_rank_def)
  with seam_revision_valid [OF build_valid _ _ sample_revision [where fr = "\<lambda>_. []"]] show ?thesis
    by (simp add: build_ids)
qed

theorem pipeline_plans_accepted_witness:
  "\<exists>g. build_graph (revise (build None (\<lambda>_. []) sample_problem) (seam_request [])) = Inr g"
  using pipeline_plans_accepted [OF pipeline_plan.initial [of "\<lambda>_. []" None "\<lambda>_. []" sample_problem]]
    sample_revision [of "\<lambda>_. []" None "\<lambda>_. []" sample_problem] by blast

theorem brownfield_code_needs_approval_witness:
  "ns_id (pl_nodes (build None (\<lambda>_. []) sample_problem) ! 2) = IMPLEMENT
     \<and> needs_approval (pl_nodes (build None (\<lambda>_. []) sample_problem) ! 2)"
proof -
  let ?p = "build None (\<lambda>_. []) sample_problem"
  let ?n = "pl_nodes ?p ! 2"
  have "\<forall>n \<in> set (pl_nodes ?p). ns_kind n = IMPLEMENT_STAGE \<longrightarrow> needs_approval n"
    by (rule brownfield_code_needs_approval [OF _ pipeline_plan.initial [of "\<lambda>_. []"]])
      (simp add: sample_problem_def)
  moreover have "2 < length (pl_nodes ?p)" "ns_kind ?n = IMPLEMENT_STAGE" "ns_id ?n = IMPLEMENT"
    by (simp_all add: build_def Let_def sample_problem_def impact_node_def design_node_def
        implement_node_def available_def)
  ultimately show ?thesis using nth_mem by blast
qed

lemma verify_is_ready:
  "\<exists>g ns. build_graph (build None (\<lambda>_. []) sample_problem) = Inr g
     \<and> ready g [IMPACT, DESIGN, IMPLEMENT, AUTHOR_TESTS, DOCUMENT] = Inr ns \<and> verify_node \<in> set ns"
proof -
  obtain g where g: "build_graph (build None (\<lambda>_. []) sample_problem) = Inr g" "wf_graph g"
    "pg_plan g = build None (\<lambda>_. []) sample_problem"
    using build_graph_ok [OF build_valid] by blast
  have "set [IMPACT, DESIGN, IMPLEMENT, AUTHOR_TESTS, DOCUMENT] \<subseteq> set (plan_ids (pg_plan g))"
    unfolding g(3) build_ids by (simp add: available_def sample_problem_def)
  moreover have "verify_node \<in> set (pl_nodes (build None (\<lambda>_. []) sample_problem))"
    by (simp add: build_def Let_def)
  ultimately show ?thesis
    using g ready_eq [OF g(2), of "[IMPACT, DESIGN, IMPLEMENT, AUTHOR_TESTS, DOCUMENT]"]
    by (simp add: verify_node_def)
qed

theorem verify_waits_for_code_and_tests_witness:
  "\<exists>g ns. build_graph (build None (\<lambda>_. []) sample_problem) = Inr g
     \<and> ready g [IMPACT, DESIGN, IMPLEMENT, AUTHOR_TESTS, DOCUMENT] = Inr ns \<and> verify_node \<in> set ns
     \<and> VERIFY \<notin> set [IMPACT, DESIGN, IMPLEMENT, AUTHOR_TESTS, DOCUMENT]"
proof -
  obtain g ns where g: "build_graph (build None (\<lambda>_. []) sample_problem) = Inr g"
    "ready g [IMPACT, DESIGN, IMPLEMENT, AUTHOR_TESTS, DOCUMENT] = Inr ns" "verify_node \<in> set ns"
    using verify_is_ready by blast
  from verify_waits_for_code_and_tests [OF pipeline_plan.initial [where fr = "\<lambda>_. []"] g]
  have "VERIFY \<notin> set [IMPACT, DESIGN, IMPLEMENT, AUTHOR_TESTS, DOCUMENT]"
    by (simp add: verify_node_def)
  with g show ?thesis by blast
qed

end
