(* ===== verification/Regex.thy ===== *)
theory Regex
  imports Prelude
begin

text \<open>
  The part of Python's \<^verbatim>\<open>re\<close> the policy rules use: a backtracking matcher for patterns with ordered
  alternatives, greedy bounded and lazy repetition, groups, word boundaries, anchors, negative lookahead and
  one-character negative lookbehind, and \<open>search\<close>, \<open>match\<close> and \<open>finditer\<close> over it. The matcher lists all ways a
  pattern can match at a position in the order the engine tries them, so its head is the match
  Python reports. The character classes are the Unicode ones restricted to Latin-1.
\<close>

section \<open>Patterns\<close>

datatype re =
    Eps
  | Chr "char \<Rightarrow> bool"
  | Seq re re
  | Alt re re
  | Rep nat "nat option" re
  | Lazy re
  | Grp nat re
  | WordB
  | NotAhead re
  | NotBehind "char \<Rightarrow> bool"
  | BOS
  | BOL
  | EOS

text \<open>A state of the matcher: the position, and the groups captured so far, latest first.\<close>

type_synonym mstate = "nat \<times> (nat \<times> nat \<times> nat) list"

definition is_word :: "char \<Rightarrow> bool" where
  "is_word c \<longleftrightarrow> is_alnum c \<or> c = CHR ''_'' \<or> c \<in> {CHR 0xAA, CHR 0xB5, CHR 0xBA, CHR 0xB2, CHR 0xB3,
     CHR 0xB9, CHR 0xBC, CHR 0xBD, CHR 0xBE} \<or> (CHR 0xC0 \<le> c \<and> c \<noteq> CHR 0xD7 \<and> c \<noteq> CHR 0xF7)"

definition word_before :: "string \<Rightarrow> nat \<Rightarrow> bool" where
  "word_before s i \<longleftrightarrow> 0 < i \<and> i \<le> length s \<and> is_word (s ! (i - 1))"

definition word_after :: "string \<Rightarrow> nat \<Rightarrow> bool" where
  "word_after s i \<longleftrightarrow> i < length s \<and> is_word (s ! i)"

text \<open>
  Greedy repetition: one more round first, if it is allowed, and stopping afterwards, once the
  lower bound is met. A round that consumes nothing after the lower bound is not taken. The first
  argument is fuel; \<open>rmatch\<close> gives one unit per required round and per remaining character.
\<close>

fun rep_m :: "nat \<Rightarrow> (mstate \<Rightarrow> mstate list) \<Rightarrow> nat \<Rightarrow> nat option \<Rightarrow> mstate \<Rightarrow> mstate list" where
  "rep_m 0 f lo hi st = (if lo = 0 then [st] else [])"
| "rep_m (Suc n) f lo hi st =
     (if hi = Some 0 then []
      else concat (map (\<lambda>st'. if lo = 0 \<and> fst st' = fst st then []
                              else rep_m n f (lo - 1) (map_option (\<lambda>h. h - 1) hi) st') (f st)))
     @ (if lo = 0 then [st] else [])"

text \<open>Lazy repetition \<open>*?\<close>: stopping is tried before another round.\<close>

fun lazy_m :: "nat \<Rightarrow> (mstate \<Rightarrow> mstate list) \<Rightarrow> mstate \<Rightarrow> mstate list" where
  "lazy_m 0 f st = [st]"
| "lazy_m (Suc n) f st =
     st # concat (map (\<lambda>st'. if fst st' = fst st then [] else lazy_m n f st') (f st))"

primrec rmatch :: "re \<Rightarrow> string \<Rightarrow> mstate \<Rightarrow> mstate list" where
  "rmatch Eps s st = [st]"
| "rmatch (Chr P) s st = (if fst st < length s \<and> P (s ! fst st) then [(Suc (fst st), snd st)] else [])"
| "rmatch (Seq a b) s st = concat (map (rmatch b s) (rmatch a s st))"
| "rmatch (Alt a b) s st = rmatch a s st @ rmatch b s st"
| "rmatch (Rep lo hi a) s st = rep_m (lo + (length s - fst st)) (rmatch a s) lo hi st"
| "rmatch (Lazy a) s st = lazy_m (length s - fst st) (rmatch a s) st"
| "rmatch (Grp k a) s st = map (\<lambda>st'. (fst st', (k, fst st, fst st') # snd st')) (rmatch a s st)"
| "rmatch WordB s st = (if word_before s (fst st) \<noteq> word_after s (fst st) then [st] else [])"
| "rmatch (NotAhead a) s st = (if rmatch a s st = [] then [st] else [])"
| "rmatch (NotBehind P) s st = (if 0 < fst st \<and> P (s ! (fst st - 1)) then [] else [st])"
| "rmatch BOS s st = (if fst st = 0 then [st] else [])"
| "rmatch BOL s st = (if fst st = 0 \<or> s ! (fst st - 1) = CHR 0x0A then [st] else [])"
| "rmatch EOS s st = (if fst st = length s \<or> (Suc (fst st) = length s \<and> s ! fst st = CHR 0x0A) then [st] else [])"

section \<open>Searching\<close>

record re_match =
  m_start :: nat
  m_end :: nat
  m_groups :: "(nat \<times> nat \<times> nat) list"

definition match_at :: "re \<Rightarrow> string \<Rightarrow> nat \<Rightarrow> re_match option" where
  "match_at r s i = (case rmatch r s (i, []) of
      [] \<Rightarrow> None
    | (j, gs) # _ \<Rightarrow> Some \<lparr>m_start = i, m_end = j, m_groups = gs\<rparr>)"

definition search_from :: "re \<Rightarrow> string \<Rightarrow> nat \<Rightarrow> re_match option" where
  "search_from r s pos =
     (case List.find (\<lambda>i. match_at r s i \<noteq> None) [pos..<Suc (length s)] of
        None \<Rightarrow> None | Some i \<Rightarrow> match_at r s i)"

definition re_search :: "re \<Rightarrow> string \<Rightarrow> re_match option" where
  "re_search r s = search_from r s 0"

definition re_found :: "re \<Rightarrow> string \<Rightarrow> bool" where
  "re_found r s \<longleftrightarrow> re_search r s \<noteq> None"

text \<open>The scan resumes where the last match ended, one further after an empty match.\<close>

definition resume_at :: "re_match \<Rightarrow> nat" where
  "resume_at m = (if m_end m \<le> m_start m then Suc (m_start m) else m_end m)"

lemma search_from_Some:
  assumes "search_from r s pos = Some m"
  obtains i where "pos \<le> i" and "i \<le> length s" and "match_at r s i = Some m"
proof -
  from assms obtain i where f: "List.find (\<lambda>i. match_at r s i \<noteq> None) [pos..<Suc (length s)] = Some i"
    and m: "match_at r s i = Some m"
    unfolding search_from_def by (metis (no_types, lifting) option.case_eq_if option.collapse option.discI)
  from f have "i \<in> set [pos..<Suc (length s)]" unfolding find_Some_iff by (metis nth_mem)
  then have "pos \<le> i" "i \<le> length s" by auto
  with m that show thesis by blast
qed

lemma match_at_start: "match_at r s i = Some m \<Longrightarrow> m_start m = i"
  by (auto simp: match_at_def split: list.splits)

lemma search_from_start: "search_from r s pos = Some m \<Longrightarrow> pos \<le> m_start m \<and> m_start m \<le> length s"
  by (erule search_from_Some) (simp add: match_at_start)

function finditer_from :: "re \<Rightarrow> string \<Rightarrow> nat \<Rightarrow> re_match list" where
  "finditer_from r s pos =
     (case search_from r s pos of
        None \<Rightarrow> []
      | Some m \<Rightarrow> m # finditer_from r s (resume_at m))"
  by pat_completeness auto
termination
proof (relation "measure (\<lambda>(r, s, pos). Suc (length s) - pos)", goal_cases)
  case 1
  show ?case by simp
next
  case (2 r s pos m)
  from search_from_start [OF 2] show ?case by (auto simp: resume_at_def)
qed

declare finditer_from.simps [simp del]

definition finditer :: "re \<Rightarrow> string \<Rightarrow> re_match list" where
  "finditer r s = finditer_from r s 0"

text \<open>\<open>m.group(k)\<close>; group 0 is the whole match.\<close>

definition substr :: "string \<Rightarrow> nat \<Rightarrow> nat \<Rightarrow> string" where
  "substr s i j = take (j - i) (drop i s)"

definition m_group :: "string \<Rightarrow> re_match \<Rightarrow> nat \<Rightarrow> string" where
  "m_group s m k =
     (if k = 0 then substr s (m_start m) (m_end m)
      else case map_of (m_groups m) k of None \<Rightarrow> [] | Some (i, j) \<Rightarrow> substr s i j)"

text \<open>\<open>pattern.sub(rep, s)\<close> for a literal replacement\<close>

fun replace_matches :: "string \<Rightarrow> string \<Rightarrow> nat \<Rightarrow> re_match list \<Rightarrow> string" where
  "replace_matches rep s pos [] = drop pos s"
| "replace_matches rep s pos (m # ms) =
     substr s pos (m_start m) @ rep @ replace_matches rep s (m_end m) ms"

definition re_sub :: "re \<Rightarrow> string \<Rightarrow> string \<Rightarrow> string" where
  "re_sub r rep s = replace_matches rep s 0 (finditer r s)"

section \<open>Building patterns\<close>

definition chr_ci :: "char \<Rightarrow> re" where
  "chr_ci c = Chr (\<lambda>x. to_lower x = to_lower c)"

definition chr_eq :: "char \<Rightarrow> re" where
  "chr_eq c = Chr (\<lambda>x. x = c)"

fun seqs :: "re list \<Rightarrow> re" where
  "seqs [] = Eps"
| "seqs [r] = r"
| "seqs (r # rs) = Seq r (seqs rs)"

fun alts :: "re list \<Rightarrow> re" where
  "alts [] = Chr (\<lambda>_. False)"
| "alts [r] = r"
| "alts (r # rs) = Alt r (alts rs)"

definition lit :: "string \<Rightarrow> re" where
  "lit w = seqs (map chr_eq w)"

definition lit_ci :: "string \<Rightarrow> re" where
  "lit_ci w = seqs (map chr_ci w)"

definition opt_re :: "re \<Rightarrow> re" where
  "opt_re r = Rep 0 (Some 1) r"

definition star :: "re \<Rightarrow> re" where
  "star r = Rep 0 None r"

definition plus :: "re \<Rightarrow> re" where
  "plus r = Rep 1 None r"

definition any_of :: "string \<Rightarrow> re" where
  "any_of cs = Chr (\<lambda>x. x \<in> set cs)"

definition none_of :: "string \<Rightarrow> re" where
  "none_of cs = Chr (\<lambda>x. x \<notin> set cs)"

definition quote_chars :: string where
  "quote_chars = [CHR 0x27, CHR 0x22]"

definition spaces :: re where
  "spaces = star (Chr is_space)"

definition spaces1 :: re where
  "spaces1 = plus (Chr is_space)"

section \<open>Splitting text into lines and words\<close>

definition is_linebreak :: "char \<Rightarrow> bool" where
  "is_linebreak c \<longleftrightarrow> c \<in> {CHR 0x0A, CHR 0x0B, CHR 0x0C, CHR 0x0D, CHR 0x1C, CHR 0x1D, CHR 0x1E, CHR 0x85}"

fun splitlines_acc :: "string \<Rightarrow> string \<Rightarrow> string list" where
  "splitlines_acc cur [] = (if cur = [] then [] else [rev cur])"
| "splitlines_acc cur (c # cs) =
     (if c = CHR 0x0D then rev cur # splitlines_acc [] (if str_startswith cs [CHR 0x0A] then tl cs else cs)
      else if is_linebreak c then rev cur # splitlines_acc [] cs
      else splitlines_acc (c # cur) cs)"

definition splitlines :: "string \<Rightarrow> string list" where
  "splitlines s = splitlines_acc [] s"

fun words_acc :: "string \<Rightarrow> string \<Rightarrow> string list" where
  "words_acc cur [] = (if cur = [] then [] else [rev cur])"
| "words_acc cur (c # cs) =
     (if is_space c then (if cur = [] then words_acc [] cs else rev cur # words_acc [] cs)
      else words_acc (c # cur) cs)"

text \<open>\<open>s.split()\<close>\<close>

definition str_words :: "string \<Rightarrow> string list" where
  "str_words s = words_acc [] s"

text \<open>\<open>enumerate(xs, start=1)\<close>\<close>

definition enumerate1 :: "'a list \<Rightarrow> (nat \<times> 'a) list" where
  "enumerate1 xs = zip [1..<Suc (length xs)] xs"

section \<open>The matcher stays inside the text and its fuel is enough\<close>

definition fwd :: "string \<Rightarrow> mstate \<Rightarrow> mstate \<Rightarrow> bool" where
  "fwd s st st' \<longleftrightarrow> (fst st \<le> length s \<longrightarrow> fst st \<le> fst st' \<and> fst st' \<le> length s)"

lemma fwd_refl [simp]: "fwd s st st"
  by (simp add: fwd_def)

lemma fwd_trans: "fwd s a b \<Longrightarrow> fwd s b c \<Longrightarrow> fwd s a c"
  by (auto simp: fwd_def)

definition progressive :: "string \<Rightarrow> (mstate \<Rightarrow> mstate list) \<Rightarrow> bool" where
  "progressive s f \<longleftrightarrow> (\<forall>st. \<forall>st' \<in> set (f st). fwd s st st')"

lemma progressiveD: "progressive s f \<Longrightarrow> st' \<in> set (f st) \<Longrightarrow> fwd s st st'"
  unfolding progressive_def by blast

lemma rep_m_progressive:
  assumes "progressive s f"
  shows "st' \<in> set (rep_m n f lo hi st) \<Longrightarrow> fwd s st st'"
proof (induction n arbitrary: lo hi st)
  case 0
  then show ?case by (simp split: if_splits)
next
  case (Suc n)
  then consider "st' = st" | st1 where "st1 \<in> set (f st)"
      "st' \<in> set (rep_m n f (lo - 1) (map_option (\<lambda>h. h - 1) hi) st1)"
    by (auto split: if_splits)
  then show ?case
  proof cases
    case 1
    then show ?thesis by simp
  next
    case 2
    show ?thesis by (rule fwd_trans [OF progressiveD [OF assms 2(1)] Suc.IH [OF 2(2)]])
  qed
qed

lemma lazy_m_progressive:
  assumes "progressive s f"
  shows "st' \<in> set (lazy_m n f st) \<Longrightarrow> fwd s st st'"
proof (induction n arbitrary: st)
  case 0
  then show ?case by simp
next
  case (Suc n)
  then consider "st' = st" | st1 where "st1 \<in> set (f st)" "st' \<in> set (lazy_m n f st1)"
    by (auto split: if_splits)
  then show ?case
  proof cases
    case 1
    then show ?thesis by simp
  next
    case 2
    show ?thesis by (rule fwd_trans [OF progressiveD [OF assms 2(1)] Suc.IH [OF 2(2)]])
  qed
qed

lemma progressive_bind:
  assumes "progressive s f" and "progressive s g"
  shows "progressive s (\<lambda>st. concat (map g (f st)))"
  unfolding progressive_def
proof (intro allI ballI)
  fix st st' assume "st' \<in> set (concat (map g (f st)))"
  then obtain st1 where "st1 \<in> set (f st)" "st' \<in> set (g st1)" by (simp, blast)
  with assms show "fwd s st st'" by (meson progressiveD fwd_trans)
qed

lemma rmatch_progressive: "progressive s (rmatch r s)"
proof (induction r)
  case (Seq a b)
  then show ?case using progressive_bind [of s "rmatch a s" "rmatch b s"] by simp
next
  case (Alt a b)
  then show ?case by (simp add: progressive_def ball_Un)
next
  case (Rep lo hi a)
  then show ?case using rep_m_progressive [OF Rep] by (simp add: progressive_def)
next
  case (Lazy a)
  then show ?case using lazy_m_progressive [OF Lazy] by (simp add: progressive_def)
next
  case (Grp k a)
  then show ?case by (simp add: progressive_def fwd_def)
next
  case (Chr P)
  show ?case by (simp add: progressive_def fwd_def)
qed (simp_all add: progressive_def)

text \<open>One more unit of fuel changes nothing once there is one per required round and character.\<close>

lemma rep_m_fuel:
  assumes "progressive s f" and "fst st \<le> length s" and "lo + (length s - fst st) \<le> n"
  shows "rep_m (Suc n) f lo hi st = rep_m n f lo hi st"
  using assms(2,3)
proof (induction n arbitrary: lo hi st)
  case 0
  then have at_end: "lo = 0" "fst st = length s" by auto
  have "fst st' = fst st" if "st' \<in> set (f st)" for st'
    using progressiveD [OF assms(1) that] at_end(2) by (simp add: fwd_def)
  then have "concat (map (\<lambda>st'. if lo = 0 \<and> fst st' = fst st then []
      else rep_m 0 f (lo - 1) (map_option (\<lambda>h. h - 1) hi) st') (f st)) = []"
    using at_end by simp
  with at_end show ?case by simp
next
  case (Suc n)
  have "rep_m (Suc n) f (lo - 1) (map_option (\<lambda>h. h - 1) hi) st'
      = rep_m n f (lo - 1) (map_option (\<lambda>h. h - 1) hi) st'"
    if "st' \<in> set (f st)" "\<not> (lo = 0 \<and> fst st' = fst st)" for st'
  proof (rule Suc.IH)
    have b: "fst st \<le> fst st'" "fst st' \<le> length s"
      using progressiveD [OF assms(1) that(1)] Suc.prems(1) by (simp_all add: fwd_def)
    then show "fst st' \<le> length s" by simp
    show "lo - 1 + (length s - fst st') \<le> n"
      using b that(2) Suc.prems(2) by (cases "lo = 0") auto
  qed
  then have "map (\<lambda>st'. if lo = 0 \<and> fst st' = fst st then []
        else rep_m (Suc n) f (lo - 1) (map_option (\<lambda>h. h - 1) hi) st') (f st)
      = map (\<lambda>st'. if lo = 0 \<and> fst st' = fst st then []
        else rep_m n f (lo - 1) (map_option (\<lambda>h. h - 1) hi) st') (f st)"
    by (intro map_cong) auto
  then show ?case by (simp only: rep_m.simps(2))
qed

lemma match_at_bounds:
  assumes "match_at r s i = Some m" and "i \<le> length s"
  shows "m_start m = i" and "i \<le> m_end m" and "m_end m \<le> length s"
proof -
  from assms(1) obtain j gs rest where "rmatch r s (i, []) = (j, gs) # rest"
    and m: "m = \<lparr>m_start = i, m_end = j, m_groups = gs\<rparr>"
    by (auto simp: match_at_def split: list.splits)
  then have "(j, gs) \<in> set (rmatch r s (i, []))" by simp
  from progressiveD [OF rmatch_progressive this] assms(2) have "i \<le> j \<and> j \<le> length s"
    by (simp add: fwd_def)
  with m show "m_start m = i" "i \<le> m_end m" "m_end m \<le> length s" by simp_all
qed

lemma search_from_bounds:
  assumes "search_from r s pos = Some m"
  shows "pos \<le> m_start m \<and> m_start m \<le> m_end m \<and> m_end m \<le> length s"
proof -
  from assms obtain i where i: "pos \<le> i" "i \<le> length s" "match_at r s i = Some m"
    by (rule search_from_Some)
  with match_at_bounds [OF i(3,2)] show ?thesis by simp
qed

text \<open>The matches of \<open>finditer\<close> lie in the text, in order, and do not overlap.\<close>

lemma finditer_from_sorted:
  "sorted_wrt (\<lambda>m m'. m_end m \<le> m_start m') (finditer_from r s pos)
   \<and> (\<forall>m \<in> set (finditer_from r s pos). pos \<le> m_start m \<and> m_start m \<le> m_end m \<and> m_end m \<le> length s)"
proof (induction r s pos rule: finditer_from.induct)
  case (1 r s pos)
  show ?case
  proof (cases "search_from r s pos")
    case None
    then have "finditer_from r s pos = []" by (subst finditer_from.simps) simp
    then show ?thesis by simp
  next
    case (Some m)
    then have f: "finditer_from r s pos = m # finditer_from r s (resume_at m)"
      by (subst finditer_from.simps) simp
    note b = search_from_bounds [OF Some]
    have "m_end m \<le> resume_at m" "pos \<le> resume_at m" using b by (auto simp: resume_at_def)
    from 1 [OF Some] have "sorted_wrt (\<lambda>m m'. m_end m \<le> m_start m') (finditer_from r s (resume_at m))"
      and later: "\<forall>m' \<in> set (finditer_from r s (resume_at m)).
        resume_at m \<le> m_start m' \<and> m_start m' \<le> m_end m' \<and> m_end m' \<le> length s" by blast+
    moreover have "\<forall>m' \<in> set (finditer_from r s (resume_at m)). m_end m \<le> m_start m'
        \<and> pos \<le> m_start m' \<and> m_start m' \<le> m_end m' \<and> m_end m' \<le> length s"
      using later \<open>m_end m \<le> resume_at m\<close> \<open>pos \<le> resume_at m\<close> by (meson order_trans)
    ultimately show ?thesis unfolding f using b by simp
  qed
qed

end
