(* ===== verification/PolicyRules.thy ===== *)
theory PolicyRules
  imports Regex Models
begin

text \<open>
  The guardrails of \<^verbatim>\<open>keel/governance/policy.py\<close>: the shared helpers, the patterns written with the
  combinators of \<open>Regex\<close>, and the rules that scan produced artifacts. Each rule maps the
  artifacts and the node to the violations it reports, in the order the source appends them.
\<close>

section \<open>Shared helpers\<close>

definition location :: "artifact \<Rightarrow> nat \<Rightarrow> string" where
  "location a line_no =
     (case art_path a of
        None \<Rightarrow> art_name a
      | Some p \<Rightarrow> if p = [] then art_name a else art_name a @ ''['' @ p @ '']'')
     @ '':'' @ str_nat line_no"

definition line_of :: "string \<Rightarrow> nat \<Rightarrow> nat" where
  "line_of content index = count_list (take index content) (CHR 0x0A) + 1"

definition snippet_chars :: nat where
  "snippet_chars = 90"

definition excerpt :: "string \<Rightarrow> string" where
  "excerpt t =
     (let flat = str_join '' '' (str_words t)
      in if length flat \<le> snippet_chars then flat else take (snippet_chars - 3) flat @ ''...'')"

definition produced_by :: "artifact list \<Rightarrow> node_spec \<Rightarrow> artifact list" where
  "produced_by artifacts node = filter (\<lambda>a. art_produced_by a = ns_id node) artifacts"

definition shannon_entropy :: "string \<Rightarrow> real" where
  "shannon_entropy value =
     (if value = [] then 0
      else - sum_list (map (\<lambda>c. let n = real (count_list value c); total = real (length value)
                                in (n / total) * log 2 (n / total)) (uniq value)))"

section \<open>Secret patterns\<close>

definition sep_opt :: re where
  "sep_opt = opt_re (Chr (\<lambda>c. c \<in> set ''-_'' \<or> is_space c))"

definition placeholder_markers :: re where
  "placeholder_markers = alts
     [seqs [lit_ci ''your'', sep_opt, opt_re (Seq (lit_ci ''api'') sep_opt),
        alts [lit_ci ''key'', lit_ci ''token'', lit_ci ''secret'', Seq (lit_ci ''cred'') (opt_re (lit_ci ''s''))]],
      alts [seqs [lit_ci ''change'', sep_opt, lit_ci ''me''],
        seqs [lit_ci ''replace'', sep_opt, alts [lit_ci ''me'', lit_ci ''this'', lit_ci ''with'']]],
      lit_ci ''placeholder'', lit_ci ''redacted'', lit_ci ''example'', lit_ci ''sample'', lit_ci ''dummy'',
      seqs [WordB, lit_ci ''fake'', WordB],
      seqs [WordB, lit_ci ''not'', opt_re (any_of ''-_''), lit_ci ''a'', opt_re (any_of ''-_''),
        lit_ci ''real'', WordB],
      seqs [WordB, lit_ci ''here'', WordB],
      seqs [lit_ci ''insert'', sep_opt, lit_ci ''your''],
      Rep 3 None (chr_ci (CHR ''x'')), Rep 3 None (chr_eq (CHR ''.'')), Rep 3 None (chr_eq (CHR ''*'')),
      seqs [chr_eq (CHR ''<''), Rep 0 (Some 64) (none_of ''>''), chr_eq (CHR ''>'')],
      seqs [lit [CHR 0x7B, CHR 0x7B], Rep 0 (Some 64) (none_of [CHR 0x7D]), lit [CHR 0x7D, CHR 0x7D]],
      seqs [lit [CHR ''$'', CHR 0x7B], Rep 0 (Some 64) (none_of [CHR 0x7D]), lit [CHR 0x7D]],
      seqs [chr_eq (CHR ''$''), Rep 4 None (Chr (\<lambda>c. is_alpha c \<or> c = CHR ''_''))]]"

definition upper_num :: "char \<Rightarrow> bool" where
  "upper_num c \<longleftrightarrow> is_upper c \<or> is_digit c"

definition env_var_name :: re where
  "env_var_name = seqs [BOS, Chr is_upper, star (Chr upper_num),
     plus (Seq (chr_eq (CHR ''_'')) (plus (Chr upper_num))), EOS]"

record secret_pattern =
  sp_label :: string
  sp_pattern :: re
  sp_value_group :: nat
  sp_min_entropy :: real

definition token_char :: "char \<Rightarrow> bool" where
  "token_char c \<longleftrightarrow> is_alnum c \<or> c = CHR ''_'' \<or> c = CHR ''-''"

definition assignment_of :: "nat \<Rightarrow> re list" where
  "assignment_of n = [spaces, any_of ''=:'', spaces, any_of quote_chars,
     Grp 1 (Rep n None (none_of quote_chars)), any_of quote_chars]"

definition secret_patterns :: "secret_pattern list" where
  "secret_patterns =
    [\<lparr>sp_label = ''Anthropic API key'',
      sp_pattern = seqs [lit ''sk-ant-'', opt_re (seqs [lit ''api'', Chr is_digit, Chr is_digit, lit ''-'']),
        Rep 24 None (Chr token_char)],
      sp_value_group = 0, sp_min_entropy = 0\<rparr>,
     \<lparr>sp_label = ''AWS access key id'',
      sp_pattern = seqs [WordB, alts (map lit [''AKIA'', ''ASIA'', ''AGPA'', ''AIDA'', ''AROA'', ''ANPA'']),
        Rep 16 (Some 16) (Chr upper_num), WordB],
      sp_value_group = 0, sp_min_entropy = 0\<rparr>,
     \<lparr>sp_label = ''private key PEM header'',
      sp_pattern = seqs [lit ''-----BEGIN '', opt_re (Seq (plus (Chr is_upper)) (lit '' '')),
        lit ''PRIVATE KEY-----''],
      sp_value_group = 0, sp_min_entropy = 0\<rparr>,
     \<lparr>sp_label = ''JSON Web Token'',
      sp_pattern = seqs [WordB, lit ''eyJ'', Rep 6 None (Chr token_char), lit ''.eyJ'',
        Rep 6 None (Chr token_char), lit ''.'', Rep 6 None (Chr token_char)],
      sp_value_group = 0, sp_min_entropy = 0\<rparr>,
     \<lparr>sp_label = ''Slack token'',
      sp_pattern = seqs [WordB, lit ''xox'', any_of ''abeoprs'', lit ''-'',
        Rep 10 None (Chr (\<lambda>c. is_alnum c \<or> c = CHR ''-''))],
      sp_value_group = 0, sp_min_entropy = 0\<rparr>,
     \<lparr>sp_label = ''GitHub token'',
      sp_pattern = seqs [WordB, alts
        [seqs [lit ''gh'', any_of ''pousr'', lit ''_'', Rep 30 None (Chr is_alnum)],
         seqs [lit ''github_pat_'', Rep 30 None (Chr (\<lambda>c. is_alnum c \<or> c = CHR ''_''))]]],
      sp_value_group = 0, sp_min_entropy = 0\<rparr>,
     \<lparr>sp_label = ''OpenAI API key'',
      sp_pattern = seqs [WordB, lit ''sk-'', opt_re (lit ''proj-''), Rep 32 None (Chr is_alnum)],
      sp_value_group = 0, sp_min_entropy = 0\<rparr>,
     \<lparr>sp_label = ''hardcoded api key assignment'',
      sp_pattern = seqs ([NotBehind is_alpha, lit_ci ''api'', opt_re (any_of ''_-''), lit_ci ''key'']
        @ assignment_of 16),
      sp_value_group = 1, sp_min_entropy = 5/2\<rparr>,
     \<lparr>sp_label = ''hardcoded secret assignment'',
      sp_pattern = seqs ([NotBehind is_alpha,
        alts [lit_ci ''secret'', lit_ci ''password'', lit_ci ''passwd'', lit_ci ''token'',
          seqs [lit_ci ''access'', opt_re (any_of ''_-''), lit_ci ''key'']]] @ assignment_of 12),
      sp_value_group = 1, sp_min_entropy = 3\<rparr>]"

definition redact_value :: "string \<Rightarrow> string" where
  "redact_value value = take 8 value @ ''...('' @ str_nat (length value) @ '' chars)''"

text \<open>\<open>line.find(value)\<close>: the first offset at which the value occurs.\<close>

fun str_find :: "string \<Rightarrow> string \<Rightarrow> nat option" where
  "str_find [] p = (if p = [] then Some 0 else None)"
| "str_find (c # cs) p =
     (if str_startswith (c # cs) p then Some 0 else map_option Suc (str_find cs p))"

definition looks_like_placeholder :: "string \<Rightarrow> string \<Rightarrow> bool" where
  "looks_like_placeholder value line \<longleftrightarrow>
     re_found placeholder_markers value
     \<or> match_at env_var_name value 0 \<noteq> None
     \<or> (case str_find line value of
          None \<Rightarrow> False
        | Some idx \<Rightarrow> 0 < idx \<and> line ! (idx - 1) \<in> {CHR ''<'', CHR 0x7B, CHR ''$''}
            \<and> idx + length value < length line)"

section \<open>Test files and code files\<close>

definition artifact_label :: "artifact \<Rightarrow> string" where
  "artifact_label a = (case art_path a of None \<Rightarrow> art_name a | Some p \<Rightarrow> if p = [] then art_name a else p)"

definition is_test_artifact :: "artifact \<Rightarrow> bool" where
  "is_test_artifact a =
     (let name = map (\<lambda>c. if c = CHR 0x5C then CHR ''/'' else c) (artifact_label a);
          tail = last (split_on (CHR ''/'') name)
      in str_startswith name ''tests/'' \<or> str_contains name ''/tests/''
         \<or> str_startswith tail ''test_'' \<or> str_endswith tail ''_test.py'' \<or> tail = ''conftest.py'')"

definition code_suffixes :: "string list" where
  "code_suffixes = [''.py'', ''.js'', ''.jsx'', ''.ts'', ''.tsx'', ''.go'', ''.rb'', ''.java'', ''.php'',
     ''.rs'', ''.cs'']"

definition non_code_suffixes :: "string list" where
  "non_code_suffixes = [''.json'', ''.md'', ''.markdown'', ''.txt'', ''.rst'', ''.yaml'', ''.yml'', ''.toml'']"

definition code_marker :: re where
  "code_marker = alts
     [seqs [BOL, spaces, alts [lit ''def'', lit ''class'', seqs [lit ''async'', spaces1, lit ''def''],
        lit ''function'', lit ''const'', lit ''let'', lit ''var'', lit ''func'', lit ''import'', lit ''from'',
        lit ''package'', lit ''public''], WordB],
      seqs [lit ''=>'', spaces, chr_eq (CHR 0x7B)],
      seqs [WordB, lit ''return'', WordB]]"

definition is_code :: "artifact \<Rightarrow> bool" where
  "is_code a =
     (let name = artifact_label a in
      if list_ex (str_endswith name) non_code_suffixes then False
      else if art_media_type a \<in> {''application/json'', ''text/markdown''} then False
      else if (case art_path a of None \<Rightarrow> False | Some p \<Rightarrow> list_ex (str_endswith p) code_suffixes) then True
      else if list_ex (str_endswith (art_name a)) code_suffixes then True
      else if str_contains (art_media_type a) ''python'' \<or> str_contains (art_media_type a) ''javascript''
        then True
      else re_found code_marker (art_content a))"

section \<open>The secret scan\<close>

definition secret_rule_id :: string where
  "secret_rule_id = ''security.secret_scan''"

type_synonym scan_state = "(string \<times> string) list \<times> policy_violation list"

definition secret_hit ::
  "artifact \<Rightarrow> nat \<Rightarrow> string \<Rightarrow> secret_pattern \<Rightarrow> re_match \<Rightarrow> scan_state \<Rightarrow> scan_state" where
  "secret_hit a line_no line spec m s =
     (let value = m_group line m (sp_value_group spec);
          loc = location a line_no
      in if looks_like_placeholder value line then s
         else if sp_min_entropy spec \<noteq> 0 \<and> shannon_entropy value < sp_min_entropy spec then s
         else if (loc, value) \<in> set (fst s) then s
         else (fst s @ [(loc, value)],
               snd s @ [\<lparr>pv_rule_id = secret_rule_id, pv_severity = SEV_CRITICAL,
                  pv_message = sp_label spec @ '' found in generated content ('' @ redact_value value
                    @ ''). Rotate the credential and load it '' @ ''from the environment instead.'',
                  pv_location = Some loc\<rparr>]))"

definition secret_line :: "artifact \<Rightarrow> nat \<times> string \<Rightarrow> scan_state \<Rightarrow> scan_state" where
  "secret_line a nl s =
     fold (\<lambda>spec s.
        if is_test_artifact a \<and> 0 < sp_min_entropy spec then s
        else fold (secret_hit a (fst nl) (snd nl) spec) (finditer (sp_pattern spec) (snd nl)) s)
       secret_patterns s"

definition secret_scan :: "artifact list \<Rightarrow> node_spec \<Rightarrow> policy_violation list" where
  "secret_scan artifacts node =
     snd (fold (\<lambda>a. fold (secret_line a) (enumerate1 (splitlines (art_content a)))) artifacts ([], []))"

section \<open>Open redirects\<close>

definition word_ci :: "string \<Rightarrow> re" where
  "word_ci w = seqs [WordB, lit_ci w, WordB]"

definition redirect_marker :: re where
  "redirect_marker = alts
     [seqs [WordB, lit_ci ''redirect'', star (Chr is_word), spaces, lit ''('' ],
      lit_ci ''RedirectResponse'', lit_ci ''HttpResponseRedirect'', lit_ci ''send_redirect'',
      seqs [any_of quote_chars, lit ''Location'', any_of quote_chars],
      seqs [WordB, lit ''Location'', spaces, lit '':'', spaces, lit ''http'', opt_re (lit ''s'')],
      seqs [lit_ci ''status_code'', spaces, lit ''='', spaces, lit ''30'', any_of ''12378'']]"

definition scheme_allowlist_name :: re where
  "scheme_allowlist_name = seqs [WordB,
     alts [seqs [lit_ci ''allowe'', opt_re (lit_ci ''d''), lit_ci ''_schemes''], lit_ci ''safe_schemes'',
       lit_ci ''permitted_schemes'', lit_ci ''scheme_allowlist'', lit_ci ''is_safe_url'',
       seqs [lit_ci ''validate_'', alts [lit_ci ''url'', lit_ci ''redirect'', lit_ci ''destination'',
         lit_ci ''target'']]], WordB]"

definition scheme_token :: re where
  "scheme_token = seqs [WordB, lit_ci ''scheme'', opt_re (lit_ci ''s''), WordB]"

definition http_prefix_check :: re where
  "http_prefix_check = seqs [lit_ci ''startswith'', spaces, lit ''('', spaces, opt_re (lit ''(''), spaces,
     any_of quote_chars, lit_ci ''http'', opt_re (lit_ci ''s''), lit ''://'']"

definition guard_action :: re where
  "guard_action = alts
     [seqs [WordB, lit_ci ''not'', spaces1, lit_ci ''in'', WordB], word_ci ''in'', lit ''=='', lit ''!='',
      word_ci ''raise'', word_ci ''abort'', word_ci ''reject'',
      seqs [WordB, lit_ci ''block'', star (Chr is_word), WordB], word_ci ''deny'', word_ci ''invalid'',
      seqs [WordB, lit_ci ''return'', spaces1, alts [lit_ci ''None'', lit_ci ''False'', lit_ci ''null''], WordB],
      seqs [WordB, lit ''40'', Chr is_digit, WordB],
      lit_ci ''startswith'', word_ci ''assert'', word_ci ''if'']"

definition internal_host_token :: re where
  "internal_host_token = alts
     [lit_ci ''localhost'', lit ''127.0.0.'', lit ''0.0.0.0'', lit ''169.254.169.254'',
      seqs [WordB, lit ''10.'', plus (Chr is_digit), lit ''.''],
      lit ''192.168.'',
      seqs [lit ''172.'', alts [seqs [lit ''1'', Chr (\<lambda>c. c \<in> set ''6789'')], seqs [lit ''2'', Chr is_digit],
        seqs [lit ''3'', any_of ''01'']], lit ''.''],
      seqs [WordB, alts [lit ''::1'', lit ''[::1]'']],
      lit_ci ''is_private'', lit_ci ''is_loopback'', lit_ci ''is_link_local'', lit_ci ''private_network'',
      word_ci ''metadata'', lit_ci ''internal_host'']"

definition ip_inspection :: re where
  "ip_inspection = seqs [WordB, alts [lit_ci ''is_private'', lit_ci ''is_loopback'', lit_ci ''is_link_local'',
     seqs [lit_ci ''ip_address'', spaces, lit ''('']]]"

definition dangerous_schemes :: re where
  "dangerous_schemes = Grp 1 (alts [lit_ci ''javascript'', lit_ci ''vbscript'', lit_ci ''data'', lit_ci ''file''])"

definition dangerous_scheme_url :: re where
  "dangerous_scheme_url = seqs
     [Alt BOS (Chr (\<lambda>c. c \<in> set (quote_chars @ ''(=,['') \<or> is_space c)),
      dangerous_schemes,
      alts [seqs [spaces, lit '':'', NotAhead (Alt (Chr is_space) (lit ''//''))],
        seqs [spaces, lit '':'', plus (Chr is_alpha), lit ''/''],
        seqs [spaces, lit ''://'']]]"

definition dangerous_scheme_listed :: re where
  "dangerous_scheme_listed = seqs [any_of quote_chars, dangerous_schemes, opt_re (lit '':''), any_of quote_chars]"

definition stem_ci :: "string \<Rightarrow> re" where
  "stem_ci w = Seq (lit_ci w) (star (Chr is_word))"

definition block_context :: re where
  "block_context = alts
     [stem_ci ''block'', stem_ci ''deny'', stem_ci ''forbid'', lit_ci ''unsafe'', lit_ci ''dangerous'',
      stem_ci ''reject'', stem_ci ''disallow'', word_ci ''banned'', seqs [WordB, lit_ci ''bad_''],
      seqs [WordB, lit_ci ''not'', spaces1, lit_ci ''in'', WordB], word_ci ''strip'',
      seqs [WordB, lit_ci ''sanitiz''], word_ci ''escape'']"

definition guarded :: "string \<Rightarrow> re \<Rightarrow> re \<Rightarrow> bool" where
  "guarded content marker action \<longleftrightarrow>
     list_ex (\<lambda>line. re_found marker line \<and> re_found action line) (splitlines content)"

definition redirect_rule_id :: string where
  "redirect_rule_id = ''security.open_redirect''"

definition redirect_violation :: "string \<Rightarrow> string \<Rightarrow> policy_violation" where
  "redirect_violation message loc = \<lparr>pv_rule_id = redirect_rule_id, pv_severity = SEV_HIGH,
     pv_message = message, pv_location = Some loc\<rparr>"

definition scheme_hits :: "string \<Rightarrow> string list" where
  "scheme_hits line =
     sort (uniq (map (\<lambda>m. str_lower (m_group line m 1))
       (finditer dangerous_scheme_url line
        @ (if re_found scheme_allowlist_name line then finditer dangerous_scheme_listed line else []))))"

definition redirect_line :: "artifact \<Rightarrow> nat \<times> string \<Rightarrow> policy_violation list" where
  "redirect_line a nl =
     (if re_found block_context (snd nl) then []
      else map (\<lambda>scheme. redirect_violation
             (''redirect target accepts the '' @ [CHR 0x27] @ scheme @ '':'' @ [CHR 0x27] @ '' scheme, which ''
              @ ''executes in the victim browser or reads local state: '' @ excerpt (snd nl))
             (location a (fst nl)))
           (scheme_hits (snd nl)))"

definition redirect_artifact :: "string \<Rightarrow> artifact \<Rightarrow> policy_violation list" where
  "redirect_artifact corpus a =
     (if \<not> is_code a then []
      else case re_search redirect_marker (art_content a) of
        None \<Rightarrow> []
      | Some m \<Rightarrow>
          (let marker_line = line_of (art_content a) (m_start m);
               scheme_validated = (re_found scheme_allowlist_name corpus \<or> re_found http_prefix_check corpus
                 \<or> guarded corpus scheme_token guard_action);
               host_blocked = (re_found ip_inspection corpus
                 \<or> guarded corpus internal_host_token guard_action)
           in concat (map (redirect_line a) (enumerate1 (splitlines (art_content a))))
              @ (if scheme_validated then []
                 else [redirect_violation
                   (''redirect handling never validates the destination scheme; ''
                    @ ''restrict it to an http/https allowlist before issuing the ''
                    @ ''Location header'') (location a marker_line)])
              @ (if host_blocked then []
                 else [redirect_violation
                   (''redirect handling never blocks internal hosts; localhost, ''
                    @ ''127.0.0.0/8, 10/8, 172.16/12, 192.168/16 and the ''
                    @ ''169.254.169.254 metadata endpoint stay reachable'') (location a marker_line)])))"

definition open_redirect :: "artifact list \<Rightarrow> node_spec \<Rightarrow> policy_violation list" where
  "open_redirect artifacts node =
     (let corpus = str_join newline (map art_content (filter is_code artifacts))
      in concat (map (redirect_artifact corpus) artifacts))"

section \<open>Destructive operations\<close>

definition rm_flags :: re where
  "rm_flags = seqs [WordB, lit ''rm'', spaces1,
     Grp 1 (plus (seqs [Rep 1 (Some 2) (lit ''-''), Chr is_alpha,
       star (Chr (\<lambda>c. is_word c \<or> c = CHR ''-'')), spaces]))]"

definition rmtree :: re where
  "rmtree = seqs [WordB, lit ''shutil.rmtree'', spaces, lit ''('', spaces,
     Grp 1 (star (none_of [CHR '')'', CHR 0x0A]))]"

definition drop_object :: re where
  "drop_object = seqs [WordB, lit_ci ''DROP'', spaces1,
     Grp 1 (alts [lit_ci ''TABLE'', lit_ci ''DATABASE'', lit_ci ''SCHEMA'']), WordB,
     star (none_of [CHR 0x0A, CHR '';''])]"

definition sql_name_char :: "char \<Rightarrow> bool" where
  "sql_name_char c \<longleftrightarrow> is_word c \<or> c \<in> {CHR ''.'', CHR 0x22, CHR 0x60, CHR ''['', CHR '']''}"

definition truncate_sql :: re where
  "truncate_sql = seqs [WordB, lit_ci ''TRUNCATE'', spaces1,
     alts [seqs [lit_ci ''TABLE'', spaces1, plus (Chr sql_name_char)],
       seqs [plus (Chr sql_name_char), spaces, lit '';'']]]"

definition delete_from :: re where
  "delete_from = seqs [WordB, lit_ci ''DELETE'', spaces1, lit_ci ''FROM'', spaces1,
     NotAhead (Seq (alts (map lit_ci [''the'', ''a'', ''an'', ''this'', ''that'', ''these'', ''those'',
       ''our'', ''your'', ''it'', ''them'', ''here'', ''any'', ''all''])) WordB),
     plus (Chr sql_name_char)]"

definition where_sql :: re where
  "where_sql = word_ci ''WHERE''"

definition os_system :: re where
  "os_system = seqs [WordB, lit ''os.system'', spaces, lit ''('']"

definition shell_true :: re where
  "shell_true = seqs [any_of '',('', spaces, lit_ci ''shell'', spaces, lit ''='', spaces, lit_ci ''True'', WordB]"

definition call_of :: "string \<Rightarrow> re" where
  "call_of f = seqs [NotBehind (\<lambda>c. is_word c \<or> c = CHR ''.''), lit f, spaces, lit ''('']"

definition workspace_token :: re where
  "workspace_token = alts
     [lit_ci ''workspace'', lit_ci ''sandbox'', lit_ci ''scratch'', word_ci ''tmp'', lit_ci ''tempfile'',
      lit_ci ''temp_dir'', lit_ci ''tmpdir'', lit_ci ''tmp_path'', seqs [lit_ci ''.cache'', WordB],
      lit_ci ''build_dir'', lit_ci ''dist_dir'', lit_ci ''staging_dir'', lit_ci ''run_dir'',
      seqs [lit_ci ''artifact'', opt_re (lit_ci ''s''), lit_ci ''_dir'']]"

text \<open>\<open>content[start : start + span].split(";", 1)[0]\<close>\<close>

definition statement :: "string \<Rightarrow> nat \<Rightarrow> nat \<Rightarrow> string" where
  "statement content start width = takeWhile (\<lambda>c. c \<noteq> CHR '';'') (take width (drop start content))"

definition destructive_rule_id :: string where
  "destructive_rule_id = ''safety.destructive_operation''"

definition flag_at :: "artifact \<Rightarrow> nat \<Rightarrow> string \<Rightarrow> policy_violation" where
  "flag_at a index message = \<lparr>pv_rule_id = destructive_rule_id, pv_severity = SEV_CRITICAL,
     pv_message = message, pv_location = Some (location a (line_of (art_content a) index))\<rparr>"

definition rm_hits :: "artifact \<Rightarrow> policy_violation list" where
  "rm_hits a = concat (map (\<lambda>m.
     let content = art_content a;
         flags = m_group content m 1;
         short = concat (map (dropWhile (\<lambda>c. c = CHR ''-''))
                   (filter (\<lambda>f. \<not> str_startswith f ''--'') (str_words flags)));
         recursive = (CHR ''r'' \<in> set (str_lower short) \<or> str_contains flags ''--recursive'');
         force = (CHR ''f'' \<in> set short \<or> str_contains flags ''--force'')
     in if recursive \<and> force
        then [flag_at a (m_start m) (''recursive force delete: ''
                @ excerpt (substr content (m_start m) (m_start m + 60)))]
        else []) (finditer rm_flags (art_content a)))"

definition rmtree_hits :: "artifact \<Rightarrow> policy_violation list" where
  "rmtree_hits a = concat (map (\<lambda>m.
     let target = str_strip (m_group (art_content a) m 1)
     in if re_found workspace_token target then []
        else [flag_at a (m_start m) (''shutil.rmtree targets a path outside the managed workspace: ''
                @ ''rmtree('' @ excerpt target @ '')'')]) (finditer rmtree (art_content a)))"

definition delete_hits :: "artifact \<Rightarrow> policy_violation list" where
  "delete_hits a = concat (map (\<lambda>m.
     if re_found where_sql (statement (art_content a) (m_start m) 400) then []
     else [flag_at a (m_start m) (''unbounded delete with no WHERE clause: ''
             @ excerpt (m_group (art_content a) m 0))]) (finditer delete_from (art_content a)))"

definition plain_hits :: "re \<Rightarrow> (string \<Rightarrow> string) \<Rightarrow> artifact \<Rightarrow> policy_violation list" where
  "plain_hits r message a =
     map (\<lambda>m. flag_at a (m_start m) (message (m_group (art_content a) m 0))) (finditer r (art_content a))"

definition destructive_artifact :: "artifact \<Rightarrow> policy_violation list" where
  "destructive_artifact a =
     rm_hits a @ rmtree_hits a
     @ (if is_test_artifact a then [] else plain_hits drop_object (\<lambda>g. ''schema destruction: '' @ excerpt g) a)
     @ plain_hits truncate_sql (\<lambda>g. ''table truncation: '' @ excerpt g) a
     @ delete_hits a
     @ plain_hits os_system (\<lambda>_. ''os.system passes model-produced text to a shell'') a
     @ plain_hits shell_true (\<lambda>_. ''subprocess call with shell=True on model-produced text'') a
     @ plain_hits (call_of ''eval'') (\<lambda>_. ''eval() executes model-produced text as code'') a
     @ plain_hits (call_of ''exec'') (\<lambda>_. ''exec() executes model-produced text as code'') a"

definition destructive_operation :: "artifact list \<Rightarrow> node_spec \<Rightarrow> policy_violation list" where
  "destructive_operation artifacts node = concat (map destructive_artifact artifacts)"

section \<open>Change control\<close>

definition change_rule_id :: string where
  "change_rule_id = ''change_control.approval_required''"

definition change_control :: "string set \<Rightarrow> artifact list \<Rightarrow> node_spec \<Rightarrow> policy_violation list" where
  "change_control approved artifacts node =
     (if \<not> needs_approval node then []
      else if ns_id node \<in> approved then []
      else let produced = produced_by artifacts node in
           if produced = [] then []
           else [\<lparr>pv_rule_id = change_rule_id, pv_severity = SEV_HIGH,
                  pv_message = ''node '' @ [CHR 0x27] @ ns_id node @ [CHR 0x27] @ '' is ''
                    @ impact_value IMPACT_HIGH @ '' impact and produced '' @ str_nat (length produced)
                    @ '' artifact(s) ('' @ str_join '', '' (sort (map art_name produced))
                    @ '') without recorded approval'',
                  pv_location = Some (''node:'' @ ns_id node)\<rparr>])"

section \<open>Test evidence\<close>

definition run_evidence :: "re list" where
  "run_evidence =
    [seqs [WordB, plus (Chr is_digit), spaces1, alts (map lit_ci [''passed'', ''failed'', ''error'',
       ''errors'', ''skipped'', ''xfailed'']), WordB],
     seqs [WordB, lit_ci ''Ran'', spaces1, plus (Chr is_digit), spaces1, lit_ci ''test'', opt_re (lit_ci ''s''), WordB],
     seqs [WordB, lit_ci ''Test'', opt_re (lit_ci ''s''), spaces1, lit_ci ''run:'', spaces, plus (Chr is_digit)],
     seqs [lit_ci ''<testsuite'', WordB, star (none_of ''>''), WordB, lit_ci ''tests'', spaces, lit ''=''],
     Alt (seqs [WordB, lit_ci ''short test summary info'', WordB])
       (seqs [WordB, lit_ci ''test session starts'', WordB]),
     seqs [WordB, lit_ci ''OK'', spaces, lit ''('', spaces, plus (Chr is_digit), spaces1, lit_ci ''test'',
       opt_re (lit_ci ''s'')],
     seqs [WordB, lit_ci ''exit'', spaces, alts [lit_ci ''code'', lit_ci ''status''], spaces, any_of '':='',
       spaces, plus (Chr is_digit)],
     seqs [WordB, alts [lit_ci ''PASSED'', lit_ci ''FAILED''], WordB, spaces1,
       plus (Chr (\<lambda>c. \<not> is_space c)), lit ''::'', plus (Chr (\<lambda>c. \<not> is_space c))],
     seqs [WordB, lit_ci ''coverage'', WordB, star (none_of [CHR 0x0A]), WordB,
       Rep 1 (Some 3) (Chr is_digit), lit ''%'']]"

definition claims_pass :: re where
  "claims_pass = alts
     [seqs [lit_ci ''all'', spaces1, opt_re (seqs [lit_ci ''the'', spaces1]), lit_ci ''test'',
        opt_re (lit_ci ''s''), spaces1, lit_ci ''pass'', star (Chr is_word)],
      seqs [lit_ci ''test'', opt_re (lit_ci ''s''), spaces1, opt_re (seqs [lit_ci ''are'', spaces1]), lit_ci ''passing''],
      seqs [lit_ci ''suite'', spaces1, lit_ci ''is'', spaces1, lit_ci ''green''],
      seqs [lit ''100'', spaces, lit ''%'', spaces1, lit_ci ''pass'', star (Chr is_word)],
      seqs [lit_ci ''everything'', spaces1, lit_ci ''passes''],
      seqs [lit_ci ''no'', spaces1, opt_re (seqs [lit_ci ''test'', spaces1]), lit_ci ''failures''],
      seqs [WordB, lit_ci ''green'', spaces1, lit_ci ''across'', spaces1, lit_ci ''the'', spaces1,
        lit_ci ''board'', WordB]]"

definition evidence_rule_id :: string where
  "evidence_rule_id = ''quality.test_evidence''"

definition executes_tests_rule :: string where
  "executes_tests_rule = ''tests_executed''"

definition has_run_evidence :: "string \<Rightarrow> bool" where
  "has_run_evidence content \<longleftrightarrow> list_ex (\<lambda>r. re_found r content) run_evidence"

definition claim_line :: "string \<Rightarrow> nat" where
  "claim_line content =
     (case re_search claims_pass content of Some m \<Rightarrow> line_of content (m_start m) | None \<Rightarrow> 1)"

definition evidence_violation :: "string \<Rightarrow> string \<Rightarrow> policy_violation" where
  "evidence_violation message loc = \<lparr>pv_rule_id = evidence_rule_id, pv_severity = SEV_HIGH,
     pv_message = message, pv_location = Some loc\<rparr>"

definition test_evidence :: "artifact list \<Rightarrow> node_spec \<Rightarrow> policy_violation list" where
  "test_evidence artifacts node =
     (if executes_tests_rule \<notin> set (ns_exit_rules node) then []
      else let produced = produced_by artifacts node in
           if produced = [] then []
           else if list_ex (\<lambda>a. has_run_evidence (art_content a)) produced then []
           else let claimers = filter (\<lambda>a. re_found claims_pass (art_content a)) produced in
                if claimers \<noteq> []
                then map (\<lambda>a. evidence_violation
                       (''test artifact claims a passing suite but carries no transcript of ''
                        @ ''an executed run (no pass/fail counts, JUnit report, or exit status)'')
                       (location a (claim_line (art_content a)))) claimers
                else [evidence_violation
                       (''test node '' @ [CHR 0x27] @ ns_id node @ [CHR 0x27]
                        @ '' produced no artifact containing real test ''
                        @ ''results (saw: '' @ str_join '', '' (sort (map art_name produced)) @ '')'')
                       (''node:'' @ ns_id node)])"

section \<open>Personal data in URLs\<close>

definition url_char :: "char \<Rightarrow> bool" where
  "url_char c \<longleftrightarrow> \<not> is_space c \<and> c \<notin> {CHR 0x27, CHR 0x22, CHR ''<'', CHR ''>'', CHR '')'', CHR '']'',
     CHR 0x7D, CHR 0x5C}"

definition absolute_url :: re where
  "absolute_url = seqs [WordB, alts [Seq (lit_ci ''http'') (opt_re (lit_ci ''s'')), lit_ci ''ftp''],
     lit ''://'', plus (Chr url_char)]"

definition relative_url :: re where
  "relative_url = seqs [NotBehind (\<lambda>c. is_word c \<or> c = CHR '':'' \<or> c = CHR ''/''), lit ''/'',
     star (Chr (\<lambda>c. is_word c \<or> c \<in> set ''/-.%'')), lit ''?'', plus (Chr url_char)]"

definition email_in_url :: re where
  "email_in_url = seqs [plus (Chr (\<lambda>c. is_alnum c \<or> c \<in> set ''._%+-'')), alts [lit ''@'', lit ''%40''],
     plus (Chr (\<lambda>c. is_alnum c \<or> c \<in> set ''.-'')), lit ''.'', Rep 2 None (Chr is_alpha)]"

definition ssn_shaped :: re where
  "ssn_shaped = seqs [WordB, Rep 3 (Some 3) (Chr is_digit), lit ''-'', Rep 2 (Some 2) (Chr is_digit),
     lit ''-'', Rep 4 (Some 4) (Chr is_digit), WordB]"

definition reserved_domain :: re where
  "reserved_domain = alts
     [seqs [lit_ci ''example.'', alts [lit_ci ''com'', lit_ci ''org'', lit_ci ''net'']],
      lit_ci ''.invalid'', lit_ci ''.test'', lit_ci ''localhost'']"

definition pii_rule_id :: string where
  "pii_rule_id = ''privacy.pii_in_url''"

definition pii_violation :: "string \<Rightarrow> string \<Rightarrow> policy_violation" where
  "pii_violation message loc = \<lparr>pv_rule_id = pii_rule_id, pv_severity = SEV_MEDIUM,
     pv_message = message, pv_location = Some loc\<rparr>"

definition pii_url :: "artifact \<Rightarrow> nat \<Rightarrow> string \<Rightarrow> policy_violation list" where
  "pii_url a line_no url =
     (case re_search email_in_url url of
        None \<Rightarrow> []
      | Some m \<Rightarrow> if re_found reserved_domain (m_group url m 0) then []
                  else [pii_violation (''email address embedded in a stored URL: '' @ excerpt url)
                          (location a line_no)])
     @ (if re_found ssn_shaped url
        then [pii_violation (''SSN-shaped value embedded in a stored URL: '' @ excerpt url)
                (location a line_no)]
        else [])"

definition pii_line :: "artifact \<Rightarrow> nat \<times> string \<Rightarrow> policy_violation list" where
  "pii_line a nl =
     concat (map (\<lambda>m. pii_url a (fst nl) (m_group (snd nl) m 0))
       (finditer absolute_url (snd nl) @ finditer relative_url (snd nl)))"

definition pii_in_url :: "artifact list \<Rightarrow> node_spec \<Rightarrow> policy_violation list" where
  "pii_in_url artifacts node =
     concat (map (\<lambda>a. concat (map (pii_line a) (enumerate1 (splitlines (art_content a))))) artifacts)"

end
