(* ===== verification/Policy.thy ===== *)
theory Policy
  imports PolicyRules "HOL-Library.Product_Lexorder" "HOL-Library.Multiset"
begin

text \<open>
  The policy engine of \<^verbatim>\<open>keel/governance/policy.py\<close>: the registered rules, their evaluation at a gate
  with a raising rule turned into a blocking finding, and the gate decision. \<open>OtherRule\<close> stands for
  any object that satisfies the \<open>PolicyRule\<close> protocol: its evaluation is an argument and may raise,
  which is \<open>Inl\<close> of the exception's type name and text.
\<close>

section \<open>Rules\<close>

datatype policy_rule =
    SecretScanRule
  | DestructiveOperationRule
  | OpenRedirectRule
  | ChangeControlRule "string set"
  | TestEvidenceRule
  | PIIInUrlRule
  | OtherRule string "artifact list \<Rightarrow> node_spec \<Rightarrow> (string \<times> string) + policy_violation list"

fun rule_id :: "policy_rule \<Rightarrow> string" where
  "rule_id SecretScanRule = secret_rule_id"
| "rule_id DestructiveOperationRule = destructive_rule_id"
| "rule_id OpenRedirectRule = redirect_rule_id"
| "rule_id (ChangeControlRule _) = change_rule_id"
| "rule_id TestEvidenceRule = evidence_rule_id"
| "rule_id PIIInUrlRule = pii_rule_id"
| "rule_id (OtherRule i _) = i"

fun rule_evaluate ::
  "policy_rule \<Rightarrow> artifact list \<Rightarrow> node_spec \<Rightarrow> (string \<times> string) + policy_violation list" where
  "rule_evaluate SecretScanRule as n = Inr (secret_scan as n)"
| "rule_evaluate DestructiveOperationRule as n = Inr (destructive_operation as n)"
| "rule_evaluate OpenRedirectRule as n = Inr (open_redirect as n)"
| "rule_evaluate (ChangeControlRule approved) as n = Inr (change_control approved as n)"
| "rule_evaluate TestEvidenceRule as n = Inr (test_evidence as n)"
| "rule_evaluate PIIInUrlRule as n = Inr (pii_in_url as n)"
| "rule_evaluate (OtherRule _ f) as n = f as n"

text \<open>\<open>approve\<close>, where the rule has it.\<close>

fun rule_approve :: "string \<Rightarrow> policy_rule \<Rightarrow> policy_rule" where
  "rule_approve node_id (ChangeControlRule approved) = ChangeControlRule (insert node_id approved)"
| "rule_approve node_id r = r"

section \<open>The engine\<close>

type_synonym policy_engine = "policy_rule list"

definition record_approval :: "string \<Rightarrow> policy_engine \<Rightarrow> policy_engine" where
  "record_approval node_id rules = map (rule_approve node_id) rules"

text \<open>\<open>register\<close>; \<open>Inl\<close> is the \<open>ValueError\<close> of a duplicate rule id.\<close>

definition register :: "policy_rule \<Rightarrow> policy_engine \<Rightarrow> string + policy_engine" where
  "register r rules =
     (if rule_id r \<in> set (map rule_id rules) then Inl (rule_id r) else Inr (rules @ [r]))"

definition make_engine :: "policy_rule list \<Rightarrow> string + policy_engine" where
  "make_engine rules = efold register rules []"

fun severity_order :: "severity \<Rightarrow> nat" where
  "severity_order SEV_CRITICAL = 0"
| "severity_order SEV_HIGH = 1"
| "severity_order SEV_MEDIUM = 2"
| "severity_order SEV_LOW = 3"
| "severity_order SEV_INFO = 4"

definition rule_findings ::
  "artifact list \<Rightarrow> node_spec \<Rightarrow> policy_rule \<Rightarrow> policy_violation list" where
  "rule_findings as n r =
     (case rule_evaluate r as n of
        Inr vs \<Rightarrow> vs
      | Inl (exc, text) \<Rightarrow>
          [\<lparr>pv_rule_id = rule_id r, pv_severity = SEV_HIGH,
            pv_message = ''policy rule raised '' @ exc @ '': '' @ text @ ''. ''
              @ ''Treating as blocking because an unevaluated rule is not a pass.'',
            pv_location = Some (''node:'' @ ns_id n)\<rparr>])"

definition evaluate :: "policy_engine \<Rightarrow> artifact list \<Rightarrow> node_spec \<Rightarrow> policy_violation list" where
  "evaluate rules as n =
     sort_key (\<lambda>v. severity_order (pv_severity v)) (concat (map (rule_findings as n) rules))"

fun count_violations ::
  "policy_violation list \<Rightarrow> (string \<times> severity, nat) dict \<Rightarrow> (string \<times> severity, nat) dict" where
  "count_violations [] counts = counts"
| "count_violations (v # vs) counts =
     (let k = (pv_rule_id v, pv_severity v);
          c = (case dget counts k of None \<Rightarrow> 0 | Some c \<Rightarrow> c)
      in count_violations vs (dset k (c + 1) counts))"

definition summarize :: "policy_violation list \<Rightarrow> string" where
  "summarize vs =
     str_join '', ''
       (map (\<lambda>((rid, sev), count).
            rid @ '' ('' @ sev_value sev @ (if count > 1 then '' x'' @ str_nat count else '''') @ '')'')
         (sort_key (\<lambda>kv. (severity_order (snd (fst kv)), fst (fst kv))) (count_violations vs [])))"

definition decide :: "string \<Rightarrow> policy_engine \<Rightarrow> node_spec \<Rightarrow> artifact list \<Rightarrow> gate_decision" where
  "decide gate rules n as =
     (let violations = evaluate rules as n;
          blocking = filter pv_blocks violations
      in if blocking \<noteq> []
         then gate_deny gate (ns_id n) (gate @ '' gate blocked by '' @ summarize blocking) violations
         else \<lparr>gd_gate = gate, gd_node_id = ns_id n, gd_allowed = True,
                gd_reason = (if violations \<noteq> [] then ''allowed with advisory findings: '' @ summarize violations
                  else ''no policy violations across '' @ str_nat (length rules) @ '' rule(s)''),
                gd_violations = violations\<rparr>)"

definition default_engine :: "string set \<Rightarrow> policy_engine" where
  "default_engine approved =
     [SecretScanRule, DestructiveOperationRule, OpenRedirectRule, ChangeControlRule approved,
      TestEvidenceRule, PIIInUrlRule]"

section \<open>Decisions\<close>

lemma set_evaluate: "set (evaluate rules as n) = (\<Union>r \<in> set rules. set (rule_findings as n r))"
  by (simp add: evaluate_def)

lemma decide_allowed_iff:
  "gd_allowed (decide gate rules n as) \<longleftrightarrow> (\<forall>r \<in> set rules. \<forall>v \<in> set (rule_findings as n r). \<not> pv_blocks v)"
proof -
  have "filter pv_blocks (evaluate rules as n) = [] \<longleftrightarrow> (\<forall>v \<in> set (evaluate rules as n). \<not> pv_blocks v)"
    by (simp add: filter_empty_conv)
  then show ?thesis by (simp add: decide_def Let_def set_evaluate)
qed

lemma rule_findings_raised: "rule_evaluate r as n = Inl e \<Longrightarrow> \<exists>v \<in> set (rule_findings as n r). pv_blocks v"
  by (cases e) (simp add: rule_findings_def pv_blocks_def sev_blocks_def)

lemma rule_findings_ok: "rule_evaluate r as n = Inr vs \<Longrightarrow> rule_findings as n r = vs"
  by (simp add: rule_findings_def)

lemma decide_violations [simp]: "gd_violations (decide gate rules n as) = evaluate rules as n"
  by (simp add: decide_def Let_def)

lemma decide_node [simp]:
  "gd_node_id (decide gate rules n as) = ns_id n" "gd_gate (decide gate rules n as) = gate"
  by (simp_all add: decide_def gate_deny_def Let_def)

lemma default_denied:
  assumes "r \<in> set (default_engine approved)" and "v \<in> set (rule_findings as n r)" and "pv_blocks v"
  shows "\<not> gd_allowed (decide gate (default_engine approved) n as)"
  using assms unfolding decide_allowed_iff by blast

lemma default_engine_ids: "distinct (map rule_id (default_engine approved))"
  by (simp add: default_engine_def secret_rule_id_def destructive_rule_id_def redirect_rule_id_def
      change_rule_id_def evidence_rule_id_def pii_rule_id_def)

lemma rule_approve_id [simp]: "rule_id (rule_approve i r) = rule_id r"
  by (cases r) simp_all

lemma record_approval_ids [simp]: "map rule_id (record_approval i rules) = map rule_id rules"
  by (simp add: record_approval_def comp_def)

lemma record_approval_default:
  "record_approval i (default_engine approved) = default_engine (insert i approved)"
  by (simp add: record_approval_def default_engine_def)

section \<open>Properties\<close>

text \<open>
  C1: A gate opens exactly when every registered rule could be evaluated and none of them reported a
  blocking finding: a rule that raises closes the gate, and no rule can hide another's finding.
\<close>

theorem gate_opens_iff_all_rules_pass:
  "gd_allowed (decide gate rules n as) \<longleftrightarrow>
     (\<forall>r \<in> set rules. \<exists>vs. rule_evaluate r as n = Inr vs \<and> (\<forall>v \<in> set vs. \<not> sev_blocks (pv_severity v)))"
proof -
  have "(\<forall>v \<in> set (rule_findings as n r). \<not> pv_blocks v) \<longleftrightarrow>
      (\<exists>vs. rule_evaluate r as n = Inr vs \<and> (\<forall>v \<in> set vs. \<not> sev_blocks (pv_severity v)))" for r
    using rule_findings_raised [of r as n] rule_findings_ok [of r as n]
    by (cases "rule_evaluate r as n") (auto simp: pv_blocks_def)
  then show ?thesis by (simp add: decide_allowed_iff)
qed

theorem gate_opens_iff_all_rules_pass_witness:
  "\<not> gd_allowed (decide ''exit'' [TestEvidenceRule, OtherRule ''x'' (\<lambda>_ _. Inl (''KeyError'', ''k''))] node_default [])"
  using gate_opens_iff_all_rules_pass
    [of "''exit''" "[TestEvidenceRule, OtherRule ''x'' (\<lambda>_ _. Inl (''KeyError'', ''k''))]" node_default "[]"]
  by simp

text \<open>
  A decision reports every finding of every rule exactly as often as it was made, most severe
  first: nothing is lost between the rules and the audit record.
\<close>

theorem decision_reports_every_finding:
  "mset (gd_violations (decide gate rules n as)) = mset (concat (map (rule_findings as n) rules))
   \<and> sorted (map (\<lambda>v. severity_order (pv_severity v)) (gd_violations (decide gate rules n as)))"
  by (simp add: evaluate_def)

lemma change_control_blocks:
  "change_control approved as n \<noteq> [] \<longleftrightarrow>
     needs_approval n \<and> ns_id n \<notin> approved \<and> produced_by as n \<noteq> []"
  by (simp add: change_control_def Let_def)

lemma change_control_severe: "v \<in> set (change_control approved as n) \<Longrightarrow> pv_blocks v"
  by (auto simp: change_control_def Let_def pv_blocks_def sev_blocks_def split: if_splits)

text \<open>
  C9: The output of a high-impact node is held until the approval of that very node is recorded:
  without it the default guardrails deny the gate whatever the artifacts say, with it the
  change-control rule has nothing left to report about the node, and an approval of one node
  never approves another.
\<close>

theorem change_control_holds_until_approved:
  assumes "needs_approval n" and "\<exists>a \<in> set as. art_produced_by a = ns_id n"
  shows "(ns_id n \<notin> approved \<longrightarrow> \<not> gd_allowed (decide gate (default_engine approved) n as))
    \<and> record_approval i (default_engine approved) = default_engine (insert i approved)
    \<and> (change_control (insert i approved) as n = [] \<longleftrightarrow> ns_id n \<in> insert i approved)"
proof -
  have p: "produced_by as n \<noteq> []" using assms(2) by (auto simp: produced_by_def filter_empty_conv)
  have "\<not> gd_allowed (decide gate (default_engine approved) n as)" if "ns_id n \<notin> approved"
  proof -
    have "change_control approved as n \<noteq> []"
      using change_control_blocks [of approved as n] assms(1) p that by blast
    then obtain v where v: "v \<in> set (change_control approved as n)" by (meson list.set_sel(1))
    show ?thesis
      by (rule default_denied [of "ChangeControlRule approved" _ v])
        (use v change_control_severe [OF v] in \<open>simp_all add: default_engine_def rule_findings_def\<close>)
  qed
  moreover have "change_control (insert i approved) as n = [] \<longleftrightarrow> ns_id n \<in> insert i approved"
    using change_control_blocks [of "insert i approved" as n] assms(1) p by blast
  ultimately show ?thesis by (simp add: record_approval_default)
qed

theorem change_control_holds_until_approved_witness:
  "\<not> gd_allowed (decide ''exit'' (default_engine {''other''}) (node_default\<lparr>ns_id := ''implement'', ns_impact := IMPACT_HIGH\<rparr>)
     [text_artifact ''main.py'' ''x = 1'' ''implement''])"
  using change_control_holds_until_approved
    [of "node_default\<lparr>ns_id := ''implement'', ns_impact := IMPACT_HIGH\<rparr>"
      "[text_artifact ''main.py'' ''x = 1'' ''implement'']" "{''other''}" "''exit''"]
  by (simp add: needs_approval_def text_artifact_def)

text \<open>
  A node that declares it executes tests cannot pass its exit gate on a claim: if it produced
  anything and none of it carries the transcript of an executed run, the default guardrails deny.
\<close>

theorem tests_executed_needs_transcript:
  assumes "''tests_executed'' \<in> set (ns_exit_rules n)" and "\<exists>a \<in> set as. art_produced_by a = ns_id n"
    and "\<forall>a \<in> set as. art_produced_by a = ns_id n \<longrightarrow> \<not> has_run_evidence (art_content a)"
  shows "\<not> gd_allowed (decide gate (default_engine approved) n as)"
proof -
  let ?p = "produced_by as n"
  have p: "?p \<noteq> []" and no: "\<not> list_ex (\<lambda>a. has_run_evidence (art_content a)) ?p"
    using assms(2,3) by (auto simp: produced_by_def filter_empty_conv list_ex_iff)
  have ne: "test_evidence as n \<noteq> []"
    using assms(1) p no by (simp add: test_evidence_def Let_def executes_tests_rule_def)
  have sev: "\<forall>v \<in> set (test_evidence as n). pv_blocks v"
    by (simp add: test_evidence_def Let_def evidence_violation_def pv_blocks_def sev_blocks_def)
  from ne obtain v where v: "v \<in> set (test_evidence as n)" by (meson list.set_sel(1))
  show ?thesis
    by (rule default_denied [of TestEvidenceRule _ v])
      (use v sev in \<open>simp_all add: default_engine_def rule_findings_def\<close>)
qed

lemma no_transcript: "\<not> has_run_evidence ''all tests pass''"
  by code_simp

theorem tests_executed_needs_transcript_witness:
  "\<not> gd_allowed (decide ''exit'' (default_engine {}) (node_default\<lparr>ns_id := ''verify'', ns_exit_rules := [''tests_executed'']\<rparr>)
     [text_artifact ''verify.json'' ''all tests pass'' ''verify''])"
  by (rule tests_executed_needs_transcript) (simp_all add: text_artifact_def no_transcript)

section \<open>The secret scan finds every provider key\<close>

lemma secret_hit_keeps: "set (snd s) \<subseteq> set (snd (secret_hit a l line spec m s))
    \<and> set (fst s) \<subseteq> set (fst (secret_hit a l line spec m s))"
  by (auto simp: secret_hit_def Let_def)

lemma fold_keeps:
  assumes "\<And>x s. set (snd s) \<subseteq> set (snd (f x s)) \<and> set (fst s) \<subseteq> set (fst (f x s))"
  shows "set (snd s) \<subseteq> set (snd (fold f xs s)) \<and> set (fst s) \<subseteq> set (fst (fold f xs s))"
proof (induction xs arbitrary: s)
  case (Cons x xs)
  from assms [of s x] Cons [of "f x s"] show ?case by (simp, blast)
qed simp

definition seen_reported :: "scan_state \<Rightarrow> bool" where
  "seen_reported s \<longleftrightarrow> (\<forall>k \<in> set (fst s). \<exists>v \<in> set (snd s).
     pv_location v = Some (fst k) \<and> pv_severity v = SEV_CRITICAL)"

lemma secret_hit_reported: "seen_reported s \<Longrightarrow> seen_reported (secret_hit a l line spec m s)"
  by (auto simp: seen_reported_def secret_hit_def Let_def)

lemma fold_reported:
  "(\<And>x s. seen_reported s \<Longrightarrow> seen_reported (f x s)) \<Longrightarrow> seen_reported s \<Longrightarrow> seen_reported (fold f xs s)"
  by (induction xs arbitrary: s) simp_all

text \<open>A step that establishes a fact no later step destroys establishes it for the whole fold.\<close>

lemma fold_establishes:
  assumes "x \<in> set xs" and "\<And>y s. P s \<Longrightarrow> P (f y s)" and "\<And>s. I s \<Longrightarrow> P (f x s)"
    and "\<And>y s. I s \<Longrightarrow> I (f y s)" and "I s"
  shows "P (fold f xs s)"
proof -
  have keep: "P t \<Longrightarrow> P (fold f ys t)" for t ys
    by (induction ys arbitrary: t) (simp_all add: assms(2))
  from assms(1) obtain us vs where "xs = us @ x # vs" by (auto simp: in_set_conv_decomp)
  moreover have "I (fold f us s)" using assms(4,5) by (induction us arbitrary: s) simp_all
  ultimately show ?thesis by (simp add: keep assms(3))
qed

definition reported_at :: "string \<Rightarrow> scan_state \<Rightarrow> bool" where
  "reported_at loc s \<longleftrightarrow> (\<exists>v \<in> set (snd s). pv_location v = Some loc \<and> pv_severity v = SEV_CRITICAL)"

lemma secret_line_def': "secret_line a nl = fold (\<lambda>spec s.
     if is_test_artifact a \<and> 0 < sp_min_entropy spec then s
     else fold (secret_hit a (fst nl) (snd nl) spec) (finditer (sp_pattern spec) (snd nl)) s) secret_patterns"
  by (rule ext) (simp add: secret_line_def)

lemma secret_spec_keeps:
  "set (snd s) \<subseteq> set (snd (if b then s else fold (secret_hit a l line spec) ms s))
   \<and> set (fst s) \<subseteq> set (fst (if b then s else fold (secret_hit a l line spec) ms s))"
  using fold_keeps [of "secret_hit a l line spec" s ms] secret_hit_keeps by auto

lemma secret_line_keeps: "set (snd s) \<subseteq> set (snd (secret_line a nl s)) \<and> set (fst s) \<subseteq> set (fst (secret_line a nl s))"
  unfolding secret_line_def' by (rule fold_keeps) (rule secret_spec_keeps)

lemma secret_artifact_keeps:
  "set (snd s) \<subseteq> set (snd (fold (secret_line a) ls s)) \<and> set (fst s) \<subseteq> set (fst (fold (secret_line a) ls s))"
  by (rule fold_keeps) (rule secret_line_keeps)

lemma secret_line_reported: "seen_reported s \<Longrightarrow> seen_reported (secret_line a nl s)"
  unfolding secret_line_def' by (rule fold_reported) (auto intro: fold_reported secret_hit_reported)

lemma reported_at_keeps: "set (snd s) \<subseteq> set (snd s') \<Longrightarrow> reported_at loc s \<Longrightarrow> reported_at loc s'"
  by (auto simp: reported_at_def)

lemma secret_hit_establishes:
  assumes "sp_min_entropy spec = 0" and "\<not> looks_like_placeholder (m_group line m (sp_value_group spec)) line"
    and "seen_reported s"
  shows "reported_at (location a l) (secret_hit a l line spec m s)"
proof (cases "(location a l, m_group line m (sp_value_group spec)) \<in> set (fst s)")
  case True
  with assms(3) have "reported_at (location a l) s"
    unfolding seen_reported_def reported_at_def by (metis fst_conv)
  with assms True show ?thesis by (simp add: secret_hit_def Let_def)
next
  case False
  with assms show ?thesis by (simp add: secret_hit_def Let_def reported_at_def)
qed

lemma secret_scan_finds:
  assumes a: "a \<in> set as" and l: "(l, line) \<in> set (enumerate1 (splitlines (art_content a)))"
    and spec: "spec \<in> set secret_patterns" "sp_min_entropy spec = 0"
    and m: "m \<in> set (finditer (sp_pattern spec) line)"
    and no: "\<not> looks_like_placeholder (m_group line m (sp_value_group spec)) line"
  shows "\<exists>v \<in> set (secret_scan as n). pv_location v = Some (location a l) \<and> pv_severity v = SEV_CRITICAL"
proof -
  let ?hit = "secret_hit a l line spec"
  have line: "reported_at (location a l) (secret_line a (l, line) s)" if "seen_reported s" for s
    unfolding secret_line_def'
  proof (rule fold_establishes [OF spec(1), where I = seen_reported])
    show "reported_at (location a l) (if is_test_artifact a \<and> 0 < sp_min_entropy y then s
        else fold (secret_hit a (fst (l, line)) (snd (l, line)) y) (finditer (sp_pattern y) (snd (l, line))) s)"
      if "reported_at (location a l) s" for y s
      using reported_at_keeps [OF _ that] secret_spec_keeps by blast
    show "reported_at (location a l) (if is_test_artifact a \<and> 0 < sp_min_entropy spec then s
        else fold (secret_hit a (fst (l, line)) (snd (l, line)) spec) (finditer (sp_pattern spec) (snd (l, line))) s)"
      if "seen_reported s" for s
    proof -
      have "reported_at (location a l) (fold ?hit (finditer (sp_pattern spec) line) s)"
        by (rule fold_establishes [OF m, where I = seen_reported])
          (use that spec(2) no secret_hit_establishes secret_hit_reported secret_hit_keeps
            in \<open>blast intro: reported_at_keeps\<close>)+
      then show ?thesis using spec(2) by simp
    qed
  qed (use that in \<open>auto intro: fold_reported secret_hit_reported\<close>)
  have art: "reported_at (location a l) (fold (secret_line a) (enumerate1 (splitlines (art_content a))) s)"
    if "seen_reported s" for s
    by (rule fold_establishes [OF l, where I = seen_reported])
      (use that line secret_line_reported secret_line_keeps in \<open>blast intro: reported_at_keeps\<close>)+
  have "reported_at (location a l)
      (fold (\<lambda>a. fold (secret_line a) (enumerate1 (splitlines (art_content a)))) as ([], []))"
  proof (rule fold_establishes [OF a, where I = seen_reported])
    show "reported_at (location a l) (fold (secret_line y) (enumerate1 (splitlines (art_content y))) s)"
      if "reported_at (location a l) s" for y s
      using reported_at_keeps [OF _ that] secret_artifact_keeps by blast
    show "seen_reported (fold (secret_line y) (enumerate1 (splitlines (art_content y))) s)"
      if "seen_reported s" for y s
      by (rule fold_reported [OF secret_line_reported that])
  qed (simp_all add: art seen_reported_def)
  then show ?thesis by (simp add: reported_at_def secret_scan_def)
qed

text \<open>
  A provider-shaped credential on any line of any artifact, test files included, that is not a
  placeholder closes the gate of the default guardrails with a critical finding at that line.
\<close>

theorem provider_key_is_blocked:
  assumes "a \<in> set as" and "(l, line) \<in> set (enumerate1 (splitlines (art_content a)))"
    and "spec \<in> set secret_patterns" and "sp_min_entropy spec = 0"
    and "m \<in> set (finditer (sp_pattern spec) line)"
    and "\<not> looks_like_placeholder (m_group line m (sp_value_group spec)) line"
  shows "\<not> gd_allowed (decide gate (default_engine approved) n as)
    \<and> (\<exists>v \<in> set (gd_violations (decide gate (default_engine approved) n as)).
         pv_location v = Some (location a l) \<and> pv_severity v = SEV_CRITICAL)"
proof -
  from secret_scan_finds [OF assms] obtain v where v: "v \<in> set (secret_scan as n)"
    "pv_location v = Some (location a l)" "pv_severity v = SEV_CRITICAL" by blast
  have "\<not> gd_allowed (decide gate (default_engine approved) n as)"
    by (rule default_denied [of SecretScanRule _ v])
      (use v in \<open>simp_all add: default_engine_def rule_findings_def pv_blocks_def sev_blocks_def\<close>)
  moreover have "v \<in> set (gd_violations (decide gate (default_engine approved) n as))"
    using v(1) by (auto simp: set_evaluate default_engine_def rule_findings_def)
  ultimately show ?thesis using v by blast
qed

end
