(* ===== verification/Approvals.thy ===== *)
theory Approvals
  imports Models
begin

text \<open>
  Human sign-off, \<^verbatim>\<open>keel/governance/approvals.py\<close>: the three brokers, their common record of what was
  asked and answered, and the contract the orchestrator relies on, stated as the locale
  \<open>approval_broker\<close> and discharged by every broker of the module. The person at the terminal is the
  list of what the successive reads return.
\<close>

section \<open>Brokers\<close>

datatype read_event = Line string | NoInput

datatype broker_kind =
    AutoApproval bool
  | ScriptedApproval "(string, bool) dict"
  | InteractiveApproval "read_event list"

record broker =
  bk_kind :: broker_kind
  bk_history :: "(approval_request \<times> approval_decision) list"
  bk_output :: "string list"

text \<open>The \<open>KeyError\<close> of a node the script does not mention.\<close>

datatype broker_error = Unscripted string "string list"

definition new_broker :: "broker_kind \<Rightarrow> broker" where
  "new_broker k = \<lparr>bk_kind = k, bk_history = [], bk_output = []\<rparr>"

definition affirmative :: "string set" where
  "affirmative = {''y'', ''yes''}"

definition negative :: "string set" where
  "negative = {''n'', ''no''}"

definition record_decision ::
  "approval_request \<Rightarrow> bool \<Rightarrow> string \<Rightarrow> string \<Rightarrow> broker \<Rightarrow> approval_decision \<times> broker" where
  "record_decision req approved decided_by note b =
     (let decision = \<lparr>ad_request_id = aq_request_id req, ad_approved = approved,
                      ad_decided_by = decided_by, ad_note = note\<rparr>
      in (decision, b\<lparr>bk_history := bk_history b @ [(req, decision)]\<rparr>))"

definition approvals :: "broker \<Rightarrow> (approval_request \<times> approval_decision) list" where
  "approvals b = filter (\<lambda>(_, d). ad_approved d) (bk_history b)"

definition denials :: "broker \<Rightarrow> (approval_request \<times> approval_decision) list" where
  "denials b = filter (\<lambda>(_, d). \<not> ad_approved d) (bk_history b)"

definition auto_request :: "bool \<Rightarrow> approval_request \<Rightarrow> broker \<Rightarrow> approval_decision \<times> broker" where
  "auto_request approve req b =
     record_decision req approve ''auto''
       (''auto-'' @ (if approve then ''approved'' else ''denied'') @ '', no human consulted'') b"

definition scripted_request ::
  "(string, bool) dict \<Rightarrow> approval_request \<Rightarrow> broker \<Rightarrow> broker_error + approval_decision \<times> broker" where
  "scripted_request decisions req b =
     (case dget decisions (aq_node_id req) of
        None \<Rightarrow> Inl (Unscripted (aq_node_id req) (sort (dkeys decisions)))
      | Some approved \<Rightarrow>
          Inr (record_decision req approved ''script'' (''scripted decision for '' @ aq_node_id req) b))"

definition str_upper :: "string \<Rightarrow> string" where
  "str_upper s = map (\<lambda>c. if is_lower c then char_of (of_char c - 32 :: nat) else c) s"

definition approval_prompt :: "approval_request \<Rightarrow> string" where
  "approval_prompt req =
     str_join newline
       (['''', replicate 60 (CHR ''=''),
         ''APPROVAL REQUIRED  ['' @ str_upper (impact_value (aq_impact req)) @ '' impact]'',
         replicate 60 (CHR ''=''),
         ''node:    '' @ aq_node_id req,
         ''reason:  '' @ aq_reason req]
        @ (if aq_details req \<noteq> [] then [''details: '' @ aq_details req] else [])
        @ [''request: '' @ aq_request_id req, replicate 60 (CHR ''-'')])"

definition write_out :: "string \<Rightarrow> broker \<Rightarrow> broker" where
  "write_out t b = b\<lparr>bk_output := bk_output b @ [t]\<rparr>"

definition interactive_request ::
  "read_event list \<Rightarrow> approval_request \<Rightarrow> broker \<Rightarrow> approval_decision \<times> broker" where
  "interactive_request events req b =
     (let asked = (write_out (approval_prompt req) b)\<lparr>bk_kind := InteractiveApproval (tl events)\<rparr>
      in case events of
           Line raw # _ \<Rightarrow>
             (let answer = str_lower (str_strip raw)
              in if answer \<in> affirmative
                   then record_decision req True ''human'' ''approved at terminal'' asked
                 else if answer \<in> negative
                   then record_decision req False ''human'' ''denied at terminal'' asked
                 else if answer = []
                   then record_decision req False ''human'' ''denied by default: empty input'' asked
                 else record_decision req False ''human''
                        (''denied by default: unrecognized answer '' @ str_repr answer) asked)
         | _ \<Rightarrow>
             record_decision req False ''human'' ''denied by default: no input available''
               (write_out (newline @ ''no input available, denying'') asked))"

definition request :: "approval_request \<Rightarrow> broker \<Rightarrow> broker_error + approval_decision \<times> broker" where
  "request req b =
     (case bk_kind b of
        AutoApproval approve \<Rightarrow> Inr (auto_request approve req b)
      | ScriptedApproval decisions \<Rightarrow> scripted_request decisions req b
      | InteractiveApproval events \<Rightarrow> Inr (interactive_request events req b))"

definition broker_for :: "bool \<Rightarrow> (string, bool) dict option \<Rightarrow> read_event list \<Rightarrow> broker" where
  "broker_for interactive scripted terminal =
     (case scripted of
        Some decisions \<Rightarrow> new_broker (ScriptedApproval decisions)
      | None \<Rightarrow> if interactive then new_broker (InteractiveApproval terminal)
                else new_broker (AutoApproval True))"

section \<open>The contract\<close>

text \<open>
  A broker answers about the request it was given and files exactly that answer. From the two laws:
  after any sequence of requests the history is the old history followed by one entry per request,
  in order, and every answer the orchestrator saw is the one on file.
\<close>

text \<open>A run asks one question after another; the first refusal to answer ends it.\<close>

fun ask_all ::
  "(approval_request \<Rightarrow> 's \<Rightarrow> 'e + approval_decision \<times> 's) \<Rightarrow> approval_request list \<Rightarrow> 's \<Rightarrow>
   'e + approval_decision list \<times> 's"
where
  "ask_all ask [] s = Inr ([], s)"
| "ask_all ask (q # qs) s =
     (case ask q s of
        Inl e \<Rightarrow> Inl e
      | Inr (d, s1) \<Rightarrow>
          (case ask_all ask qs s1 of Inl e \<Rightarrow> Inl e | Inr (ds, s2) \<Rightarrow> Inr (d # ds, s2)))"

locale approval_broker =
  fixes ask :: "approval_request \<Rightarrow> 's \<Rightarrow> 'e + approval_decision \<times> 's"
    and log :: "'s \<Rightarrow> (approval_request \<times> approval_decision) list"
  assumes ask_logged: "ask q s = Inr (d, s') \<Longrightarrow> log s' = log s @ [(q, d)]"
    and ask_same_request: "ask q s = Inr (d, s') \<Longrightarrow> ad_request_id d = aq_request_id q"
begin

lemma ask_all_log:
  "ask_all ask qs s = Inr (ds, s') \<Longrightarrow> length ds = length qs \<and> log s' = log s @ zip qs ds"
proof (induction qs arbitrary: s ds)
  case Nil
  then show ?case by simp
next
  case (Cons q qs)
  from Cons.prems obtain d s1 ds1 where s: "ask q s = Inr (d, s1)" "ask_all ask qs s1 = Inr (ds1, s')" "ds = d # ds1"
    by (auto split: sum.splits)
  from Cons.IH [OF s(2)] ask_logged [OF s(1)] s(3) show ?case by simp
qed

lemma ask_all_ids:
  "ask_all ask qs s = Inr (ds, s') \<Longrightarrow> map ad_request_id ds = map aq_request_id qs"
proof (induction qs arbitrary: s ds)
  case Nil
  then show ?case by simp
next
  case (Cons q qs)
  then show ?case by (auto split: sum.splits simp: ask_same_request)
qed

end

lemma record_decision_sel:
  "record_decision q a w n b = (d, b') \<Longrightarrow>
     bk_history b' = bk_history b @ [(q, d)] \<and> ad_request_id d = aq_request_id q \<and> ad_approved d = a
     \<and> bk_kind b' = bk_kind b"
  by (auto simp: record_decision_def Let_def)

interpretation auto: approval_broker "\<lambda>q b. Inr (auto_request approve q b)" bk_history
  for approve
  by unfold_locales (auto simp: auto_request_def dest: record_decision_sel)

interpretation scripted: approval_broker "scripted_request decisions" bk_history
  for decisions
  by unfold_locales (auto simp: scripted_request_def split: option.splits dest: record_decision_sel)

lemma interactive_request_sel:
  assumes "interactive_request events q b = (d, b')"
  shows "bk_history b' = bk_history b @ [(q, d)] \<and> ad_request_id d = aq_request_id q
    \<and> (ad_approved d \<longleftrightarrow> (\<exists>raw rest. events = Line raw # rest \<and> str_lower (str_strip raw) \<in> affirmative))
    \<and> bk_kind b' = InteractiveApproval (tl events)"
proof (cases events)
  case Nil
  with assms show ?thesis
    by (auto simp: interactive_request_def Let_def write_out_def dest!: record_decision_sel)
next
  case (Cons e rest)
  with assms show ?thesis
    by (cases e) (auto simp: interactive_request_def Let_def write_out_def
        split: if_splits dest!: record_decision_sel)
qed

interpretation interactive: approval_broker "\<lambda>q b. Inr (interactive_request events q b)" bk_history
  for events
  by unfold_locales (auto dest: interactive_request_sel)

interpretation broker: approval_broker request bk_history
proof unfold_locales
  fix q b d b'
  assume r: "request q b = Inr (d, b')"
  then have "bk_history b' = bk_history b @ [(q, d)] \<and> ad_request_id d = aq_request_id q"
  proof (cases "bk_kind b")
    case (AutoApproval approve)
    with r show ?thesis using auto.ask_logged [of approve] auto.ask_same_request [of approve]
      by (simp add: request_def)
  next
    case (ScriptedApproval decisions)
    with r show ?thesis using scripted.ask_logged [of decisions] scripted.ask_same_request [of decisions]
      by (simp add: request_def)
  next
    case (InteractiveApproval events)
    with r show ?thesis using interactive.ask_logged [of events] interactive.ask_same_request [of events]
      by (simp add: request_def)
  qed
  then show "bk_history b' = bk_history b @ [(q, d)]" and "ad_request_id d = aq_request_id q" by simp_all
qed

definition sample_request :: "string \<Rightarrow> approval_request" where
  "sample_request n = \<lparr>aq_node_id = n, aq_reason = ''r'', aq_impact = IMPACT_HIGH, aq_details = [],
     aq_request_id = ''id-'' @ n\<rparr>"

section \<open>Properties\<close>

text \<open>
  Consent is never implied. A request is granted only by an unattended broker configured to
  approve, by a script that says so for that very node, or by a terminal answer that is \<open>y\<close> or \<open>yes\<close>
  up to case and surrounding blanks; empty input, end of input, an interrupt and every other
  answer deny.
\<close>

theorem approval_is_explicit:
  assumes "request q b = Inr (d, b')"
  shows "ad_approved d \<longleftrightarrow>
     (case bk_kind b of
        AutoApproval approve \<Rightarrow> approve
      | ScriptedApproval decisions \<Rightarrow> dget decisions (aq_node_id q) = Some True
      | InteractiveApproval events \<Rightarrow>
          (\<exists>raw rest. events = Line raw # rest \<and> str_lower (str_strip raw) \<in> {''y'', ''yes''}))"
  using assms interactive_request_sel [of _ q b d b']
  by (auto simp: request_def auto_request_def scripted_request_def affirmative_def
      split: broker_kind.splits option.splits dest!: record_decision_sel)

theorem approval_is_explicit_witness:
  "\<not> ad_approved (fst (interactive_request [Line ''yeah''] (sample_request []) (new_broker (InteractiveApproval [Line ''yeah'']))))"
proof -
  obtain d b' where r: "interactive_request [Line ''yeah''] (sample_request []) (new_broker (InteractiveApproval [Line ''yeah''])) = (d, b')"
    by fastforce
  then have "request (sample_request []) (new_broker (InteractiveApproval [Line ''yeah''])) = Inr (d, b')"
    by (simp add: request_def new_broker_def)
  from approval_is_explicit [OF this] r show ?thesis
    by (simp add: new_broker_def) code_simp
qed

text \<open>
  The broker's own record is complete whichever broker is in play: after any sequence of
  requests it holds the earlier entries followed by one entry per request, in order, each with
  the decision the orchestrator was given for that request id, and approvals and denials split it.
\<close>

theorem approval_history_complete:
  assumes "ask_all request qs b = Inr (ds, b')"
  shows "bk_history b' = bk_history b @ zip qs ds \<and> length ds = length qs
    \<and> map ad_request_id ds = map aq_request_id qs
    \<and> set (bk_history b') = set (approvals b') \<union> set (denials b')
    \<and> set (approvals b') \<inter> set (denials b') = {}"
  using broker.ask_all_log [OF assms] broker.ask_all_ids [OF assms]
  by (auto simp: approvals_def denials_def)

theorem approval_history_complete_witness:
  "\<exists>ds b'. ask_all request [sample_request ''a'', sample_request ''b''] (new_broker (AutoApproval False)) = Inr (ds, b')
     \<and> length (bk_history b') = 2"
proof -
  have "\<exists>ds b'. ask_all request [sample_request ''a'', sample_request ''b''] (new_broker (AutoApproval False)) = Inr (ds, b')"
    by (simp add: request_def new_broker_def auto_request_def record_decision_def Let_def)
  then obtain ds b' where r: "ask_all request [sample_request ''a'', sample_request ''b''] (new_broker (AutoApproval False)) = Inr (ds, b')"
    by blast
  from approval_history_complete [OF r] have "length (bk_history b') = 2" by (simp add: new_broker_def)
  with r show ?thesis by blast
qed

end
