(* ===== verification/Lineage.thy ===== *)
theory Lineage
  imports Models
begin

text \<open>
  Artifact provenance, \<^verbatim>\<open>keel/governance/lineage.py\<close>: the store of produced revisions and consumption
  edges, staleness by content hash, the provenance report and the diagram. \<open>sha\<close> is the content
  hash.
\<close>

section \<open>The store\<close>

record lineage_store =
  lg_history :: "(string, artifact list) dict"
  lg_edges :: "lineage_edge list"

definition new_store :: lineage_store where
  "new_store = \<lparr>lg_history = [], lg_edges = []\<rparr>"

definition revisions_of :: "lineage_store \<Rightarrow> string \<Rightarrow> artifact list" where
  "revisions_of s name = (case dget (lg_history s) name of None \<Rightarrow> [] | Some rs \<Rightarrow> rs)"

definition record_production :: "(string \<Rightarrow> string) \<Rightarrow> artifact \<Rightarrow> lineage_store \<Rightarrow> lineage_store" where
  "record_production sha a s =
     (let history = dsetdefault (art_name a) [] (lg_history s);
          revisions = (case dget history (art_name a) of None \<Rightarrow> [] | Some rs \<Rightarrow> rs)
      in if revisions \<noteq> [] \<and> art_sha sha (last revisions) = art_sha sha a
         then s\<lparr>lg_history := history\<rparr>
         else s\<lparr>lg_history := dset (art_name a) (revisions @ [a]) history\<rparr>)"

definition knows_sha :: "(string \<Rightarrow> string) \<Rightarrow> lineage_store \<Rightarrow> string \<Rightarrow> string \<Rightarrow> bool" where
  "knows_sha sha s name h \<longleftrightarrow> list_ex (\<lambda>r. art_sha sha r = h) (revisions_of s name)"

definition record_consumption ::
  "(string \<Rightarrow> string) \<Rightarrow> string \<Rightarrow> artifact \<Rightarrow> lineage_store \<Rightarrow> lineage_edge \<times> lineage_store" where
  "record_consumption sha node_id a s =
     (let s1 = (if knows_sha sha s (art_name a) (art_sha sha a) then s else record_production sha a s);
          edge = \<lparr>le_artifact_name = art_name a, le_artifact_sha = art_sha sha a,
                  le_produced_by = art_produced_by a, le_consumed_by = node_id\<rparr>
      in (edge, s1\<lparr>lg_edges := lg_edges s1 @ [edge]\<rparr>))"

section \<open>Accessors\<close>

definition store_artifacts :: "lineage_store \<Rightarrow> (string, artifact) dict" where
  "store_artifacts s = map (\<lambda>(n, rs). (n, last rs)) (filter (\<lambda>(_, rs). rs \<noteq> []) (lg_history s))"

definition latest :: "lineage_store \<Rightarrow> string \<Rightarrow> artifact option" where
  "latest s name = (let rs = revisions_of s name in if rs = [] then None else Some (last rs))"

definition producer :: "lineage_store \<Rightarrow> string \<Rightarrow> string option" where
  "producer s name = map_option art_produced_by (latest s name)"

definition consumers :: "lineage_store \<Rightarrow> string \<Rightarrow> string list" where
  "consumers s name =
     uniq (map le_consumed_by (filter (\<lambda>e. le_artifact_name e = name) (lg_edges s)))"

definition inputs_of :: "lineage_store \<Rightarrow> string \<Rightarrow> lineage_edge list" where
  "inputs_of s node_id = filter (\<lambda>e. le_consumed_by e = node_id) (lg_edges s)"

definition outputs_of :: "lineage_store \<Rightarrow> string \<Rightarrow> artifact list" where
  "outputs_of s node_id =
     filter (\<lambda>r. art_produced_by r = node_id) (concat (dvals (lg_history s)))"

definition stale_edges :: "lineage_store \<Rightarrow> string \<Rightarrow> string \<Rightarrow> lineage_edge list" where
  "stale_edges s name new_sha =
     filter (\<lambda>e. le_artifact_name e = name \<and> le_artifact_sha e \<noteq> new_sha) (lg_edges s)"

definition stale_consumers :: "lineage_store \<Rightarrow> string \<Rightarrow> string \<Rightarrow> string set" where
  "stale_consumers s name new_sha = set (map le_consumed_by (stale_edges s name new_sha))"

section \<open>Explanation\<close>

definition quoted :: "string \<Rightarrow> string" where
  "quoted t = [CHR 0x27] @ t @ [CHR 0x27]"

definition dquoted :: "string \<Rightarrow> string" where
  "dquoted t = [CHR 0x22] @ t @ [CHR 0x22]"

definition edge_line :: "(string \<Rightarrow> string) \<Rightarrow> lineage_store \<Rightarrow> nat \<Rightarrow> string \<Rightarrow> lineage_edge \<Rightarrow> string" where
  "edge_line sha s depth node_id e =
     (let drift = (case latest s (le_artifact_name e) of
                     None \<Rightarrow> ''''
                   | Some cur \<Rightarrow> if art_sha sha cur \<noteq> le_artifact_sha e
                                 then '' [stale, now '' @ art_sha sha cur @ '']'' else '''')
      in replicate (2 * depth) (CHR '' '') @ ''node '' @ quoted node_id @ '' consumed ''
         @ dquoted (le_artifact_name e) @ '' @ '' @ le_artifact_sha e
         @ '' (produced by '' @ quoted (le_produced_by e) @ '')'' @ drift)"

text \<open>
  The recursion stops at a producer that is already on the path; every descent adds one of the
  finitely many producers the edges name.
\<close>

definition open_producers :: "lineage_store \<Rightarrow> string list \<Rightarrow> nat" where
  "open_producers s path = card (set (map le_produced_by (lg_edges s)) - set path)"

lemma open_producers_less:
  assumes "e \<in> set (inputs_of s n)" and "le_produced_by e \<notin> set path"
  shows "open_producers s (path @ [le_produced_by e]) < open_producers s path"
  unfolding open_producers_def using assms by (intro psubset_card_mono) (auto simp: inputs_of_def)

function explain_node ::
  "(string \<Rightarrow> string) \<Rightarrow> lineage_store \<Rightarrow> string \<Rightarrow> nat \<Rightarrow> string list \<Rightarrow> string list" where
  "explain_node sha s node_id depth path =
     (if inputs_of s node_id = []
      then [replicate (2 * depth) (CHR '' '') @ ''node '' @ quoted node_id
              @ '' consumed nothing that was recorded'']
      else concat (map (\<lambda>e. edge_line sha s depth node_id e #
             (if le_produced_by e \<in> set path
              then [replicate (2 * depth) (CHR '' '') @ ''  ... cycle back to node ''
                      @ quoted (le_produced_by e) @ '', stopping'']
              else explain_node sha s (le_produced_by e) (depth + 1) (path @ [le_produced_by e])))
           (inputs_of s node_id)))"
  by pat_completeness auto
termination
  by (relation "measure (\<lambda>(sha, s, n, depth, path). open_producers s path)")
    (auto simp: open_producers_less [simplified])

declare explain_node.simps [simp del]

definition explain :: "(string \<Rightarrow> string) \<Rightarrow> lineage_store \<Rightarrow> string \<Rightarrow> string" where
  "explain sha s name =
     (let revisions = revisions_of s name in
      if revisions = [] then ''no lineage recorded for '' @ dquoted name
      else let cur = last revisions;
               head = [''why '' @ dquoted name @ '' looks like this'',
                 ''  current: sha '' @ art_sha sha cur @ '', produced by node '' @ quoted (art_produced_by cur)];
               hist = (if length revisions > 1
                 then (''  history: '' @ str_nat (length revisions) @ '' revisions recorded'')
                   # map (\<lambda>(i, r). ''    '' @ str_nat i @ ''. sha '' @ art_sha sha r @ '' by ''
                        @ quoted (art_produced_by r) @ (if i = length revisions then '' (current)'' else ''''))
                      (zip [1..<Suc (length revisions)] revisions)
                 else [''  history: 1 revision recorded''])
           in str_join newline (head @ hist @ [''  inputs:'']
                @ explain_node sha s (art_produced_by cur) 2 [art_produced_by cur]))"

section \<open>Diagram\<close>

definition key_of :: "string \<Rightarrow> string" where
  "key_of t = map (\<lambda>c. if is_alnum c \<or> c = CHR ''_'' then c else CHR ''_'') t"

definition node_key :: "string \<Rightarrow> string" where
  "node_key node_id = ''n_'' @ key_of node_id"

definition artifact_key :: "string \<Rightarrow> string" where
  "artifact_key name = ''a_'' @ key_of name"

definition lineage_label :: "string \<Rightarrow> string" where
  "lineage_label t = concat (map (\<lambda>c. if c = CHR 0x22 then ''#quot;''
     else if c = CHR 0x0A then '' '' else [c]) t)"

definition mermaid_nodes :: "lineage_store \<Rightarrow> string list" where
  "mermaid_nodes s =
     uniq (filter (\<lambda>n. n \<noteq> []) (map art_produced_by (concat (dvals (lg_history s))))
           @ map le_consumed_by (lg_edges s))"

type_synonym link = "string \<times> string \<times> string"

definition draw_link :: "link \<Rightarrow> string \<Rightarrow> link list \<times> string list \<Rightarrow> link list \<times> string list" where
  "draw_link l line d = (if l \<in> set (fst d) then d else (fst d @ [l], snd d @ [line]))"

definition draw_production :: "string \<times> artifact \<Rightarrow> link list \<times> string list \<Rightarrow> link list \<times> string list" where
  "draw_production na d =
     (if art_produced_by (snd na) = [] then d
      else let src = node_key (art_produced_by (snd na)); dst = artifact_key (fst na)
           in draw_link (src, ''produces'', dst) (''    '' @ src @ '' --> '' @ dst) d)"

definition draw_consumption ::
  "(string \<Rightarrow> string) \<Rightarrow> lineage_store \<Rightarrow> lineage_edge \<Rightarrow> link list \<times> string list \<Rightarrow> link list \<times> string list" where
  "draw_consumption sha s e d =
     (let stale = (case latest s (le_artifact_name e) of
                     None \<Rightarrow> False | Some cur \<Rightarrow> art_sha sha cur \<noteq> le_artifact_sha e);
          src = artifact_key (le_artifact_name e); dst = node_key (le_consumed_by e)
      in draw_link (src, if stale then ''stale'' else ''consumes'', dst)
           (if stale then ''    '' @ src @ '' -. stale '' @ take 8 (le_artifact_sha e) @ '' .-> '' @ dst
            else ''    '' @ src @ '' --> '' @ dst) d)"

definition lineage_mermaid :: "(string \<Rightarrow> string) \<Rightarrow> lineage_store \<Rightarrow> string" where
  "lineage_mermaid sha s =
     (let nodes = mermaid_nodes s;
          produced = concat (map (\<lambda>(name, rs). map (Pair name) rs) (lg_history s));
          drawn = fold (draw_consumption sha s) (lg_edges s) (fold draw_production produced ([], []))
      in str_join newline
           ([''%% keel lineage, '' @ str_nat (length (lg_history s)) @ '' artifacts, ''
               @ str_nat (length (lg_edges s)) @ '' edges'', ''graph LR'']
            @ map (\<lambda>n. ''    '' @ node_key n @ ''['' @ dquoted (lineage_label n) @ '']'') nodes
            @ map (\<lambda>(name, rs). ''    '' @ artifact_key name @ ''(['' @ dquoted (lineage_label name
                @ ''<br/>'' @ take 8 (art_sha sha (last rs))) @ ''])'')
                (filter (\<lambda>(_, rs). rs \<noteq> []) (lg_history s))
            @ snd drawn))"

section \<open>Invariant of the store\<close>

text \<open>
  Every consumed revision is on record, no revision equals the one before it, and the artifacts of
  a name carry that name.
\<close>

definition lineage_inv :: "(string \<Rightarrow> string) \<Rightarrow> lineage_store \<Rightarrow> bool" where
  "lineage_inv sha s \<longleftrightarrow>
     (\<forall>e \<in> set (lg_edges s). knows_sha sha s (le_artifact_name e) (le_artifact_sha e))
     \<and> (\<forall>name. successively (\<lambda>a b. art_sha sha a \<noteq> art_sha sha b) (revisions_of s name))
     \<and> (\<forall>name. \<forall>a \<in> set (revisions_of s name). art_name a = name)"

inductive lineage_run :: "(string \<Rightarrow> string) \<Rightarrow> lineage_store \<Rightarrow> bool" for sha where
  start: "lineage_run sha new_store"
| produced: "lineage_run sha s \<Longrightarrow> lineage_run sha (record_production sha a s)"
| consumed: "lineage_run sha s \<Longrightarrow> lineage_run sha (snd (record_consumption sha n a s))"

lemma revisions_of_production:
  "revisions_of (record_production sha a s) name =
     (if name \<noteq> art_name a then revisions_of s name
      else if revisions_of s name \<noteq> [] \<and> art_sha sha (last (revisions_of s name)) = art_sha sha a
        then revisions_of s name
      else revisions_of s name @ [a])"
  by (auto simp: record_production_def Let_def revisions_of_def split: option.splits)

lemma edges_production [simp]: "lg_edges (record_production sha a s) = lg_edges s"
  by (simp add: record_production_def Let_def)

lemma record_consumption_sel:
  "lg_edges (snd (record_consumption sha n a s)) = lg_edges s @ [fst (record_consumption sha n a s)]"
  "le_artifact_name (fst (record_consumption sha n a s)) = art_name a"
  "le_artifact_sha (fst (record_consumption sha n a s)) = art_sha sha a"
  "le_consumed_by (fst (record_consumption sha n a s)) = n"
  "revisions_of (snd (record_consumption sha n a s)) name = revisions_of
     (if knows_sha sha s (art_name a) (art_sha sha a) then s else record_production sha a s) name"
  by (simp_all add: record_consumption_def Let_def revisions_of_def)

lemma knows_sha_production:
  "knows_sha sha s name h \<Longrightarrow> knows_sha sha (record_production sha a s) name h"
  "knows_sha sha (record_production sha a s) (art_name a) (art_sha sha a)"
  by (auto simp: knows_sha_def revisions_of_production list_ex_iff)

lemma lineage_inv_production:
  assumes "lineage_inv sha s"
  shows "lineage_inv sha (record_production sha a s)"
  unfolding lineage_inv_def
proof (intro conjI ballI allI)
  fix e assume "e \<in> set (lg_edges (record_production sha a s))"
  with assms show "knows_sha sha (record_production sha a s) (le_artifact_name e) (le_artifact_sha e)"
    by (simp add: lineage_inv_def knows_sha_production(1))
next
  fix name
  show "successively (\<lambda>a b. art_sha sha a \<noteq> art_sha sha b) (revisions_of (record_production sha a s) name)"
    using assms by (simp add: lineage_inv_def revisions_of_production successively_append_iff)
next
  fix name b assume "b \<in> set (revisions_of (record_production sha a s) name)"
  with assms show "art_name b = name"
    by (auto simp: lineage_inv_def revisions_of_production split: if_splits)
qed

lemma knows_sha_cong: "revisions_of s name = revisions_of s' name \<Longrightarrow> knows_sha sha s name h = knows_sha sha s' name h"
  by (simp add: knows_sha_def)

lemma lineage_inv_extend:
  "lineage_inv sha s1 \<Longrightarrow> revisions_of s2 = revisions_of s1 \<Longrightarrow> lg_edges s2 = lg_edges s1 @ [e] \<Longrightarrow>
     knows_sha sha s1 (le_artifact_name e) (le_artifact_sha e) \<Longrightarrow> lineage_inv sha s2"
  by (simp add: lineage_inv_def knows_sha_def)

lemma lineage_inv_consumption:
  assumes "lineage_inv sha s"
  shows "lineage_inv sha (snd (record_consumption sha n a s))"
proof -
  let ?s1 = "if knows_sha sha s (art_name a) (art_sha sha a) then s else record_production sha a s"
  show ?thesis
  proof (rule lineage_inv_extend [of sha ?s1])
    show "lineage_inv sha ?s1" using assms lineage_inv_production by simp
    show "revisions_of (snd (record_consumption sha n a s)) = revisions_of ?s1"
      by (rule ext) (rule record_consumption_sel(5))
    show "lg_edges (snd (record_consumption sha n a s)) = lg_edges ?s1 @ [fst (record_consumption sha n a s)]"
      by (simp add: record_consumption_sel)
    show "knows_sha sha ?s1 (le_artifact_name (fst (record_consumption sha n a s)))
        (le_artifact_sha (fst (record_consumption sha n a s)))"
      by (simp add: record_consumption_sel knows_sha_production(2))
  qed
qed

lemma lineage_run_inv: "lineage_run sha s \<Longrightarrow> lineage_inv sha s"
proof (induction rule: lineage_run.induct)
  case start
  show ?case by (simp add: lineage_inv_def new_store_def revisions_of_def)
qed (simp_all add: lineage_inv_production lineage_inv_consumption)

section \<open>Properties\<close>

text \<open>
  C14: The provenance record has no holes and does not lie: in every store a run can build, each
  consumed revision is on record under its name, and two consecutive revisions of an artifact
  never have the same content, however often a node retried with identical output.
\<close>

theorem lineage_record_is_sound:
  assumes "lineage_run sha s"
  shows "(\<forall>e \<in> set (lg_edges s). \<exists>r \<in> set (revisions_of s (le_artifact_name e)). art_sha sha r = le_artifact_sha e)
    \<and> (\<forall>name. successively (\<lambda>a b. art_sha sha a \<noteq> art_sha sha b) (revisions_of s name))"
  using lineage_run_inv [OF assms] by (simp add: lineage_inv_def knows_sha_def list_ex_iff)

theorem lineage_record_is_sound_witness:
  "length (revisions_of (snd (record_consumption id ''implement'' (text_artifact ''d'' ''v1'' ''design'')
     (record_production id (text_artifact ''d'' ''v1'' ''design'') new_store))) ''d'') = 1
   \<and> successively (\<lambda>a b. art_sha id a \<noteq> art_sha id b) (revisions_of (snd (record_consumption id ''implement''
       (text_artifact ''d'' ''v1'' ''design'') (record_production id (text_artifact ''d'' ''v1'' ''design'') new_store))) ''d'')"
  using lineage_record_is_sound [OF lineage_run.consumed [OF lineage_run.produced [OF lineage_run.start]],
      of id "''implement''" "text_artifact ''d'' ''v1'' ''design''" "text_artifact ''d'' ''v1'' ''design''"]
  by (simp add: record_consumption_sel revisions_of_production knows_sha_production(2))
    (simp add: revisions_of_def new_store_def text_artifact_def)

text \<open>
  Staleness is decided by content alone. Recording a production never makes anyone stale by
  itself; a node is stale for a new hash exactly when it consumed the artifact at a different one;
  and a node whose only reads of the artifact had the new content is not stale.
\<close>

theorem staleness_is_by_content:
  "(n \<in> stale_consumers s name h \<longleftrightarrow>
      (\<exists>e \<in> set (inputs_of s n). le_artifact_name e = name \<and> le_artifact_sha e \<noteq> h))
   \<and> stale_consumers (record_production sha a s) name h = stale_consumers s name h
   \<and> stale_consumers (snd (record_consumption sha m a s)) name h = stale_consumers s name h
        \<union> (if art_name a = name \<and> art_sha sha a \<noteq> h then {m} else {})"
  by (auto simp: stale_consumers_def stale_edges_def inputs_of_def record_consumption_sel)

theorem staleness_is_by_content_witness:
  "stale_consumers (snd (record_consumption id ''implement'' (text_artifact ''d'' ''v1'' ''design'') new_store)) ''d'' ''v2''
     = {''implement''}"
  using staleness_is_by_content [of "''x''" new_store "''d''" "''v2''" id "text_artifact ''d'' ''v1'' ''design''" "''implement''"]
  by (simp add: text_artifact_def art_sha_def stale_consumers_def stale_edges_def new_store_def)

end
