(* ===== verification/Workspace.thy ===== *)
theory Workspace
  imports Models
begin

text \<open>
  The sandbox of \<^verbatim>\<open>keel/workspace.py\<close>: path containment, reading and writing, snapshots, the two
  rollbacks, diff, pruning and teardown. The file system is a dictionary from absolute paths (lists
  of components) to entries: text, a file that is not UTF-8, a directory, or a symbolic link with an
  absolute or relative target. \<open>Path.resolve\<close> is modelled on it, links followed up to the
  operating system's limit of 40. Paths are POSIX paths; what the operating system refuses
  (a directory where a file is expected and the like) is the error \<open>OSErr\<close>.
\<close>

section \<open>File system\<close>

type_synonym fpath = "string list"

datatype entry = FileE string | BinE | DirE | LinkE bool "string list"

type_synonym fs = "(fpath, entry) dict"

record workspace =
  ws_root :: fpath
  ws_fs :: fs

datatype ws_error =
    EmptyPath
  | NullByte
  | AbsolutePath string
  | Traversal string
  | NamesRoot string
  | Escapes string
  | NoSuchFile string
  | NotText string
  | OSErr string
  | SymlinkLoop
  | BadCommand string
  | UnsafeRoot string
  | UndecodableOutput string

definition ignored_dirs :: "string set" where
  "ignored_dirs = {''__pycache__'', ''.pytest_cache'', ''.venv'', ''.git''}"

definition dots :: string where
  "dots = ''..''"

text \<open>
  \<open>os.path.realpath\<close>: the components are taken one by one; \<open>..\<close> goes to the parent of what has been
  resolved, a link is replaced by its target. \<open>None\<close> is the error of too many links.
\<close>

function resolve_from :: "nat \<Rightarrow> fs \<Rightarrow> fpath \<Rightarrow> string list \<Rightarrow> fpath option" where
  "resolve_from fuel fs acc [] = Some acc"
| "resolve_from fuel fs acc (c # cs) =
     (if c = [] \<or> c = ''.'' then resolve_from fuel fs acc cs
      else if c = ''..'' then resolve_from fuel fs (butlast acc) cs
      else case dget fs (acc @ [c]) of
             Some (LinkE absolute target) \<Rightarrow>
               (case fuel of 0 \<Rightarrow> None
                | Suc n \<Rightarrow> resolve_from n fs (if absolute then [] else acc) (target @ cs))
           | _ \<Rightarrow> resolve_from fuel fs (acc @ [c]) cs)"
  by pat_completeness auto
termination
  by (relation "measures [\<lambda>(fuel, fs, acc, cs). fuel, \<lambda>(fuel, fs, acc, cs). length cs]") auto

declare resolve_from.simps(2) [simp del]

definition resolve :: "fs \<Rightarrow> fpath \<Rightarrow> string list \<Rightarrow> fpath option" where
  "resolve fs base cs = resolve_from 40 fs base cs"

section \<open>Containment\<close>

definition path_components :: "string \<Rightarrow> string list" where
  "path_components s = filter (\<lambda>c. c \<noteq> [] \<and> c \<noteq> ''.'') (split_on (CHR ''/'') s)"

definition win_sep :: "char \<Rightarrow> bool" where
  "win_sep c \<longleftrightarrow> c = CHR ''/'' \<or> c = CHR 0x5C"

definition windows_components :: "string \<Rightarrow> string list" where
  "windows_components s =
     filter (\<lambda>c. c \<noteq> [] \<and> c \<noteq> ''.'')
       (split_on (CHR ''/'') (map (\<lambda>c. if c = CHR 0x5C then CHR ''/'' else c) s))"

text \<open>A drive letter or a UNC share; an absolute Windows path always has one.\<close>

definition windows_drive :: "string \<Rightarrow> bool" where
  "windows_drive s \<longleftrightarrow>
     (case s of
        a # b # _ \<Rightarrow> b = CHR '':'' \<or> (win_sep a \<and> win_sep b)
      | _ \<Rightarrow> False)"

definition is_under :: "fpath \<Rightarrow> fpath \<Rightarrow> bool" where
  "is_under base p \<longleftrightarrow> take (length base) p = base"

definition safe_path :: "workspace \<Rightarrow> string \<Rightarrow> ws_error + fpath" where
  "safe_path ws relative_path =
     (let raw = str_strip relative_path in
      if raw = [] then Inl EmptyPath
      else if CHR 0x00 \<in> set raw then Inl NullByte
      else if str_startswith raw ''/'' \<or> windows_drive raw then Inl (AbsolutePath raw)
      else if dots \<in> set (path_components raw) \<or> dots \<in> set (windows_components raw)
        then Inl (Traversal raw)
      else case resolve (ws_fs ws) (ws_root ws) (path_components raw) of
             None \<Rightarrow> Inl SymlinkLoop
           | Some candidate \<Rightarrow>
               if candidate = ws_root ws then Inl (NamesRoot raw)
               else if \<not> is_under (ws_root ws) candidate then Inl (Escapes raw)
               else Inr candidate)"

definition rel_parts :: "workspace \<Rightarrow> fpath \<Rightarrow> string list" where
  "rel_parts ws p = drop (length (ws_root ws)) p"

definition relative :: "workspace \<Rightarrow> fpath \<Rightarrow> string" where
  "relative ws p = str_join ''/'' (rel_parts ws p)"

section \<open>Reading and writing\<close>

text \<open>\<open>path.suffix\<close> and \<open>path.stem\<close> of a file name\<close>

definition split_suffix :: "string \<Rightarrow> string \<times> string" where
  "split_suffix name =
     (let tail = rev (takeWhile (\<lambda>c. c \<noteq> CHR ''.'') (rev name));
          i = length name - length tail - 1
      in if CHR ''.'' \<in> set name \<and> tail \<noteq> [] \<and> 0 < i then (take i name, drop i name) else (name, []))"

definition media_types :: "(string, string) dict" where
  "media_types = [(''.py'', ''text/x-python''), (''.md'', ''text/markdown''),
     (''.json'', ''application/json''), (''.toml'', ''text/x-toml''), (''.yaml'', ''text/yaml''),
     (''.yml'', ''text/yaml''), (''.txt'', ''text/plain''), (''.cfg'', ''text/plain''),
     (''.html'', ''text/html'')]"

text \<open>
  An operation that fails half-way leaves the file system as far as it got: its error carries that
  state.
\<close>

type_synonym 's failing = "(ws_error \<times> 's) + 's"

definition mkdir_one :: "fpath \<Rightarrow> fs \<Rightarrow> fs failing" where
  "mkdir_one p fs =
     (case dget fs p of
        None \<Rightarrow> Inr (dset p DirE fs)
      | Some DirE \<Rightarrow> Inr fs
      | Some _ \<Rightarrow> Inl (OSErr ''not a directory'', fs))"

text \<open>\<open>target.parent.mkdir(parents=True, exist_ok=True)\<close>: the ancestors of the target, outermost first\<close>

definition ancestors_of :: "fpath \<Rightarrow> fpath list" where
  "ancestors_of p = map (\<lambda>i. take i p) [1..<length p]"

definition mkdir_parents :: "fpath \<Rightarrow> fs \<Rightarrow> fs failing" where
  "mkdir_parents p fs = efold mkdir_one (ancestors_of p) fs"

definition unlink :: "fpath \<Rightarrow> fs \<Rightarrow> fs failing" where
  "unlink p fs =
     (case dget fs p of
        Some DirE \<Rightarrow> Inl (OSErr ''is a directory'', fs)
      | _ \<Rightarrow> Inr (dpop p fs))"

text \<open>The names \<open>cache_dir.glob("stem.*.pyc")\<close> yields, for a stem without glob characters.\<close>

definition pyc_of :: "string \<Rightarrow> string \<Rightarrow> bool" where
  "pyc_of stem name \<longleftrightarrow> str_startswith name (stem @ ''.'') \<and> str_endswith name ''.pyc''
     \<and> length stem + 5 \<le> length name"

definition stale_bytecode :: "fpath \<Rightarrow> fs \<Rightarrow> fpath list" where
  "stale_bytecode target fs =
     (case resolve fs [] (butlast target @ [''__pycache__'']) of
        None \<Rightarrow> []
      | Some cache_dir \<Rightarrow>
          if dget fs cache_dir = Some DirE
          then filter (\<lambda>q. q \<noteq> [] \<and> butlast q = cache_dir \<and> pyc_of (fst (split_suffix (last target))) (last q))
                 (dkeys fs)
          else [])"

definition drop_bytecode :: "fpath \<Rightarrow> fs \<Rightarrow> fs failing" where
  "drop_bytecode target fs =
     (if snd (split_suffix (last target)) \<noteq> ''.py'' then Inr fs
      else case efold unlink (stale_bytecode target fs) fs of
             Inl e \<Rightarrow> Inl e
           | Inr fs1 \<Rightarrow> unlink (butlast target @ [fst (split_suffix (last target)) @ ''.pyc'']) fs1)"

definition write_text :: "fpath \<Rightarrow> string \<Rightarrow> fs \<Rightarrow> fs failing" where
  "write_text target content fs =
     (case mkdir_parents target fs of
        Inl e \<Rightarrow> Inl e
      | Inr fs1 \<Rightarrow>
          (case dget fs1 target of
             Some DirE \<Rightarrow> Inl (OSErr ''is a directory'', fs1)
           | _ \<Rightarrow> drop_bytecode target (dset target (FileE content) fs1)))"

text \<open>Text is read with universal newlines: a carriage return, alone or before a line feed, reads as a
  line feed.\<close>

fun universal_newlines :: "string \<Rightarrow> string" where
  "universal_newlines [] = []"
| "universal_newlines (c # cs) =
     (if c = CHR 0x0D
      then (case cs of
              d # ds \<Rightarrow> if d = CHR 0x0A then CHR 0x0A # universal_newlines ds
                       else CHR 0x0A # universal_newlines cs
            | [] \<Rightarrow> [CHR 0x0A])
      else c # universal_newlines cs)"

definition is_file :: "fs \<Rightarrow> fpath \<Rightarrow> bool" where
  "is_file fs p \<longleftrightarrow> (case dget fs p of Some (FileE _) \<Rightarrow> True | Some BinE \<Rightarrow> True | _ \<Rightarrow> False)"

definition read_text :: "fpath \<Rightarrow> fs \<Rightarrow> ws_error + string" where
  "read_text p fs =
     (case dget fs p of
        Some (FileE s) \<Rightarrow> Inr (universal_newlines s)
      | Some BinE \<Rightarrow> Inl (NotText (last p))
      | _ \<Rightarrow> Inl (OSErr ''no such file''))"

definition ws_write ::
  "workspace \<Rightarrow> string \<Rightarrow> string \<Rightarrow> string \<Rightarrow> string option \<Rightarrow> string option \<Rightarrow>
   (ws_error \<times> workspace) + artifact \<times> workspace"
where
  "ws_write ws relative_path content produced name media_type =
     (case safe_path ws relative_path of
        Inl e \<Rightarrow> Inl (e, ws)
      | Inr target \<Rightarrow>
          (case write_text target content (ws_fs ws) of
             Inl (e, fs) \<Rightarrow> Inl (e, ws\<lparr>ws_fs := fs\<rparr>)
           | Inr fs \<Rightarrow>
               (let rel = relative ws target;
                    pick = (\<lambda>v d. case v of None \<Rightarrow> d | Some t \<Rightarrow> if t = [] then d else t);
                    guess = (case dget media_types (snd (split_suffix (last target))) of
                               None \<Rightarrow> ''text/plain'' | Some t \<Rightarrow> t)
                in Inr (\<lparr>art_name = pick name rel, art_content = content, art_produced_by = produced,
                         art_path = Some rel, art_media_type = pick media_type guess\<rparr>,
                        ws\<lparr>ws_fs := fs\<rparr>))))"

definition ws_read :: "workspace \<Rightarrow> string \<Rightarrow> ws_error + string" where
  "ws_read ws relative_path =
     (case safe_path ws relative_path of
        Inl e \<Rightarrow> Inl e
      | Inr target \<Rightarrow>
          if \<not> is_file (ws_fs ws) target then Inl (NoSuchFile relative_path)
          else read_text target (ws_fs ws))"

definition ws_exists :: "workspace \<Rightarrow> string \<Rightarrow> bool" where
  "ws_exists ws relative_path =
     (case safe_path ws relative_path of Inl _ \<Rightarrow> False | Inr target \<Rightarrow> dget (ws_fs ws) target \<noteq> None)"

definition below_root :: "workspace \<Rightarrow> fpath \<Rightarrow> bool" where
  "below_root ws p \<longleftrightarrow> is_under (ws_root ws) p \<and> length (ws_root ws) < length p"

definition ignored :: "workspace \<Rightarrow> fpath \<Rightarrow> bool" where
  "ignored ws p \<longleftrightarrow> list_ex (\<lambda>c. c \<in> ignored_dirs) (rel_parts ws p)"

definition file_paths :: "workspace \<Rightarrow> fpath list" where
  "file_paths ws =
     filter (\<lambda>p. below_root ws p \<and> \<not> ignored ws p \<and> is_file (ws_fs ws) p) (dkeys (ws_fs ws))"

definition list_files :: "workspace \<Rightarrow> string list" where
  "list_files ws = sort (map (relative ws) (file_paths ws))"

section \<open>Snapshot and rollback\<close>

record snapshot =
  sn_files :: "(string, string) dict"
  sn_label :: string

definition snapshot_paths :: "snapshot \<Rightarrow> string list" where
  "snapshot_paths sn = sort (dkeys (sn_files sn))"

definition snapshot_digest :: "(string \<Rightarrow> string) \<Rightarrow> snapshot \<Rightarrow> string" where
  "snapshot_digest sha sn =
     sha (str_join newline (map (\<lambda>p. p @ '':'' @ sha (case dget (sn_files sn) p of None \<Rightarrow> [] | Some c \<Rightarrow> c))
       (snapshot_paths sn)))"

definition take_file :: "workspace \<Rightarrow> string \<Rightarrow> (string, string) dict \<Rightarrow> ws_error + (string, string) dict" where
  "take_file ws rel files =
     (case ws_read ws rel of Inl e \<Rightarrow> Inl e | Inr c \<Rightarrow> Inr (dset rel c files))"

definition ws_snapshot :: "workspace \<Rightarrow> string \<Rightarrow> ws_error + snapshot" where
  "ws_snapshot ws label =
     (case efold (take_file ws) (list_files ws) [] of
        Inl e \<Rightarrow> Inl e
      | Inr files \<Rightarrow> Inr \<lparr>sn_files = files, sn_label = label\<rparr>)"

type_synonym restoring = "workspace \<times> string list"

text \<open>\<open>target.is_file() and self._read_text(target) == content\<close>\<close>

definition same_text :: "fs \<Rightarrow> fpath \<Rightarrow> string \<Rightarrow> ws_error + bool" where
  "same_text fs target content =
     (if \<not> is_file fs target then Inr False
      else case read_text target fs of Inl e \<Rightarrow> Inl e | Inr c \<Rightarrow> Inr (c = content))"

definition put_back :: "string \<Rightarrow> string \<Rightarrow> restoring \<Rightarrow> restoring failing" where
  "put_back rel content st =
     (case safe_path (fst st) rel of
        Inl e \<Rightarrow> Inl (e, st)
      | Inr target \<Rightarrow>
          (case same_text (ws_fs (fst st)) target content of
             Inl e \<Rightarrow> Inl (e, st)
           | Inr True \<Rightarrow> Inr st
           | Inr False \<Rightarrow>
               (case write_text target content (ws_fs (fst st)) of
                  Inl (e, fs) \<Rightarrow> Inl (e, (fst st)\<lparr>ws_fs := fs\<rparr>, snd st)
                | Inr fs \<Rightarrow> Inr ((fst st)\<lparr>ws_fs := fs\<rparr>, snd st @ [rel]))))"

definition remove_file :: "string \<Rightarrow> restoring \<Rightarrow> restoring failing" where
  "remove_file rel st =
     (case safe_path (fst st) rel of
        Inl e \<Rightarrow> Inl (e, st)
      | Inr target \<Rightarrow>
          (case dget (ws_fs (fst st)) target of
             None \<Rightarrow> Inl (OSErr ''no such file'', st)
           | Some _ \<Rightarrow>
               (case unlink target (ws_fs (fst st)) of
                  Inl (e, fs) \<Rightarrow> Inl (e, (fst st)\<lparr>ws_fs := fs\<rparr>, snd st)
                | Inr fs \<Rightarrow> Inr ((fst st)\<lparr>ws_fs := fs\<rparr>, snd st @ [rel]))))"

definition has_child :: "fs \<Rightarrow> fpath \<Rightarrow> bool" where
  "has_child fs p \<longleftrightarrow> list_ex (\<lambda>q. q \<noteq> [] \<and> butlast q = p) (dkeys fs)"

definition prune_one :: "workspace \<Rightarrow> fpath \<Rightarrow> fs \<Rightarrow> fs" where
  "prune_one ws p fs =
     (if dget fs p = Some DirE \<and> \<not> ignored ws p \<and> \<not> has_child fs p then dpop p fs else fs)"

text \<open>Deepest entries first, so a directory is looked at after everything below it.\<close>

definition prune_empty_dirs :: "workspace \<Rightarrow> workspace" where
  "prune_empty_dirs ws =
     (let entries = rev (sort_key length (rev (filter (below_root ws) (dkeys (ws_fs ws)))))
      in ws\<lparr>ws_fs := fold (prune_one ws) entries (ws_fs ws)\<rparr>)"

definition finish_restore ::
  "restoring failing \<Rightarrow> (ws_error \<times> workspace) + workspace \<times> string list" where
  "finish_restore r =
     (case r of
        Inl (e, ws, changed) \<Rightarrow> Inl (e, ws)
      | Inr (ws, changed) \<Rightarrow> Inr (prune_empty_dirs ws, sort (uniq changed)))"

definition ws_restore ::
  "workspace \<Rightarrow> snapshot \<Rightarrow> (ws_error \<times> workspace) + workspace \<times> string list" where
  "ws_restore ws sn =
     (case efold (\<lambda>(rel, content). put_back rel content) (sn_files sn) (ws, []) of
        Inl e \<Rightarrow> finish_restore (Inl e)
      | Inr st \<Rightarrow>
          finish_restore (efold remove_file
            (filter (\<lambda>rel. rel \<notin> set (dkeys (sn_files sn))) (list_files (fst st))) st))"

definition restore_path :: "snapshot \<Rightarrow> string \<Rightarrow> restoring \<Rightarrow> restoring failing" where
  "restore_path sn rel st =
     (case safe_path (fst st) rel of
        Inl e \<Rightarrow> Inl (e, st)
      | Inr target \<Rightarrow>
          (case dget (sn_files sn) rel of
             None \<Rightarrow>
               if is_file (ws_fs (fst st)) target then remove_file rel st else Inr st
           | Some original \<Rightarrow> put_back rel original st))"

definition ws_restore_paths ::
  "workspace \<Rightarrow> snapshot \<Rightarrow> string list \<Rightarrow> (ws_error \<times> workspace) + workspace \<times> string list"
where
  "ws_restore_paths ws sn paths = finish_restore (efold (restore_path sn) paths (ws, []))"

section \<open>Diff\<close>

definition diff_entry :: "workspace \<Rightarrow> snapshot \<Rightarrow> string \<Rightarrow> (string, string) dict \<Rightarrow> ws_error + (string, string) dict"
where
  "diff_entry ws sn rel result =
     (case ws_read ws rel of
        Inl e \<Rightarrow> Inl e
      | Inr c \<Rightarrow> Inr (if dget (sn_files sn) rel \<noteq> Some c then dset rel ''modified'' result else result))"

definition ws_diff :: "workspace \<Rightarrow> snapshot \<Rightarrow> ws_error + (string, string) dict" where
  "ws_diff ws sn =
     (let now = uniq (list_files ws);
          before = dkeys (sn_files sn);
          added = filter (\<lambda>r. r \<notin> set before) now;
          deleted = filter (\<lambda>r. r \<notin> set now) before;
          start = map (\<lambda>r. (r, ''added'')) added @ map (\<lambda>r. (r, ''deleted'')) deleted
      in case efold (diff_entry ws sn) (sort (filter (\<lambda>r. r \<in> set before) now)) start of
           Inl e \<Rightarrow> Inl e
         | Inr result \<Rightarrow> Inr (sort_key fst result))"

section \<open>Commands\<close>

text \<open>
  What the operating system answers to a subprocess; the program behind it is outside the model. Output that
  is no text in the encoding of the locale raises a decoding error, which nothing here catches.
\<close>

datatype process_result =
    Exited int string string
  | TimedOut string string
  | NotFound string
  | NotExecutable string
  | Undecodable string

definition run_command ::
  "(string list \<Rightarrow> process_result) \<Rightarrow> string list \<Rightarrow> int \<Rightarrow> ws_error + int \<times> string \<times> string" where
  "run_command os cmd timeout =
     (if cmd = [] then Inl (BadCommand ''run_command needs a non-empty list of string arguments'')
      else if timeout \<le> 0 then Inl (BadCommand ''run_command timeout must be positive'')
      else case os cmd of
             Exited code out err \<Rightarrow> Inr (code, out, err)
           | TimedOut out err \<Rightarrow>
               Inr (124, out, str_strip (err @ newline @ ''command timed out after '' @ str_int timeout
                 @ ''s: '' @ str_join '' '' cmd))
           | NotFound strerror \<Rightarrow> Inr (127, '''', ''command not found: '' @ hd cmd @ '' ('' @ strerror @ '')'')
           | NotExecutable strerror \<Rightarrow>
               Inr (127, '''', ''command not executable: '' @ hd cmd @ '' ('' @ strerror @ '')'')
           | Undecodable reason \<Rightarrow> Inl (UndecodableOutput reason))"

section \<open>Teardown\<close>

definition guard_root :: "fpath option \<Rightarrow> fpath option \<Rightarrow> workspace \<Rightarrow> ws_error + unit" where
  "guard_root home cwd ws =
     (if dget (ws_fs ws) (ws_root ws) \<noteq> Some DirE then Inl (UnsafeRoot ''workspace root is missing'')
      else if ws_root ws = [] then Inl (UnsafeRoot ''refusing to operate on a filesystem root'')
      else if Some (ws_root ws) = home then Inl (UnsafeRoot ''refusing to operate on the home directory'')
      else if Some (ws_root ws) = map_option butlast cwd
        then Inl (UnsafeRoot ''refusing to operate on an ancestor directory'')
      else Inr ())"

text \<open>\<open>shutil.rmtree\<close> of a directory, or unlinking a file or link: everything at or below the entry.\<close>

definition remove_tree :: "fpath \<Rightarrow> fs \<Rightarrow> fs" where
  "remove_tree p fs = filter (\<lambda>(q, _). \<not> is_under p q) fs"

definition clear_entry :: "workspace \<Rightarrow> fpath \<Rightarrow> fs \<Rightarrow> fs failing" where
  "clear_entry ws p fs =
     (case dget fs p of
        None \<Rightarrow> Inr fs
      | Some (LinkE _ _) \<Rightarrow> unlink p fs
      | Some DirE \<Rightarrow>
          if is_under (ws_root ws) p then Inr (remove_tree p fs) else Inl (Escapes (last p), fs)
      | Some _ \<Rightarrow>
          if is_under (ws_root ws) p then unlink p fs else Inl (Escapes (last p), fs))"

definition ws_clear :: "fpath option \<Rightarrow> fpath option \<Rightarrow> workspace \<Rightarrow> workspace failing" where
  "ws_clear home cwd ws =
     (case guard_root home cwd ws of
        Inl e \<Rightarrow> Inl (e, ws)
      | Inr _ \<Rightarrow>
          (case efold (clear_entry ws)
                  (filter (\<lambda>p. p \<noteq> [] \<and> butlast p = ws_root ws) (dkeys (ws_fs ws))) (ws_fs ws) of
             Inl (e, fs) \<Rightarrow> Inl (e, ws\<lparr>ws_fs := fs\<rparr>)
           | Inr fs \<Rightarrow> Inr (ws\<lparr>ws_fs := fs\<rparr>)))"

end
