(* ===== verification/WorkspaceFrame.thy ===== *)
theory WorkspaceFrame
  imports Workspace
begin

text \<open>
  What the file operations leave alone. \<open>writes_only\<close> relates two file systems that differ at most at
  one target, at cached bytecode and at missing directories that were created; every operation of
  the workspace is shown to stay within such a frame, so that containment and scoped rollback
  follow by composing frames.
\<close>

section \<open>Resolved paths run through no link\<close>

definition link_at :: "fs \<Rightarrow> fpath \<Rightarrow> (bool \<times> string list) option" where
  "link_at fs p = (case dget fs p of Some (LinkE a t) \<Rightarrow> Some (a, t) | _ \<Rightarrow> None)"

lemma link_at_None [simp]:
  "dget fs p = None \<Longrightarrow> link_at fs p = None" "dget fs p = Some (FileE c) \<Longrightarrow> link_at fs p = None"
  "dget fs p = Some DirE \<Longrightarrow> link_at fs p = None" "dget fs p = Some BinE \<Longrightarrow> link_at fs p = None"
  by (simp_all add: link_at_def)

definition link_free :: "fs \<Rightarrow> fpath \<Rightarrow> bool" where
  "link_free fs p \<longleftrightarrow> (\<forall>i \<in> {1..length p}. link_at fs (take i p) = None)"

lemma link_free_Nil [simp]: "link_free fs []"
  by (simp add: link_free_def)

lemma link_free_snoc: "link_free fs (p @ [c]) \<longleftrightarrow> link_free fs p \<and> link_at fs (p @ [c]) = None"
proof -
  have "{1..length (p @ [c])} = insert (Suc (length p)) {1..length p}" by auto
  then show ?thesis by (auto simp: link_free_def)
qed

lemma link_free_butlast: "link_free fs p \<Longrightarrow> link_free fs (butlast p)"
  by (cases p rule: rev_cases) (simp_all add: link_free_snoc)

lemma link_free_prefix: "link_free fs (p @ q) \<Longrightarrow> link_free fs p"
  by (induction q rule: rev_induct) (simp_all add: link_free_snoc flip: append_assoc)

lemma link_free_not_link: "link_free fs p \<Longrightarrow> p \<noteq> [] \<Longrightarrow> dget fs p \<noteq> Some (LinkE a t)"
  by (cases p rule: rev_cases) (auto simp: link_free_snoc link_at_def)

lemma resolve_Cons:
  "resolve_from fuel fs acc (c # cs) =
     (if c = [] \<or> c = ''.'' then resolve_from fuel fs acc cs
      else if c = ''..'' then resolve_from fuel fs (butlast acc) cs
      else case link_at fs (acc @ [c]) of
             None \<Rightarrow> resolve_from fuel fs (acc @ [c]) cs
           | Some (a, t) \<Rightarrow>
               (case fuel of 0 \<Rightarrow> None
                | Suc n \<Rightarrow> resolve_from n fs (if a then [] else acc) (t @ cs)))"
  by (auto simp: resolve_from.simps(2) link_at_def split: option.splits entry.splits)

lemma resolve_induct [case_names Nil skip dots step link]:
  assumes "\<And>fuel fs acc. P fuel fs acc []"
    and "\<And>fuel fs acc c cs. c = [] \<or> c = ''.'' \<Longrightarrow> P fuel fs acc cs \<Longrightarrow> P fuel fs acc (c # cs)"
    and "\<And>fuel fs acc cs. P fuel fs (butlast acc) cs \<Longrightarrow> P fuel fs acc (''..'' # cs)"
    and "\<And>fuel fs acc c cs. \<not> (c = [] \<or> c = ''.'') \<Longrightarrow> c \<noteq> ''..'' \<Longrightarrow> link_at fs (acc @ [c]) = None \<Longrightarrow>
      P fuel fs (acc @ [c]) cs \<Longrightarrow> P fuel fs acc (c # cs)"
    and "\<And>fuel fs acc c cs a t. \<not> (c = [] \<or> c = ''.'') \<Longrightarrow> c \<noteq> ''..'' \<Longrightarrow>
      link_at fs (acc @ [c]) = Some (a, t) \<Longrightarrow>
      (\<And>n. fuel = Suc n \<Longrightarrow> P n fs (if a then [] else acc) (t @ cs)) \<Longrightarrow> P fuel fs acc (c # cs)"
  shows "P fuel fs acc cs"
proof (induction fuel fs acc cs rule: resolve_from.induct)
  case (1 fuel fs acc)
  show ?case by (rule assms(1))
next
  case (2 fuel fs acc c cs)
  consider "c = [] \<or> c = ''.''" | "\<not> (c = [] \<or> c = ''.'')" "c = ''..''"
    | "\<not> (c = [] \<or> c = ''.'')" "c \<noteq> ''..''" "link_at fs (acc @ [c]) = None"
    | a t where "\<not> (c = [] \<or> c = ''.'')" "c \<noteq> ''..''" "dget fs (acc @ [c]) = Some (LinkE a t)"
    unfolding link_at_def by (cases "dget fs (acc @ [c])"; cases "the (dget fs (acc @ [c]))") auto
  then show ?case
  proof cases
    case 1
    with 2(1) assms(2) show ?thesis by blast
  next
    case n: 2
    with 2(2) assms(3) show ?thesis by simp
  next
    case 3
    have "P fuel fs (acc @ [c]) cs"
      using 3 2(3-6) by (cases "dget fs (acc @ [c])") (auto simp: link_at_def split: entry.splits)
    with 3 assms(4) show ?thesis by blast
  next
    case (4 a t)
    then have "link_at fs (acc @ [c]) = Some (a, t)" by (simp add: link_at_def)
    then show ?thesis using assms(5) [OF 4(1,2)] 2(7) [OF 4(1-3) refl] by blast
  qed
qed

lemma resolve_from_link_free:
  "resolve_from fuel fs acc cs = Some p \<Longrightarrow> link_free fs acc \<Longrightarrow> link_free fs p"
proof (induction fuel fs acc cs rule: resolve_induct)
  case (link fuel fs acc c cs a t)
  then show ?case by (cases fuel) (auto simp: resolve_Cons split: if_splits)
qed (auto simp: resolve_Cons link_free_butlast link_free_snoc)

lemma resolve_from_cong:
  "link_at fs = link_at fs' \<Longrightarrow> resolve_from fuel fs acc cs = resolve_from fuel fs' acc cs"
proof (induction fuel fs acc cs rule: resolve_induct)
  case (link fuel fs acc c cs a t)
  then show ?case by (cases fuel) (simp_all add: resolve_Cons)
qed (simp_all add: resolve_Cons)

definition plain :: "string \<Rightarrow> bool" where
  "plain c \<longleftrightarrow> c \<noteq> [] \<and> c \<noteq> ''.'' \<and> c \<noteq> ''..''"

lemma resolve_from_plain:
  "list_all plain cs \<Longrightarrow> link_free fs (acc @ cs) \<Longrightarrow> resolve_from fuel fs acc cs = Some (acc @ cs)"
proof (induction cs arbitrary: acc)
  case Nil
  then show ?case by simp
next
  case (Cons c cs)
  from Cons.prems(2) have "link_free fs ((acc @ [c]) @ cs)" by simp
  moreover from this have "link_at fs (acc @ [c]) = None"
    using link_free_prefix [of fs "acc @ [c]" cs] by (simp only: link_free_snoc)
  ultimately show ?case using Cons.IH [of "acc @ [c]"] Cons.prems(1) by (simp add: resolve_Cons plain_def)
qed

section \<open>Containment of resolved paths\<close>

lemma safe_path_Inr:
  assumes "safe_path ws rel = Inr p"
  shows "below_root ws p" and "resolve (ws_fs ws) (ws_root ws) (path_components (str_strip rel)) = Some p"
proof -
  from assms have r: "resolve (ws_fs ws) (ws_root ws) (path_components (str_strip rel)) = Some p"
    and ne: "p \<noteq> ws_root ws" and u: "is_under (ws_root ws) p"
    by (auto simp: safe_path_def Let_def split: if_splits option.splits)
  show "resolve (ws_fs ws) (ws_root ws) (path_components (str_strip rel)) = Some p" by (rule r)
  have "length (ws_root ws) < length p"
  proof (rule ccontr)
    assume "\<not> length (ws_root ws) < length p"
    with u have "p = ws_root ws" by (simp add: is_under_def)
    with ne show False by simp
  qed
  with u show "below_root ws p" by (simp add: below_root_def)
qed

lemma safe_path_link_free:
  "safe_path ws rel = Inr p \<Longrightarrow> link_free (ws_fs ws) (ws_root ws) \<Longrightarrow> link_free (ws_fs ws) p"
  using safe_path_Inr(2) [of ws rel p] unfolding resolve_def by (blast intro: resolve_from_link_free)

lemma safe_path_cong:
  assumes "link_at (ws_fs ws) = link_at (ws_fs ws')" and "ws_root ws = ws_root ws'"
  shows "safe_path ws = safe_path ws'"
proof -
  have r: "resolve (ws_fs ws) = resolve (ws_fs ws')"
    unfolding resolve_def by (intro ext) (rule resolve_from_cong [OF assms(1)])
  show ?thesis by (rule ext) (simp only: safe_path_def r assms(2))
qed

lemma below_root_ne [simp]: "below_root ws p \<Longrightarrow> p \<noteq> []"
  by (auto simp: below_root_def)

section \<open>Frames\<close>

definition is_bytecode :: "fpath \<Rightarrow> bool" where
  "is_bytecode p \<longleftrightarrow> p \<noteq> [] \<and> str_endswith (last p) ''.pyc''"

text \<open>
  Outside the targets and cached bytecode, an entry stays what it was, or a directory was made
  where there was nothing.
\<close>

definition writes_only :: "fpath set \<Rightarrow> fs \<Rightarrow> fs \<Rightarrow> bool" where
  "writes_only T fs fs' \<longleftrightarrow>
     (\<forall>q. q \<notin> T \<longrightarrow> \<not> is_bytecode q \<longrightarrow> dget fs' q = dget fs q \<or> (dget fs q = None \<and> dget fs' q = Some DirE))"

text \<open>As \<open>writes_only\<close>, but directories may also disappear.\<close>

definition touches_only :: "fpath set \<Rightarrow> fs \<Rightarrow> fs \<Rightarrow> bool" where
  "touches_only T fs fs' \<longleftrightarrow>
     (\<forall>q. q \<notin> T \<longrightarrow> \<not> is_bytecode q \<longrightarrow> dget fs' q = dget fs q
        \<or> (dget fs q \<in> {None, Some DirE} \<and> dget fs' q \<in> {None, Some DirE}))"

lemma writes_only_refl [simp]: "writes_only T fs fs"
  by (simp add: writes_only_def)

lemma writes_only_trans: "writes_only T a b \<Longrightarrow> writes_only T b c \<Longrightarrow> writes_only T a c"
  unfolding writes_only_def by (metis option.discI)

lemma writes_touches: "writes_only T fs fs' \<Longrightarrow> T \<subseteq> U \<Longrightarrow> touches_only U fs fs'"
  unfolding writes_only_def touches_only_def by blast

lemma touches_only_refl [simp]: "touches_only T fs fs"
  by (simp add: touches_only_def)

lemma touches_only_trans: "touches_only T a b \<Longrightarrow> touches_only T b c \<Longrightarrow> touches_only T a c"
  unfolding touches_only_def by metis

lemma touches_only_mono: "touches_only T a b \<Longrightarrow> T \<subseteq> U \<Longrightarrow> touches_only U a b"
  unfolding touches_only_def by blast

lemma touches_only_file:
  "touches_only T fs fs' \<Longrightarrow> q \<notin> T \<Longrightarrow> \<not> is_bytecode q \<Longrightarrow> dget fs q = Some e \<Longrightarrow> e \<noteq> DirE \<Longrightarrow> dget fs' q = Some e"
  unfolding touches_only_def by fastforce

text \<open>The state an operation leaves behind, whether it returned or failed half-way.\<close>

definition left :: "('e \<times> 's) + 's \<Rightarrow> 's" where
  "left r = (case r of Inl (e, s) \<Rightarrow> s | Inr s \<Rightarrow> s)"

lemma left_simps [simp]: "left (Inl (e, s)) = s" "left (Inr s) = s"
  by (simp_all add: left_def)

text \<open>A reflexive and transitive relation every step keeps holds across the loop.\<close>

lemma efold_left:
  assumes "\<And>s. R s s" and "\<And>a b c. R a b \<Longrightarrow> R b c \<Longrightarrow> R a c"
    and "\<And>x s. x \<in> set xs \<Longrightarrow> R s (left (f x s))"
  shows "R s (left (efold f xs s))"
  using assms(3)
proof (induction xs arbitrary: s)
  case Nil
  then show ?case by (simp add: assms(1))
next
  case (Cons x xs)
  have r: "R s (left (f x s))" by (rule Cons.prems) simp
  show ?case
  proof (cases "f x s")
    case (Inl e)
    with r show ?thesis by (cases e) simp
  next
    case (Inr s1)
    have "R s1 (left (efold f xs s1))" by (rule Cons.IH) (rule Cons.prems, simp)
    with r Inr show ?thesis by (auto intro: assms(2))
  qed
qed

lemma mkdir_one_writes: "writes_only {} fs (left (mkdir_one p fs))"
  by (auto simp: mkdir_one_def writes_only_def split: option.splits entry.splits if_splits)

lemma mkdir_parents_writes: "writes_only {} fs (left (mkdir_parents p fs))"
  unfolding mkdir_parents_def
  by (rule efold_left [where R = "writes_only {}"]) (auto intro: writes_only_trans mkdir_one_writes)

lemma unlink_writes: "writes_only {p} fs (left (unlink p fs))"
  by (auto simp: unlink_def writes_only_def split: option.splits entry.splits if_splits)

lemma unlink_bytecode_writes: "is_bytecode p \<Longrightarrow> writes_only {} fs (left (unlink p fs))"
  using unlink_writes [of p fs] by (auto simp: writes_only_def)

lemma pyc_name: "str_endswith (s @ ''.pyc'') ''.pyc''"
  by (simp add: str_endswith_def)

lemma stale_bytecode_pyc: "q \<in> set (stale_bytecode t fs) \<Longrightarrow> is_bytecode q"
  by (auto simp: stale_bytecode_def is_bytecode_def pyc_of_def split: option.splits if_splits)

lemma drop_bytecode_writes: "writes_only {} fs (left (drop_bytecode t fs))"
proof (cases "snd (split_suffix (last t)) \<noteq> ''.py''")
  case True
  then show ?thesis by (simp add: drop_bytecode_def)
next
  case False
  let ?r = "efold unlink (stale_bytecode t fs) fs"
  have r: "writes_only {} fs (left ?r)"
    by (rule efold_left [where R = "writes_only {}"])
      (auto intro: writes_only_trans unlink_bytecode_writes stale_bytecode_pyc)
  show ?thesis
  proof (cases ?r)
    case (Inl e)
    with r False show ?thesis by (cases e) (simp add: drop_bytecode_def)
  next
    case (Inr fs1)
    have "writes_only {} fs1 (left (unlink (butlast t @ [fst (split_suffix (last t)) @ ''.pyc'']) fs1))"
      by (rule unlink_bytecode_writes) (simp add: is_bytecode_def pyc_name)
    with r Inr False show ?thesis by (auto simp: drop_bytecode_def intro: writes_only_trans)
  qed
qed

lemma writes_only_mono: "writes_only T fs fs' \<Longrightarrow> T \<subseteq> U \<Longrightarrow> writes_only U fs fs'"
  by (auto simp: writes_only_def)

lemma write_text_writes: "writes_only {t} fs (left (write_text t c fs))"
proof (cases "mkdir_parents t fs")
  case (Inl e)
  with mkdir_parents_writes [of fs t] show ?thesis
    by (cases e) (auto simp: write_text_def intro: writes_only_mono)
next
  case (Inr fs1)
  have m: "writes_only {t} fs fs1"
    using mkdir_parents_writes [of fs t] Inr by (auto intro: writes_only_mono)
  have w: "writes_only {t} fs1 (dset t (FileE c) fs1)" by (simp add: writes_only_def)
  have d: "writes_only {t} (dset t (FileE c) fs1) (left (drop_bytecode t (dset t (FileE c) fs1)))"
    by (rule writes_only_mono [OF drop_bytecode_writes]) simp
  have "writes_only {t} fs1 (left (write_text t c fs))"
    using Inr writes_only_trans [OF w d] by (auto simp: write_text_def split: option.splits entry.splits)
  with m show ?thesis by (rule writes_only_trans)
qed

lemma write_text_Inr:
  assumes "write_text t c fs = Inr fs'" and "\<not> is_bytecode t"
  shows "dget fs' t = Some (FileE c)"
proof -
  from assms(1) obtain fs1 where "drop_bytecode t (dset t (FileE c) fs1) = Inr fs'"
    by (auto simp: write_text_def split: sum.splits option.splits entry.splits)
  with drop_bytecode_writes [of "dset t (FileE c) fs1" t]
  have "writes_only {} (dset t (FileE c) fs1) fs'" by simp
  with assms(2) show ?thesis by (auto simp: writes_only_def dest: spec [of _ t])
qed

section \<open>Links stay where they are\<close>

definition pyc_links :: "fs \<Rightarrow> bool" where
  "pyc_links fs \<longleftrightarrow> (\<exists>p. is_bytecode p \<and> link_at fs p \<noteq> None)"

text \<open>With no link in the place of cached bytecode, an operation leaves the links alone.\<close>

definition same_links :: "fs \<Rightarrow> fs \<Rightarrow> bool" where
  "same_links fs fs' \<longleftrightarrow> (\<not> pyc_links fs \<longrightarrow> link_at fs' = link_at fs)"

lemma same_links_refl [simp]: "same_links fs fs"
  by (simp add: same_links_def)

lemma same_links_trans: "same_links a b \<Longrightarrow> same_links b c \<Longrightarrow> same_links a c"
  unfolding same_links_def pyc_links_def by metis

lemma link_at_dset: "link_at (dset p e fs) q =
    (if q = p then (case e of LinkE a t \<Rightarrow> Some (a, t) | _ \<Rightarrow> None) else link_at fs q)"
  by (simp add: link_at_def)

lemma link_at_dpop: "link_at (dpop p fs) q = (if q = p then None else link_at fs q)"
  by (simp add: link_at_def)

lemma mkdir_one_links: "same_links fs (left (mkdir_one p fs))"
  by (auto simp: mkdir_one_def same_links_def link_at_dset fun_eq_iff split: option.splits entry.splits)

lemma mkdir_parents_links: "same_links fs (left (mkdir_parents p fs))"
  unfolding mkdir_parents_def
  by (rule efold_left [where R = same_links]) (auto intro: same_links_trans mkdir_one_links)

lemma unlink_links: "link_at fs p = None \<Longrightarrow> same_links fs (left (unlink p fs))"
  by (auto simp: unlink_def same_links_def link_at_dpop fun_eq_iff split: option.splits entry.splits)

lemma unlink_bytecode_links: "is_bytecode p \<Longrightarrow> same_links fs (left (unlink p fs))"
proof -
  assume b: "is_bytecode p"
  show ?thesis
  proof (cases "link_at fs p")
    case None
    then show ?thesis by (rule unlink_links)
  next
    case (Some x)
    with b have "pyc_links fs" unfolding pyc_links_def by (metis option.discI)
    then show ?thesis by (simp add: same_links_def)
  qed
qed

lemma drop_bytecode_links: "same_links fs (left (drop_bytecode t fs))"
proof (cases "snd (split_suffix (last t)) \<noteq> ''.py''")
  case True
  then show ?thesis by (simp add: drop_bytecode_def)
next
  case False
  let ?r = "efold unlink (stale_bytecode t fs) fs"
  have r: "same_links fs (left ?r)"
    by (rule efold_left [where R = same_links])
      (auto intro: same_links_trans unlink_bytecode_links stale_bytecode_pyc)
  show ?thesis
  proof (cases ?r)
    case (Inl e)
    with r False show ?thesis by (cases e) (simp add: drop_bytecode_def)
  next
    case (Inr fs1)
    have "same_links fs1 (left (unlink (butlast t @ [fst (split_suffix (last t)) @ ''.pyc'']) fs1))"
      by (rule unlink_bytecode_links) (simp add: is_bytecode_def pyc_name)
    with r Inr False show ?thesis by (auto simp: drop_bytecode_def intro: same_links_trans)
  qed
qed

lemma write_text_links:
  assumes "link_at fs t = None"
  shows "same_links fs (left (write_text t c fs))"
proof (cases "mkdir_parents t fs")
  case (Inl e)
  with mkdir_parents_links [of fs t] show ?thesis by (cases e) (simp add: write_text_def)
next
  case (Inr fs1)
  have m: "same_links fs fs1" using mkdir_parents_links [of fs t] Inr by simp
  have w: "same_links fs (dset t (FileE c) fs1)"
    using m assms by (auto simp: same_links_def link_at_dset fun_eq_iff)
  from same_links_trans [OF w drop_bytecode_links] m show ?thesis
    using Inr by (auto simp: write_text_def split: option.splits entry.splits)
qed

section \<open>The two rollback steps\<close>

text \<open>
  \<open>steady ws ws'\<close>: same root, same links; what was touched lies in \<open>T\<close>, in bytecode or among empty
  directories.
\<close>

definition tidy :: "workspace \<Rightarrow> bool" where
  "tidy ws \<longleftrightarrow> link_free (ws_fs ws) (ws_root ws) \<and> \<not> pyc_links (ws_fs ws)"

definition steady :: "fpath set \<Rightarrow> workspace \<Rightarrow> workspace \<Rightarrow> bool" where
  "steady T ws ws' \<longleftrightarrow> ws_root ws' = ws_root ws \<and> link_at (ws_fs ws') = link_at (ws_fs ws)
     \<and> touches_only T (ws_fs ws) (ws_fs ws')"

lemma steady_refl [simp]: "steady T ws ws"
  by (simp add: steady_def)

lemma steady_trans: "steady T a b \<Longrightarrow> steady T b c \<Longrightarrow> steady T a c"
  unfolding steady_def by (metis touches_only_trans)

lemma steady_safe_path: "steady T ws ws' \<Longrightarrow> safe_path ws' = safe_path ws"
  using safe_path_cong [of ws' ws] by (simp add: steady_def)

lemma steady_tidy: "steady T ws ws' \<Longrightarrow> tidy ws \<Longrightarrow> tidy ws'"
  by (simp add: steady_def tidy_def link_free_def pyc_links_def)

lemma safe_path_not_link:
  assumes "tidy ws" and "safe_path ws rel = Inr t"
  shows "link_at (ws_fs ws) t = None"
proof -
  have "link_free (ws_fs ws) t" using safe_path_link_free [OF assms(2)] assms(1) by (simp add: tidy_def)
  moreover have "t \<noteq> []" using safe_path_Inr(1) [OF assms(2)] by simp
  ultimately show ?thesis by (cases t rule: rev_cases) (simp_all add: link_free_snoc)
qed

lemma write_steady:
  assumes "tidy ws" and "safe_path ws rel = Inr t"
  shows "steady {t} ws (ws\<lparr>ws_fs := left (write_text t c (ws_fs ws))\<rparr>)"
proof -
  have "same_links (ws_fs ws) (left (write_text t c (ws_fs ws)))"
    by (rule write_text_links [OF safe_path_not_link [OF assms]])
  with assms(1) write_text_writes [of t "ws_fs ws" c] show ?thesis
    by (auto simp: steady_def same_links_def tidy_def intro: writes_touches)
qed

lemma unlink_steady:
  assumes "tidy ws" and "safe_path ws rel = Inr t"
  shows "steady {t} ws (ws\<lparr>ws_fs := left (unlink t (ws_fs ws))\<rparr>)"
proof -
  have "same_links (ws_fs ws) (left (unlink t (ws_fs ws)))"
    by (rule unlink_links [OF safe_path_not_link [OF assms]])
  with assms(1) unlink_writes [of t "ws_fs ws"] show ?thesis
    by (auto simp: steady_def same_links_def tidy_def intro: writes_touches)
qed

lemma put_back_steady:
  assumes "tidy (fst st)" and "\<And>t. safe_path (fst st) rel = Inr t \<Longrightarrow> t \<in> T"
  shows "steady T (fst st) (fst (left (put_back rel c st)))"
proof (cases "safe_path (fst st) rel")
  case (Inl e)
  then show ?thesis by (simp add: put_back_def)
next
  case (Inr t)
  have w: "steady T (fst st) ((fst st)\<lparr>ws_fs := left (write_text t c (ws_fs (fst st)))\<rparr>)"
    using write_steady [OF assms(1) Inr, of c] assms(2) [OF Inr]
    by (auto simp: steady_def intro: touches_only_mono)
  show ?thesis
  proof (cases "same_text (ws_fs (fst st)) t c")
    case (Inl e)
    with Inr show ?thesis by (simp add: put_back_def)
  next
    case same: (Inr b)
    with Inr w show ?thesis
      by (cases b; cases "write_text t c (ws_fs (fst st))") (auto simp: put_back_def left_def)
  qed
qed

lemma remove_file_steady:
  assumes "tidy (fst st)" and "\<And>t. safe_path (fst st) rel = Inr t \<Longrightarrow> t \<in> T"
  shows "steady T (fst st) (fst (left (remove_file rel st)))"
proof (cases "safe_path (fst st) rel")
  case (Inl e)
  then show ?thesis by (simp add: remove_file_def)
next
  case (Inr t)
  have "steady T (fst st) ((fst st)\<lparr>ws_fs := left (unlink t (ws_fs (fst st)))\<rparr>)"
    using unlink_steady [OF assms(1) Inr] assms(2) [OF Inr]
    by (auto simp: steady_def intro: touches_only_mono)
  with Inr show ?thesis
    by (cases "unlink t (ws_fs (fst st))") (auto simp: remove_file_def left_def split: option.splits)
qed

lemma restore_path_steady:
  assumes "tidy (fst st)" and "\<And>t. safe_path (fst st) rel = Inr t \<Longrightarrow> t \<in> T"
  shows "steady T (fst st) (fst (left (restore_path sn rel st)))"
proof (cases "safe_path (fst st) rel")
  case (Inl e)
  then show ?thesis by (simp add: restore_path_def)
next
  case (Inr t)
  have p: "steady T (fst st) (fst (left (put_back rel c st)))" for c by (rule put_back_steady [OF assms])
  have "steady T (fst st) (fst (left (remove_file rel st)))" by (rule remove_file_steady [OF assms])
  with p Inr show ?thesis by (simp add: restore_path_def split: option.split)
qed

text \<open>A loop of steps that are steady from every tidy state with the same targets is steady.\<close>

lemma efold_steady:
  assumes "tidy (fst st)"
    and "\<And>x s. x \<in> set xs \<Longrightarrow> tidy (fst s) \<Longrightarrow> safe_path (fst s) = safe_path (fst st) \<Longrightarrow>
      steady T (fst s) (fst (left (f x s)))"
  shows "steady T (fst st) (fst (left (efold f xs st)))"
  using assms
proof (induction xs arbitrary: st)
  case Nil
  then show ?case by simp
next
  case (Cons x xs)
  have s: "steady T (fst st) (fst (left (f x st)))" by (rule Cons.prems(2)) (simp_all add: Cons.prems(1))
  show ?case
  proof (cases "f x st")
    case (Inl e)
    with s show ?thesis by (cases e) simp
  next
    case (Inr s1)
    with s have s1: "steady T (fst st) (fst s1)" by simp
    have "steady T (fst s1) (fst (left (efold f xs s1)))"
    proof (rule Cons.IH)
      show "tidy (fst s1)" by (rule steady_tidy [OF s1 Cons.prems(1)])
      show "steady T (fst s) (fst (left (f y s)))"
        if "y \<in> set xs" "tidy (fst s)" "safe_path (fst s) = safe_path (fst s1)" for y s
        using Cons.prems(2) [of y s] that steady_safe_path [OF s1] by simp
    qed
    with s1 Inr show ?thesis by (auto intro: steady_trans)
  qed
qed

lemma prune_one_touches: "touches_only {} fs (prune_one ws p fs)"
  by (auto simp: prune_one_def touches_only_def)

lemma prune_one_links: "link_at (prune_one ws p fs) = link_at fs"
  by (rule ext) (auto simp: prune_one_def link_at_dpop)

lemma prune_fold:
  "touches_only {} fs (fold (prune_one ws) ps fs) \<and> link_at (fold (prune_one ws) ps fs) = link_at fs"
proof (induction ps arbitrary: fs)
  case Nil
  then show ?case by simp
next
  case (Cons p ps)
  from Cons [of "prune_one ws p fs"] prune_one_touches [of fs ws p] prune_one_links [of ws p fs]
  show ?case by (auto intro: touches_only_trans)
qed

lemma prune_steady: "steady T ws (prune_empty_dirs ws)"
  using prune_fold [of "ws_fs ws" ws]
  by (auto simp: prune_empty_dirs_def Let_def steady_def intro: touches_only_mono)

lemma prune_files:
  "e \<noteq> DirE \<Longrightarrow> dget (ws_fs (prune_empty_dirs ws)) q = Some e \<longleftrightarrow> dget (ws_fs ws) q = Some e"
proof -
  have one: "e \<noteq> DirE \<Longrightarrow> dget (prune_one ws p fs) q = Some e \<longleftrightarrow> dget fs q = Some e" for p fs
    by (auto simp: prune_one_def)
  have "e \<noteq> DirE \<Longrightarrow> dget (fold (prune_one ws) ps fs) q = Some e \<longleftrightarrow> dget fs q = Some e" for ps fs
    by (induction ps arbitrary: fs) (simp_all add: one)
  then show "e \<noteq> DirE \<Longrightarrow> dget (ws_fs (prune_empty_dirs ws)) q = Some e \<longleftrightarrow> dget (ws_fs ws) q = Some e"
    by (simp add: prune_empty_dirs_def Let_def)
qed

definition restored_ws :: "(ws_error \<times> workspace) + workspace \<times> string list \<Rightarrow> workspace" where
  "restored_ws r = (case r of Inl (e, ws) \<Rightarrow> ws | Inr (ws, changed) \<Rightarrow> ws)"

lemma finish_restore_steady:
  "steady T ws (fst (left r)) \<Longrightarrow> steady T ws (restored_ws (finish_restore r))"
  by (cases r) (auto simp: finish_restore_def restored_ws_def intro: steady_trans [OF _ prune_steady])

lemma restore_paths_steady:
  assumes "tidy ws" and "\<And>rel t. rel \<in> set paths \<Longrightarrow> safe_path ws rel = Inr t \<Longrightarrow> t \<in> T"
  shows "steady T ws (restored_ws (ws_restore_paths ws sn paths))"
proof -
  have "steady T (fst (ws, [] :: string list)) (fst (left (efold (restore_path sn) paths (ws, []))))"
  proof (rule efold_steady [of "(ws, [])" paths T "restore_path sn"])
    show "tidy (fst (ws, [] :: string list))" using assms(1) by simp
    show "steady T (fst s) (fst (left (restore_path sn rel s)))"
      if "rel \<in> set paths" "tidy (fst s)" "safe_path (fst s) = safe_path (fst (ws, [] :: string list))"
      for rel and s :: restoring
      by (rule restore_path_steady [OF that(2)]) (use that assms(2) in simp)
  qed
  then show ?thesis unfolding ws_restore_paths_def by (intro finish_restore_steady) simp
qed

end
