(* ===== verification/WorkspaceProps.thy ===== *)
theory WorkspaceProps
  imports WorkspaceFrame
begin

text \<open>
  The two promises of the workspace: nothing outside the root is ever touched, and rollback puts
  back what was there, the scoped one without touching anything its node did not write.
\<close>

section \<open>Written text is on disk\<close>

lemma split_suffix_append: "fst (split_suffix n) @ snd (split_suffix n) = n"
  by (simp add: split_suffix_def Let_def)

lemma py_not_pyc: "snd (split_suffix n) = ''.py'' \<Longrightarrow> \<not> str_endswith n ''.pyc''"
proof
  assume s: "snd (split_suffix n) = ''.py''" and e: "str_endswith n ''.pyc''"
  from s split_suffix_append [of n] have n: "n = fst (split_suffix n) @ ''.py''" by simp
  from e obtain u where "rev n = rev ''.pyc'' @ u" by (auto simp: str_endswith_def str_startswith_iff)
  then have "hd (rev n) = CHR ''c''" by simp
  moreover have "hd (rev n) = CHR ''y''" by (subst n) simp
  ultimately show False by simp
qed

lemma write_text_stored:
  assumes "write_text t c fs = Inr fs'" and "t \<noteq> []"
  shows "dget fs' t = Some (FileE c)"
proof (cases "snd (split_suffix (last t)) = ''.py''")
  case True
  with assms(2) have "\<not> is_bytecode t" by (simp add: is_bytecode_def py_not_pyc)
  with assms(1) show ?thesis by (rule write_text_Inr)
next
  case False
  with assms(1) show ?thesis
    by (auto simp: write_text_def drop_bytecode_def split: sum.splits option.splits entry.splits)
qed



definition sample_ws :: workspace where
  "sample_ws = \<lparr>ws_root = [''w''], ws_fs = [([''w''], DirE), ([''w'', ''a.py''], FileE ''x'')]\<rparr>"

lemma sample_links: "link_at (ws_fs sample_ws) q = None"
  by (simp add: link_at_def sample_ws_def)

lemma sample_tidy: "tidy sample_ws"
  by (simp add: tidy_def link_free_def pyc_links_def sample_links)



section \<open>Containment\<close>

definition root_dirs :: "fpath \<Rightarrow> fs \<Rightarrow> bool" where
  "root_dirs base fs \<longleftrightarrow> (\<forall>i \<in> {1..length base}. dget fs (take i base) = Some DirE)"

text \<open>
  The root is a real directory under its canonical name, as the constructor leaves it; in a sealed workspace
  no bytecode cache is a link besides.
\<close>

definition rooted :: "workspace \<Rightarrow> bool" where
  "rooted ws \<longleftrightarrow> list_all plain (ws_root ws) \<and> root_dirs (ws_root ws) (ws_fs ws)"

definition sealed :: "workspace \<Rightarrow> bool" where
  "sealed ws \<longleftrightarrow> rooted ws \<and> (\<forall>q. link_at (ws_fs ws) (q @ [''__pycache__'']) = None)"

definition outside_same :: "fpath \<Rightarrow> fs \<Rightarrow> fs \<Rightarrow> bool" where
  "outside_same base fs fs' \<longleftrightarrow>
     (root_dirs base fs \<longrightarrow> root_dirs base fs' \<and> (\<forall>q. \<not> is_under base q \<longrightarrow> dget fs' q = dget fs q))"

lemma outside_same_refl [simp]: "outside_same base fs fs"
  by (simp add: outside_same_def)

lemma outside_same_trans: "outside_same base a b \<Longrightarrow> outside_same base b c \<Longrightarrow> outside_same base a c"
  by (simp add: outside_same_def)

definition strictly_under :: "fpath \<Rightarrow> fpath \<Rightarrow> bool" where
  "strictly_under base p \<longleftrightarrow> (\<exists>r. r \<noteq> [] \<and> p = base @ r)"

lemma strictly_under_is_under: "strictly_under base p \<Longrightarrow> is_under base p"
  by (auto simp: strictly_under_def is_under_def)

lemma strictly_under_not_prefix: "strictly_under base p \<Longrightarrow> take i base \<noteq> p"
  by (auto simp: strictly_under_def) (metis append_eq_conv_conj append_self_conv append_take_drop_id
      append.assoc append_is_Nil_conv)

lemma below_root_strictly: "below_root ws p \<longleftrightarrow> strictly_under (ws_root ws) p"
proof
  assume b: "below_root ws p"
  then have "p = ws_root ws @ drop (length (ws_root ws)) p"
    by (metis append_take_drop_id below_root_def is_under_def)
  moreover have "drop (length (ws_root ws)) p \<noteq> []" using b by (simp add: below_root_def)
  ultimately show "strictly_under (ws_root ws) p" unfolding strictly_under_def by blast
qed (auto simp: strictly_under_def below_root_def is_under_def)

lemma outside_same_change:
  assumes p: "strictly_under base p" and same: "\<And>q. q \<noteq> p \<Longrightarrow> dget fs' q = dget fs q"
  shows "outside_same base fs fs'"
proof -
  have "dget fs' (take i base) = dget fs (take i base)" for i
    by (rule same) (rule strictly_under_not_prefix [OF p])
  moreover have "dget fs' q = dget fs q" if "\<not> is_under base q" for q
    by (rule same) (use that strictly_under_is_under [OF p] in blast)
  ultimately show ?thesis by (simp add: outside_same_def root_dirs_def)
qed

lemma mkdir_one_outside:
  assumes "strictly_under base p \<or> (\<exists>i \<in> {1..length base}. p = take i base)"
  shows "outside_same base fs (left (mkdir_one p fs))"
  using assms
proof
  assume "strictly_under base p"
  then show ?thesis
    by (rule outside_same_change) (auto simp: mkdir_one_def split: option.splits entry.splits)
next
  assume "\<exists>i \<in> {1..length base}. p = take i base"
  then show ?thesis by (auto simp: outside_same_def root_dirs_def mkdir_one_def)
qed

lemma ancestors_outside:
  assumes "strictly_under base t" and "p \<in> set (ancestors_of t)"
  shows "strictly_under base p \<or> (\<exists>i \<in> {1..length base}. p = take i base)"
proof -
  from assms(2) obtain i where i: "p = take i t" "1 \<le> i" "i < length t" by (auto simp: ancestors_of_def)
  from assms(1) obtain r where t: "t = base @ r" by (auto simp: strictly_under_def)
  show ?thesis
  proof (cases "i \<le> length base")
    case True
    with i t have "p = take i base \<and> i \<in> {1..length base}" by simp
    then show ?thesis by blast
  next
    case False
    with i t have "p = base @ take (i - length base) r" "take (i - length base) r \<noteq> []" by auto
    then show ?thesis unfolding strictly_under_def by blast
  qed
qed

lemma mkdir_parents_outside:
  assumes "strictly_under base t"
  shows "outside_same base fs (left (mkdir_parents t fs))"
  unfolding mkdir_parents_def
proof (rule efold_left [where R = "outside_same base"])
  show "outside_same base s (left (mkdir_one p s))" if "p \<in> set (ancestors_of t)" for p s
    by (rule mkdir_one_outside) (rule ancestors_outside [OF assms that])
qed (auto intro: outside_same_trans)

lemma unlink_outside: "strictly_under base p \<Longrightarrow> outside_same base fs (left (unlink p fs))"
  by (rule outside_same_change) (auto simp: unlink_def split: option.splits entry.splits)

lemma resolve_from_plain_result:
  "resolve_from fuel fs acc cs = Some p \<Longrightarrow> list_all plain acc \<Longrightarrow> list_all plain p"
proof (induction fuel fs acc cs rule: resolve_induct)
  case (link fuel fs acc c cs a t)
  then show ?case by (cases fuel) (auto simp: resolve_Cons split: if_splits)
next
  case (dots fuel fs acc cs)
  have "list_all plain (butlast acc)" using dots.prems(2) by (auto simp: list_all_iff dest: in_set_butlastD)
  with dots show ?case by (simp add: resolve_Cons)
qed (auto simp: resolve_Cons plain_def)

lemma stale_under:
  assumes "list_all plain t" and "link_free fs (butlast t)" and "link_at fs (butlast t @ [''__pycache__'']) = None"
    and "q \<in> set (stale_bytecode t fs)"
  shows "butlast q = butlast t @ [''__pycache__'']"
proof -
  have "list_all plain (butlast t @ [''__pycache__''])"
    using assms(1) by (auto simp: list_all_iff plain_def dest: in_set_butlastD)
  moreover have "link_free fs ([] @ butlast t @ [''__pycache__''])"
    using assms(2,3) by (simp add: link_free_snoc)
  ultimately have "resolve fs [] (butlast t @ [''__pycache__'']) = Some (butlast t @ [''__pycache__''])"
    unfolding resolve_def using resolve_from_plain by fastforce
  with assms(4) show ?thesis by (auto simp: stale_bytecode_def split: if_splits)
qed

lemma under_of_butlast:
  assumes "strictly_under base p" and "butlast q = butlast p @ r" and "q \<noteq> []"
  shows "strictly_under base q"
proof -
  from assms(1) obtain u where u: "u \<noteq> []" "p = base @ u" by (auto simp: strictly_under_def)
  then have "butlast p = base @ butlast u" by (simp add: butlast_append)
  with assms(2,3) have "q = base @ (butlast u @ r @ [last q])"
    by (metis append.assoc append_butlast_last_id)
  then show ?thesis unfolding strictly_under_def by blast
qed

lemma drop_bytecode_outside:
  assumes "strictly_under base t" and "list_all plain t"
    and "link_free fs (butlast t)" and "link_at fs (butlast t @ [''__pycache__'']) = None"
  shows "outside_same base fs (left (drop_bytecode t fs))"
proof (cases "snd (split_suffix (last t)) \<noteq> ''.py''")
  case True
  then show ?thesis by (simp add: drop_bytecode_def)
next
  case False
  let ?r = "efold unlink (stale_bytecode t fs) fs"
  have r: "outside_same base fs (left ?r)"
  proof (rule efold_left [where R = "outside_same base"])
    fix q fs1 assume q: "q \<in> set (stale_bytecode t fs)"
    then have "q \<noteq> []" by (auto simp: stale_bytecode_def split: option.splits if_splits)
    with under_of_butlast [OF assms(1) stale_under [OF assms(2-4) q]]
    show "outside_same base fs1 (left (unlink q fs1))" by (simp add: unlink_outside)
  qed (auto intro: outside_same_trans)
  have legacy: "outside_same base fs1 (left (unlink (butlast t @ [n]) fs1))" for fs1 n
    using under_of_butlast [OF assms(1), of "butlast t @ [n]" "[]"] by (simp add: unlink_outside)
  show ?thesis
  proof (cases ?r)
    case (Inl e)
    with r False show ?thesis by (cases e) (simp add: drop_bytecode_def)
  next
    case (Inr fs1)
    with r legacy False show ?thesis by (auto simp: drop_bytecode_def intro: outside_same_trans)
  qed
qed

lemma sealed_link_free: "sealed ws \<Longrightarrow> link_free (ws_fs ws) (ws_root ws)"
  by (simp add: sealed_def rooted_def root_dirs_def link_free_def)

lemma mkdir_parents_no_link: "link_at fs q = None \<Longrightarrow> link_at (left (mkdir_parents t fs)) q = None"
proof -
  have "link_at fs q = None \<longrightarrow> link_at (left (mkdir_parents t fs)) q = None"
    unfolding mkdir_parents_def
    by (rule efold_left [where R = "\<lambda>a b. link_at a q = None \<longrightarrow> link_at b q = None"])
      (auto simp: mkdir_one_def link_at_dset split: option.splits entry.splits)
  then show "link_at fs q = None \<Longrightarrow> link_at (left (mkdir_parents t fs)) q = None" by simp
qed

lemma write_text_outside:
  assumes s: "sealed ws" and t: "safe_path ws rel = Inr t"
  shows "outside_same (ws_root ws) (ws_fs ws) (left (write_text t c (ws_fs ws)))"
proof -
  let ?b = "ws_root ws" and ?fs = "ws_fs ws"
  have u: "strictly_under ?b t" using safe_path_Inr(1) [OF t] by (simp add: below_root_strictly)
  have free: "link_free ?fs t" by (rule safe_path_link_free [OF t sealed_link_free [OF s]])
  have pl: "list_all plain t"
    using safe_path_Inr(2) [OF t] resolve_from_plain_result s by (auto simp: resolve_def sealed_def rooted_def)
  have m: "outside_same ?b ?fs (left (mkdir_parents t ?fs))" by (rule mkdir_parents_outside [OF u])
  show ?thesis
  proof (cases "mkdir_parents t ?fs")
    case (Inl e)
    with m show ?thesis by (cases e) (simp add: write_text_def)
  next
    case (Inr fs1)
    let ?fs2 = "dset t (FileE c) fs1"
    have nl: "link_at ?fs q = None \<Longrightarrow> link_at ?fs2 q = None" for q
      using mkdir_parents_no_link [of ?fs q t] Inr by (simp add: link_at_dset)
    have w: "outside_same ?b fs1 ?fs2" by (rule outside_same_change [OF u]) simp
    have d: "outside_same ?b ?fs2 (left (drop_bytecode t ?fs2))"
    proof (rule drop_bytecode_outside [OF u pl])
      show "link_free ?fs2 (butlast t)"
        using link_free_butlast [OF free] nl by (simp add: link_free_def)
      show "link_at ?fs2 (butlast t @ [''__pycache__'']) = None" using s nl by (simp add: sealed_def)
    qed
    from m Inr have "outside_same ?b ?fs fs1" by simp
    with w d Inr show ?thesis
      by (auto simp: write_text_def split: option.splits entry.splits intro: outside_same_trans)
  qed
qed

definition written_ws :: "(ws_error \<times> workspace) + artifact \<times> workspace \<Rightarrow> workspace" where
  "written_ws r = (case r of Inl (e, ws) \<Rightarrow> ws | Inr (a, ws) \<Rightarrow> ws)"

lemma ws_write_state:
  "written_ws (ws_write ws rel c pb nm mt) =
     (case safe_path ws rel of Inl _ \<Rightarrow> ws | Inr t \<Rightarrow> ws\<lparr>ws_fs := left (write_text t c (ws_fs ws))\<rparr>)"
  by (auto simp: ws_write_def written_ws_def left_def Let_def split: sum.splits)

text \<open>Apart from bytecode that is gone, nothing changed.\<close>

definition drops_only :: "fs \<Rightarrow> fs \<Rightarrow> bool" where
  "drops_only fs fs' \<longleftrightarrow> (\<forall>q. dget fs' q = dget fs q \<or> is_bytecode q \<and> dget fs' q = None)"

lemma drops_only_refl [simp]: "drops_only fs fs"
  by (simp add: drops_only_def)

lemma drops_only_trans: "drops_only a b \<Longrightarrow> drops_only b c \<Longrightarrow> drops_only a c"
  unfolding drops_only_def by metis

lemma unlink_drops: "is_bytecode p \<Longrightarrow> drops_only fs (left (unlink p fs))"
  by (auto simp: unlink_def drops_only_def split: option.splits entry.splits)

lemma drop_bytecode_drops: "drops_only fs (left (drop_bytecode t fs))"
proof (cases "snd (split_suffix (last t)) \<noteq> ''.py''")
  case True
  then show ?thesis by (simp add: drop_bytecode_def)
next
  case False
  let ?r = "efold unlink (stale_bytecode t fs) fs"
  have r: "drops_only fs (left ?r)"
    by (rule efold_left [where R = drops_only]) (auto intro: drops_only_trans unlink_drops stale_bytecode_pyc)
  have legacy: "drops_only fs1 (left (unlink (butlast t @ [n @ ''.pyc'']) fs1))" for fs1 n
    by (rule unlink_drops) (simp add: is_bytecode_def pyc_name)
  show ?thesis
  proof (cases ?r)
    case (Inl e)
    with r False show ?thesis by (cases e) (simp add: drop_bytecode_def)
  next
    case (Inr fs1)
    with r legacy False show ?thesis by (auto simp: drop_bytecode_def intro: drops_only_trans)
  qed
qed

text \<open>Up to bytecode a write changes nothing outside the root, links or not.\<close>

lemma write_text_drops:
  assumes "strictly_under base t" and "root_dirs base fs" and "\<not> is_under base q"
  shows "dget (left (write_text t c fs)) q = dget fs q \<or> is_bytecode q \<and> dget (left (write_text t c fs)) q = None"
proof -
  have m: "outside_same base fs (left (mkdir_parents t fs))" by (rule mkdir_parents_outside [OF assms(1)])
  have "q \<noteq> t" using assms(1,3) strictly_under_is_under by blast
  then have "dget (left (drop_bytecode t (dset t (FileE c) fs1))) q = dget fs1 q
      \<or> is_bytecode q \<and> dget (left (drop_bytecode t (dset t (FileE c) fs1))) q = None" for fs1
    using drop_bytecode_drops [of "dset t (FileE c) fs1" t] by (simp add: drops_only_def) metis
  moreover have "dget (left (mkdir_parents t fs)) q = dget fs q" using m assms(2,3) by (simp add: outside_same_def)
  ultimately show ?thesis
    by (cases "mkdir_parents t fs") (auto simp: write_text_def split: option.splits entry.splits, metis+)
qed

text \<open>
  C5: Containment. Whatever path a model proposes, a write that is refused changes nothing, and one
  that is attempted, even if it fails half-way, changes no entry outside the workspace root: not
  through absolute paths or parent segments, not through planted symbolic links, not through created
  directories. The one exception is that bytecode (\<^verbatim>\<open>.pyc\<close>) may be deleted outside the root, and that takes a
  \<^verbatim>\<open>__pycache__\<close> that is a symbolic link: where there is none, nothing outside changes at all.
\<close>

theorem write_stays_in_sandbox:
  assumes "rooted ws" and "\<not> is_under (ws_root ws) q"
  shows "(dget (ws_fs (written_ws (ws_write ws rel c pb nm mt))) q = dget (ws_fs ws) q
      \<or> is_bytecode q \<and> dget (ws_fs (written_ws (ws_write ws rel c pb nm mt))) q = None)
    \<and> (sealed ws \<longrightarrow> dget (ws_fs (written_ws (ws_write ws rel c pb nm mt))) q = dget (ws_fs ws) q)
    \<and> ws_root (written_ws (ws_write ws rel c pb nm mt)) = ws_root ws"
proof (cases "safe_path ws rel")
  case (Inl e)
  then show ?thesis by (simp add: ws_write_state)
next
  case (Inr t)
  have "strictly_under (ws_root ws) t" using safe_path_Inr(1) [OF Inr] by (simp add: below_root_strictly)
  moreover have r: "root_dirs (ws_root ws) (ws_fs ws)" using assms(1) by (simp add: rooted_def)
  moreover have "outside_same (ws_root ws) (ws_fs ws) (left (write_text t c (ws_fs ws)))" if "sealed ws"
    by (rule write_text_outside [OF that Inr])
  ultimately show ?thesis
    using assms(2) write_text_drops [of "ws_root ws" t "ws_fs ws" q c]
    by (auto simp: ws_write_state Inr outside_same_def)
qed

definition linked_ws :: workspace where
  "linked_ws = \<lparr>ws_root = [''w''], ws_fs = [([''w''], DirE), ([''etc''], DirE),
     ([''etc'', ''passwd''], FileE ''root''), ([''w'', ''link''], LinkE True [''etc''])]\<rparr>"

lemma linked_sealed: "sealed linked_ws"
proof -
  have "link_at (ws_fs linked_ws) (q @ [''__pycache__'']) = None" for q
    by (cases q rule: rev_cases) (auto simp: linked_ws_def link_at_def Cons_eq_append_conv append_eq_Cons_conv)
  then show ?thesis by (simp add: sealed_def rooted_def linked_ws_def plain_def root_dirs_def)
qed

theorem write_stays_in_sandbox_witness:
  "dget (ws_fs (written_ws (ws_write linked_ws ''link/passwd'' ''x'' [] None None))) [''etc'', ''passwd''] = Some (FileE ''root'')
   \<and> ws_write linked_ws ''link/passwd'' ''x'' [] None None = Inl (Escapes ''link/passwd'', linked_ws)"
proof -
  have r: "rooted linked_ws" using linked_sealed by (simp add: sealed_def)
  have q: "\<not> is_under (ws_root linked_ws) [''etc'', ''passwd'']" by (simp add: linked_ws_def is_under_def)
  have "dget (ws_fs linked_ws) [''etc'', ''passwd''] = Some (FileE ''root'')" by (simp add: linked_ws_def)
  with write_stays_in_sandbox [OF r q, of "''link/passwd''" "''x''" "[]" None None] linked_sealed
  have "dget (ws_fs (written_ws (ws_write linked_ws ''link/passwd'' ''x'' [] None None))) [''etc'', ''passwd''] = Some (FileE ''root'')"
    by simp
  moreover have "ws_write linked_ws ''link/passwd'' ''x'' [] None None = Inl (Escapes ''link/passwd'', linked_ws)" by code_simp
  ultimately show ?thesis by blast
qed

section \<open>Scoped rollback\<close>

text \<open>
  C6: Scoped rollback is scoped. In a workspace that is reached through no link and where no link is named
  like bytecode, restoring the paths one node wrote, whether it succeeds or fails half-way, leaves
  every file and every link that none of those paths resolves to exactly as it is, text or not and whoever
  wrote it. Only bytecode (\<^verbatim>\<open>.pyc\<close>) is not promised: the cache of a restored module is dropped on purpose.
\<close>

theorem scoped_rollback_spares_others:
  assumes "tidy ws" and "dget (ws_fs ws) q = Some e" and "e \<noteq> DirE" and "\<not> is_bytecode q"
    and "\<forall>rel \<in> set paths. safe_path ws rel \<noteq> Inr q"
  shows "dget (ws_fs (restored_ws (ws_restore_paths ws sn paths))) q = Some e"
proof -
  have "steady {t. \<exists>rel \<in> set paths. safe_path ws rel = Inr t} ws (restored_ws (ws_restore_paths ws sn paths))"
    by (rule restore_paths_steady [OF assms(1)]) auto
  then have "touches_only {t. \<exists>rel \<in> set paths. safe_path ws rel = Inr t} (ws_fs ws)
      (ws_fs (restored_ws (ws_restore_paths ws sn paths)))"
    by (simp add: steady_def)
  from touches_only_file [OF this _ assms(4,2,3)] assms(5) show ?thesis by auto
qed

theorem scoped_rollback_spares_others_witness:
  "dget (ws_fs (restored_ws (ws_restore_paths sample_ws \<lparr>sn_files = [], sn_label = []\<rparr> [''b.py'']))) [''w'', ''a.py'']
     = Some (FileE ''x'')"
proof -
  have "safe_path sample_ws ''b.py'' \<noteq> Inr [''w'', ''a.py'']" by code_simp
  then show ?thesis
    using scoped_rollback_spares_others [OF sample_tidy, of "[''w'', ''a.py'']" "FileE ''x''" "[''b.py'']"]
    by (simp add: sample_ws_def is_bytecode_def str_endswith_def)
qed

lemma touches_not_file:
  "touches_only T fs fs' \<Longrightarrow> q \<notin> T \<Longrightarrow> \<not> is_bytecode q \<Longrightarrow> \<not> is_file fs q \<Longrightarrow> \<not> is_file fs' q"
  unfolding touches_only_def is_file_def by (fastforce split: option.splits entry.splits)

lemma touches_read:
  "touches_only T fs fs' \<Longrightarrow> q \<notin> T \<Longrightarrow> \<not> is_bytecode q \<Longrightarrow> is_file fs q \<Longrightarrow>
     is_file fs' q \<and> read_text q fs' = read_text q fs"
  using touches_only_file [of T fs fs' q]
  by (auto simp: is_file_def read_text_def split: option.splits entry.splits)

text \<open>\<open>holds_text fs t v\<close>: the file reads as the wanted text, or is absent where nothing is wanted.\<close>

definition holds_text :: "fs \<Rightarrow> fpath \<Rightarrow> string option \<Rightarrow> bool" where
  "holds_text fs t v = (case v of None \<Rightarrow> \<not> is_file fs t
     | Some c \<Rightarrow> is_file fs t \<and> read_text t fs = Inr c)"

lemma holds_text_touches:
  "touches_only T fs fs' \<Longrightarrow> t \<notin> T \<Longrightarrow> \<not> is_bytecode t \<Longrightarrow> holds_text fs t v \<Longrightarrow> holds_text fs' t v"
  using touches_not_file [of T fs fs' t] touches_read [of T fs fs' t]
  by (auto simp: holds_text_def split: option.splits)

lemma put_back_establishes:
  assumes "put_back rel c st = Inr st'" and "safe_path (fst st) rel = Inr t" and "universal_newlines c = c"
  shows "holds_text (ws_fs (fst st')) t (Some c)"
proof (cases "same_text (ws_fs (fst st)) t c")
  case (Inl e)
  with assms show ?thesis by (simp add: put_back_def)
next
  case (Inr b)
  show ?thesis
  proof (cases b)
    case True
    with assms(1,2) Inr show ?thesis
      by (auto simp: put_back_def same_text_def holds_text_def split: if_splits sum.splits)
  next
    case False
    with assms(1,2) Inr obtain fs where fs: "write_text t c (ws_fs (fst st)) = Inr fs"
      "ws_fs (fst st') = fs" by (auto simp: put_back_def split: sum.splits)
    have "t \<noteq> []" using safe_path_Inr(1) [OF assms(2)] by simp
    from write_text_stored [OF fs(1) this] show ?thesis
      by (simp add: holds_text_def is_file_def read_text_def assms(3) fs(2))
  qed
qed

lemma remove_file_establishes:
  assumes "remove_file rel st = Inr st'" and "safe_path (fst st) rel = Inr t"
  shows "holds_text (ws_fs (fst st')) t None"
  using assms by (auto simp: remove_file_def unlink_def holds_text_def is_file_def
      split: option.splits entry.splits)

lemma restore_path_establishes:
  assumes "restore_path sn rel st = Inr st'" and "safe_path (fst st) rel = Inr t"
    and "\<forall>c. dget (sn_files sn) rel = Some c \<longrightarrow> universal_newlines c = c"
  shows "holds_text (ws_fs (fst st')) t (dget (sn_files sn) rel)"
proof (cases "dget (sn_files sn) rel")
  case None
  show ?thesis
  proof (cases "is_file (ws_fs (fst st)) t")
    case True
    with assms(1,2) None have "remove_file rel st = Inr st'" by (simp add: restore_path_def)
    with remove_file_establishes [OF _ assms(2)] None show ?thesis by simp
  next
    case False
    with assms(1,2) None show ?thesis by (simp add: restore_path_def holds_text_def)
  qed
next
  case (Some c)
  with assms(1,2) have "put_back rel c st = Inr st'" by (simp add: restore_path_def)
  from put_back_establishes [OF this assms(2)] assms(3) Some show ?thesis by simp
qed

lemma is_file_iff: "is_file fs t \<longleftrightarrow> (\<exists>c. dget fs t = Some (FileE c)) \<or> dget fs t = Some BinE"
  by (auto simp: is_file_def split: option.splits entry.splits)

lemma read_text_file: "is_file fs t \<Longrightarrow> read_text t fs = Inr r \<longleftrightarrow>
    (\<exists>c. dget fs t = Some (FileE c) \<and> r = universal_newlines c)"
  by (auto simp: is_file_def read_text_def split: option.splits entry.splits)

lemma prune_is_file: "is_file (ws_fs (prune_empty_dirs ws)) t = is_file (ws_fs ws) t"
  by (simp add: is_file_iff prune_files)

lemma prune_holds_text: "holds_text (ws_fs (prune_empty_dirs ws)) t v = holds_text (ws_fs ws) t v"
  by (cases v) (auto simp: holds_text_def prune_is_file read_text_file prune_files)

text \<open>
  C7: Scoped rollback restores. When it returns, a given path reads as the snapshot has it, and one
  the snapshot does not have is no longer a file. This is for a path that no other given spelling names the
  same file as (the snapshot is asked by spelling, so an alias it does not know deletes the file), that
  is no bytecode, whose text in the snapshot has line feeds only, as every snapshot taken has, and in a
  workspace reached through no link and without a link named like bytecode.
\<close>

theorem scoped_rollback_restores:
  assumes "tidy ws" and "ws_restore_paths ws sn paths = Inr (ws', changed)"
    and "rel \<in> set paths" and "safe_path ws rel = Inr t"
    and "\<forall>c. dget (sn_files sn) rel = Some c \<longrightarrow> universal_newlines c = c"
    and "\<forall>rel' \<in> set paths. safe_path ws rel' = Inr t \<longrightarrow> rel' = rel" and "\<not> is_bytecode t"
  shows "holds_text (ws_fs ws') t (dget (sn_files sn) rel)"
proof -
  let ?v = "dget (sn_files sn) rel"
  from assms(2) obtain st where st: "efold (restore_path sn) paths (ws, []) = Inr st"
    "ws' = prune_empty_dirs (fst st)"
    by (auto simp: ws_restore_paths_def finish_restore_def split: sum.splits prod.splits)
  have "holds_text (ws_fs (fst st)) t ?v"
  proof (rule efold_establishes [OF st(1) assms(3),
        where I = "\<lambda>s. tidy (fst s) \<and> safe_path (fst s) = safe_path ws"])
    show "tidy (fst (ws, [] :: string list)) \<and> safe_path (fst (ws, [] :: string list)) = safe_path ws"
      using assms(1) by simp
    show "holds_text (ws_fs (fst s')) t ?v"
      if "tidy (fst s) \<and> safe_path (fst s) = safe_path ws" "restore_path sn rel s = Inr s'" for s s'
      using restore_path_establishes [OF that(2)] that(1) assms(4,5) by simp
    show "holds_text (ws_fs (fst s')) t ?v"
      if y: "y \<in> set paths" and i: "tidy (fst s) \<and> safe_path (fst s) = safe_path ws"
        and h: "holds_text (ws_fs (fst s)) t ?v" and r: "restore_path sn y s = Inr s'" for y s s'
    proof (cases "y = rel")
      case True
      with restore_path_establishes [OF r] i assms(4,5) show ?thesis by simp
    next
      case False
      have "steady {u. safe_path ws y = Inr u} (fst s) (fst (left (restore_path sn y s)))"
        by (rule restore_path_steady) (use i in auto)
      then have "touches_only {u. safe_path ws y = Inr u} (ws_fs (fst s)) (ws_fs (fst s'))"
        using r by (simp add: steady_def)
      then show ?thesis
        by (rule holds_text_touches) (use y False assms(6,7) h in auto)
    qed
    show "tidy (fst s') \<and> safe_path (fst s') = safe_path ws"
      if "tidy (fst s) \<and> safe_path (fst s) = safe_path ws" "restore_path sn y s = Inr s'" for y s s'
    proof -
      have "steady UNIV (fst s) (fst (left (restore_path sn y s)))"
        by (rule restore_path_steady) (use that in auto)
      with that show ?thesis using steady_tidy steady_safe_path by fastforce
    qed
  qed
  then show ?thesis by (simp add: st(2) prune_holds_text)
qed

definition failed_ws :: workspace where
  "failed_ws = \<lparr>ws_root = [''w''], ws_fs = [([''w''], DirE), ([''w'', ''a.py''], FileE ''broken''),
     ([''w'', ''new.py''], FileE ''half'')]\<rparr>"

lemma failed_tidy: "tidy failed_ws"
  by (simp add: tidy_def link_free_def pyc_links_def link_at_def failed_ws_def)

lemma failed_restores:
  "\<exists>ws' changed. ws_restore_paths failed_ws \<lparr>sn_files = [(''a.py'', ''x'')], sn_label = []\<rparr> [''a.py'', ''new.py'']
     = Inr (ws', changed)"
proof -
  have "case ws_restore_paths failed_ws \<lparr>sn_files = [(''a.py'', ''x'')], sn_label = []\<rparr> [''a.py'', ''new.py''] of
      Inl _ \<Rightarrow> False | Inr _ \<Rightarrow> True" by code_simp
  then show ?thesis by (auto split: sum.splits)
qed

lemma failed_paths: "safe_path failed_ws ''a.py'' = Inr [''w'', ''a.py'']"
  "safe_path failed_ws ''new.py'' = Inr [''w'', ''new.py'']"
  by code_simp+

theorem scoped_rollback_restores_witness:
  "\<exists>ws' changed. ws_restore_paths failed_ws \<lparr>sn_files = [(''a.py'', ''x'')], sn_label = []\<rparr> [''a.py'', ''new.py'']
     = Inr (ws', changed) \<and> holds_text (ws_fs ws') [''w'', ''a.py''] (Some ''x'')"
proof -
  obtain ws' changed where r: "ws_restore_paths failed_ws \<lparr>sn_files = [(''a.py'', ''x'')], sn_label = []\<rparr>
      [''a.py'', ''new.py''] = Inr (ws', changed)" using failed_restores by blast
  from scoped_rollback_restores [OF failed_tidy r, of "''a.py''" "[''w'', ''a.py'']"] failed_paths
  have "holds_text (ws_fs ws') [''w'', ''a.py''] (Some ''x'')"
    by (simp add: is_bytecode_def str_endswith_def)
  with r show ?thesis by blast
qed


section \<open>Two defects\<close>

text \<open>
  A rollback does not put back the bytes of a file with carriage returns: the snapshot reads it in
  text mode, which turns them into line feeds, and that is what the restore writes.
\<close>

definition crlf_ws :: "char list \<Rightarrow> workspace" where
  "crlf_ws content = \<lparr>ws_root = [''w''], ws_fs = [([''w''], DirE), ([''w'', ''a''], FileE content)]\<rparr>"

definition rolled_back :: "string \<Rightarrow> string \<Rightarrow> entry option" where
  "rolled_back before after =
     (case ws_snapshot (crlf_ws before) [] of
        Inl _ \<Rightarrow> None
      | Inr sn \<Rightarrow> (case ws_restore (crlf_ws after) sn of
                    Inl _ \<Rightarrow> None | Inr (ws, _) \<Rightarrow> dget (ws_fs ws) [''w'', ''a'']))"

theorem rollback_loses_carriage_returns:
  "rolled_back (''x'' @ [CHR 0x0D, CHR 0x0A]) ''y'' = Some (FileE (''x'' @ [CHR 0x0A]))"
  by code_simp

text \<open>
  Dropping stale bytecode follows a symbolic link planted as \<open>__pycache__\<close>: writing a module inside
  the workspace deletes files outside it.
\<close>

definition planted_ws :: workspace where
  "planted_ws = \<lparr>ws_root = [''w''], ws_fs = [([''w''], DirE), ([''out''], DirE),
     ([''out'', ''m.cpython-313.pyc''], BinE), ([''w'', ''__pycache__''], LinkE True [''out''])]\<rparr>"

theorem write_deletes_outside_bytecode:
  "(case ws_write planted_ws ''m.py'' ''x'' [] None None of
      Inl _ \<Rightarrow> False
    | Inr (_, ws) \<Rightarrow> dget (ws_fs planted_ws) [''out'', ''m.cpython-313.pyc''] \<noteq> None
        \<and> dget (ws_fs ws) [''out'', ''m.cpython-313.pyc''] = None)"
  by code_simp

end
