(* ===== verification/AuditTrail.thy ===== *)
theory AuditTrail
  imports Models Regex
begin

text \<open>
  The append-only audit log of \<^verbatim>\<open>keel/governance/audit.py\<close>: redaction of payloads, sequence numbers and
  clamped timestamps, the JSON line written for each event, and the cassettes a replay reads back.
  A payload is a JSON object; enums and sets reach the log as the strings and lists they are
  flattened to. The log is its events in memory and the text of its file.
\<close>

section \<open>Redaction\<close>

definition REDACTED :: string where
  "REDACTED = ''<redacted>''"

definition key_char :: "char \<Rightarrow> bool" where
  "key_char c \<longleftrightarrow> is_alnum c \<or> c = CHR ''_'' \<or> c = CHR ''-''"

definition pem_label :: re where
  "pem_label = star (Chr (\<lambda>c. is_upper c \<or> c = CHR '' ''))"

definition credential_patterns :: "re list" where
  "credential_patterns =
    [seqs [NotBehind is_alnum, lit ''sk-ant-'', Rep 20 None (Chr key_char)],
     seqs [NotBehind is_alnum, lit ''sk-'', Rep 20 None (Chr key_char)],
     seqs [lit ''gh'', any_of ''pousr'', lit ''_'', Rep 20 None (Chr is_alnum)],
     seqs [lit ''github_pat_'', Rep 20 None (Chr (\<lambda>c. is_alnum c \<or> c = CHR ''_''))],
     seqs [lit ''AKIA'', Rep 16 (Some 16) (Chr (\<lambda>c. is_digit c \<or> is_upper c))],
     seqs [lit ''AIza'', Rep 30 None (Chr key_char)],
     seqs [lit ''xox'', any_of ''abprs'', lit ''-'', Rep 10 None (Chr (\<lambda>c. is_alnum c \<or> c = CHR ''-''))],
     seqs [lit ''eyJ'', Rep 8 None (Chr key_char), lit ''.'', Rep 8 None (Chr key_char), lit ''.'',
       Rep 8 None (Chr key_char)],
     seqs [WordB, lit_ci ''bearer'', spaces1,
       Rep 16 None (Chr (\<lambda>c. is_alnum c \<or> c = CHR ''.'' \<or> c = CHR ''_'' \<or> c = CHR ''-''))],
     seqs [lit ''-----BEGIN '', pem_label, lit ''PRIVATE KEY-----'', Lazy (Chr (\<lambda>_. True)),
       lit ''-----END '', pem_label, lit ''PRIVATE KEY-----'']]"

definition secret_key_names :: re where
  "secret_key_names =
     seqs [alts [BOS, lit ''_'', lit ''-''],
       alts [seqs [lit_ci ''api'', opt_re (any_of ''_-''), lit_ci ''key''], lit_ci ''apikey'', lit_ci ''secret'',
         lit_ci ''password'', lit_ci ''passwd'', lit_ci ''token'', lit_ci ''credential'',
         lit_ci ''credentials'', lit_ci ''authorization'', lit_ci ''auth'',
         seqs [lit_ci ''private'', opt_re (any_of ''_-''), lit_ci ''key''],
         seqs [lit_ci ''session'', opt_re (any_of ''_-''), lit_ci ''id'']],
       opt_re (chr_ci (CHR ''s'')), EOS]"

definition count_keys :: "string set" where
  "count_keys = {''input_tokens'', ''output_tokens'', ''total_tokens'', ''max_tokens''}"

definition scrub :: "string \<Rightarrow> string" where
  "scrub text = fold (\<lambda>p t. re_sub p REDACTED t) credential_patterns text"

definition is_secret_name :: "string option \<Rightarrow> bool" where
  "is_secret_name key =
     (case key of None \<Rightarrow> False
      | Some k \<Rightarrow> k \<noteq> [] \<and> k \<notin> count_keys \<and> re_found secret_key_names k)"

fun redact :: "string option \<Rightarrow> json \<Rightarrow> json" where
  "redact key (JStr s) = JStr (if is_secret_name key then REDACTED else scrub s)"
| "redact key (JObj kvs) = JObj (map (\<lambda>(k, v). (k, redact (Some k) v)) kvs)"
| "redact key (JArr xs) = JArr (map (redact key) xs)"
| "redact key v = v"

section \<open>The line of an event\<close>

text \<open>\<open>json.dumps(v, ensure_ascii=False)\<close>: only quotes, backslashes and control characters are escaped.\<close>

definition raw_escape_char :: "char \<Rightarrow> string" where
  "raw_escape_char c = (if CHR '' '' \<le> c \<and> c \<noteq> CHR 0x22 \<and> c \<noteq> CHR 0x5C then [c] else json_escape_char c)"

definition raw_string :: "string \<Rightarrow> string" where
  "raw_string s = [CHR 0x22] @ concat (map raw_escape_char s) @ [CHR 0x22]"

fun dump_line :: "(real \<Rightarrow> string) \<Rightarrow> json \<Rightarrow> string" where
  "dump_line fr JNull = ''null''"
| "dump_line fr (JBool b) = (if b then ''true'' else ''false'')"
| "dump_line fr (JInt i) = str_int i"
| "dump_line fr (JFloat f) = float_text fr f"
| "dump_line fr (JStr s) = raw_string s"
| "dump_line fr (JArr xs) = CHR ''['' # str_join '', '' (map (dump_line fr) xs) @ '']''"
| "dump_line fr (JObj kvs) =
     CHR 0x7B # str_join '', '' (map (\<lambda>(k, v). raw_string k @ '': '' @ dump_line fr v) kvs) @ [CHR 0x7D]"

definition opt_str :: "string option \<Rightarrow> json" where
  "opt_str v = (case v of None \<Rightarrow> JNull | Some s \<Rightarrow> JStr s)"

definition event_to_json :: "audit_event \<Rightarrow> json" where
  "event_to_json e = JObj
     [(''seq'', JInt (ae_seq e)), (''at'', JFloat (Fin (ae_at e))), (''run_id'', JStr (ae_run_id e)),
      (''event_type'', JStr (et_value (ae_event_type e))), (''node_id'', opt_str (ae_node_id e)),
      (''payload'', JObj (ae_payload e))]"

section \<open>The log\<close>

record audit_log =
  al_run_id :: string
  al_events :: "audit_event list"
  al_seq :: int
  al_last_at :: real
  al_text :: string

text \<open>A fresh log: the file is touched and empty.\<close>

definition new_log :: "string \<Rightarrow> audit_log" where
  "new_log run_id = \<lparr>al_run_id = run_id, al_events = [], al_seq = 0, al_last_at = 0, al_text = []\<rparr>"

definition redact_payload :: "(string, json) dict \<Rightarrow> (string, json) dict" where
  "redact_payload kvs = map (\<lambda>(k, v). (k, redact (Some k) v)) kvs"

definition make_event ::
  "real \<Rightarrow> event_type \<Rightarrow> (string, json) dict \<Rightarrow> string option \<Rightarrow> audit_log \<Rightarrow> audit_event"
where
  "make_event now et payload node_id l =
     \<lparr>ae_run_id = al_run_id l, ae_event_type = et, ae_payload = redact_payload payload,
      ae_node_id = node_id, ae_at = py_round (max now (al_last_at l)) 6, ae_seq = al_seq l + 1\<rparr>"

definition emit ::
  "(real \<Rightarrow> string) \<Rightarrow> real \<Rightarrow> event_type \<Rightarrow> (string, json) dict \<Rightarrow> string option \<Rightarrow> audit_log \<Rightarrow> audit_log"
where
  "emit fr now et payload node_id l =
     (let e = make_event now et payload node_id l
      in l\<lparr>al_seq := ae_seq e, al_text := al_text l @ dump_line fr (event_to_json e) @ newline,
           al_events := al_events l @ [e], al_last_at := ae_at e\<rparr>)"

definition model_call_payload ::
  "(string \<Rightarrow> string) \<Rightarrow> (real \<Rightarrow> string) \<Rightarrow> adapter_request \<Rightarrow> adapter_response \<Rightarrow> (string, json) dict"
where
  "model_call_payload sha fr q r =
     [(''cassette_key'', JStr (cassette_key sha fr q)), (''skill_id'', JStr (rq_skill_id q)),
      (''tier'', JStr (mt_value (rq_tier q))), (''model'', JStr (rs_model r)), (''text'', JStr (rs_text r)),
      (''parsed'', (case rs_parsed r of None \<Rightarrow> JNull | Some kvs \<Rightarrow> JObj kvs)),
      (''input_tokens'', JInt (rs_input_tokens r)), (''output_tokens'', JInt (rs_output_tokens r)),
      (''cost_usd'', JFloat (Fin (py_round (rs_cost_usd r) 6))),
      (''latency_seconds'', JFloat (Fin (py_round (rs_latency_seconds r) 6))),
      (''from_replay'', JBool (rs_from_replay r)), (''system'', JStr (rq_system q)),
      (''prompt'', JStr (rq_prompt q))]"

definition record_model_call ::
  "(string \<Rightarrow> string) \<Rightarrow> (real \<Rightarrow> string) \<Rightarrow> real \<Rightarrow> string \<Rightarrow> adapter_request \<Rightarrow> adapter_response \<Rightarrow>
   audit_log \<Rightarrow> audit_log"
where
  "record_model_call sha fr now node_id q r l =
     emit fr now MODEL_CALL (model_call_payload sha fr q r) (Some node_id) l"

definition events_of :: "event_type option \<Rightarrow> audit_log \<Rightarrow> audit_event list" where
  "events_of et l =
     (case et of None \<Rightarrow> al_events l | Some t \<Rightarrow> filter (\<lambda>e. ae_event_type e = t) (al_events l))"

text \<open>The first recording of a key is kept; the node id is carried along.\<close>

definition add_cassette ::
  "audit_event \<Rightarrow> (string, (string, json) dict) dict \<Rightarrow> (string, (string, json) dict) dict"
where
  "add_cassette e found =
     (if ae_event_type e \<noteq> MODEL_CALL then found
      else case dget (ae_payload e) ''cassette_key'' of
             Some (JStr key) \<Rightarrow>
               if key \<noteq> [] \<and> dget found key = None
               then dset key (dsetdefault ''node_id'' (JStr (case ae_node_id e of None \<Rightarrow> [] | Some n \<Rightarrow> n))
                      (ae_payload e)) found
               else found
           | _ \<Rightarrow> found)"

definition cassettes :: "audit_log \<Rightarrow> (string, (string, json) dict) dict" where
  "cassettes l = fold add_cassette (al_events l) []"


section \<open>What every log satisfies\<close>

text \<open>A string stored under a secret-looking name is the placeholder, at any depth.\<close>

fun hides_secrets :: "string option \<Rightarrow> json \<Rightarrow> bool" where
  "hides_secrets key (JStr s) = (is_secret_name key \<longrightarrow> s = REDACTED)"
| "hides_secrets key (JObj kvs) = list_all (\<lambda>(k, v). hides_secrets (Some k) v) kvs"
| "hides_secrets key (JArr xs) = list_all (hides_secrets key) xs"
| "hides_secrets key v = True"

lemma redact_hides: "hides_secrets key (redact key v)"
  by (induction key v rule: redact.induct) (auto simp: list_all_iff)

lemma redact_payload_hides: "hides_secrets None (JObj (redact_payload kvs))"
  using redact_hides [of None "JObj kvs"] by (simp add: redact_payload_def)

inductive log_run :: "(real \<Rightarrow> string) \<Rightarrow> string \<Rightarrow> audit_log \<Rightarrow> bool" for fr run_id where
  fresh: "log_run fr run_id (new_log run_id)"
| emitted: "log_run fr run_id l \<Longrightarrow> log_run fr run_id (emit fr now et payload node_id l)"

definition log_inv :: "(real \<Rightarrow> string) \<Rightarrow> string \<Rightarrow> audit_log \<Rightarrow> bool" where
  "log_inv fr run_id l \<longleftrightarrow>
     al_run_id l = run_id
     \<and> al_seq l = int (length (al_events l))
     \<and> map ae_seq (al_events l) = map int [1..<Suc (length (al_events l))]
     \<and> sorted (map ae_at (al_events l))
     \<and> (\<forall>e \<in> set (al_events l). ae_at e \<le> al_last_at l \<and> ae_run_id e = run_id
          \<and> hides_secrets None (JObj (ae_payload e)))
     \<and> py_round (al_last_at l) 6 = al_last_at l
     \<and> al_text l = concat (map (\<lambda>e. dump_line fr (event_to_json e) @ newline) (al_events l))"

lemma emit_sel [simp]:
  "al_events (emit fr now et payload n l) = al_events l @ [make_event now et payload n l]"
  "al_run_id (emit fr now et payload n l) = al_run_id l"
  "al_seq (emit fr now et payload n l) = al_seq l + 1"
  "al_last_at (emit fr now et payload n l) = py_round (max now (al_last_at l)) 6"
  "al_text (emit fr now et payload n l)
     = al_text l @ dump_line fr (event_to_json (make_event now et payload n l)) @ newline"
  by (simp_all add: emit_def make_event_def Let_def)

lemma make_event_sel [simp]:
  "ae_run_id (make_event now et payload n l) = al_run_id l"
  "ae_event_type (make_event now et payload n l) = et"
  "ae_payload (make_event now et payload n l) = redact_payload payload"
  "ae_node_id (make_event now et payload n l) = n"
  "ae_at (make_event now et payload n l) = py_round (max now (al_last_at l)) 6"
  "ae_seq (make_event now et payload n l) = al_seq l + 1"
  by (simp_all add: make_event_def)

lemma new_log_inv: "log_inv fr run_id (new_log run_id)"
  by (simp add: log_inv_def new_log_def py_round_def round_half_even_def Let_def)

lemma emit_inv:
  assumes "log_inv fr run_id l" shows "log_inv fr run_id (emit fr now et payload n l)"
proof -
  let ?at = "py_round (max now (al_last_at l)) 6"
  from assms have r: "py_round (al_last_at l) 6 = al_last_at l" by (simp add: log_inv_def)
  have later: "al_last_at l \<le> ?at" using py_round_mono [of "al_last_at l" "max now (al_last_at l)" 6] r by simp
  moreover from assms have "\<forall>e \<in> set (al_events l). ae_at e \<le> al_last_at l" by (simp add: log_inv_def)
  ultimately have old: "\<forall>e \<in> set (al_events l). ae_at e \<le> ?at" by force
  with assms show ?thesis
    by (simp add: log_inv_def redact_payload_hides sorted_append flip: hides_secrets.simps)
qed

lemma log_run_inv: "log_run fr run_id l \<Longrightarrow> log_inv fr run_id l"
  by (induction rule: log_run.induct) (simp_all add: new_log_inv emit_inv)

text \<open>
  C15: The audit trail is what it promises to be. However it was written, the sequence numbers of a log
  are 1, 2, 3 and so on without a gap, timestamps never go backwards even when the clock does, every
  event belongs to the run, the file holds exactly one line per event in order, and no payload holds
  anything but the placeholder under a secret-looking name, at any depth.
\<close>

theorem audit_log_is_sound:
  assumes "log_run fr run_id l"
  shows "map ae_seq (al_events l) = map int [1..<Suc (length (al_events l))]
    \<and> sorted (map ae_at (al_events l))
    \<and> al_text l = concat (map (\<lambda>e. dump_line fr (event_to_json e) @ newline) (al_events l))
    \<and> (\<forall>e \<in> set (al_events l). ae_run_id e = run_id \<and> hides_secrets None (JObj (ae_payload e)))"
  using log_run_inv [OF assms] by (simp add: log_inv_def del: hides_secrets.simps)

definition sample_log :: audit_log where
  "sample_log = emit (\<lambda>_. ''0.0'') 3 INTAKE [(''api_key'', JStr ''hunter2'')] None
     (emit (\<lambda>_. ''0.0'') 7 RUN_STARTED [] None (new_log ''r''))"

theorem audit_log_is_sound_witness:
  "map ae_seq (al_events sample_log) = [1, 2] \<and> sorted (map ae_at (al_events sample_log))"
proof -
  have "log_run (\<lambda>_. ''0.0'') ''r'' sample_log"
    unfolding sample_log_def by (intro log_run.intros)
  from audit_log_is_sound [OF this] show ?thesis by (simp add: sample_log_def new_log_def)
qed

section \<open>Cassettes\<close>

definition records_key :: "string \<Rightarrow> audit_event \<Rightarrow> bool" where
  "records_key k e \<longleftrightarrow> ae_event_type e = MODEL_CALL \<and> dget (ae_payload e) ''cassette_key'' = Some (JStr k)"

definition cassette_of :: "audit_event \<Rightarrow> (string, json) dict" where
  "cassette_of e =
     dsetdefault ''node_id'' (JStr (case ae_node_id e of None \<Rightarrow> [] | Some n \<Rightarrow> n)) (ae_payload e)"

lemma add_cassette_get:
  "dget (add_cassette e found) k =
     (if k \<noteq> [] \<and> dget found k = None \<and> records_key k e then Some (cassette_of e) else dget found k)"
  by (auto simp: add_cassette_def records_key_def cassette_of_def split: option.splits json.splits)

lemma fold_cassettes_get:
  "dget (fold add_cassette es found) k =
     (case dget found k of
        Some p \<Rightarrow> Some p
      | None \<Rightarrow> if k = [] then None else map_option cassette_of (List.find (records_key k) es))"
proof (induction es arbitrary: found)
  case Nil
  then show ?case by (simp split: option.splits)
next
  case (Cons e es)
  show ?case by (simp add: Cons.IH add_cassette_get split: option.splits)
qed

text \<open>
  The log is the cassette store, and the first recording wins: looking a key up in the cassettes
  gives the payload of the first model call recorded under it, node id included, and nothing for a key
  that was never recorded; later calls under the same key never change the answer.
\<close>

theorem first_recording_wins:
  "dget (cassettes l) k =
     (if k = [] then None else map_option cassette_of (List.find (records_key k) (al_events l)))
   \<and> dget (cassettes (emit fr now et payload n l)) k =
        (case dget (cassettes l) k of
           Some p \<Rightarrow> Some p
         | None \<Rightarrow> if k \<noteq> [] \<and> records_key k (make_event now et payload n l)
                    then Some (cassette_of (make_event now et payload n l)) else None)"
  by (simp add: cassettes_def fold_cassettes_get add_cassette_get split: option.splits)

end
