(* ===== verification/JsonParse.thy ===== *)
theory JsonParse
  imports AuditTrail
begin

text \<open>
  \<open>json.loads\<close> as the sources use it, with the error messages of Python's decoder, and that what
  \<open>json.dumps(..., ensure_ascii=False)\<close> prints is read back. Recursion takes fuel, one per nested value;
  twice the length of the text is enough. Escapes of code points beyond Latin-1 are outside the model and
  reported as such.
\<close>

section \<open>Numbers\<close>

definition digit_value :: "char \<Rightarrow> nat" where
  "digit_value c = of_char c - 48"

definition nat_of_digits :: "string \<Rightarrow> nat" where
  "nat_of_digits s = foldl (\<lambda>a c. 10 * a + digit_value c) 0 s"

definition signed :: "bool \<Rightarrow> int \<Rightarrow> int" where
  "signed neg i = (if neg then - i else i)"

text \<open>A fraction needs a digit after the point, an exponent a digit after its sign.\<close>

definition p_fraction :: "string \<Rightarrow> string \<times> string" where
  "p_fraction s =
     (case s of
        CHR ''.'' # cs \<Rightarrow>
          (let ds = takeWhile is_digit cs in if ds = [] then ([], s) else (ds, dropWhile is_digit cs))
      | _ \<Rightarrow> ([], s))"

definition p_exponent :: "string \<Rightarrow> int option \<times> string" where
  "p_exponent s =
     (case s of
        c # cs \<Rightarrow>
          if c = CHR ''e'' \<or> c = CHR ''E''
          then (let neg = str_startswith cs ''-'';
                    ds = (if neg \<or> str_startswith cs ''+'' then tl cs else cs);
                    digits = takeWhile is_digit ds
                in if digits = [] then (None, s)
                   else (Some (signed neg (int (nat_of_digits digits))), dropWhile is_digit ds))
          else (None, s)
      | [] \<Rightarrow> (None, s))"

definition p_int_digits :: "string \<Rightarrow> (string \<times> string) option" where
  "p_int_digits s =
     (case s of
        [] \<Rightarrow> None
      | c # cs \<Rightarrow>
          if c = CHR ''0'' then Some ([c], cs)
          else if is_digit c then Some (c # takeWhile is_digit cs, dropWhile is_digit cs)
          else None)"

definition p_number :: "string \<Rightarrow> (json \<times> string) option" where
  "p_number s =
     (let neg = str_startswith s ''-''
      in case p_int_digits (if neg then tl s else s) of
           None \<Rightarrow> None
         | Some (ds, r) \<Rightarrow>
             (case p_fraction r of (fs, r1) \<Rightarrow>
               (case p_exponent r1 of (e, r2) \<Rightarrow>
                 if fs = [] \<and> e = None then Some (JInt (signed neg (int (nat_of_digits ds))), r2)
                 else Some (JFloat (Fin (real_of_int (signed neg (int (nat_of_digits (ds @ fs))))
                        * 10 powi ((case e of None \<Rightarrow> 0 | Some k \<Rightarrow> k) - int (length fs)))), r2))))"

section \<open>Strings\<close>

definition hex_value :: "char \<Rightarrow> nat option" where
  "hex_value c =
     (let n = of_char c
      in if is_digit c then Some (n - 48)
         else if CHR ''a'' \<le> c \<and> c \<le> CHR ''f'' then Some (n - 87)
         else if CHR ''A'' \<le> c \<and> c \<le> CHR ''F'' then Some (n - 55)
         else None)"

definition p_hex4 :: "string \<Rightarrow> string + char" where
  "p_hex4 s =
     (case map hex_value s of
        [Some a, Some b, Some c, Some d] \<Rightarrow>
          if a = 0 \<and> b = 0 then Inr (char_of (16 * c + d)) else Inl ''code point beyond the model''
      | _ \<Rightarrow> Inl (''Invalid '' @ [CHR 0x5C] @ ''uXXXX escape''))"

definition simple_escape :: "char \<Rightarrow> char option" where
  "simple_escape c =
     (if c = CHR 0x22 \<or> c = CHR 0x5C \<or> c = CHR ''/'' then Some c
      else if c = CHR ''b'' then Some (CHR 0x08)
      else if c = CHR ''f'' then Some (CHR 0x0C)
      else if c = CHR ''n'' then Some (CHR 0x0A)
      else if c = CHR ''r'' then Some (CHR 0x0D)
      else if c = CHR ''t'' then Some (CHR 0x09)
      else None)"

text \<open>The characters after the opening quote, and what follows the closing one.\<close>

fun p_chars :: "string \<Rightarrow> string + string \<times> string" where
  "p_chars [] = Inl ''Unterminated string starting at''"
| "p_chars (c # cs) =
     (if c = CHR 0x22 then Inr ([], cs)
      else if c = CHR 0x5C
      then (case cs of
              [] \<Rightarrow> Inl ''Unterminated string starting at''
            | e # ds \<Rightarrow>
                if e = CHR ''u''
                then (case p_hex4 (take 4 ds) of
                        Inl m \<Rightarrow> Inl m
                      | Inr x \<Rightarrow> map_sum id (apfst (Cons x)) (p_chars (drop 4 ds)))
                else (case simple_escape e of
                        None \<Rightarrow> Inl (''Invalid '' @ [CHR 0x5C] @ ''escape'')
                      | Some x \<Rightarrow> map_sum id (apfst (Cons x)) (p_chars ds)))
      else if c < CHR '' '' then Inl ''Invalid control character at''
      else map_sum id (apfst (Cons c)) (p_chars cs))"

section \<open>Values\<close>

definition json_space :: "char \<Rightarrow> bool" where
  "json_space c \<longleftrightarrow> c \<in> {CHR '' '', CHR 0x09, CHR 0x0A, CHR 0x0D}"

abbreviation skip_ws :: "string \<Rightarrow> string" where
  "skip_ws s \<equiv> dropWhile json_space s"

datatype json_error = OutOfFuel | Msg string

definition p_atom :: "string \<Rightarrow> json_error + json \<times> string" where
  "p_atom s =
     (if str_startswith s ''null'' then Inr (JNull, drop 4 s)
      else if str_startswith s ''true'' then Inr (JBool True, drop 4 s)
      else if str_startswith s ''false'' then Inr (JBool False, drop 5 s)
      else if str_startswith s ''NaN'' then Inr (JFloat NaN, drop 3 s)
      else if str_startswith s ''Infinity'' then Inr (JFloat PInf, drop 8 s)
      else if str_startswith s ''-Infinity'' then Inr (JFloat NInf, drop 9 s)
      else case p_number s of None \<Rightarrow> Inl (Msg ''Expecting value'') | Some r \<Rightarrow> Inr r)"

fun p_value :: "nat \<Rightarrow> string \<Rightarrow> json_error + json \<times> string"
  and p_items :: "nat \<Rightarrow> string \<Rightarrow> json_error + json list \<times> string"
  and p_members :: "nat \<Rightarrow> (string, json) dict \<Rightarrow> string \<Rightarrow> json_error + (string, json) dict \<times> string" where
  "p_value 0 s = Inl OutOfFuel"
| "p_value (Suc n) s =
     (case s of
        [] \<Rightarrow> Inl (Msg ''Expecting value'')
      | c # cs \<Rightarrow>
          if c = CHR 0x22
          then (case p_chars cs of Inl m \<Rightarrow> Inl (Msg m) | Inr (x, r) \<Rightarrow> Inr (JStr x, r))
          else if c = CHR 0x5B
          then (if str_startswith (skip_ws cs) [CHR 0x5D] then Inr (JArr [], tl (skip_ws cs))
                else (case p_items n (skip_ws cs) of Inl e \<Rightarrow> Inl e | Inr (xs, r) \<Rightarrow> Inr (JArr xs, r)))
          else if c = CHR 0x7B
          then (if str_startswith (skip_ws cs) [CHR 0x7D] then Inr (JObj [], tl (skip_ws cs))
                else (case p_members n [] (skip_ws cs) of Inl e \<Rightarrow> Inl e | Inr (kvs, r) \<Rightarrow> Inr (JObj kvs, r)))
          else p_atom s)"
| "p_items 0 s = Inl OutOfFuel"
| "p_items (Suc n) s =
     (case p_value n s of
        Inl e \<Rightarrow> Inl e
      | Inr (v, r) \<Rightarrow>
          (case skip_ws r of
             [] \<Rightarrow> Inl (Msg ''Expecting ',' delimiter'')
           | c # cs \<Rightarrow>
               if c = CHR 0x5D then Inr ([v], cs)
               else if c = CHR '',''
               then (case p_items n (skip_ws cs) of Inl e \<Rightarrow> Inl e | Inr (vs, r') \<Rightarrow> Inr (v # vs, r'))
               else Inl (Msg ''Expecting ',' delimiter'')))"
| "p_members 0 kvs s = Inl OutOfFuel"
| "p_members (Suc n) kvs s =
     (case s of
        [] \<Rightarrow> Inl (Msg ''Expecting property name enclosed in double quotes'')
      | q # cs \<Rightarrow>
          if q \<noteq> CHR 0x22 then Inl (Msg ''Expecting property name enclosed in double quotes'')
          else (case p_chars cs of
                  Inl m \<Rightarrow> Inl (Msg m)
                | Inr (k, r) \<Rightarrow>
                    (case skip_ws r of
                       [] \<Rightarrow> Inl (Msg ''Expecting ':' delimiter'')
                     | d # ds \<Rightarrow>
                         if d \<noteq> CHR '':'' then Inl (Msg ''Expecting ':' delimiter'')
                         else (case p_value n (skip_ws ds) of
                                 Inl e \<Rightarrow> Inl e
                               | Inr (v, r1) \<Rightarrow>
                                   (case skip_ws r1 of
                                      [] \<Rightarrow> Inl (Msg ''Expecting ',' delimiter'')
                                    | c # es \<Rightarrow>
                                        if c = CHR 0x7D then Inr (dset k v kvs, es)
                                        else if c = CHR '','' then p_members n (dset k v kvs) (skip_ws es)
                                        else Inl (Msg ''Expecting ',' delimiter''))))))"

text \<open>\<open>json.loads\<close>: one value, and nothing but space after it.\<close>

definition loads :: "string \<Rightarrow> json_error + json" where
  "loads s =
     (case p_value (Suc (2 * length s)) (skip_ws s) of
        Inl e \<Rightarrow> Inl e
      | Inr (v, r) \<Rightarrow> if skip_ws r = [] then Inr v else Inl (Msg ''Extra data''))"

section \<open>Reading a printed string\<close>

lemma hex_value_digit: "n < 16 \<Longrightarrow> hex_value (hex_digit n) = Some n"
  by (cases "n < 10") (simp_all add: hex_value_def hex_digit_def is_digit_def less_eq_char_def Let_def)

lemma p_hex4_hex2: "p_hex4 (''00'' @ hex2 c) = Inr c"
proof -
  have "hex_value (CHR ''0'') = Some 0" by code_simp
  moreover have "(of_char c :: nat) div 16 < 16" "(of_char c :: nat) mod 16 < 16"
    using nat_of_char_less_256 [of c] by (simp_all add: less_mult_imp_div_less)
  ultimately show ?thesis by (simp add: p_hex4_def hex2_def Let_def hex_value_digit)
qed

lemma json_escape_char_hex:
  "c \<notin> {CHR 0x22, CHR 0x5C, CHR 0x0A, CHR 0x0D, CHR 0x09, CHR 0x0C, CHR 0x08} \<Longrightarrow> \<not> CHR '' '' \<le> c \<Longrightarrow>
   json_escape_char c = CHR 0x5C # ''u00'' @ hex2 c"
  by (simp add: json_escape_char_def)

lemma p_chars_short:
  "simple_escape e = Some x \<Longrightarrow> e \<noteq> CHR ''u'' \<Longrightarrow> p_chars (CHR 0x5C # e # t) = map_sum id (apfst (Cons x)) (p_chars t)"
  by simp

lemma p_chars_hex: "p_chars (CHR 0x5C # ''u00'' @ hex2 c @ t) = map_sum id (apfst (Cons c)) (p_chars t)"
proof -
  have "length (hex2 c) = 2" by (simp add: hex2_def Let_def)
  then have "take 4 (''00'' @ hex2 c @ t) = ''00'' @ hex2 c" "drop 4 (''00'' @ hex2 c @ t) = t" by simp_all
  with p_hex4_hex2 [of c] show ?thesis by simp
qed

lemma p_chars_escape: "p_chars (raw_escape_char c @ t) = map_sum id (apfst (Cons c)) (p_chars t)"
proof (cases "CHR '' '' \<le> c \<and> c \<noteq> CHR 0x22 \<and> c \<noteq> CHR 0x5C")
  case True
  then show ?thesis by (simp add: raw_escape_char_def not_less [symmetric])
next
  case False
  then have r: "raw_escape_char c = json_escape_char c" by (simp only: raw_escape_char_def if_False)
  show ?thesis
  proof (cases "c \<in> {CHR 0x22, CHR 0x5C, CHR 0x0A, CHR 0x0D, CHR 0x09, CHR 0x0C, CHR 0x08}")
    case True
    have "\<exists>e. json_escape_char c = [CHR 0x5C, e] \<and> simple_escape e = Some c \<and> e \<noteq> CHR ''u''"
    proof -
      have "list_all (\<lambda>c. case json_escape_char c of [b, e] \<Rightarrow> b = CHR 0x5C \<and> simple_escape e = Some c \<and> e \<noteq> CHR ''u'' | _ \<Rightarrow> False)
        [CHR 0x22, CHR 0x5C, CHR 0x0A, CHR 0x0D, CHR 0x09, CHR 0x0C, CHR 0x08]" by code_simp
      moreover have "c \<in> set [CHR 0x22, CHR 0x5C, CHR 0x0A, CHR 0x0D, CHR 0x09, CHR 0x0C, CHR 0x08]"
        using True by (simp only: list.set)
      ultimately have "case json_escape_char c of [b, e] \<Rightarrow> b = CHR 0x5C \<and> simple_escape e = Some c \<and> e \<noteq> CHR ''u'' | _ \<Rightarrow> False"
        unfolding list_all_iff by (rule bspec)
      then show ?thesis by (auto split: list.splits)
    qed
    then obtain e where "json_escape_char c = [CHR 0x5C, e]" "simple_escape e = Some c" "e \<noteq> CHR ''u''" by blast
    with p_chars_short [of e c t] r show ?thesis by (simp del: p_chars.simps)
  next
    case special: False
    then have "\<not> CHR '' '' \<le> c" using False by blast
    with json_escape_char_hex [OF special] p_chars_hex [of c t] r show ?thesis by (simp del: p_chars.simps)
  qed
qed

lemma p_chars_raw: "p_chars (concat (map raw_escape_char s) @ CHR 0x22 # t) = Inr (s, t)"
  by (induction s) (simp_all add: p_chars_escape)

section \<open>Reading a printed number\<close>

lemma str_nat_digits: "list_all is_digit (str_nat n)"
proof (induction n rule: str_nat.induct)
  case (1 n)
  have d: "is_digit (char_of (48 + k))" if "k < 10" for k :: nat
  proof -
    have "list_all (\<lambda>k. is_digit (char_of (48 + k))) [0..<10::nat]" by code_simp
    with that show ?thesis by (simp add: list_all_iff)
  qed
  show ?case
  proof (cases "n < 10")
    case True
    then show ?thesis by (subst str_nat.simps) (simp add: d)
  next
    case False
    with 1 d [of "n mod 10"] show ?thesis by (subst str_nat.simps) simp
  qed
qed

lemma digit_value_char: "k < 10 \<Longrightarrow> digit_value (char_of (48 + k)) = k"
  by (simp add: digit_value_def)

lemma nat_of_digits_str_nat: "nat_of_digits (str_nat n) = n"
proof (induction n rule: str_nat.induct)
  case (1 n)
  show ?case
  proof (cases "n < 10")
    case True
    then show ?thesis by (subst str_nat.simps) (simp add: nat_of_digits_def digit_value_char)
  next
    case False
    with 1 show ?thesis by (subst str_nat.simps) (simp add: nat_of_digits_def digit_value_char)
  qed
qed

lemma str_nat_nonempty [simp]: "str_nat n \<noteq> []"
  by (subst str_nat.simps) simp

lemma str_nat_first: "0 < n \<Longrightarrow> hd (str_nat n) \<noteq> CHR ''0''"
proof (induction n rule: str_nat.induct)
  case (1 n)
  show ?case
  proof (cases "n < 10")
    case True
    have "list_all (\<lambda>k. char_of (48 + k) \<noteq> CHR ''0'') [1..<10::nat]" by code_simp
    then have "char_of (48 + n) \<noteq> CHR ''0''" using 1(2) True unfolding list_all_iff by simp
    then show ?thesis using True by (subst str_nat.simps) simp
  next
    case False
    with 1 show ?thesis by (subst str_nat.simps) (simp add: hd_append)
  qed
qed

text \<open>What may follow a value in printed text.\<close>

definition ends_value :: "string \<Rightarrow> bool" where
  "ends_value r \<longleftrightarrow> r = [] \<or> hd r \<in> {CHR '','', CHR 0x5D, CHR 0x7D}"

lemma ends_value_cases: "ends_value r \<Longrightarrow> r = [] \<or> (\<exists>c s. r = c # s \<and> c \<in> {CHR '','', CHR 0x5D, CHR 0x7D})"
  by (cases r) (auto simp: ends_value_def)

lemma take_digits: "ends_value r \<Longrightarrow> takeWhile is_digit (s @ r) = takeWhile is_digit s"
  by (induction s) (auto dest: ends_value_cases simp: is_digit_def)

lemma drop_digits: "ends_value r \<Longrightarrow> dropWhile is_digit (s @ r) = dropWhile is_digit s @ r"
  by (induction s) (auto dest: ends_value_cases simp: is_digit_def)

lemma p_fraction_append:
  "p_fraction s = (fs, s') \<Longrightarrow> ends_value r \<Longrightarrow> p_fraction (s @ r) = (fs, s' @ r)"
  by (auto simp: p_fraction_def Let_def take_digits drop_digits ends_value_def split: list.splits char.splits bool.splits if_splits)

lemma p_exponent_append:
  assumes "p_exponent s = (e, s')" and "ends_value r"
  shows "p_exponent (s @ r) = (e, s' @ r)"
proof (cases s)
  case Nil
  with assms show ?thesis by (auto simp: p_exponent_def dest!: ends_value_cases)
next
  case (Cons c cs)
  have sw: "str_startswith (cs @ r) [k] = str_startswith cs [k]" if "k = CHR ''-'' \<or> k = CHR ''+''" for k
    using ends_value_cases [OF assms(2)] that by (cases cs) auto
  have tl: "tl (cs @ r) = tl cs @ r" if "str_startswith cs [k]" for k using that by (cases cs) simp_all
  show ?thesis using assms(1) Cons
    by (auto simp: p_exponent_def Let_def sw tl take_digits [OF assms(2)] drop_digits [OF assms(2)] split: if_splits)
qed

lemma p_int_digits_append:
  "p_int_digits s = Some (ds, s') \<Longrightarrow> ends_value r \<Longrightarrow> p_int_digits (s @ r) = Some (ds, s' @ r)"
  by (auto simp: p_int_digits_def take_digits drop_digits split: list.splits if_splits)

lemma p_number_append:
  assumes "p_number s = Some (v, s')" and r: "ends_value r"
  shows "p_number (s @ r) = Some (v, s' @ r)"
proof -
  let ?neg = "str_startswith s ''-''"
  let ?s = "if ?neg then tl s else s"
  from assms(1) obtain ds r0 where d: "p_int_digits ?s = Some (ds, r0)"
    by (auto simp: p_number_def Let_def split: option.splits)
  obtain fs r1 where f: "p_fraction r0 = (fs, r1)" by fastforce
  obtain e r2 where x: "p_exponent r1 = (e, r2)" by fastforce
  have "s \<noteq> []" using d by (auto simp: p_int_digits_def)
  then have "str_startswith (s @ r) ''-'' = ?neg" "(if ?neg then tl (s @ r) else s @ r) = ?s @ r" by (cases s; simp)+
  with assms(1) d f x p_int_digits_append [OF d r] p_fraction_append [OF f r] p_exponent_append [OF x r]
  show ?thesis by (auto simp: p_number_def Let_def)
qed

lemma p_number_int: "p_number (str_int i) = Some (JInt i, [])"
proof -
  have all: "takeWhile is_digit (str_nat n) = str_nat n" "dropWhile is_digit (str_nat n) = []" for n
    using str_nat_digits [of n] by (simp_all add: list_all_iff)
  have p: "p_int_digits (str_nat n) = Some (str_nat n, [])" for n
  proof (cases "0 < n")
    case True
    obtain c cs where c: "str_nat n = c # cs" by (cases "str_nat n") auto
    have "c \<noteq> CHR ''0''" "is_digit c" "list_all is_digit cs"
      using str_nat_first [OF True] str_nat_digits [of n] c by auto
    then show ?thesis by (simp add: p_int_digits_def c list_all_iff)
  next
    case False
    moreover have "char_of (48 :: nat) = CHR ''0''" by code_simp
    ultimately have "str_nat n = [CHR ''0'']" by (subst str_nat.simps) simp
    then show ?thesis by (simp add: p_int_digits_def)
  qed
  have minus: "\<not> str_startswith (str_nat n) ''-''" for n
    using str_nat_digits [of n] by (cases "str_nat n") (auto simp: is_digit_def)
  have "p_fraction [] = ([], [])" "p_exponent [] = (None, [])" by (simp_all add: p_fraction_def p_exponent_def)
  then show ?thesis
    by (auto simp: p_number_def str_int_def p minus nat_of_digits_str_nat signed_def Let_def)
qed

section \<open>Reading a printed value\<close>

text \<open>
  What can be read back: the keys of every object are distinct, and every finite float is printed
  as a literal of that value.
\<close>

fun json_ok :: "(real \<Rightarrow> string) \<Rightarrow> json \<Rightarrow> bool" where
  "json_ok fr (JFloat (Fin x)) = (p_number (fr x) = Some (JFloat (Fin x), []))"
| "json_ok fr (JArr xs) = list_all (json_ok fr) xs"
| "json_ok fr (JObj kvs) = (distinct (map fst kvs) \<and> list_all (\<lambda>(k, v). json_ok fr v) kvs)"
| "json_ok fr v = True"

text \<open>A number starts with a digit, or with a minus sign before one.\<close>

lemma p_number_starts:
  assumes "p_number s = Some x"
  shows "\<exists>c cs. s = c # cs \<and> (is_digit c \<or> c = CHR ''-'' \<and> (\<exists>d ds. cs = d # ds \<and> is_digit d))"
proof -
  have d: "\<exists>c cs. t = c # cs \<and> is_digit c" if "p_int_digits t = Some y" for t y
    using that by (auto simp: p_int_digits_def is_digit_def split: list.splits if_splits)
  show ?thesis
  proof (cases "str_startswith s ''-''")
    case True
    then obtain cs where s: "s = CHR ''-'' # cs" by (cases s) auto
    with assms True obtain y where "p_int_digits cs = Some y" by (auto simp: p_number_def Let_def split: option.splits)
    from d [OF this] s show ?thesis by auto
  next
    case False
    with assms obtain y where "p_int_digits s = Some y" by (auto simp: p_number_def Let_def split: option.splits)
    from d [OF this] show ?thesis by auto
  qed
qed

lemma is_digit_not: "is_digit c \<Longrightarrow> c \<notin> {CHR ''n'', CHR ''t'', CHR ''f'', CHR ''N'', CHR ''I'', CHR ''-'', CHR 0x22, CHR 0x5B, CHR 0x7B,
    CHR '' '', CHR 0x09, CHR 0x0A, CHR 0x0D, CHR 0x5D, CHR 0x7D}"
  by (auto simp: is_digit_def)

lemma p_atom_number:
  assumes "p_number s = Some x" shows "p_atom s = Inr x"
proof -
  from p_number_starts [OF assms] obtain c cs where s: "s = c # cs"
    and c: "is_digit c \<or> c = CHR ''-'' \<and> (\<exists>d ds. cs = d # ds \<and> is_digit d)" by blast
  then have "\<not> str_startswith s ''null''" "\<not> str_startswith s ''true''" "\<not> str_startswith s ''false''"
    "\<not> str_startswith s ''NaN''" "\<not> str_startswith s ''Infinity''" "\<not> str_startswith s ''-Infinity''"
    using is_digit_not by auto
  with assms show ?thesis by (simp add: p_atom_def)
qed

lemma p_value_atom:
  assumes "p_atom s = Inr x" and "s = c # cs" and "c \<notin> {CHR 0x22, CHR 0x5B, CHR 0x7B}"
  shows "p_value (Suc n) s = Inr x"
  using assms by simp

lemma p_value_number:
  assumes "p_number s = Some (v, [])" and "ends_value r"
  shows "p_value (Suc n) (s @ r) = Inr (v, r)"
proof -
  have num: "p_number (s @ r) = Some (v, r)" using p_number_append [OF assms] by simp
  from p_number_starts [OF num] obtain c cs where s: "s @ r = c # cs"
    and c: "is_digit c \<or> c = CHR ''-''" by blast
  have "c \<notin> {CHR 0x22, CHR 0x5B, CHR 0x7B}" using c is_digit_not [of c] by (elim disjE) simp_all
  from p_value_atom [OF p_atom_number [OF num] s this] show ?thesis .
qed

text \<open>No printed value starts with a space or a closing bracket.\<close>

definition starts_value :: "string \<Rightarrow> bool" where
  "starts_value s \<longleftrightarrow> (\<exists>c cs. s = c # cs \<and> \<not> json_space c \<and> c \<noteq> CHR 0x5D \<and> c \<noteq> CHR 0x7D)"

lemma starts_value_append: "starts_value s \<Longrightarrow> starts_value (s @ t)"
  by (auto simp: starts_value_def)

lemma starts_value_skip: "starts_value s \<Longrightarrow> skip_ws s = s"
  by (auto simp: starts_value_def)

lemma number_starts:
  assumes "p_number s = Some x" shows "starts_value s"
proof -
  from p_number_starts [OF assms] obtain c cs where s: "s = c # cs" and c: "is_digit c \<or> c = CHR ''-''" by blast
  have "c \<notin> {CHR '' '', CHR 0x09, CHR 0x0A, CHR 0x0D, CHR 0x5D, CHR 0x7D}" using c is_digit_not [of c] by (elim disjE) simp_all
  with s show ?thesis by (simp add: starts_value_def json_space_def)
qed

lemma dump_starts: "json_ok fr j \<Longrightarrow> starts_value (dump_line fr j)"
proof (cases j)
  case (JFloat f)
  assume "json_ok fr j"
  with JFloat show ?thesis by (cases f) (simp_all add: number_starts, simp_all add: starts_value_def json_space_def)
qed (simp_all add: number_starts [OF p_number_int], simp_all add: starts_value_def json_space_def raw_string_def)

lemma skip_space: "starts_value s \<Longrightarrow> skip_ws (CHR '' '' # s) = s"
  by (simp add: json_space_def starts_value_skip)

lemma ends_skip: "ends_value (c # s) \<Longrightarrow> skip_ws (c # s) = c # s"
  by (auto simp: ends_value_def json_space_def)

text \<open>What is to be shown of a value, for some fuel.\<close>

definition reads_back :: "(real \<Rightarrow> string) \<Rightarrow> json \<Rightarrow> bool" where
  "reads_back fr j \<longleftrightarrow> (\<forall>n r. length (dump_line fr j) < n \<longrightarrow> ends_value r \<longrightarrow>
     p_value n (dump_line fr j @ r) = Inr (j, r))"

lemma reads_backD:
  "reads_back fr j \<Longrightarrow> length (dump_line fr j) < n \<Longrightarrow> ends_value r \<Longrightarrow> p_value n (dump_line fr j @ r) = Inr (j, r)"
  by (simp add: reads_back_def)

lemma p_items_dump:
  assumes "xs \<noteq> []" and "\<forall>x \<in> set xs. reads_back fr x \<and> json_ok fr x"
    and "length (str_join '', '' (map (dump_line fr) xs)) + 1 < n"
  shows "p_items n (str_join '', '' (map (dump_line fr) xs) @ CHR 0x5D # r) = Inr (xs, r)"
  using assms
proof (induction xs arbitrary: n)
  case (Cons x xs)
  obtain k where n: "n = Suc k" using Cons.prems(3) by (cases n) auto
  have x: "reads_back fr x" "json_ok fr x" using Cons.prems(2) by simp_all
  show ?case
  proof (cases xs)
    case Nil
    have e: "ends_value (CHR 0x5D # r)" by (simp add: ends_value_def)
    have "length (dump_line fr x) < k" using Cons.prems(3) Nil n by simp
    from reads_backD [OF x(1) this e] Nil n ends_skip [OF e] show ?thesis by simp
  next
    case (Cons y ys)
    let ?tail = "str_join '', '' (map (dump_line fr) xs) @ CHR 0x5D # r"
    have e: "ends_value (CHR '','' # CHR '' '' # ?tail)" by (simp add: ends_value_def)
    have len: "length (dump_line fr x) < k" "length (str_join '', '' (map (dump_line fr) xs)) + 1 < k"
      using Cons.prems(3) Cons n by simp_all
    have "starts_value ?tail"
      using dump_starts [of fr y] Cons.prems(2) Cons
      by (cases ys) (auto intro!: starts_value_append)
    then have sk: "skip_ws (CHR '' '' # ?tail) = ?tail" by (rule skip_space)
    have IH: "p_items k ?tail = Inr (xs, r)"
      by (rule Cons.IH) (use Cons Cons.prems(2) len(2) in auto)
    have t: "str_join '', '' (map (dump_line fr) (x # xs)) @ CHR 0x5D # r
        = dump_line fr x @ CHR '','' # CHR '' '' # ?tail" using Cons by simp
    show ?thesis unfolding t n using reads_backD [OF x(1) len(1) e] ends_skip [OF e] sk IH by simp
  qed
qed simp

abbreviation member_text :: "(real \<Rightarrow> string) \<Rightarrow> string \<times> json \<Rightarrow> string" where
  "member_text fr kv \<equiv> raw_string (fst kv) @ '': '' @ dump_line fr (snd kv)"

lemma dset_fresh: "k \<notin> set (dkeys d) \<Longrightarrow> dset k v d = d @ [(k, v)]"
  by (induction d) auto

lemma p_members_dump:
  assumes "kvs \<noteq> []" and "\<forall>(k, v) \<in> set kvs. reads_back fr v \<and> json_ok fr v"
    and "distinct (dkeys (acc @ kvs))"
    and "length (str_join '', '' (map (member_text fr) kvs)) + 1 < n"
  shows "p_members n acc (str_join '', '' (map (member_text fr) kvs) @ CHR 0x7D # r) = Inr (acc @ kvs, r)"
  using assms
proof (induction kvs arbitrary: n acc)
  case (Cons kv kvs)
  obtain k v where kv: "kv = (k, v)" by (cases kv)
  obtain m where n: "n = Suc m" using Cons.prems(4) by (cases n) auto
  have v: "reads_back fr v" "json_ok fr v" using Cons.prems(2) kv by auto
  have fresh: "dset k v acc = acc @ [kv]" using Cons.prems(3) kv by (intro dset_fresh [of k acc v, unfolded kv [symmetric]]) auto
  have colon: "skip_ws ('': '' @ dump_line fr v @ u) = CHR '':'' # CHR '' '' # dump_line fr v @ u" for u
    by (simp add: json_space_def)
  have val: "skip_ws (CHR '' '' # dump_line fr v @ u) = dump_line fr v @ u" for u
    by (rule skip_space) (rule starts_value_append [OF dump_starts [OF v(2)]])
  have one: "p_members n acc (member_text fr kv @ c # u) =
      (if c = CHR 0x7D then Inr (acc @ [kv], u) else p_members m (acc @ [kv]) (skip_ws u))"
    if c: "c = CHR 0x7D \<or> c = CHR '',''" and len: "length (dump_line fr v) < m" for c u
  proof -
    have e: "ends_value (c # u)" using c by (auto simp: ends_value_def)
    have chars: "p_chars (concat (map raw_escape_char k) @ CHR 0x22 # '': '' @ dump_line fr v @ c # u)
        = Inr (k, '': '' @ dump_line fr v @ c # u)" by (rule p_chars_raw)
    have "member_text fr kv @ c # u
        = CHR 0x22 # concat (map raw_escape_char k) @ CHR 0x22 # '': '' @ dump_line fr v @ c # u"
      by (simp add: kv raw_string_def)
    then show ?thesis
      using reads_backD [OF v(1) len e] ends_skip [OF e] c
      by (simp only: n p_members.simps list.case chars colon val sum.case prod.case if_False if_True fresh)
        (auto simp: fresh)
  qed
  show ?case
  proof (cases kvs)
    case Nil
    have "length (dump_line fr v) < m" using Cons.prems(4) Nil n kv by simp
    from one [OF _ this, of "CHR 0x7D" r] Nil show ?thesis by simp
  next
    case more: (Cons kv' kvs')
    let ?tail = "str_join '', '' (map (member_text fr) kvs) @ CHR 0x7D # r"
    have len: "length (dump_line fr v) < m" "length (str_join '', '' (map (member_text fr) kvs)) + 1 < m"
      using Cons.prems(4) more n kv by simp_all
    have "starts_value ?tail" using more
      by (cases kvs') (simp_all add: starts_value_def raw_string_def json_space_def)
    then have sk: "skip_ws (CHR '' '' # ?tail) = ?tail" by (rule skip_space)
    have IH: "p_members m (acc @ [kv]) ?tail = Inr ((acc @ [kv]) @ kvs, r)"
      by (rule Cons.IH) (use more Cons.prems(2,3) len(2) in auto)
    have t: "str_join '', '' (map (member_text fr) (kv # kvs)) @ CHR 0x7D # r
        = member_text fr kv @ CHR '','' # CHR '' '' # ?tail" using more by simp
    show ?thesis unfolding t using one [OF _ len(1), of "CHR '',''" "CHR '' '' # ?tail"] sk IH by simp
  qed
qed simp

text \<open>An object is read up to its closing brace, whatever follows.\<close>

lemma p_value_members:
  assumes "\<forall>(k, v) \<in> set kvs. reads_back fr v \<and> json_ok fr v" and "distinct (dkeys kvs)"
    and "length (dump_line fr (JObj kvs)) < n"
  shows "p_value n (dump_line fr (JObj kvs) @ r) = Inr (JObj kvs, r)"
proof -
  obtain k where n: "n = Suc k" using assms(3) by (cases n) auto
  have mt: "(\<lambda>(k, v). raw_string k @ '': '' @ dump_line fr v) = member_text fr" by auto
  show ?thesis
  proof (cases kvs)
    case Nil
    then show ?thesis by (simp add: n json_space_def)
  next
    case (Cons y ys)
    let ?t = "str_join '', '' (map (member_text fr) kvs) @ CHR 0x7D # r"
    have "starts_value ?t" using Cons
      by (cases ys) (simp_all add: starts_value_def raw_string_def json_space_def)
    then have "skip_ws ?t = ?t" "\<not> str_startswith ?t [CHR 0x7D]"
      by (simp_all add: starts_value_skip) (auto simp: starts_value_def)
    moreover have "p_members k [] ?t = Inr ([] @ kvs, r)"
      by (rule p_members_dump) (use Cons assms n mt in auto)
    moreover have "dump_line fr (JObj kvs) @ r = CHR 0x7B # ?t" by (simp only: dump_line.simps mt) simp
    ultimately show ?thesis by (simp only: n p_value.simps list.case if_True if_False sum.case prod.case) simp
  qed
qed

lemma dump_reads_back: "json_ok fr j \<Longrightarrow> reads_back fr j"
proof (induction j)
  case JNull
  show ?case unfolding reads_back_def
  proof (intro allI impI)
    fix n r assume "length (dump_line fr JNull) < n"
    then obtain k where "n = Suc k" by (cases n) auto
    then show "p_value n (dump_line fr JNull @ r) = Inr (JNull, r)" by (simp add: p_atom_def)
  qed
next
  case (JBool b)
  show ?case unfolding reads_back_def
  proof (intro allI impI)
    fix n r assume "length (dump_line fr (JBool b)) < n"
    then obtain k where "n = Suc k" by (cases n) auto
    then show "p_value n (dump_line fr (JBool b) @ r) = Inr (JBool b, r)" by (cases b) (simp_all add: p_atom_def)
  qed
next
  case (JInt i)
  show ?case unfolding reads_back_def
  proof (intro allI impI)
    fix n r assume "length (dump_line fr (JInt i)) < n" and r: "ends_value r"
    then obtain k where "n = Suc k" by (cases n) auto
    then show "p_value n (dump_line fr (JInt i) @ r) = Inr (JInt i, r)"
      using p_value_number [OF p_number_int r] by simp
  qed
next
  case (JFloat f)
  show ?case unfolding reads_back_def
  proof (intro allI impI)
    fix n r assume "length (dump_line fr (JFloat f)) < n" and r: "ends_value r"
    then obtain k where n: "n = Suc k" by (cases n) auto
    show "p_value n (dump_line fr (JFloat f) @ r) = Inr (JFloat f, r)"
    proof (cases f)
      case (Fin x)
      with JFloat have "p_number (fr x) = Some (JFloat (Fin x), [])" by simp
      from p_value_number [OF this r] Fin n show ?thesis by simp
    qed (simp_all add: n p_atom_def)
  qed
next
  case (JStr s)
  show ?case unfolding reads_back_def
  proof (intro allI impI)
    fix n r assume "length (dump_line fr (JStr s)) < n"
    then obtain k where "n = Suc k" by (cases n) auto
    then show "p_value n (dump_line fr (JStr s) @ r) = Inr (JStr s, r)"
      by (simp add: raw_string_def p_chars_raw)
  qed
next
  case (JArr xs)
  show ?case unfolding reads_back_def
  proof (intro allI impI)
    fix n r assume len: "length (dump_line fr (JArr xs)) < n"
    then obtain k where n: "n = Suc k" by (cases n) auto
    show "p_value n (dump_line fr (JArr xs) @ r) = Inr (JArr xs, r)"
    proof (cases xs)
      case Nil
      then show ?thesis by (simp add: n json_space_def)
    next
      case (Cons y ys)
      let ?t = "str_join '', '' (map (dump_line fr) xs) @ CHR 0x5D # r"
      have all: "\<forall>x \<in> set xs. reads_back fr x \<and> json_ok fr x" using JArr by (auto simp: list_all_iff)
      have "starts_value ?t" using dump_starts [of fr y] all Cons by (cases ys) (auto intro!: starts_value_append)
      then have "skip_ws ?t = ?t" "\<not> str_startswith ?t [CHR 0x5D]"
        by (simp_all add: starts_value_skip) (auto simp: starts_value_def)
      moreover have "p_items k ?t = Inr (xs, r)" by (rule p_items_dump) (use Cons all len n in auto)
      moreover have "dump_line fr (JArr xs) @ r = CHR 0x5B # ?t" by simp
      ultimately show ?thesis by (simp only: n p_value.simps list.case if_True if_False sum.case prod.case) simp
    qed
  qed
next
  case (JObj kvs)
  have "\<forall>(k, v) \<in> set kvs. reads_back fr v \<and> json_ok fr v" using JObj by (fastforce simp: list_all_iff)
  with p_value_members JObj.prems show ?case by (simp only: reads_back_def json_ok.simps) blast
qed

text \<open>Printing and reading back.\<close>

lemma loads_dump:
  assumes "json_ok fr j" shows "loads (dump_line fr j) = Inr j"
proof -
  have "skip_ws (dump_line fr j) = dump_line fr j" by (rule starts_value_skip) (rule dump_starts [OF assms])
  with reads_backD [OF dump_reads_back [OF assms], of "Suc (2 * length (dump_line fr j))" "[]"]
  show ?thesis by (simp add: loads_def ends_value_def)
qed

section \<open>The fuel is enough\<close>

lemma p_chars_shorter: "p_chars s = Inr (x, r) \<Longrightarrow> length r < length s"
proof (induction s arbitrary: x r rule: p_chars.induct)
  case (2 c cs)
  show ?case
  proof (cases "c = CHR 0x22")
    case True
    with 2(4) show ?thesis by simp
  next
    case nq: False
    show ?thesis
    proof (cases "c = CHR 0x5C")
      case True
      with nq 2(4) obtain e ds where cs: "cs = e # ds" by (cases cs) auto
      show ?thesis
      proof (cases "e = CHR ''u''")
        case u: True
        with nq True 2(4) cs obtain y where y: "p_hex4 (take 4 ds) = Inr y" by (cases "p_hex4 (take 4 ds)") auto
        with nq True u 2(4) cs obtain x' where "p_chars (drop 4 ds) = Inr (x', r)" by (auto simp: map_sum_Inr)
        from 2(1) [OF nq True cs u y this] cs show ?thesis by simp
      next
        case u: False
        with nq True 2(4) cs obtain y where y: "simple_escape e = Some y" by (cases "simple_escape e") auto
        with nq True u 2(4) cs obtain x' where "p_chars ds = Inr (x', r)" by (auto simp: map_sum_Inr)
        from 2(2) [OF nq True cs u y this] cs show ?thesis by simp
      qed
    next
      case False
      with nq 2(4) have lt: "\<not> c < CHR '' ''" by (auto split: if_splits)
      with nq False 2(4) obtain x' where "p_chars cs = Inr (x', r)" by (auto simp: map_sum_Inr)
      from 2(3) [OF nq False lt this] show ?thesis by simp
    qed
  qed
qed simp

lemma p_fraction_le: "p_fraction s = (x, r) \<Longrightarrow> length r \<le> length s"
  using length_dropWhile_le [of is_digit "tl s"]
  by (cases s) (auto simp: p_fraction_def Let_def split: if_splits char.splits bool.splits)

lemma p_exponent_le: "p_exponent s = (x, r) \<Longrightarrow> length r \<le> length s"
proof (cases s)
  case (Cons c cs)
  assume "p_exponent s = (x, r)"
  then show ?thesis
    using length_dropWhile_le [of is_digit cs] length_dropWhile_le [of is_digit "tl cs"] Cons
    by (auto simp: p_exponent_def Let_def split: if_splits)
qed (simp add: p_exponent_def)

lemma p_int_digits_shorter: "p_int_digits s = Some (x, r) \<Longrightarrow> length r < length s"
  by (auto simp: p_int_digits_def length_dropWhile_le le_imp_less_Suc split: list.splits if_splits)

lemma p_number_shorter:
  assumes "p_number s = Some (v, r)" shows "length r < length s"
proof -
  let ?s = "if str_startswith s ''-'' then tl s else s"
  from assms obtain ds r0 where d: "p_int_digits ?s = Some (ds, r0)" by (auto simp: p_number_def Let_def split: option.splits)
  obtain fs r1 where f: "p_fraction r0 = (fs, r1)" by fastforce
  obtain e r2 where x: "p_exponent r1 = (e, r2)" by fastforce
  have "r = r2" using assms d f x by (auto simp: p_number_def Let_def split: if_splits)
  moreover have "length ?s \<le> length s" by simp
  then have "length r2 < length s"
    using p_int_digits_shorter [OF d] p_fraction_le [OF f] p_exponent_le [OF x] by linarith
  ultimately show ?thesis by simp
qed

lemma p_atom_shorter: "p_atom s = Inr (v, r) \<Longrightarrow> length r < length s"
  by (auto simp: p_atom_def str_startswith_iff dest: p_number_shorter split: if_splits option.splits)

lemma p_atom_fuel [simp]: "p_atom s \<noteq> Inl OutOfFuel"
  by (simp add: p_atom_def split: option.split)

lemma skip_ws_le: "length (skip_ws s) \<le> length s"
  by (rule length_dropWhile_le)

text \<open>Every function consumes a character, and with more fuel than characters none runs out.\<close>

lemma parsers_shorter:
  "(\<forall>s v r. p_value n s = Inr (v, r) \<longrightarrow> length r < length s)
   \<and> (\<forall>s vs r. p_items n s = Inr (vs, r) \<longrightarrow> length r < length s)
   \<and> (\<forall>acc s kvs r. p_members n acc s = Inr (kvs, r) \<longrightarrow> length r < length s)"
proof (induction n)
  case (Suc n)
  have IH: "\<And>s v r. p_value n s = Inr (v, r) \<Longrightarrow> length r < length s"
    "\<And>s vs r. p_items n s = Inr (vs, r) \<Longrightarrow> length r < length s"
    "\<And>acc s kvs r. p_members n acc s = Inr (kvs, r) \<Longrightarrow> length r < length s"
    using Suc by simp_all
  have ws: "skip_ws s = c # cs \<Longrightarrow> length cs < length s" for s c cs
    using skip_ws_le [of s] by simp
  have tl: "length (tl (skip_ws s)) \<le> length s" for s using skip_ws_le [of s] by simp
  have v: "length r < length s" if p: "p_value (Suc n) s = Inr (v, r)" for s v r
  proof (cases s)
    case (Cons c cs)
    consider x where "p_chars cs = Inr (x, r)" | "r = tl (skip_ws cs)" | x where "p_items n (skip_ws cs) = Inr (x, r)"
      | x where "p_members n [] (skip_ws cs) = Inr (x, r)" | "p_atom s = Inr (v, r)"
      using p Cons
      by (cases "c = CHR 0x22"; cases "c = CHR 0x5B"; cases "c = CHR 0x7B") (simp_all split: if_splits sum.splits prod.splits)
    then show ?thesis
    proof cases
      case 1
      from p_chars_shorter [OF this] Cons show ?thesis by simp
    next
      case 2
      with tl [of cs] Cons show ?thesis by (simp add: le_imp_less_Suc)
    next
      case (3 x)
      from IH(2) [OF 3] have "length r < length (skip_ws cs)" .
      with skip_ws_le [of cs] Cons show ?thesis by simp
    next
      case (4 x)
      from IH(3) [OF 4] have "length r < length (skip_ws cs)" .
      with skip_ws_le [of cs] Cons show ?thesis by simp
    next
      case 5
      from p_atom_shorter [OF this] show ?thesis .
    qed
  qed (use p in simp)
  have i: "length r < length s" if "p_items (Suc n) s = Inr (vs, r)" for s vs r
  proof -
    from that obtain v r1 c cs where 1: "p_value n s = Inr (v, r1)" "skip_ws r1 = c # cs"
      and 2: "r = cs \<or> (\<exists>x. p_items n (skip_ws cs) = Inr (x, r))"
      by (auto split: sum.splits list.splits if_splits)
    have "length cs < length s" using IH(1) [OF 1(1)] ws [OF 1(2)] by simp
    moreover have "length r \<le> length cs" using 2 IH(2) [of "skip_ws cs" _ r] skip_ws_le [of cs] by fastforce
    ultimately show ?thesis by simp
  qed
  have m: "length r < length s" if "p_members (Suc n) acc s = Inr (kvs, r)" for acc s kvs r
  proof -
    from that obtain q qs k r0 d ds v r1 c cs where 1: "s = q # qs" "p_chars qs = Inr (k, r0)" "skip_ws r0 = d # ds"
      "p_value n (skip_ws ds) = Inr (v, r1)" "skip_ws r1 = c # cs"
      and 2: "r = cs \<or> (\<exists>acc x. p_members n acc (skip_ws cs) = Inr (x, r))"
      by (auto split: sum.splits list.splits if_splits) blast
    have "length r1 < length (skip_ws ds)" by (rule IH(1) [OF 1(4)])
    then have "length cs < length s" using 1 p_chars_shorter [OF 1(2)] ws [OF 1(3)] ws [OF 1(5)] skip_ws_le [of ds] by simp
    moreover have "length r \<le> length cs" using 2 IH(3) [of _ "skip_ws cs" _ r] skip_ws_le [of cs] by fastforce
    ultimately show ?thesis by simp
  qed
  from v i m show ?case by blast
qed simp

lemma parsers_fuel:
  "(\<forall>s. 2 * length s < n \<longrightarrow> p_value n s \<noteq> Inl OutOfFuel)
   \<and> (\<forall>s. 2 * length s + 1 < n \<longrightarrow> p_items n s \<noteq> Inl OutOfFuel)
   \<and> (\<forall>acc s. 2 * length s < n \<longrightarrow> p_members n acc s \<noteq> Inl OutOfFuel)"
proof (induction n)
  case (Suc n)
  have IH: "\<And>s. 2 * length s < n \<Longrightarrow> p_value n s \<noteq> Inl OutOfFuel"
    "\<And>s. 2 * length s + 1 < n \<Longrightarrow> p_items n s \<noteq> Inl OutOfFuel"
    "\<And>acc s. 2 * length s < n \<Longrightarrow> p_members n acc s \<noteq> Inl OutOfFuel"
    using Suc by simp_all
  have short: "\<And>s v r. p_value n s = Inr (v, r) \<Longrightarrow> length r < length s" using parsers_shorter [of n] by simp
  have v: "p_value (Suc n) s \<noteq> Inl OutOfFuel" if len: "2 * length s < Suc n" for s
  proof (cases s)
    case (Cons c cs)
    have "p_items n (skip_ws cs) \<noteq> Inl OutOfFuel" "p_members n [] (skip_ws cs) \<noteq> Inl OutOfFuel"
      using IH(2,3) [of "skip_ws cs"] len Cons skip_ws_le [of cs] by simp_all
    then show ?thesis using Cons
      by (cases "p_items n (skip_ws cs)"; cases "p_members n [] (skip_ws cs)")
        (simp_all split: sum.split prod.split)
  qed simp
  have i: "p_items (Suc n) s \<noteq> Inl OutOfFuel" if len: "2 * length s + 1 < Suc n" for s
  proof (cases "p_value n s")
    case (Inl e)
    with IH(1) [of s] len show ?thesis by auto
  next
    case (Inr vr)
    obtain x r where vr: "vr = (x, r)" by (cases vr)
    have "length r < length s" using short Inr vr by simp
    then have "p_items n (skip_ws cs) \<noteq> Inl OutOfFuel" if "skip_ws r = c # cs" for c cs
      using IH(2) [of "skip_ws cs"] len that skip_ws_le [of r] skip_ws_le [of cs] by simp
    then show ?thesis by (auto simp: Inr vr split: list.split sum.split)
  qed
  have m: "p_members (Suc n) acc s \<noteq> Inl OutOfFuel" if len: "2 * length s < Suc n" for acc s
  proof
    assume "p_members (Suc n) acc s = Inl OutOfFuel"
    then obtain q qs k r0 d ds where 1: "s = q # qs" "p_chars qs = Inr (k, r0)" "skip_ws r0 = d # ds"
      and 2: "p_value n (skip_ws ds) = Inl OutOfFuel \<or> (\<exists>v r1 c cs acc. p_value n (skip_ws ds) = Inr (v, r1)
        \<and> skip_ws r1 = c # cs \<and> p_members n acc (skip_ws cs) = Inl OutOfFuel)"
      by (auto split: list.splits sum.splits if_splits) blast
    have l: "2 * length (skip_ws ds) < n"
      using 1(1,3) p_chars_shorter [OF 1(2)] skip_ws_le [of r0] skip_ws_le [of ds] len by simp
    with IH(1) 2 obtain v r1 c cs acc where 3: "p_value n (skip_ws ds) = Inr (v, r1)" "skip_ws r1 = c # cs"
      "p_members n acc (skip_ws cs) = Inl OutOfFuel" by blast
    have "2 * length (skip_ws cs) < n"
      using l short [OF 3(1)] 3(2) skip_ws_le [of r1] skip_ws_le [of cs] by simp
    with IH(3) 3(3) show False by blast
  qed
  from v i m show ?case by blast
qed simp

lemma loads_fuel: "loads s \<noteq> Inl OutOfFuel"
proof -
  have "2 * length (skip_ws s) < Suc (2 * length s)" using skip_ws_le [of s] by simp
  with parsers_fuel [of "Suc (2 * length s)"] have "p_value (Suc (2 * length s)) (skip_ws s) \<noteq> Inl OutOfFuel" by blast
  then show ?thesis by (auto simp: loads_def simp del: p_value.simps split: sum.split)
qed

end
