(* ===== verification/AuditFile.thy ===== *)
theory AuditFile
  imports JsonParse Workspace
begin

text \<open>
  Reading an audit log back, \<^verbatim>\<open>keel/governance/audit.py\<close>: what reopening a log loads from its file, and the
  integrity check of an auditor, which reports everything wrong with the text. Both raise where the
  program lets an exception through.
\<close>

section \<open>Python's numbers from JSON values\<close>

text \<open>Digits with single underscores between them.\<close>

fun digit_groups :: "bool \<Rightarrow> string \<Rightarrow> string option" where
  "digit_groups after_digit [] = (if after_digit then Some [] else None)"
| "digit_groups after_digit (c # cs) =
     (if is_digit c then map_option (Cons c) (digit_groups True cs)
      else if c = CHR ''_'' \<and> after_digit \<and> cs \<noteq> [] \<and> is_digit (hd cs) then digit_groups False cs
      else None)"

definition split_sign :: "string \<Rightarrow> bool \<times> string" where
  "split_sign s =
     (if str_startswith s ''-'' then (True, tl s) else if str_startswith s ''+'' then (False, tl s) else (False, s))"

text \<open>\<open>int(v)\<close>\<close>

fun py_int :: "json \<Rightarrow> (string \<times> string) + int" where
  "py_int (JInt i) = Inr i"
| "py_int (JBool b) = Inr (if b then 1 else 0)"
| "py_int (JFloat (Fin x)) = Inr (if x < 0 then \<lceil>x\<rceil> else \<lfloor>x\<rfloor>)"
| "py_int (JFloat NaN) = Inl (''ValueError'', ''cannot convert float NaN to integer'')"
| "py_int (JFloat _) = Inl (''OverflowError'', ''cannot convert float infinity to integer'')"
| "py_int (JStr s) =
     (case split_sign (str_strip s) of (neg, body) \<Rightarrow>
        (case digit_groups False body of
           None \<Rightarrow> Inl (''ValueError'', ''invalid literal for int() with base 10: '' @ str_repr s)
         | Some ds \<Rightarrow> Inr (signed neg (int (nat_of_digits ds)))))"
| "py_int v = Inl (''TypeError'', ''int() argument must be a string, a bytes-like object or a real number'')"

text \<open>Part of a float literal: nothing, or digit groups.\<close>

definition opt_groups :: "string \<Rightarrow> string option" where
  "opt_groups s = (if s = [] then Some [] else digit_groups False s)"

definition group_char :: "char \<Rightarrow> bool" where
  "group_char c \<longleftrightarrow> is_digit c \<or> c = CHR ''_''"

definition float_literal :: "string \<Rightarrow> real option" where
  "float_literal s =
     (let a = takeWhile group_char s; r = dropWhile group_char s;
          b = (if str_startswith r ''.'' then takeWhile group_char (tl r) else []);
          r1 = (if str_startswith r ''.'' then dropWhile group_char (tl r) else r)
      in case (opt_groups a, opt_groups b) of
           (Some ds, Some fs) \<Rightarrow>
             if ds = [] \<and> fs = [] then None
             else if r1 = [] then Some (real (nat_of_digits (ds @ fs)) * 10 powi (- int (length fs)))
             else if str_startswith r1 ''e'' \<or> str_startswith r1 ''E''
             then (case split_sign (tl r1) of (neg, body) \<Rightarrow>
                     map_option (\<lambda>es. real (nat_of_digits (ds @ fs))
                         * 10 powi (signed neg (int (nat_of_digits es)) - int (length fs)))
                       (digit_groups False body))
             else None
         | _ \<Rightarrow> None)"

text \<open>\<open>float(v)\<close>; an integer beyond the largest float overflows.\<close>

fun py_float :: "json \<Rightarrow> (string \<times> string) + pfloat" where
  "py_float (JInt i) =
     (if 2 ^ 1024 - 2 ^ 970 \<le> \<bar>i\<bar> then Inl (''OverflowError'', ''int too large to convert to float'')
      else Inr (Fin (real_of_int i)))"
| "py_float (JBool b) = Inr (Fin (if b then 1 else 0))"
| "py_float (JFloat f) = Inr f"
| "py_float (JStr s) =
     (case split_sign (str_strip s) of (neg, body) \<Rightarrow>
        let low = str_lower body
        in if low = ''nan'' then Inr NaN
           else if low = ''inf'' \<or> low = ''infinity'' then Inr (if neg then NInf else PInf)
           else (case float_literal body of
                   None \<Rightarrow> Inl (''ValueError'', ''could not convert string to float: '' @ str_repr s)
                 | Some x \<Rightarrow> Inr (Fin (if neg then - x else x))))"
| "py_float v = Inl (''TypeError'', ''float() argument must be a string or a real number'')"

section \<open>Loading\<close>

record loaded_event =
  ev_run_id :: string
  ev_type :: event_type
  ev_payload :: "(string, json) dict"
  ev_node_id :: json
  ev_at :: pfloat
  ev_seq :: int

definition key_error :: "string \<Rightarrow> string \<times> string" where
  "key_error k = (''KeyError'', str_repr k)"

definition field_of :: "(string, json) dict \<Rightarrow> string \<Rightarrow> (string \<times> string) + json" where
  "field_of kvs k = (case dget kvs k of None \<Rightarrow> Inl (key_error k) | Some v \<Rightarrow> Inr v)"

definition event_type_of :: "(real \<Rightarrow> string) \<Rightarrow> json \<Rightarrow> (string \<times> string) + event_type" where
  "event_type_of fr v =
     (case v of
        JStr s \<Rightarrow>
          (case et_of_value s of
             None \<Rightarrow> Inl (''ValueError'', py_repr fr v @ '' is not a valid AuditEventType'')
           | Some t \<Rightarrow> Inr t)
      | _ \<Rightarrow> Inl (''ValueError'', py_repr fr v @ '' is not a valid AuditEventType''))"

text \<open>\<open>_event_from_json\<close>, with the exceptions in the order the constructor evaluates its arguments.\<close>

definition event_from_json :: "(real \<Rightarrow> string) \<Rightarrow> json \<Rightarrow> (string \<times> string) + loaded_event" where
  "event_from_json fr v =
     (case v of
        JObj kvs \<Rightarrow>
          (case field_of kvs ''run_id'' of Inl e \<Rightarrow> Inl e | Inr rid \<Rightarrow>
          (case field_of kvs ''event_type'' of Inl e \<Rightarrow> Inl e | Inr et \<Rightarrow>
          (case event_type_of fr et of Inl e \<Rightarrow> Inl e | Inr t \<Rightarrow>
          (case field_of kvs ''at'' of Inl e \<Rightarrow> Inl e | Inr a \<Rightarrow>
          (case py_float a of Inl e \<Rightarrow> Inl e | Inr x \<Rightarrow>
          (case field_of kvs ''seq'' of Inl e \<Rightarrow> Inl e | Inr q \<Rightarrow>
          (case py_int q of Inl e \<Rightarrow> Inl e | Inr i \<Rightarrow>
             Inr \<lparr>ev_run_id = py_str fr rid, ev_type = t,
                  ev_payload = (case dget kvs ''payload'' of Some (JObj p) \<Rightarrow> p | _ \<Rightarrow> []),
                  ev_node_id = (case dget kvs ''node_id'' of None \<Rightarrow> JNull | Some n \<Rightarrow> n),
                  ev_at = x, ev_seq = i\<rparr>)))))))
      | _ \<Rightarrow> Inl (''AttributeError'', ''object has no attribute get''))"

text \<open>What \<open>_load\<close> catches; a line it cannot use is skipped.\<close>

definition skipped :: "string \<times> string \<Rightarrow> bool" where
  "skipped e \<longleftrightarrow> fst e \<in> {''ValueError'', ''TypeError'', ''KeyError''}"

definition load_line ::
  "(real \<Rightarrow> string) \<Rightarrow> string \<Rightarrow> loaded_event list \<Rightarrow> (string \<times> string) + loaded_event list" where
  "load_line fr raw events =
     (let line = str_strip raw
      in if line = [] then Inr events
         else case loads line of
           Inl _ \<Rightarrow> Inr events
         | Inr v \<Rightarrow>
             (case event_from_json fr v of
                Inr e \<Rightarrow> Inr (events @ [e])
              | Inl x \<Rightarrow> if skipped x then Inr events else Inl x))"

definition load_events :: "(real \<Rightarrow> string) \<Rightarrow> string \<Rightarrow> (string \<times> string) + loaded_event list" where
  "load_events fr text = efold (load_line fr) (splitlines (universal_newlines text)) []"

text \<open>The numbering goes on after the highest number, the clock after the latest time.\<close>

definition resumed_seq :: "loaded_event list \<Rightarrow> int" where
  "resumed_seq es = (case map ev_seq es of [] \<Rightarrow> 0 | i # js \<Rightarrow> fold max js i)"

definition resumed_at :: "loaded_event list \<Rightarrow> pfloat" where
  "resumed_at es = (case map ev_at es of [] \<Rightarrow> Fin 0 | x # ys \<Rightarrow> fold (\<lambda>y m. py_max m y) ys x)"

section \<open>The integrity check\<close>

text \<open>The parser never runs out of fuel (\<open>loads_fuel\<close>), so the branch for it is not reached.\<close>

record verify_state =
  vs_expected :: int
  vs_last :: "pfloat option"
  vs_seen :: "int set"
  vs_problems :: "string list"

definition verify_start :: verify_state where
  "verify_start = \<lparr>vs_expected = 1, vs_last = None, vs_seen = {}, vs_problems = []\<rparr>"

definition complain :: "nat \<Rightarrow> string \<Rightarrow> verify_state \<Rightarrow> verify_state" where
  "complain number msg st =
     st\<lparr>vs_problems := vs_problems st @ [''line '' @ str_nat number @ '': '' @ msg]\<rparr>"

fun type_name :: "json \<Rightarrow> string" where
  "type_name JNull = ''NoneType''"
| "type_name (JBool _) = ''bool''"
| "type_name (JInt _) = ''int''"
| "type_name (JFloat _) = ''float''"
| "type_name (JStr _) = ''str''"
| "type_name (JArr _) = ''list''"
| "type_name (JObj _) = ''dict''"

definition check_seq :: "(real \<Rightarrow> string) \<Rightarrow> nat \<Rightarrow> json \<Rightarrow> verify_state \<Rightarrow> verify_state" where
  "check_seq fr number v st =
     (case v of
        JInt i \<Rightarrow>
          let st1 = (if i \<in> vs_seen st then complain number (''duplicate seq '' @ str_int i) st
                     else if i \<noteq> vs_expected st
                     then complain number (''sequence gap, expected seq '' @ str_int (vs_expected st)
                            @ '', found '' @ str_int i) st
                     else st)
          in st1\<lparr>vs_seen := insert i (vs_seen st), vs_expected := max (vs_expected st) i + 1\<rparr>
      | _ \<Rightarrow> complain number (''seq is not an integer: '' @ py_repr fr v) st)"

text \<open>The clock of the last event is kept as a float, which a large integer cannot become.\<close>

fun number_of :: "json \<Rightarrow> pfloat option" where
  "number_of (JInt i) = Some (Fin (real_of_int i))"
| "number_of (JFloat f) = Some f"
| "number_of _ = None"

definition check_at ::
  "(real \<Rightarrow> string) \<Rightarrow> nat \<Rightarrow> json \<Rightarrow> verify_state \<Rightarrow> (string \<times> string) + verify_state" where
  "check_at fr number v st =
     (case number_of v of
        None \<Rightarrow> Inr (complain number (''timestamp is not a number: '' @ py_repr fr v) st)
      | Some x \<Rightarrow>
          let st1 = (case vs_last st of
                       None \<Rightarrow> st
                     | Some y \<Rightarrow>
                         if flt_lt x y
                         then complain number (''timestamp moves backwards ('' @ py_repr fr v @ '' < ''
                                @ float_repr fr y @ '')'') st
                         else st)
          in map_sum id (\<lambda>f. st1\<lparr>vs_last := Some f\<rparr>) (py_float v))"

definition check_run_id ::
  "(real \<Rightarrow> string) \<Rightarrow> string \<Rightarrow> nat \<Rightarrow> json \<Rightarrow> verify_state \<Rightarrow> verify_state" where
  "check_run_id fr run_id number v st =
     (if v = JStr run_id then st
      else complain number (''run_id '' @ py_repr fr v @ '' does not belong to run '' @ str_repr run_id) st)"

definition check_event_type :: "(real \<Rightarrow> string) \<Rightarrow> nat \<Rightarrow> json \<Rightarrow> verify_state \<Rightarrow> verify_state" where
  "check_event_type fr number v st =
     (case event_type_of fr v of
        Inr _ \<Rightarrow> st
      | Inl _ \<Rightarrow> complain number (''unknown event_type '' @ py_repr fr v) st)"

definition required_fields :: "string list" where
  "required_fields = [''seq'', ''at'', ''run_id'', ''event_type'']"

definition field :: "(string, json) dict \<Rightarrow> string \<Rightarrow> json" where
  "field kvs k = (case dget kvs k of None \<Rightarrow> JNull | Some v \<Rightarrow> v)"

definition check_record ::
  "(real \<Rightarrow> string) \<Rightarrow> string \<Rightarrow> nat \<Rightarrow> (string, json) dict \<Rightarrow> verify_state \<Rightarrow> (string \<times> string) + verify_state"
where
  "check_record fr run_id number kvs st =
     (let missing = filter (\<lambda>f. dget kvs f = None) required_fields
      in if missing \<noteq> [] then Inr (complain number (''missing field(s): '' @ str_join '', '' missing) st)
         else map_sum id
                (\<lambda>st2. check_event_type fr number (field kvs ''event_type'')
                         (check_run_id fr run_id number (field kvs ''run_id'') st2))
                (check_at fr number (field kvs ''at'') (check_seq fr number (field kvs ''seq'') st)))"

definition verify_line ::
  "(real \<Rightarrow> string) \<Rightarrow> string \<Rightarrow> nat \<times> string \<Rightarrow> verify_state \<Rightarrow> (string \<times> string) + verify_state" where
  "verify_line fr run_id numbered st =
     (case numbered of (number, raw) \<Rightarrow>
       (let line = str_strip raw
        in if line = [] then Inr (complain number ''blank line in an append-only log'' st)
           else case loads line of
             Inl (Msg m) \<Rightarrow> Inr (complain number (''malformed JSON ('' @ m @ '')'') st)
           | Inl OutOfFuel \<Rightarrow> Inl (''RecursionError'', [])
           | Inr (JObj kvs) \<Rightarrow> check_record fr run_id number kvs st
           | Inr v \<Rightarrow> Inr (complain number (''expected a JSON object, found '' @ type_name v) st)))"

text \<open>The text of the file, if there is one, against the run it should belong to.\<close>

definition verify_integrity ::
  "(real \<Rightarrow> string) \<Rightarrow> string \<Rightarrow> string \<Rightarrow> string option \<Rightarrow> (string \<times> string) + string list" where
  "verify_integrity fr path run_id contents =
     (case contents of
        None \<Rightarrow> Inr [''missing audit log: '' @ path]
      | Some text \<Rightarrow>
          map_sum id vs_problems
            (efold (verify_line fr run_id) (enumerate1 (splitlines (universal_newlines text))) verify_start))"

end
