(* ===== verification/AuditReopen.thy ===== *)
theory AuditReopen
  imports AuditFile
begin

text \<open>
  What an honest audit log looks like to whoever opens its file: the integrity check finds nothing, loading
  gives the events back and the numbering and the clock go on where the writer left them. A line taken out
  of the middle is reported, once and by its number.
\<close>

section \<open>The lines of a printed log\<close>

definition printable :: "string \<Rightarrow> bool" where
  "printable s \<longleftrightarrow> list_all (\<lambda>c. CHR '' '' \<le> c) s"

lemma printable_simps [simp]:
  "printable []"
  "printable (c # s) \<longleftrightarrow> CHR '' '' \<le> c \<and> printable s"
  "printable (s @ t) \<longleftrightarrow> printable s \<and> printable t"
  by (simp_all add: printable_def)

lemma printable_concat: "printable (concat ss) \<longleftrightarrow> list_all printable ss"
  by (induction ss) simp_all

lemma printable_join: "printable sep \<Longrightarrow> list_all printable ss \<Longrightarrow> printable (str_join sep ss)"
  by (induction sep ss rule: str_join.induct) simp_all

lemma hex_digit_printable: "n < 16 \<Longrightarrow> CHR '' '' \<le> hex_digit n"
  by (auto simp: hex_digit_def less_eq_char_def of_char_of take_bit_nat_eq_self)

lemma raw_escape_printable: "printable (raw_escape_char c)"
proof -
  have "(of_char c :: nat) div 16 < 16" using nat_of_char_less_256 [of c] by (simp add: less_mult_imp_div_less)
  then have "printable (hex2 c)" by (simp add: hex2_def Let_def hex_digit_printable)
  then show ?thesis by (simp add: raw_escape_char_def json_escape_char_def less_eq_char_def)
qed

lemma raw_string_printable: "printable (raw_string s)"
  by (simp add: raw_string_def printable_concat raw_escape_printable list_all_iff less_eq_char_def)

lemma digits_printable: "list_all is_digit s \<Longrightarrow> printable s"
  by (induction s) (auto simp: is_digit_def less_eq_char_def)

lemma takeWhile_printable: "printable (takeWhile is_digit s)"
  by (rule digits_printable) (metis list_all_iff set_takeWhileD)

text \<open>A number is read from printable characters only.\<close>

definition eats :: "string \<Rightarrow> string \<Rightarrow> bool" where
  "eats s r \<longleftrightarrow> (\<exists>p. s = p @ r \<and> printable p)"

lemma eats_refl: "eats s s"
  by (simp add: eats_def)

lemma eats_trans: "eats s r \<Longrightarrow> eats r q \<Longrightarrow> eats s q"
  by (force simp: eats_def)

lemma eats_Cons: "CHR '' '' \<le> c \<Longrightarrow> eats s r \<Longrightarrow> eats (c # s) r"
  by (force simp: eats_def)

lemma eats_digits: "eats s (dropWhile is_digit s)"
  unfolding eats_def using takeWhile_printable [of s] by (metis takeWhile_dropWhile_id)

lemma eats_fraction: "p_fraction s = (x, r) \<Longrightarrow> eats s r"
  by (cases s) (auto simp: p_fraction_def Let_def less_eq_char_def intro: eats_refl eats_Cons eats_digits
      split: if_splits char.splits bool.splits)

lemma eats_sign: "eats s (if str_startswith s ''-'' \<or> str_startswith s ''+'' then tl s else s)"
  by (cases s) (auto simp: less_eq_char_def intro: eats_refl eats_Cons)

lemma eats_exponent: "p_exponent s = (x, r) \<Longrightarrow> eats s r"
proof (cases s)
  case (Cons c cs)
  assume "p_exponent s = (x, r)"
  then show ?thesis
    using eats_trans [OF eats_sign eats_digits, of cs] Cons eats_Cons [of c]
    by (auto simp: p_exponent_def Let_def less_eq_char_def eats_refl split: if_splits)
qed (simp add: p_exponent_def eats_refl)

lemma eats_int_digits: "p_int_digits s = Some (x, r) \<Longrightarrow> eats s r"
  by (auto simp: p_int_digits_def less_eq_char_def is_digit_def
      intro: eats_refl eats_Cons eats_digits split: list.splits if_splits)

lemma eats_number: "p_number s = Some (v, r) \<Longrightarrow> eats s r"
proof -
  assume a: "p_number s = Some (v, r)"
  let ?t = "if str_startswith s ''-'' then tl s else s"
  have s: "eats s ?t" by (cases s) (auto simp: less_eq_char_def intro: eats_refl eats_Cons)
  from a obtain ds r0 fs r1 e where
    n: "p_int_digits ?t = Some (ds, r0)" "p_fraction r0 = (fs, r1)" "p_exponent r1 = (e, r)"
    by (auto simp: p_number_def Let_def split: option.splits prod.splits if_splits)
  show "eats s r"
    by (rule eats_trans [OF s]) (rule eats_trans [OF eats_int_digits [OF n(1)]],
      rule eats_trans [OF eats_fraction [OF n(2)] eats_exponent [OF n(3)]])
qed

lemma number_printable: "p_number s = Some (v, []) \<Longrightarrow> printable s"
  using eats_number [of s v "[]"] by (simp add: eats_def)

lemma dump_printable: "json_ok fr j \<Longrightarrow> printable (dump_line fr j)"
proof (induction fr j rule: dump_line.induct)
  case (4 fr f)
  then show ?case by (cases f) (simp_all add: number_printable less_eq_char_def)
next
  case (6 fr xs)
  then show ?case by (auto simp: list_all_iff less_eq_char_def intro!: printable_join)
next
  case (7 fr kvs)
  have "list_all printable (map (\<lambda>(k, v). raw_string k @ '': '' @ dump_line fr v) kvs)"
    using 7 by (fastforce simp: list_all_iff raw_string_printable less_eq_char_def)
  then show ?case by (simp add: less_eq_char_def printable_join)
qed (simp_all add: raw_string_printable less_eq_char_def number_printable [OF p_number_int])

text \<open>What separates lines in Latin-1 text is a control character, or the next-line character U+0085.\<close>

definition one_line :: "string \<Rightarrow> bool" where
  "one_line s \<longleftrightarrow> printable s \<and> CHR 0x85 \<notin> set s"

lemma one_line_no_break: "one_line s \<Longrightarrow> c \<in> set s \<Longrightarrow> \<not> is_linebreak c \<and> c \<noteq> CHR 0x0D"
  by (auto simp: one_line_def printable_def list_all_iff is_linebreak_def less_eq_char_def)

lemma splitlines_line:
  "\<forall>c \<in> set s. \<not> is_linebreak c \<and> c \<noteq> CHR 0x0D \<Longrightarrow>
   splitlines_acc cur (s @ CHR 0x0A # t) = (rev cur @ s) # splitlines_acc [] t"
  by (induction s arbitrary: cur) (simp_all add: is_linebreak_def)

lemma universal_newlines_id: "CHR 0x0D \<notin> set s \<Longrightarrow> universal_newlines s = s"
  by (induction s rule: universal_newlines.induct) (auto split: list.splits)

definition log_text :: "string list \<Rightarrow> string" where
  "log_text ls = concat (map (\<lambda>l. l @ newline) ls)"

lemma log_text_lines:
  assumes "list_all one_line ls" shows "splitlines (universal_newlines (log_text ls)) = ls"
proof -
  have "CHR 0x0D \<notin> set (log_text ls)"
    using assms one_line_no_break by (auto simp: log_text_def newline_def list_all_iff)
  moreover have "splitlines (log_text ls) = ls"
    using assms
  proof (induction ls)
    case (Cons l ls)
    have "\<forall>c \<in> set l. \<not> is_linebreak c \<and> c \<noteq> CHR 0x0D" using Cons.prems one_line_no_break by auto
    from splitlines_line [OF this, of "[]"] Cons show ?case
      by (simp add: log_text_def newline_def splitlines_def)
  qed (simp add: log_text_def splitlines_def)
  ultimately show ?thesis by (simp add: universal_newlines_id)
qed

section \<open>The line of an event\<close>

abbreviation event_line :: "(real \<Rightarrow> string) \<Rightarrow> audit_event \<Rightarrow> string" where
  "event_line fr e \<equiv> dump_line fr (event_to_json e)"

lemma event_line_strip: "str_strip (event_line fr e) = event_line fr e"
proof -
  obtain s where s: "event_line fr e = CHR 0x7B # s @ [CHR 0x7D]"
    by (simp add: event_to_json_def)
  show ?thesis by (simp add: s str_strip_def str_lstrip_def str_rstrip_def is_space_def)
qed

lemma event_line_ne [simp]: "event_line fr e \<noteq> []"
  by (simp add: event_to_json_def)

text \<open>An event that can be read back: its payload and its time are printed as what they are, on one line.\<close>

definition storable :: "(real \<Rightarrow> string) \<Rightarrow> audit_event \<Rightarrow> bool" where
  "storable fr e \<longleftrightarrow> json_ok fr (event_to_json e) \<and> CHR 0x85 \<notin> set (event_line fr e)"

lemma storable_line: "storable fr e \<Longrightarrow> one_line (event_line fr e)"
  by (simp add: storable_def one_line_def dump_printable)

lemma storable_loads: "storable fr e \<Longrightarrow> loads (event_line fr e) = Inr (event_to_json e)"
  by (simp add: storable_def loads_dump)

definition reloaded :: "audit_event \<Rightarrow> loaded_event" where
  "reloaded e =
     \<lparr>ev_run_id = ae_run_id e, ev_type = ae_event_type e, ev_payload = ae_payload e,
      ev_node_id = opt_str (ae_node_id e), ev_at = Fin (ae_at e), ev_seq = ae_seq e\<rparr>"

lemma event_from_event_to: "event_from_json fr (event_to_json e) = Inr (reloaded e)"
  by (simp add: event_from_json_def event_to_json_def field_of_def event_type_of_def reloaded_def)

lemma load_line_event: "storable fr e \<Longrightarrow> load_line fr (event_line fr e) es = Inr (es @ [reloaded e])"
  by (simp add: load_line_def event_line_strip storable_loads event_from_event_to)

lemma load_lines: "list_all (storable fr) us \<Longrightarrow> efold (load_line fr) (map (event_line fr) us) es = Inr (es @ map reloaded us)"
  by (induction us arbitrary: es) (simp_all add: load_line_event)

lemma load_log_text:
  assumes "list_all (storable fr) us"
  shows "load_events fr (log_text (map (event_line fr) us)) = Inr (map reloaded us)"
proof -
  have "list_all one_line (map (event_line fr) us)"
    using assms storable_line by (auto simp: list_all_iff)
  with load_lines [OF assms, of "[]"] show ?thesis by (simp add: load_events_def log_text_lines)
qed

section \<open>Resuming\<close>

lemma fold_max_up: "k \<le> m \<Longrightarrow> fold max (map int [k..<m]) (int k) = int (if k < m then m - 1 else k)"
proof (induction "m - k" arbitrary: m)
  case (Suc d)
  then obtain m' where m: "m = Suc m'" "k \<le> m'" by (cases m) auto
  with Suc show ?case by (auto simp: max_def)
qed simp

lemma upt_from: "[k..<k + Suc n] = k # [Suc k..<Suc k + n]"
  by (simp add: upt_conv_Cons del: upt_Suc)

lemma resumed_seq_numbered:
  assumes "map ae_seq us = map int [1..<Suc (length us)]" shows "resumed_seq (map reloaded us) = int (length us)"
proof (cases us)
  case (Cons u vs)
  have "map ev_seq (map reloaded us) = map ae_seq us" by (simp add: reloaded_def)
  also have "\<dots> = int 1 # map int [2..<2 + length vs]"
    using assms Cons upt_from [of 1 "length vs"] by (simp add: numeral_2_eq_2 del: upt_Suc)
  finally have "resumed_seq (map reloaded us) = fold max (map int [2..<2 + length vs]) (int 1)"
    by (simp add: resumed_seq_def del: upt_Suc)
  also have "fold max (map int [2..<2 + length vs]) (int 1) = fold max (map int [1..<2 + length vs]) (int 1)"
    using upt_from [of 1 "length vs"] by (simp add: numeral_2_eq_2 del: upt_Suc)
  finally show ?thesis using fold_max_up [of 1 "2 + length vs"] Cons by simp
qed (simp add: resumed_seq_def)

lemma fold_py_max: "sorted (x # xs) \<Longrightarrow> fold (\<lambda>y m. py_max m y) (map Fin xs) (Fin x) = Fin (last (x # xs))"
proof (induction xs arbitrary: x)
  case (Cons y ys)
  then have "py_max (Fin x) (Fin y) = Fin y" by (auto simp: py_max_def)
  with Cons show ?case by simp
qed simp

lemma resumed_at_sorted:
  assumes "sorted (map ae_at us)"
  shows "resumed_at (map reloaded us) = Fin (if us = [] then 0 else ae_at (last us))"
proof (cases us)
  case (Cons u vs)
  have "map ev_at (map reloaded us) = Fin (ae_at u) # map Fin (map ae_at vs)" by (simp add: Cons reloaded_def)
  then have "resumed_at (map reloaded us) = fold (\<lambda>y m. py_max m y) (map Fin (map ae_at vs)) (Fin (ae_at u))"
    by (simp only: resumed_at_def list.case)
  also have "\<dots> = Fin (last (map ae_at us))" using fold_py_max [of "ae_at u" "map ae_at vs"] assms Cons by simp
  finally show ?thesis using Cons by (simp add: last_map)
qed (simp add: resumed_at_def)

lemma log_run_last: "log_run fr rid l \<Longrightarrow> al_last_at l = (if al_events l = [] then 0 else ae_at (last (al_events l)))"
  by (induction rule: log_run.induct) (simp_all add: new_log_def)

section \<open>What the integrity check finds\<close>

lemma complain_sel [simp]:
  "vs_expected (complain n m st) = vs_expected st" "vs_last (complain n m st) = vs_last st"
  "vs_seen (complain n m st) = vs_seen st"
  "vs_problems (complain n m st) = vs_problems st @ [''line '' @ str_nat n @ '': '' @ m]"
  by (simp_all add: complain_def)

text \<open>The state between two honest lines: numbers below the next one seen, the clock not past the next event.\<close>

definition caught_up :: "int \<Rightarrow> real \<Rightarrow> verify_state \<Rightarrow> bool" where
  "caught_up k y st \<longleftrightarrow> vs_expected st = k \<and> (\<forall>i \<in> vs_seen st. i < k)
     \<and> (vs_last st = None \<or> (\<exists>x. vs_last st = Some (Fin x) \<and> x \<le> y))"

definition gap_report :: "nat \<Rightarrow> int \<Rightarrow> int \<Rightarrow> string" where
  "gap_report n k j = ''line '' @ str_nat n @ '': sequence gap, expected seq '' @ str_int k @ '', found '' @ str_int j"

lemma map_sum_same: "map_sum id (\<lambda>x. x) v = v"
  by (cases v) simp_all

lemma verify_object:
  "str_strip raw = raw \<Longrightarrow> raw \<noteq> [] \<Longrightarrow> loads raw = Inr (JObj kvs) \<Longrightarrow>
   verify_line fr rid (n, raw) st = check_record fr rid n kvs st"
  by (simp add: verify_line_def)

lemma verify_event:
  assumes "storable fr e" and "ae_run_id e = rid" and st: "caught_up k (ae_at e) st" and j: "k \<le> ae_seq e"
  shows "\<exists>st'. verify_line fr rid (n, event_line fr e) st = Inr st' \<and> caught_up (ae_seq e + 1) (ae_at e) st'
    \<and> vs_problems st' = vs_problems st @ (if ae_seq e = k then [] else [gap_report n k (ae_seq e)])"
proof -
  let ?kvs = "[(''seq'', JInt (ae_seq e)), (''at'', JFloat (Fin (ae_at e))), (''run_id'', JStr (ae_run_id e)),
      (''event_type'', JStr (et_value (ae_event_type e))), (''node_id'', opt_str (ae_node_id e)),
      (''payload'', JObj (ae_payload e))]"
  have "verify_line fr rid (n, event_line fr e) st = check_record fr rid n ?kvs st"
    by (rule verify_object [OF event_line_strip event_line_ne])
      (simp only: event_to_json_def [symmetric] storable_loads [OF assms(1)])
  also have "\<dots> = check_at fr n (JFloat (Fin (ae_at e))) (check_seq fr n (JInt (ae_seq e)) st)"
    using assms(2)
    by (simp add: check_record_def required_fields_def field_def check_run_id_def check_event_type_def
        event_type_of_def map_sum_same)
  also have "\<dots> = Inr (let st1 = (if ae_seq e = k then st else complain n (''sequence gap, expected seq '' @ str_int k
       @ '', found '' @ str_int (ae_seq e)) st)
       in st1\<lparr>vs_seen := insert (ae_seq e) (vs_seen st), vs_expected := ae_seq e + 1, vs_last := Some (Fin (ae_at e))\<rparr>)"
    using st j by (auto simp: caught_up_def check_seq_def check_at_def Let_def split: option.splits)
  finally show ?thesis
    using st j by (auto simp: caught_up_def Let_def gap_report_def)
qed

text \<open>A stretch of consecutive events finds nothing new.\<close>

lemma verify_stretch:
  assumes "list_all (storable fr) us" and "\<forall>e \<in> set us. ae_run_id e = rid"
    and "map ae_seq us = map int [k..<k + length us]" and "sorted (map ae_at us)"
    and "caught_up (int k) y st" and "\<forall>e \<in> set us. y \<le> ae_at e"
  shows "\<exists>st' y'. efold (verify_line fr rid) (zip [n..<n + length us] (map (event_line fr) us)) st = Inr st'
    \<and> vs_problems st' = vs_problems st \<and> caught_up (int (k + length us)) y' st'
    \<and> y' = (if us = [] then y else ae_at (last us))"
  using assms
proof (induction us arbitrary: k n y st)
  case (Cons u us)
  have seq: "ae_seq u = int k" "map ae_seq us = map int [Suc k..<Suc k + length us]"
    using Cons.prems(3) upt_from [of k "length us"] by (simp_all del: upt_Suc)
  have "caught_up (int k) (ae_at u) st" using Cons.prems(5,6) by (force simp: caught_up_def)
  with verify_event [of fr u rid "int k" st n] Cons.prems(1,2) seq obtain st1 where
    st1: "verify_line fr rid (n, event_line fr u) st = Inr st1" "caught_up (int (Suc k)) (ae_at u) st1"
      "vs_problems st1 = vs_problems st"
    by (auto simp: add.commute)
  from Cons.IH [OF _ _ seq(2) _ st1(2), of "Suc n"] Cons.prems obtain st' where
    "efold (verify_line fr rid) (zip [Suc n..<Suc n + length us] (map (event_line fr) us)) st1 = Inr st'"
    "vs_problems st' = vs_problems st1" "caught_up (int (Suc k + length us)) (if us = [] then ae_at u else ae_at (last us)) st'"
    by auto
  with st1 upt_from [of n "length us"] show ?case by (cases "us = []") (simp_all del: upt_Suc)
qed simp

text \<open>One event missing from a sound log: its successors are checked from the state before it.\<close>

lemma verify_numbered:
  assumes "log_run fr rid l" and evs: "al_events l = us @ vs" and "list_all (storable fr) us"
  shows "\<exists>st y. efold (verify_line fr rid) (zip [1..<1 + length us] (map (event_line fr) us)) verify_start = Inr st
    \<and> vs_problems st = [] \<and> caught_up (int (1 + length us)) y st \<and> (\<forall>e \<in> set vs. y \<le> ae_at e)"
proof -
  have inv: "log_inv fr rid l" by (rule log_run_inv [OF assms(1)])
  let ?y = "if al_events l = [] then 0 else ae_at (hd (al_events l))"
  have seqs: "map ae_seq us = map int [1..<1 + length us]"
  proof -
    have "map ae_seq us = take (length us) (map ae_seq (al_events l))" by (simp add: evs)
    also have "\<dots> = map int (take (length us) [1..<Suc (length (al_events l))])"
      using inv by (simp only: log_inv_def take_map)
    also have "take (length us) [1..<Suc (length (al_events l))] = [1..<1 + length us]" by (simp add: evs take_upt del: upt_Suc)
    finally show ?thesis .
  qed
  have ordered: "sorted (map ae_at us)" "\<forall>e \<in> set us. \<forall>v \<in> set vs. ae_at e \<le> ae_at v"
    using inv by (auto simp: log_inv_def evs sorted_append)
  have first: "\<forall>e \<in> set (al_events l). ?y \<le> ae_at e"
    using inv by (cases "al_events l") (auto simp: log_inv_def)
  have "caught_up (int 1) ?y verify_start" by (simp add: caught_up_def verify_start_def)
  then obtain st where "efold (verify_line fr rid) (zip [1..<1 + length us] (map (event_line fr) us)) verify_start = Inr st"
    "vs_problems st = vs_problems verify_start"
    "caught_up (int (1 + length us)) (if us = [] then ?y else ae_at (last us)) st"
    using verify_stretch [OF assms(3) _ seqs ordered(1), of rid ?y verify_start 1] inv first
    unfolding log_inv_def evs set_append by blast
  moreover have "\<forall>e \<in> set vs. (if us = [] then ?y else ae_at (last us)) \<le> ae_at e"
    using first ordered(2) by (auto simp: evs)
  ultimately show ?thesis by (auto simp: verify_start_def)
qed

lemma lines_of_log:
  "list_all (storable fr) us \<Longrightarrow>
   enumerate1 (splitlines (universal_newlines (log_text (map (event_line fr) us))))
     = zip [1..<1 + length us] (map (event_line fr) us)"
  using storable_line by (subst log_text_lines) (auto simp: enumerate1_def list_all_iff simp del: upt_Suc)

text \<open>
  C16: Reopening an honest log goes on where the writer stopped. If every event can be stored (its payload
  and time print as what they are, with no U+0085), the integrity check of the file finds nothing, loading
  it gives back every event in order, and the number and the clock the reopened log continues from are
  those of the log that wrote it.
\<close>

theorem honest_log_reopens:
  assumes "log_run fr rid l" and "list_all (storable fr) (al_events l)"
  shows "verify_integrity fr path rid (Some (al_text l)) = Inr []
    \<and> load_events fr (al_text l) = Inr (map reloaded (al_events l))
    \<and> resumed_seq (map reloaded (al_events l)) = al_seq l
    \<and> resumed_at (map reloaded (al_events l)) = Fin (al_last_at l)"
proof -
  have inv: "log_inv fr rid l" by (rule log_run_inv [OF assms(1)])
  then have body: "al_text l = log_text (map (event_line fr) (al_events l))"
    by (simp add: log_inv_def log_text_def comp_def)
  from verify_numbered [OF assms(1), of "al_events l" "[]"] assms(2)
  have "verify_integrity fr path rid (Some (al_text l)) = Inr []"
    by (auto simp: verify_integrity_def body lines_of_log)
  moreover have "resumed_seq (map reloaded (al_events l)) = al_seq l"
    "resumed_at (map reloaded (al_events l)) = Fin (al_last_at l)"
    using inv resumed_seq_numbered [of "al_events l"] resumed_at_sorted [of "al_events l"] log_run_last [OF assms(1)]
    by (simp_all add: log_inv_def del: upt_Suc)
  ultimately show ?thesis using load_log_text [OF assms(2)] by (simp add: body)
qed

lemma later_events:
  assumes "log_inv fr rid l" and evs: "al_events l = us @ e # v # ws"
  shows "ae_seq v = int (length us) + 2
    \<and> map ae_seq ws = map int [length us + 3..<length us + 3 + length ws]
    \<and> sorted (map ae_at ws) \<and> (\<forall>e \<in> set ws. ae_at v \<le> ae_at e) \<and> (\<forall>e \<in> set (v # ws). ae_run_id e = rid)"
proof -
  let ?n = "length us"
  have "map ae_seq (v # ws) = drop (?n + 1) (map ae_seq (al_events l))" by (simp add: evs)
  also have "\<dots> = map int (drop (?n + 1) [1..<Suc (length (al_events l))])"
    using assms(1) by (simp only: log_inv_def drop_map)
  also have "drop (?n + 1) [1..<Suc (length (al_events l))] = [?n + 2..<?n + 2 + Suc (length ws)]"
    by (simp add: evs del: upt_Suc)
  also have "\<dots> = (?n + 2) # [?n + 3..<?n + 3 + length ws]" using upt_from [of "?n + 2" "length ws"] by (simp add: numeral_3_eq_3 del: upt_Suc)
  finally have "ae_seq v = int ?n + 2" "map ae_seq ws = map int [?n + 3..<?n + 3 + length ws]" by simp_all
  moreover have "sorted (map ae_at ws) \<and> (\<forall>e \<in> set ws. ae_at v \<le> ae_at e) \<and> (\<forall>e \<in> set (v # ws). ae_run_id e = rid)"
    using assms(1) by (simp add: log_inv_def evs sorted_append)
  ultimately show ?thesis by simp
qed

text \<open>
  C17: A line removed from an honest log is found, unless it was the last: the check reports exactly one
  problem, a gap at the line that took its place, and does not complain about every line after it. The
  removal of the last line leaves a clean log.
\<close>

theorem removed_line_is_reported_once:
  assumes "log_run fr rid l" and "list_all (storable fr) (al_events l)" and "al_events l = us @ e # vs"
  shows "verify_integrity fr path rid (Some (log_text (map (event_line fr) (us @ vs)))) =
    Inr (if vs = [] then [] else [gap_report (length us + 1) (int (length us) + 1) (int (length us) + 2)])"
proof -
  have inv: "log_inv fr rid l" by (rule log_run_inv [OF assms(1)])
  obtain st y where st: "efold (verify_line fr rid) (zip [1..<1 + length us] (map (event_line fr) us)) verify_start = Inr st"
    "vs_problems st = []" "caught_up (int (1 + length us)) y st" "\<forall>e \<in> set (e # vs). y \<le> ae_at e"
    using verify_numbered [OF assms(1,3)] assms(2,3) by auto
  have "list_all (storable fr) (us @ vs)" using assms(2,3) by simp
  from lines_of_log [OF this]
  have lines: "enumerate1 (splitlines (universal_newlines (log_text (map (event_line fr) (us @ vs)))))
      = zip [1..<1 + length us] (map (event_line fr) us)
        @ zip [1 + length us..<1 + length us + length vs] (map (event_line fr) vs)"
    using upt_add_eq_append [of 1 "1 + length us" "length vs"] by (simp add: add.assoc del: upt_Suc)
  show ?thesis
  proof (cases vs)
    case Nil
    with st lines show ?thesis by (simp add: verify_integrity_def efold_append del: upt_Suc)
  next
    case (Cons v ws)
    from later_events [OF inv assms(3) [unfolded Cons]] have
      seq: "ae_seq v = int (length us) + 2" "map ae_seq ws = map int [length us + 3..<length us + 3 + length ws]"
      and ord: "sorted (map ae_at ws)" "\<forall>e \<in> set ws. ae_at v \<le> ae_at e"
      and own: "\<forall>e \<in> set (v # ws). ae_run_id e = rid" by auto
    have ok: "storable fr v" "list_all (storable fr) ws" using assms(2,3) Cons by simp_all
    have "caught_up (int (1 + length us)) (ae_at v) st" using st(3,4) Cons by (force simp: caught_up_def)
    with verify_event [OF ok(1), of rid "int (1 + length us)" st "1 + length us"] seq own obtain st1 where
      st1: "verify_line fr rid (1 + length us, event_line fr v) st = Inr st1"
        "caught_up (int (length us + 3)) (ae_at v) st1"
        "vs_problems st1 = vs_problems st @ [gap_report (length us + 1) (int (length us) + 1) (int (length us) + 2)]"
      by (auto simp: algebra_simps)
    from verify_stretch [OF ok(2) _ seq(2) ord(1) st1(2) ord(2), of rid "2 + length us"] own obtain st2 where
      "efold (verify_line fr rid) (zip [2 + length us..<2 + length us + length ws] (map (event_line fr) ws)) st1 = Inr st2"
      "vs_problems st2 = vs_problems st1" by auto
    with st st1 lines Cons upt_from [of "1 + length us" "length ws"] show ?thesis
      by (simp add: verify_integrity_def efold_append del: upt_Suc)
  qed
qed

section \<open>Concrete logs\<close>

definition sevens :: "real \<Rightarrow> string" where
  "sevens x = ''7.0''"

definition written_log :: audit_log where
  "written_log = emit sevens 3 PLAN_CREATED [(''nodes'', JInt 2)] None (emit sevens 7 RUN_STARTED [] None (new_log ''r''))"

lemma written_run: "log_run sevens ''r'' written_log"
  unfolding written_log_def by (intro log_run.intros)

lemma written_events:
  "al_events written_log =
     [\<lparr>ae_run_id = ''r'', ae_event_type = RUN_STARTED, ae_payload = [], ae_node_id = None, ae_at = 7, ae_seq = 1\<rparr>,
      \<lparr>ae_run_id = ''r'', ae_event_type = PLAN_CREATED, ae_payload = [(''nodes'', JInt 2)], ae_node_id = None,
       ae_at = 7, ae_seq = 2\<rparr>]"
  by (simp add: written_log_def make_event_def new_log_def redact_payload_def py_round_def round_half_even_def Let_def)

lemma seven_literal: "p_number ''7.0'' = Some (JFloat (Fin 7), [])"
  by code_simp

lemma written_storable: "list_all (storable sevens) (al_events written_log)"
proof -
  have ok: "list_all (\<lambda>e. json_ok sevens (event_to_json e)) (al_events written_log)"
    by (simp add: written_events event_to_json_def opt_str_def sevens_def seven_literal)
  have "list_all (\<lambda>e. CHR 0x85 \<notin> set (event_line sevens e)) (al_events written_log)"
    unfolding written_events by code_simp
  with ok show ?thesis by (simp add: storable_def list_all_iff)
qed

theorem honest_log_reopens_witness:
  "verify_integrity sevens ''p'' ''r'' (Some (al_text written_log)) = Inr [] \<and> al_seq written_log = 2"
  using honest_log_reopens [OF written_run written_storable, of "''p''"]
  by (simp add: written_events) (simp add: resumed_seq_def reloaded_def)

theorem removed_line_is_reported_once_witness:
  "verify_integrity sevens ''p'' ''r'' (Some (log_text [event_line sevens (al_events written_log ! 1)]))
     = Inr [''line 1: sequence gap, expected seq 1, found 2'']"
proof -
  have "gap_report 1 1 2 = ''line 1: sequence gap, expected seq 1, found 2''" by code_simp
  with removed_line_is_reported_once [OF written_run written_storable, of "[]" "al_events written_log ! 0"
      "[al_events written_log ! 1]" "''p''"]
  show ?thesis by (simp add: written_events)
qed

text \<open>
  The next-line character is written as it is, but ends a line for the reader: the check of a log nobody
  touched reports damage, and the event is lost on reload.
\<close>

theorem next_line_breaks_honest_log:
  "verify_integrity sevens ''p'' ''r''
     (Some (log_text [event_line sevens
        \<lparr>ae_run_id = ''r'', ae_event_type = RUN_STARTED, ae_payload = [(''text'', JStr [CHR 0x85])],
         ae_node_id = None, ae_at = 7, ae_seq = 1\<rparr>]))
   = Inr [''line 1: malformed JSON (Unterminated string starting at)'', ''line 2: malformed JSON (Unterminated string starting at)'']"
  by code_simp

end
