(* ===== verification/Dispatch.thy ===== *)
theory Dispatch
  imports AuditTrail
begin

text \<open>
  The dispatch boundary of \<^verbatim>\<open>keel/dispatch.py\<close>: stage outcomes, turning a stage's structured output into
  artifacts, and \<open>LocalDispatcher\<close>. The adapter is a function from a request to an exception or a
  response, the stage definitions are a list. What a dispatch does to the audit log is returned with
  its outcome, as the events it emits.
\<close>

section \<open>Outcomes\<close>

text \<open>An exception: the name of its type and its text.\<close>

type_synonym exn = "string \<times> string"

record stage_outcome =
  so_state :: task_state
  so_artifacts :: "artifact list"
  so_message :: string
  so_parsed :: "(string, json) dict option"
  so_input_tokens :: int
  so_output_tokens :: int
  so_cost_usd :: real
  so_model :: string
  so_from_replay :: bool

definition outcome_new :: "task_state \<Rightarrow> stage_outcome" where
  "outcome_new s = \<lparr>so_state = s, so_artifacts = [], so_message = [], so_parsed = None,
     so_input_tokens = 0, so_output_tokens = 0, so_cost_usd = 0, so_model = [], so_from_replay = False\<rparr>"

definition so_ok :: "stage_outcome \<Rightarrow> bool" where
  "so_ok o' \<longleftrightarrow> so_state o' = COMPLETED"

record dispatch_request =
  dr_node_id :: string
  dr_skill_id :: string
  dr_tier :: model_tier
  dr_payload :: "(string, string) dict"

type_synonym emission = "event_type \<times> (string, json) dict \<times> string option"

type_synonym dispatch_reply = "emission list \<times> (exn + stage_outcome)"

section \<open>Artifacts from structured output\<close>

definition file_artifact :: "(real \<Rightarrow> string) \<Rightarrow> string \<Rightarrow> json \<Rightarrow> artifact option" where
  "file_artifact fr node_id f =
     (case f of
        JObj kvs \<Rightarrow>
          (case dget kvs ''path'' of
             None \<Rightarrow> None
           | Some p \<Rightarrow>
               Some \<lparr>art_name = py_str fr p,
                     art_content = (case dget kvs ''content'' of None \<Rightarrow> [] | Some c \<Rightarrow> py_str fr c),
                     art_produced_by = node_id, art_path = Some (py_str fr p),
                     art_media_type = (if str_endswith (py_str fr p) ''.py'' then ''text/x-python''
                                       else ''text/plain'')\<rparr>)
      | _ \<Rightarrow> None)"

definition artifacts_from_parsed ::
  "(real \<Rightarrow> string) \<Rightarrow> (string, json) dict \<Rightarrow> string \<Rightarrow> string \<Rightarrow> artifact list" where
  "artifacts_from_parsed fr parsed node_id fallback_name =
     (let out = (case dget parsed ''files'' of
                   Some (JArr files) \<Rightarrow> List.map_filter (file_artifact fr node_id) files
                 | _ \<Rightarrow> [])
      in if out \<noteq> [] then out
         else [\<lparr>art_name = fallback_name, art_content = dumps_indent fr 0 (JObj parsed),
                art_produced_by = node_id, art_path = None, art_media_type = ''application/json''\<rparr>])"

section \<open>Stage definitions and their prompts\<close>

record stage_definition =
  sd_skill_id :: string
  sd_system_prompt :: string
  sd_prompt_template :: string
  sd_json_schema :: "(string, json) dict option"

text \<open>
  \<open>template.format(**payload)\<close> for templates whose fields are plain names; doubled braces are literal
  ones. The first argument is the field being read, reversed.
\<close>

fun format_text :: "string option \<Rightarrow> (string, string) dict \<Rightarrow> string \<Rightarrow> exn + string" where
  "format_text None payload [] = Inr []"
| "format_text None payload (c # cs) =
     (if c = CHR 0x7B
      then (if str_startswith cs [CHR 0x7B]
            then map_sum id (Cons c) (format_text None payload (tl cs))
            else format_text (Some []) payload cs)
      else if c = CHR 0x7D
      then (if str_startswith cs [CHR 0x7D]
            then map_sum id (Cons c) (format_text None payload (tl cs))
            else Inl (''ValueError'', ''Single closing brace encountered in format string''))
      else map_sum id (Cons c) (format_text None payload cs))"
| "format_text (Some name) payload [] = Inl (''ValueError'', ''unmatched opening brace in format string'')"
| "format_text (Some name) payload (c # cs) =
     (if c = CHR 0x7D
      then (case dget payload (rev name) of
              None \<Rightarrow> Inl (''KeyError'', str_repr (rev name))
            | Some v \<Rightarrow> map_sum id (append v) (format_text None payload cs))
      else format_text (Some (c # name)) payload cs)"

section \<open>The local dispatcher\<close>

text \<open>What a dispatcher is built with: hashing and float printing, its adapter, its definitions, and
  whether calls are recorded.\<close>

record local_dispatcher =
  ld_sha :: "string \<Rightarrow> string"
  ld_fr :: "real \<Rightarrow> string"
  ld_adapter :: "adapter_request \<Rightarrow> exn + adapter_response"
  ld_definitions :: "stage_definition list"
  ld_on_call :: bool

definition definition_for :: "local_dispatcher \<Rightarrow> string \<Rightarrow> exn + stage_definition" where
  "definition_for d skill_id =
     (case List.find (\<lambda>s. sd_skill_id s = skill_id) (ld_definitions d) of
        None \<Rightarrow> Inl (''KeyError'', str_repr (''no stage definition for skill '' @ str_repr skill_id))
      | Some s \<Rightarrow> Inr s)"

definition outcome_of_response ::
  "local_dispatcher \<Rightarrow> dispatch_request \<Rightarrow> adapter_response \<Rightarrow> stage_outcome" where
  "outcome_of_response d r response =
     (let base = (outcome_new FAILED)\<lparr>so_input_tokens := rs_input_tokens response,
            so_output_tokens := rs_output_tokens response, so_cost_usd := rs_cost_usd response,
            so_model := rs_model response, so_from_replay := rs_from_replay response\<rparr>
      in case rs_parsed response of
           None \<Rightarrow> base\<lparr>so_message := ''stage returned no parseable structured output''\<rparr>
         | Some parsed \<Rightarrow>
             base\<lparr>so_state := COMPLETED,
               so_artifacts := artifacts_from_parsed (ld_fr d) parsed (dr_node_id r) (dr_skill_id r @ ''.json''),
               so_parsed := Some parsed, so_message := ''ok''\<rparr>)"

definition local_dispatch :: "local_dispatcher \<Rightarrow> dispatch_request \<Rightarrow> dispatch_reply" where
  "local_dispatch d r =
     (case definition_for d (dr_skill_id r) of
        Inl e \<Rightarrow> ([], Inl e)
      | Inr defn \<Rightarrow>
          (case format_text None (dr_payload r) (sd_prompt_template defn) of
             Inl e \<Rightarrow> ([], Inl e)
           | Inr prompt \<Rightarrow>
               (let request = \<lparr>rq_node_id = dr_node_id r, rq_skill_id = dr_skill_id r, rq_tier = dr_tier r,
                      rq_system = sd_system_prompt defn, rq_prompt = prompt,
                      rq_json_schema = sd_json_schema defn\<rparr>
                in case ld_adapter d request of
                     Inl e \<Rightarrow> ([], Inl e)
                   | Inr response \<Rightarrow>
                       (if ld_on_call d
                        then [(MODEL_CALL, model_call_payload (ld_sha d) (ld_fr d) request response,
                               Some (dr_node_id r))]
                        else [],
                        Inr (outcome_of_response d r response)))))"

end
