(* ===== verification/Executor.thy ===== *)
theory Executor
  imports Planner GraphQueries Policy Approvals Lineage Workspace Dispatch
begin

text \<open>
  One node of a run, \<^verbatim>\<open>keel/executor.py\<close>: \<open>_run_node\<close> and the helpers it calls. A node runs as a coroutine, so it
  is modelled as a task whose phase is the point where it is suspended: not started, sleeping before
  a retry, waiting for the dispatcher, returned, or ended by an exception. One step of a task is the
  code between two suspension points; it changes the state the nodes of a run share, the world.

  What the program reads from outside (the clock, fresh ids, the dispatcher, the test process, the
  choice of the event loop, a stop request) is the environment: functions of a counter that grows
  with every reading, so that two readings are unrelated. The calls of a live view, which hand nothing back, are left out.
\<close>

section \<open>Environment and shared state\<close>

record env =
  en_sha :: "string \<Rightarrow> string"
  en_fr :: "real \<Rightarrow> string"
  en_time :: "nat \<Rightarrow> real"
  en_uuid :: "nat \<Rightarrow> string"
  en_dispatch :: "nat \<Rightarrow> dispatch_request \<Rightarrow> dispatch_reply"
  en_pytest :: "nat \<Rightarrow> workspace \<Rightarrow> process_result \<times> fs"
  en_interpreter :: string
  en_sched :: "nat \<Rightarrow> nat"
  en_stop :: "nat \<Rightarrow> bool"
  en_ws_exn :: "ws_error \<Rightarrow> exn"
  en_broker_exn :: "broker_error \<Rightarrow> exn"
  en_graph_exn :: "graph_error \<Rightarrow> exn"
  en_planner_exn :: "planner_error \<Rightarrow> exn"
  en_max_revisions :: int
  en_max_repairs :: int

record world =
  w_tick :: nat
  w_ws :: workspace
  w_audit :: audit_log
  w_policy :: policy_engine
  w_lineage :: lineage_store
  w_broker :: broker
  w_problem :: engineering_problem
  w_outputs :: "(string, (string, json) dict) dict"
  w_baseline :: string
  w_sees :: "(string, bool) dict"
  w_ancestors :: "(string, string set) dict"
  w_path_owner :: "(string, string) dict"
  w_repair_note :: "string option"

text \<open>What raises carries the world it leaves behind.\<close>

type_synonym 'a raising = "(exn \<times> world) + 'a \<times> world"

definition ticked :: "world \<Rightarrow> world" where
  "ticked w = w\<lparr>w_tick := Suc (w_tick w)\<rparr>"

definition log_event ::
  "env \<Rightarrow> event_type \<Rightarrow> (string, json) dict \<Rightarrow> string option \<Rightarrow> world \<Rightarrow> world" where
  "log_event env et payload node_id w =
     (ticked w)\<lparr>w_audit := emit (en_fr env) (en_time env (w_tick w)) et payload node_id (w_audit w)\<rparr>"

definition log_all :: "env \<Rightarrow> emission list \<Rightarrow> world \<Rightarrow> world" where
  "log_all env es w = fold (\<lambda>(et, payload, node_id). log_event env et payload node_id) es w"

datatype phase =
    Fresh
  | Sleeping
  | Dispatching dispatch_request
  | Returned
  | Raised exn

record task =
  tk_node :: node_spec
  tk_result :: node_result
  tk_snapshot :: "snapshot option"
  tk_written :: "string list"
  tk_failure :: string
  tk_phase :: phase

definition new_task :: "node_spec \<Rightarrow> task" where
  "new_task n = \<lparr>tk_node = n, tk_result = nr_new (ns_id n) WORKING, tk_snapshot = None,
     tk_written = [], tk_failure = [], tk_phase = Fresh\<rparr>"

definition on_result :: "(node_result \<Rightarrow> node_result) \<Rightarrow> task \<Rightarrow> task" where
  "on_result f t = t\<lparr>tk_result := f (tk_result t)\<rparr>"

definition raised :: "exn \<Rightarrow> task \<Rightarrow> task" where
  "raised e t = t\<lparr>tk_phase := Raised e\<rparr>"

section \<open>Text a stage is given\<close>

definition or_text :: "string \<Rightarrow> string \<Rightarrow> string" where
  "or_text s d = (if s = [] then d else s)"

definition as_text :: "(real \<Rightarrow> string) \<Rightarrow> json option \<Rightarrow> string" where
  "as_text fr v =
     (case v of
        None \<Rightarrow> ''(not available)''
      | Some JNull \<Rightarrow> ''(not available)''
      | Some (JStr s) \<Rightarrow> s
      | Some j \<Rightarrow> take 12000 (dumps_indent fr 0 j))"

definition blank_line :: string where
  "blank_line = newline @ newline"

definition empty_workspace_text :: string where
  "empty_workspace_text = ''(empty workspace, this is a new system)''"

definition code_chunk :: "workspace \<Rightarrow> string \<Rightarrow> string option" where
  "code_chunk ws path =
     (case ws_read ws path of
        Inl _ \<Rightarrow> None
      | Inr c \<Rightarrow> Some (''--- '' @ path @ '' ---'' @ newline @ c))"

definition existing_code :: "workspace \<Rightarrow> string" where
  "existing_code ws =
     (let files = list_files ws
      in if files = [] then empty_workspace_text
         else str_join blank_line (List.map_filter (code_chunk ws) (take 40 files)))"

definition bullets :: "string list \<Rightarrow> string" where
  "bullets xs = str_join newline (map (\<lambda>c. ''- '' @ c) xs)"

definition output_text :: "env \<Rightarrow> world \<Rightarrow> string \<Rightarrow> string" where
  "output_text env w k = as_text (en_fr env) (map_option JObj (dget (w_outputs w) k))"

definition prior_answers :: "engineering_problem \<Rightarrow> string" where
  "prior_answers p =
     str_join newline (map (\<lambda>a. ''- '' @ amb_question a @ '': '' @ (case amb_answer a of None \<Rightarrow> [] | Some s \<Rightarrow> s))
       (filter amb_resolved (ep_ambiguities p)))"

definition retry_text :: "string \<Rightarrow> string" where
  "retry_text last_failure =
     (if last_failure = [] then []
      else blank_line @ ''A previous attempt at this stage was rejected by the quality gate. ''
        @ ''Fix the cause rather than working around the check.'' @ newline @ last_failure)"

definition fallback_text :: "node_spec \<Rightarrow> bool \<Rightarrow> string" where
  "fallback_text n use_fallback =
     (case rp_fallback_hint (ns_retry n) of
        Some hint \<Rightarrow> if use_fallback \<and> hint \<noteq> []
          then blank_line @ ''This is the final attempt. Adjust approach: '' @ hint @ ''.'' else []
      | None \<Rightarrow> [])"

definition repair_text :: "world \<Rightarrow> node_spec \<Rightarrow> string" where
  "repair_text w n =
     (case w_repair_note w of
        Some note \<Rightarrow> if note \<noteq> [] \<and> ns_id n = IMPLEMENT then blank_line @ note else []
      | None \<Rightarrow> [])"

definition source_text :: "world \<Rightarrow> node_spec \<Rightarrow> string" where
  "source_text w n =
     (if dget (w_sees w) (ns_id n) = Some True then existing_code (w_ws w)
      else or_text (w_baseline w) empty_workspace_text)"

definition payload :: "env \<Rightarrow> world \<Rightarrow> node_spec \<Rightarrow> bool \<Rightarrow> string \<Rightarrow> (string, string) dict" where
  "payload env w n use_fallback last_failure =
     (let p = w_problem w; source = source_text w n in
      [(''requirement'', ep_raw_requirement p @ repair_text w n @ retry_text last_failure
          @ fallback_text n use_fallback),
       (''intent'', or_text (ep_intent p) (ep_raw_requirement p)),
       (''scenario'', sc_value (ep_scenario p)),
       (''acceptance_criteria'', or_text (bullets (ep_acceptance_criteria p)) ''(none stated)''),
       (''constraints'', or_text (bullets (ep_constraints p)) ''(none stated)''),
       (''existing_code'', source),
       (''prior_answers'', or_text (prior_answers p) ''(none)''),
       (''design'', output_text env w ''design''),
       (''impact'', output_text env w ''impact-analysis''),
       (''implementation'', source),
       (''artifacts'', source),
       (''source'', source),
       (''test_results'', output_text env w VERIFY),
       (''review'', output_text env w ''review''),
       (''review_findings'', output_text env w ''review'')])"

definition failure_brief :: "string \<Rightarrow> policy_violation list \<Rightarrow> string" where
  "failure_brief reason violations =
     take 4000 (str_join newline ((''Gate result: '' @ reason) #
       map (\<lambda>v. ''- ['' @ sev_value (pv_severity v) @ ''] '' @ pv_rule_id v
            @ (case pv_location v of Some l \<Rightarrow> if l = [] then [] else '' at '' @ l | None \<Rightarrow> [])
            @ '': '' @ pv_message v) (take 8 violations)))"

section \<open>Before the work: approval, inputs, entry gate\<close>

definition approve :: "env \<Rightarrow> node_spec \<Rightarrow> world \<Rightarrow> bool raising" where
  "approve env n w =
     (let req = \<lparr>aq_node_id = ns_id n,
                 aq_reason = sk_value (ns_kind n) @ '' stage modifies an existing public surface'',
                 aq_impact = ns_impact n, aq_details = ns_description n,
                 aq_request_id = en_uuid env (w_tick w)\<rparr>;
          w1 = log_event env APPROVAL_REQUESTED
                 [(''impact'', JStr (impact_value (ns_impact n))), (''reason'', JStr (aq_reason req))]
                 (Some (ns_id n)) (ticked w)
      in case request req (w_broker w1) of
           Inl e \<Rightarrow> Inl (en_broker_exn env e, w1)
         | Inr (d, b) \<Rightarrow>
             (let w2 = log_event env APPROVAL_DECIDED
                    [(''approved'', JBool (ad_approved d)), (''by'', JStr (ad_decided_by d)),
                     (''note'', JStr (ad_note d))] (Some (ns_id n)) (w1\<lparr>w_broker := b\<rparr>)
              in Inr (ad_approved d,
                   if ad_approved d then w2\<lparr>w_policy := record_approval (ns_id n) (w_policy w2)\<rparr> else w2)))"

definition consume_input :: "env \<Rightarrow> node_spec \<Rightarrow> string \<Rightarrow> world \<Rightarrow> world" where
  "consume_input env n dep w =
     (case dget (w_outputs w) dep of
        None \<Rightarrow> w
      | Some parsed \<Rightarrow>
          w\<lparr>w_lineage := snd (record_consumption (en_sha env) (ns_id n)
               (text_artifact (dep @ ''.json'') (as_text (en_fr env) (Some (JObj parsed))) dep) (w_lineage w))\<rparr>)"

definition inputs_for :: "env \<Rightarrow> node_spec \<Rightarrow> world \<Rightarrow> world" where
  "inputs_for env n w = fold (consume_input env n) (ns_depends_on n) w"

definition missing_inputs :: "node_spec \<Rightarrow> world \<Rightarrow> string list" where
  "missing_inputs n w = filter (\<lambda>d. dget (w_outputs w) d = None) (ns_depends_on n)"

definition entry_gate :: "node_spec \<Rightarrow> world \<Rightarrow> gate_decision" where
  "entry_gate n w =
     (let entry = decide ''entry'' (w_policy w) n [];
          missing = missing_inputs n w
      in if gd_allowed entry \<and> missing \<noteq> []
         then gate_deny ''entry'' (ns_id n)
                (''required upstream output missing: '' @ str_join '', '' (sort missing)) []
         else entry)"

section \<open>After the work: finishing, persisting, rolling back\<close>

definition finish :: "env \<Rightarrow> task \<Rightarrow> world \<Rightarrow> task \<times> world" where
  "finish env t w =
     (let r = (tk_result t)\<lparr>nr_ended_at := en_time env (w_tick w)\<rparr>
      in (t\<lparr>tk_result := r, tk_phase := Returned\<rparr>,
          log_event env NODE_FINISHED
            [(''state'', JStr (ts_value (nr_state r))), (''attempts'', JInt (nr_attempts r)),
             (''duration'', JFloat (Fin (py_round (nr_duration r) 3))),
             (''cost_usd'', JFloat (Fin (py_round (nr_cost_usd r) 6))),
             (''rolled_back'', JBool (nr_rolled_back r)), (''used_fallback'', JBool (nr_used_fallback r)),
             (''error'', opt_str (nr_error r))] (Some (ns_id (tk_node t))) (ticked w)))"

definition finish_with :: "env \<Rightarrow> task_state \<Rightarrow> string \<Rightarrow> task \<Rightarrow> world \<Rightarrow> task \<times> world" where
  "finish_with env s err t w = finish env (on_result (\<lambda>r. r\<lparr>nr_state := s, nr_error := Some err\<rparr>) t) w"

definition check_write_conflict :: "env \<Rightarrow> node_spec \<Rightarrow> string \<Rightarrow> world \<Rightarrow> world" where
  "check_write_conflict env n path w =
     (let ancestors = (\<lambda>i. case dget (w_ancestors w) i of None \<Rightarrow> {} | Some s \<Rightarrow> s);
          w1 = (case dget (w_path_owner w) path of
                  None \<Rightarrow> w
                | Some owner \<Rightarrow>
                    if owner \<noteq> [] \<and> owner \<noteq> ns_id n
                       \<and> \<not> (owner \<in> ancestors (ns_id n) \<or> ns_id n \<in> ancestors owner)
                    then log_event env POLICY_VIOLATION
                      [(''rule'', JStr ''orchestration.concurrent_write''), (''severity'', JStr ''medium''),
                       (''message'', JStr (str_repr (ns_id n) @ '' overwrote '' @ str_repr path
                          @ '' previously written by '' @ str_repr owner
                          @ ''; neither depends on the other, so which content survives depends on ''
                          @ ''which finished last'')),
                       (''location'', JStr path)] (Some (ns_id n)) w
                    else w)
      in w1\<lparr>w_path_owner := dset path (ns_id n) (w_path_owner w1)\<rparr>)"

definition persist_one ::
  "env \<Rightarrow> node_spec \<Rightarrow> artifact \<Rightarrow> artifact list \<times> world \<Rightarrow> (exn \<times> world) + artifact list \<times> world" where
  "persist_one env n a st =
     (case st of (written, w) \<Rightarrow>
        (case art_path a of
           None \<Rightarrow> Inr (written @ [a], w)
         | Some path \<Rightarrow>
             if path = [] then Inr (written @ [a], w)
             else
               (let w1 = check_write_conflict env n path w
                in case ws_write (w_ws w1) path (art_content a) [] None None of
                     Inl (e, ws) \<Rightarrow> Inl (en_ws_exn env e, w1\<lparr>w_ws := ws\<rparr>)
                   | Inr (stored, ws) \<Rightarrow>
                       (let stored = stored\<lparr>art_produced_by := ns_id n\<rparr>
                        in Inr (written @ [stored],
                             log_event env ARTIFACT_WRITTEN
                               [(''path'', JStr path), (''sha'', JStr (art_sha (en_sha env) stored))]
                               (Some (ns_id n)) (w1\<lparr>w_ws := ws\<rparr>))))))"

definition persist :: "env \<Rightarrow> node_spec \<Rightarrow> stage_outcome \<Rightarrow> world \<Rightarrow> artifact list raising" where
  "persist env n outcome w = efold (persist_one env n) (so_artifacts outcome) ([], w)"

definition rollback :: "env \<Rightarrow> task \<Rightarrow> snapshot \<Rightarrow> world \<Rightarrow> task raising" where
  "rollback env t sn w =
     (case ws_restore_paths (w_ws w) sn (sort (tk_written t)) of
        Inl (e, ws) \<Rightarrow> Inl (en_ws_exn env e, w\<lparr>w_ws := ws\<rparr>)
      | Inr (ws, changed) \<Rightarrow>
          Inr (on_result (\<lambda>r. r\<lparr>nr_rolled_back := True\<rparr>) t,
               log_event env ROLLBACK
                 [(''restored'', JArr (map JStr changed)), (''scope'', JArr (map JStr (sort (tk_written t))))]
                 (Some (ns_id (tk_node t))) (w\<lparr>w_ws := ws\<rparr>)))"

definition log_violation :: "env \<Rightarrow> node_spec \<Rightarrow> policy_violation \<Rightarrow> world \<Rightarrow> world" where
  "log_violation env n v w =
     log_event env POLICY_VIOLATION
       [(''rule'', JStr (pv_rule_id v)), (''severity'', JStr (sev_value (pv_severity v))),
        (''message'', JStr (pv_message v)), (''location'', opt_str (pv_location v))] (Some (ns_id n)) w"

definition log_gate :: "env \<Rightarrow> node_spec \<Rightarrow> gate_decision \<Rightarrow> (string, json) dict \<Rightarrow> world \<Rightarrow> world" where
  "log_gate env n d extra w =
     log_event env GATE_DECISION
       ([(''gate'', JStr (gd_gate d)), (''allowed'', JBool (gd_allowed d)), (''reason'', JStr (gd_reason d))] @ extra)
       (Some (ns_id n)) w"

section \<open>Attempts\<close>

definition attempts_of :: "node_spec \<Rightarrow> int" where
  "attempts_of n = rp_max_attempts (ns_retry n) + 1"

text \<open>No attempt is left.\<close>

definition give_up :: "env \<Rightarrow> task \<Rightarrow> world \<Rightarrow> task \<times> world" where
  "give_up env t w =
     (let t1 = on_result (\<lambda>r. r\<lparr>nr_state := FAILED\<rparr>) t
      in case tk_snapshot t1 of
           None \<Rightarrow> finish env t1 w
         | Some sn \<Rightarrow>
             if nr_rolled_back (tk_result t1) then finish env t1 w
             else (case rollback env t1 sn w of
                     Inl (e, w1) \<Rightarrow> (raised e t1, w1)
                   | Inr (t2, w1) \<Rightarrow> finish env t2 w1))"

text \<open>The next round of the attempt loop, up to its sleep.\<close>

definition next_attempt :: "env \<Rightarrow> task \<Rightarrow> world \<Rightarrow> task \<times> world" where
  "next_attempt env t w =
     (let attempt = nr_attempts (tk_result t) + 1
      in if attempt \<le> attempts_of (tk_node t)
         then (case delay_for (ns_retry (tk_node t)) (attempt - 1) of
                 None \<Rightarrow> (raised (''ValueError'', ''attempt is 1-based; the first retry is attempt=1'') t, w)
               | Some delay \<Rightarrow>
                   ((on_result (\<lambda>r. r\<lparr>nr_attempts := attempt\<rparr>) t)\<lparr>tk_phase := Sleeping\<rparr>,
                    log_event env RETRY
                      [(''attempt'', JInt attempt), (''delay'', JFloat (Fin delay))]
                      (Some (ns_id (tk_node t))) w))
         else give_up env t w)"

text \<open>The exit gate has spoken about what was written.\<close>

definition commit ::
  "env \<Rightarrow> task \<Rightarrow> stage_outcome \<Rightarrow> artifact list \<Rightarrow> world \<Rightarrow> task \<times> world" where
  "commit env t outcome written w =
     (let n = tk_node t;
          w1 = w\<lparr>w_outputs := dset (ns_id n) (case so_parsed outcome of None \<Rightarrow> [] | Some p \<Rightarrow> p) (w_outputs w),
                 w_lineage := fold (record_production (en_sha env)) written (w_lineage w)\<rparr>
      in finish env (on_result (\<lambda>r. r\<lparr>nr_state := COMPLETED, nr_artifacts := written\<rparr>) t) w1)"

definition reject ::
  "env \<Rightarrow> task \<Rightarrow> gate_decision \<Rightarrow> world \<Rightarrow> task \<times> world" where
  "reject env t gate w =
     (let t1 = (on_result (\<lambda>r. r\<lparr>nr_error := Some (''exit gate: '' @ gd_reason gate)\<rparr>) t)
                 \<lparr>tk_failure := failure_brief (gd_reason gate) (gd_violations gate)\<rparr>
      in case tk_snapshot t1 of
           None \<Rightarrow> next_attempt env t1 w
         | Some sn \<Rightarrow> (case rollback env t1 sn w of
                         Inl (e, w1) \<Rightarrow> (raised e t1, w1)
                       | Inr (t2, w1) \<Rightarrow> next_attempt env t2 w1))"

definition exit_gate ::
  "env \<Rightarrow> task \<Rightarrow> stage_outcome \<Rightarrow> artifact list \<Rightarrow> world \<Rightarrow> task \<times> world" where
  "exit_gate env t outcome written w =
     (let n = tk_node t;
          paths = List.map_filter (\<lambda>a. case art_path a of Some p \<Rightarrow> if p = [] then None else Some p | None \<Rightarrow> None) written;
          gate = decide ''exit'' (w_policy w) n written;
          t1 = (on_result (\<lambda>r. r\<lparr>nr_gate_decisions := nr_gate_decisions r @ [gate]\<rparr>) t)
                 \<lparr>tk_written := uniq (tk_written t @ paths)\<rparr>;
          w1 = log_gate env n gate [(''violations'', JArr (map (JStr \<circ> pv_rule_id) (gd_violations gate)))] w;
          w2 = fold (log_violation env n) (gd_violations gate) w1
      in if gd_allowed gate then commit env t1 outcome written w2 else reject env t1 gate w2)"

text \<open>The dispatcher has answered.\<close>

definition finish_attempt :: "env \<Rightarrow> task \<Rightarrow> stage_outcome \<Rightarrow> world \<Rightarrow> task \<times> world" where
  "finish_attempt env t outcome w =
     (let t1 = on_result (\<lambda>r. r\<lparr>nr_input_tokens := nr_input_tokens r + so_input_tokens outcome,
                 nr_output_tokens := nr_output_tokens r + so_output_tokens outcome,
                 nr_cost_usd := nr_cost_usd r + so_cost_usd outcome\<rparr>) t
      in if so_state outcome = INPUT_REQUIRED
         then finish_with env INPUT_REQUIRED (so_message outcome) t1 w
         else if so_state outcome \<noteq> COMPLETED
         then (let err = or_text (so_message outcome) ''stage failed''
               in next_attempt env ((on_result (\<lambda>r. r\<lparr>nr_error := Some err, nr_artifacts := so_artifacts outcome\<rparr>) t1)
                    \<lparr>tk_failure := err\<rparr>) w)
         else (case persist env (tk_node t1) outcome w of
                 Inl (e, w1) \<Rightarrow> (raised e t1, w1)
               | Inr (written, w1) \<Rightarrow> exit_gate env t1 outcome written w1))"

definition tail4000 :: "string \<Rightarrow> string" where
  "tail4000 s = drop (length s - 4000) s"

definition verify_outcome :: "env \<Rightarrow> int \<times> string \<times> string \<Rightarrow> stage_outcome" where
  "verify_outcome env r =
     (case r of (code, out, err) \<Rightarrow>
        if code = 127
        then (outcome_new FAILED)\<lparr>
               so_message := ''pytest could not be executed at all ('' @ en_interpreter env @ '')'',
               so_artifacts := [text_artifact ''verify.txt'' (''exit=127'' @ newline @ err) VERIFY],
               so_parsed := Some [(''exit_code'', JInt code), (''passed'', JBool False), (''executed'', JBool False)]\<rparr>
        else (outcome_new (if code = 0 then COMPLETED else FAILED))\<lparr>
               so_artifacts := [text_artifact ''verify.txt''
                 (''exit='' @ str_int code @ blank_line @ ''--- stdout ---'' @ newline @ out @ blank_line
                  @ ''--- stderr ---'' @ newline @ err) VERIFY],
               so_parsed := Some [(''exit_code'', JInt code), (''passed'', JBool (code = 0)),
                 (''output'', JStr (tail4000 out))],
               so_message := (if code = 0 then ''tests passed'' else ''pytest exited '' @ str_int code)\<rparr>)"

text \<open>The test process runs in the workspace and may change it.\<close>

definition verify :: "env \<Rightarrow> world \<Rightarrow> stage_outcome raising" where
  "verify env w =
     (case en_pytest env (w_tick w) (w_ws w) of (answer, fs) \<Rightarrow>
        (let w1 = (ticked w)\<lparr>w_ws := (w_ws w)\<lparr>ws_fs := fs\<rparr>\<rparr>
         in case run_command (\<lambda>_. answer) [en_interpreter env, ''-m'', ''pytest'', ''-q'', ''--no-header''] 180 of
              Inl e \<Rightarrow> Inl (en_ws_exn env e, w1)
            | Inr r \<Rightarrow> Inr (verify_outcome env r, w1)))"

definition last_attempt :: "task \<Rightarrow> bool" where
  "last_attempt t \<longleftrightarrow> nr_attempts (tk_result t) = attempts_of (tk_node t) \<and> 1 < nr_attempts (tk_result t)"

definition fallback_model :: "node_spec \<Rightarrow> model_tier" where
  "fallback_model n = (case rp_fallback_tier (ns_retry n) of None \<Rightarrow> ns_model_tier n | Some tier \<Rightarrow> tier)"

text \<open>\<open>_dispatch\<close>: the verification runs at once, every other stage is handed to the dispatcher.\<close>

definition dispatch_node :: "env \<Rightarrow> bool \<Rightarrow> task \<Rightarrow> world \<Rightarrow> task \<times> world" where
  "dispatch_node env use_fallback t w =
     (let n = tk_node t
      in if ns_id n = VERIFY
         then (case verify env w of
                 Inl (e, w1) \<Rightarrow> (raised e t, w1)
               | Inr (outcome, w1) \<Rightarrow> finish_attempt env t outcome w1)
         else (t\<lparr>tk_phase := Dispatching \<lparr>dr_node_id = ns_id n, dr_skill_id = ns_skill_id n,
                 dr_tier = (if use_fallback then fallback_model n else ns_model_tier n),
                 dr_payload = payload env w n use_fallback (tk_failure t)\<rparr>\<rparr>, w))"

text \<open>An attempt begins; the last of several is the fallback.\<close>

definition launch :: "env \<Rightarrow> task \<Rightarrow> world \<Rightarrow> task \<times> world" where
  "launch env t w =
     (if last_attempt t
      then dispatch_node env True (on_result (\<lambda>r. r\<lparr>nr_used_fallback := True\<rparr>) t)
             (log_event env FALLBACK
               [(''hint'', opt_str (rp_fallback_hint (ns_retry (tk_node t)))),
                (''tier'', JStr (mt_value (fallback_model (tk_node t))))] (Some (ns_id (tk_node t))) w)
      else dispatch_node env False t w)"

definition take_snapshot :: "env \<Rightarrow> node_spec \<Rightarrow> world \<Rightarrow> snapshot option raising" where
  "take_snapshot env n w =
     (if ns_rollback n
      then (case ws_snapshot (w_ws w) [] of
              Inl e \<Rightarrow> Inl (en_ws_exn env e, w)
            | Inr sn \<Rightarrow> Inr (Some sn, w))
      else Inr (None, w))"

text \<open>From the entry gate to the first attempt.\<close>

definition enter :: "env \<Rightarrow> task \<Rightarrow> world \<Rightarrow> task \<times> world" where
  "enter env t w =
     (let n = tk_node t;
          w1 = inputs_for env n w;
          entry = entry_gate n w1;
          t1 = on_result (\<lambda>r. r\<lparr>nr_gate_decisions := nr_gate_decisions r @ [entry]\<rparr>) t;
          w2 = log_gate env n entry [] w1
      in if \<not> gd_allowed entry
         then finish_with env REJECTED (''entry gate: '' @ gd_reason entry) t1 w2
         else (case take_snapshot env n w2 of
                 Inl (e, w3) \<Rightarrow> (raised e t1, w3)
               | Inr (sn, w3) \<Rightarrow>
                   (let t2 = t1\<lparr>tk_snapshot := sn\<rparr>
                    in if 1 \<le> attempts_of n
                       then launch env (on_result (\<lambda>r. r\<lparr>nr_attempts := 1\<rparr>) t2) w3
                       else give_up env t2 w3)))"

definition start :: "env \<Rightarrow> task \<Rightarrow> world \<Rightarrow> task \<times> world" where
  "start env t w =
     (let n = tk_node t;
          t1 = on_result (\<lambda>r. r\<lparr>nr_started_at := en_time env (w_tick w)\<rparr>) t;
          w1 = log_event env NODE_STARTED [(''kind'', JStr (sk_value (ns_kind n)))] (Some (ns_id n)) (ticked w)
      in if needs_approval n
         then (case approve env n w1 of
                 Inl (e, w2) \<Rightarrow> (raised e t1, w2)
               | Inr (granted, w2) \<Rightarrow>
                   if granted then enter env t1 w2
                   else finish_with env REJECTED ''human declined the change'' t1 w2)
         else enter env t1 w1)"

text \<open>One step of a task: the code up to its next suspension point.\<close>

definition step_task :: "env \<Rightarrow> task \<Rightarrow> world \<Rightarrow> task \<times> world" where
  "step_task env t w =
     (case tk_phase t of
        Fresh \<Rightarrow> start env t w
      | Sleeping \<Rightarrow> launch env t w
      | Dispatching req \<Rightarrow>
          (case en_dispatch env (w_tick w) req of (emitted, answer) \<Rightarrow>
             (let w1 = log_all env emitted (ticked w)
              in case answer of
                   Inl e \<Rightarrow> (raised e t, w1)
                 | Inr outcome \<Rightarrow> finish_attempt env t outcome w1))
      | _ \<Rightarrow> (t, w))"

end
