(* ===== verification/ExecutorTask.thy ===== *)
theory ExecutorTask
  imports Executor
begin

text \<open>
  The life of one node. What an attempt can end in, whatever the environment answers: another attempt
  after a sleep, a result, or an exception; and what is true of a task at each of its suspension
  points. Every fact here is about the task alone, so it holds under every interleaving.
\<close>

section \<open>Selectors\<close>

lemma on_result_sel [simp]:
  "tk_node (on_result f t) = tk_node t" "tk_result (on_result f t) = f (tk_result t)"
  "tk_snapshot (on_result f t) = tk_snapshot t" "tk_written (on_result f t) = tk_written t"
  "tk_failure (on_result f t) = tk_failure t" "tk_phase (on_result f t) = tk_phase t"
  by (simp_all add: on_result_def)

lemma raised_sel [simp]:
  "tk_node (raised e t) = tk_node t" "tk_result (raised e t) = tk_result t"
  "tk_phase (raised e t) = Raised e" "tk_written (raised e t) = tk_written t"
  "tk_snapshot (raised e t) = tk_snapshot t"
  by (simp_all add: raised_def)

lemma finish_sel [simp]:
  "tk_node (fst (finish env t w)) = tk_node t" "tk_phase (fst (finish env t w)) = Returned"
  "tk_result (fst (finish env t w)) = (tk_result t)\<lparr>nr_ended_at := en_time env (w_tick w)\<rparr>"
  "tk_written (fst (finish env t w)) = tk_written t" "tk_snapshot (fst (finish env t w)) = tk_snapshot t"
  by (simp_all add: finish_def Let_def)

lemma new_task_sel [simp]:
  "tk_node (new_task n) = n" "tk_phase (new_task n) = Fresh" "tk_result (new_task n) = nr_new (ns_id n) WORKING"
  "tk_snapshot (new_task n) = None" "tk_written (new_task n) = []"
  by (simp_all add: new_task_def)

lemma rollback_task:
  "rollback env t sn w = Inr (t', w') \<Longrightarrow> t' = on_result (\<lambda>r. r\<lparr>nr_rolled_back := True\<rparr>) t"
  by (auto simp: rollback_def split: sum.splits)

lemma decide_gate [simp]: "gd_gate (decide g rules n as) = g" "gd_node_id (decide g rules n as) = ns_id n"
  by (simp_all add: decide_def gate_deny_def Let_def)

lemma entry_gate_gate [simp]: "gd_gate (entry_gate n w) = ''entry''"
  by (simp add: entry_gate_def gate_deny_def Let_def)

section \<open>What an attempt ends in\<close>

text \<open>The fields only the scheduling of attempts may change.\<close>

definition keeps :: "task \<Rightarrow> task \<Rightarrow> bool" where
  "keeps t u \<longleftrightarrow> tk_node u = tk_node t \<and> tk_snapshot u = tk_snapshot t
     \<and> nr_node_id (tk_result u) = nr_node_id (tk_result t)
     \<and> nr_started_at (tk_result u) = nr_started_at (tk_result t)
     \<and> nr_attempts (tk_result u) = nr_attempts (tk_result t)
     \<and> nr_used_fallback (tk_result u) = nr_used_fallback (tk_result t)"

abbreviation gates :: "task \<Rightarrow> gate_decision list" where
  "gates t \<equiv> nr_gate_decisions (tk_result t)"

text \<open>
  From the answer of the dispatcher for attempt number \<open>nr_attempts\<close> to the next suspension, with the
  gate decisions taken on the way.
\<close>

definition ending :: "gate_decision list \<Rightarrow> int \<Rightarrow> int \<Rightarrow> bool \<Rightarrow> task \<Rightarrow> bool" where
  "ending gs limit attempt undo u \<longleftrightarrow>
     (case tk_phase u of
        Sleeping \<Rightarrow> nr_attempts (tk_result u) = attempt + 1 \<and> nr_attempts (tk_result u) \<le> limit
      | Returned \<Rightarrow> nr_attempts (tk_result u) = attempt
          \<and> (nr_state (tk_result u) = COMPLETED \<and> (\<exists>g. gs = [g] \<and> gd_allowed g)
             \<or> nr_state (tk_result u) = INPUT_REQUIRED
             \<or> nr_state (tk_result u) = FAILED \<and> limit \<le> attempt \<and> (undo \<longrightarrow> nr_rolled_back (tk_result u)))
      | Raised _ \<Rightarrow> nr_attempts (tk_result u) = attempt
      | _ \<Rightarrow> False)"

definition attempt_end :: "gate_decision list \<Rightarrow> task \<Rightarrow> task \<Rightarrow> bool" where
  "attempt_end gs t u \<longleftrightarrow>
     tk_node u = tk_node t \<and> tk_snapshot u = tk_snapshot t
     \<and> nr_node_id (tk_result u) = nr_node_id (tk_result t)
     \<and> nr_started_at (tk_result u) = nr_started_at (tk_result t)
     \<and> nr_used_fallback (tk_result u) = nr_used_fallback (tk_result t)
     \<and> gates u = gates t @ gs
     \<and> (\<forall>g \<in> set gs. gd_gate g = ''exit'' \<and>
          (gd_allowed g \<longrightarrow> tk_phase u = Returned \<and> nr_state (tk_result u) = COMPLETED))
     \<and> ending gs (attempts_of (tk_node t)) (nr_attempts (tk_result t)) (tk_snapshot t \<noteq> None) u"

lemma attempt_end_keeps: "keeps t u \<Longrightarrow> gates u = gates t \<Longrightarrow> attempt_end gs u v \<Longrightarrow> attempt_end gs t v"
  unfolding attempt_end_def keeps_def by simp

lemma ending_denied: "ending [] limit attempt undo v \<Longrightarrow> ending [g] limit attempt undo v"
  unfolding ending_def by (cases "tk_phase v") auto

lemma attempt_end_denied:
  assumes "attempt_end [] u v" and "keeps t u" and "gates u = gates t @ [g]"
    and "gd_gate g = ''exit''" and "\<not> gd_allowed g"
  shows "attempt_end [g] t v"
  using assms ending_denied unfolding attempt_end_def keeps_def by simp

lemma attempt_end_raised: "attempt_end [] t (raised e t)"
  by (simp add: attempt_end_def ending_def)

lemma keeps_refl [simp]: "keeps t t"
  by (simp add: keeps_def)

lemma give_up_end:
  assumes "attempts_of (tk_node t) \<le> nr_attempts (tk_result t)"
  shows "attempt_end [] t (fst (give_up env t w))"
proof (cases "tk_snapshot t")
  case None
  with assms show ?thesis by (simp add: give_up_def Let_def attempt_end_def ending_def)
next
  case (Some sn)
  let ?t = "on_result (\<lambda>r. r\<lparr>nr_state := FAILED\<rparr>) t"
  show ?thesis
  proof (cases "nr_rolled_back (tk_result t)")
    case True
    with assms Some show ?thesis by (simp add: give_up_def Let_def attempt_end_def ending_def)
  next
    case False
    show ?thesis
    proof (cases "rollback env ?t sn w")
      case (Inl e)
      then show ?thesis using assms Some False
        by (cases e) (simp add: give_up_def Let_def attempt_end_def ending_def)
    next
      case (Inr r)
      obtain t2 w2 where r: "r = (t2, w2)" by (cases r)
      from rollback_task [OF Inr [unfolded r]] Inr r assms Some False show ?thesis
        by (simp add: give_up_def Let_def attempt_end_def ending_def)
    qed
  qed
qed

lemma next_attempt_end: "attempt_end [] t (fst (next_attempt env t w))"
proof (cases "nr_attempts (tk_result t) + 1 \<le> attempts_of (tk_node t)")
  case True
  then show ?thesis
    by (simp add: next_attempt_def Let_def attempt_end_def ending_def split: option.split)
next
  case False
  then have "fst (next_attempt env t w) = fst (give_up env t w)" by (simp add: next_attempt_def Let_def)
  with give_up_end [of t env w] False show ?thesis by simp
qed

lemma reject_end: "attempt_end [] t (fst (reject env t gate w))"
proof -
  let ?t = "(on_result (\<lambda>r. r\<lparr>nr_error := Some (''exit gate: '' @ gd_reason gate)\<rparr>) t)
      \<lparr>tk_failure := failure_brief (gd_reason gate) (gd_violations gate)\<rparr>"
  have k: "keeps t ?t" "gates ?t = gates t" by (simp_all add: keeps_def)
  show ?thesis
  proof (cases "tk_snapshot t")
    case None
    with attempt_end_keeps [OF k next_attempt_end] show ?thesis by (simp add: reject_def Let_def)
  next
    case (Some sn)
    show ?thesis
    proof (cases "rollback env ?t sn w")
      case (Inl e)
      with attempt_end_keeps [OF k attempt_end_raised] Some show ?thesis
        by (cases e) (simp add: reject_def Let_def)
    next
      case (Inr r)
      obtain t2 w2 where r: "r = (t2, w2)" by (cases r)
      from rollback_task [OF Inr [unfolded r]] have k2: "keeps t t2" "gates t2 = gates t"
        by (simp_all add: keeps_def)
      from attempt_end_keeps [OF k2 next_attempt_end] Some Inr r show ?thesis
        by (simp add: reject_def Let_def)
    qed
  qed
qed

text \<open>The gate decisions of an answered attempt: none, or the exit gate on what was written.\<close>

lemma exit_gate_end:
  "attempt_end [decide ''exit'' (w_policy w) (tk_node t) written] t (fst (exit_gate env t outcome written w))"
proof -
  let ?g = "decide ''exit'' (w_policy w) (tk_node t) written"
  obtain t1 w2 where x: "fst (exit_gate env t outcome written w)
      = fst (if gd_allowed ?g then commit env t1 outcome written w2 else reject env t1 ?g w2)"
    and k: "keeps t t1" "gates t1 = gates t @ [?g]"
    by (simp add: exit_gate_def Let_def keeps_def)
  show ?thesis
  proof (cases "gd_allowed ?g")
    case True
    with x k show ?thesis by (simp add: commit_def Let_def attempt_end_def ending_def keeps_def)
  next
    case False
    from attempt_end_denied [OF reject_end k _ False] x False show ?thesis by simp
  qed
qed

lemma finish_attempt_end: "\<exists>gs. attempt_end gs t (fst (finish_attempt env t outcome w))"
proof -
  let ?t = "on_result (\<lambda>r. r\<lparr>nr_input_tokens := nr_input_tokens r + so_input_tokens outcome,
                 nr_output_tokens := nr_output_tokens r + so_output_tokens outcome,
                 nr_cost_usd := nr_cost_usd r + so_cost_usd outcome\<rparr>) t"
  have k: "keeps t ?t" "gates ?t = gates t" by (simp_all add: keeps_def)
  consider "so_state outcome = INPUT_REQUIRED"
    | "so_state outcome \<noteq> INPUT_REQUIRED" "so_state outcome \<noteq> COMPLETED"
    | "so_state outcome = COMPLETED" by blast
  then show ?thesis
  proof cases
    case 1
    then have "attempt_end [] t (fst (finish_attempt env t outcome w))"
      by (simp add: finish_attempt_def finish_with_def Let_def attempt_end_def ending_def)
    then show ?thesis by blast
  next
    case 2
    define err where "err = or_text (so_message outcome) ''stage failed''"
    let ?u = "(on_result (\<lambda>r. r\<lparr>nr_error := Some err, nr_artifacts := so_artifacts outcome\<rparr>) ?t)\<lparr>tk_failure := err\<rparr>"
    have "keeps t ?u" "gates ?u = gates t" by (simp_all add: keeps_def)
    from attempt_end_keeps [OF this next_attempt_end [of ?u env w]] 2 show ?thesis
      by (auto simp: finish_attempt_def Let_def err_def)
  next
    case 3
    show ?thesis
    proof (cases "persist env (tk_node ?t) outcome w")
      case (Inl e)
      with 3 attempt_end_keeps [OF k attempt_end_raised] show ?thesis
        by (cases e) (auto simp: finish_attempt_def Let_def)
    next
      case (Inr r)
      obtain written w1 where r: "r = (written, w1)" by (cases r)
      from attempt_end_keeps [OF k exit_gate_end [of w1 ?t written env outcome]] 3 Inr r show ?thesis
        by (auto simp: finish_attempt_def Let_def)
    qed
  qed
qed

section \<open>The steps of a task\<close>

text \<open>From the beginning of an attempt: it is handed over, or over already.\<close>

definition attempt_begun :: "task \<Rightarrow> task \<Rightarrow> bool" where
  "attempt_begun t u \<longleftrightarrow>
     (\<exists>req. tk_phase u = Dispatching req \<and> dr_node_id req = ns_id (tk_node t)
        \<and> keeps t u \<and> gates u = gates t)
     \<or> (\<exists>gs. attempt_end gs t u)"

lemma dispatch_node_begun: "attempt_begun t (fst (dispatch_node env fb t w))"
proof (cases "ns_id (tk_node t) = VERIFY")
  case True
  show ?thesis
  proof (cases "verify env w")
    case (Inl e)
    with True attempt_end_raised show ?thesis
      by (cases e) (auto simp: dispatch_node_def Let_def attempt_begun_def)
  next
    case (Inr r)
    obtain outcome w1 where "r = (outcome, w1)" by (cases r)
    with finish_attempt_end [of t env outcome w1] True Inr show ?thesis
      by (simp add: dispatch_node_def Let_def attempt_begun_def)
  qed
next
  case False
  then show ?thesis by (simp add: dispatch_node_def Let_def attempt_begun_def keeps_def)
qed

text \<open>Whether the attempt under way is marked as the fallback.\<close>

definition with_fallback :: "task \<Rightarrow> task" where
  "with_fallback t = (if last_attempt t then on_result (\<lambda>r. r\<lparr>nr_used_fallback := True\<rparr>) t else t)"

lemma launch_begun: "attempt_begun (with_fallback t) (fst (launch env t w))"
  by (simp add: launch_def with_fallback_def dispatch_node_begun)

section \<open>What holds at every suspension point\<close>

definition entered :: "gate_decision list \<Rightarrow> bool" where
  "entered gs \<longleftrightarrow>
     (\<exists>e rest. gs = e # rest \<and> gd_gate e = ''entry'' \<and> gd_allowed e
        \<and> (\<forall>g \<in> set rest. gd_gate g = ''exit'' \<and> \<not> gd_allowed g))"

definition accepted :: "gate_decision list \<Rightarrow> bool" where
  "accepted gs \<longleftrightarrow> (\<exists>before g. gs = before @ [g] \<and> entered before \<and> gd_gate g = ''exit'' \<and> gd_allowed g)"

definition task_inv :: "task \<Rightarrow> bool" where
  "task_inv t \<longleftrightarrow>
     nr_node_id (tk_result t) = ns_id (tk_node t)
     \<and> (tk_phase t = Sleeping \<or> (nr_used_fallback (tk_result t) \<longleftrightarrow> last_attempt t))
     \<and> nr_attempts (tk_result t) \<le> max 1 (attempts_of (tk_node t))
     \<and> 1 \<le> nr_attempts (tk_result t)
     \<and> (case tk_phase t of
          Fresh \<Rightarrow> gates t = [] \<and> nr_attempts (tk_result t) = 1 \<and> tk_snapshot t = None
        | Sleeping \<Rightarrow> entered (gates t) \<and> \<not> nr_used_fallback (tk_result t)
            \<and> nr_attempts (tk_result t) \<le> attempts_of (tk_node t)
            \<and> (tk_snapshot t \<noteq> None \<longleftrightarrow> ns_rollback (tk_node t))
        | Dispatching req \<Rightarrow> entered (gates t) \<and> dr_node_id req = ns_id (tk_node t)
            \<and> nr_attempts (tk_result t) \<le> attempts_of (tk_node t)
            \<and> (tk_snapshot t \<noteq> None \<longleftrightarrow> ns_rollback (tk_node t))
        | Raised _ \<Rightarrow> True
        | Returned \<Rightarrow>
            nr_state (tk_result t) = COMPLETED \<and> accepted (gates t)
            \<or> nr_state (tk_result t) = INPUT_REQUIRED
            \<or> nr_state (tk_result t) = FAILED \<and> attempts_of (tk_node t) \<le> nr_attempts (tk_result t)
               \<and> (ns_rollback (tk_node t) \<longrightarrow> nr_rolled_back (tk_result t))
            \<or> nr_state (tk_result t) = REJECTED \<and> nr_attempts (tk_result t) = 1
               \<and> (gates t = [] \<and> needs_approval (tk_node t)
                  \<or> (\<exists>e. gates t = [e] \<and> gd_gate e = ''entry'' \<and> \<not> gd_allowed e)))"

lemma new_task_inv: "task_inv (new_task n)"
  by (simp add: task_inv_def last_attempt_def)

text \<open>An attempt in progress: what \<open>task_inv\<close> says between two gates.\<close>

definition attempting :: "task \<Rightarrow> bool" where
  "attempting t \<longleftrightarrow> nr_node_id (tk_result t) = ns_id (tk_node t)
     \<and> entered (gates t) \<and> (nr_used_fallback (tk_result t) \<longleftrightarrow> last_attempt t)
     \<and> 1 \<le> nr_attempts (tk_result t) \<and> nr_attempts (tk_result t) \<le> max 1 (attempts_of (tk_node t))
     \<and> (tk_snapshot t \<noteq> None \<longleftrightarrow> ns_rollback (tk_node t))"

lemma entered_append:
  "entered gs \<Longrightarrow> gd_gate g = ''exit'' \<Longrightarrow> \<not> gd_allowed g \<Longrightarrow> entered (gs @ [g])"
  by (auto simp: entered_def)

lemma attempt_end_inv:
  assumes "attempting t" and "attempt_end gs t u" and "tk_phase u = Sleeping \<Longrightarrow> \<not> last_attempt t"
  shows "task_inv u"
proof -
  have keep: "tk_node u = tk_node t" "tk_snapshot u = tk_snapshot t"
    "nr_node_id (tk_result u) = nr_node_id (tk_result t)"
    "nr_used_fallback (tk_result u) = nr_used_fallback (tk_result t)" "gates u = gates t @ gs"
    and exits: "\<And>g. g \<in> set gs \<Longrightarrow> gd_gate g = ''exit''"
    and denied: "\<And>g. g \<in> set gs \<Longrightarrow> gd_allowed g \<Longrightarrow> tk_phase u = Returned \<and> nr_state (tk_result u) = COMPLETED"
    and e: "ending gs (attempts_of (tk_node t)) (nr_attempts (tk_result t)) (tk_snapshot t \<noteq> None) u"
    using assms(2) by (auto simp: attempt_end_def)
  note a = assms(1) [unfolded attempting_def]
  have same: "last_attempt u \<longleftrightarrow> last_attempt t" if "nr_attempts (tk_result u) = nr_attempts (tk_result t)"
    using that keep(1) by (simp add: last_attempt_def)
  show ?thesis
  proof (cases "tk_phase u")
    case Sleeping
    have "entered (gates u)"
      using a exits denied Sleeping keep(1,5) by (auto simp: entered_def)
    with Sleeping e keep a assms(3) show ?thesis by (simp add: task_inv_def ending_def)
  next
    case Returned
    have "accepted (gates u)" if "gs = [g]" "gd_allowed g" for g
      using that exits a keep(1,5) by (auto simp: accepted_def)
    with Returned e keep a same show ?thesis by (auto simp: task_inv_def ending_def)
  next
    case (Raised x)
    with e keep a same show ?thesis by (simp add: task_inv_def ending_def)
  qed (use e in \<open>simp_all add: ending_def\<close>)
qed

lemma attempt_begun_inv:
  assumes "attempting t" and "attempt_begun t u" and "nr_attempts (tk_result t) \<le> attempts_of (tk_node t)"
  shows "task_inv u"
proof -
  have not_last: "\<not> last_attempt t" if "attempt_end gs t u" "tk_phase u = Sleeping" for gs
    using that by (auto simp: attempt_end_def ending_def last_attempt_def)
  from assms(2) show ?thesis unfolding attempt_begun_def
  proof (elim disjE exE conjE)
    fix req assume "tk_phase u = Dispatching req" "dr_node_id req = ns_id (tk_node t)" "keeps t u" "gates u = gates t"
    with assms(1,3) show ?thesis
      by (auto simp: task_inv_def attempting_def keeps_def last_attempt_def)
  next
    fix gs assume e: "attempt_end gs t u"
    show ?thesis by (rule attempt_end_inv [OF assms(1) e not_last [OF e]])
  qed
qed

lemma with_fallback_sel [simp]:
  "tk_node (with_fallback t) = tk_node t" "tk_snapshot (with_fallback t) = tk_snapshot t"
  "nr_attempts (tk_result (with_fallback t)) = nr_attempts (tk_result t)"
  "gates (with_fallback t) = gates t" "nr_node_id (tk_result (with_fallback t)) = nr_node_id (tk_result t)"
  "last_attempt (with_fallback t) = last_attempt t"
  by (simp_all add: with_fallback_def last_attempt_def)

lemma with_fallback_used:
  "\<not> nr_used_fallback (tk_result t) \<Longrightarrow> nr_used_fallback (tk_result (with_fallback t)) \<longleftrightarrow> last_attempt t"
  by (simp add: with_fallback_def)

lemma launch_inv:
  assumes "nr_node_id (tk_result t) = ns_id (tk_node t)" and "entered (gates t)"
    and "\<not> nr_used_fallback (tk_result t)" and "1 \<le> nr_attempts (tk_result t)"
    and "nr_attempts (tk_result t) \<le> attempts_of (tk_node t)" and "tk_snapshot t \<noteq> None \<longleftrightarrow> ns_rollback (tk_node t)"
  shows "task_inv (fst (launch env t w))"
proof -
  have "attempting (with_fallback t)" unfolding attempting_def
    using assms with_fallback_used [OF assms(3)] by simp
  from attempt_begun_inv [OF this launch_begun] assms(5) show ?thesis by simp
qed

lemma take_snapshot_rollback:
  "take_snapshot env n w = Inr (sn, w') \<Longrightarrow> (sn \<noteq> None \<longleftrightarrow> ns_rollback n) \<and> w' = w"
  by (auto simp: take_snapshot_def split: if_splits sum.splits)

lemma enter_inv:
  assumes "tk_node t = n" and "gates t = []" and "nr_attempts (tk_result t) = 1"
    and "\<not> nr_used_fallback (tk_result t)" and "nr_node_id (tk_result t) = ns_id n"
  shows "task_inv (fst (enter env t w))"
proof -
  define w1 where "w1 = inputs_for env n w"
  define entry where "entry = entry_gate n w1"
  define t1 where "t1 = on_result (\<lambda>r. r\<lparr>nr_gate_decisions := nr_gate_decisions r @ [entry]\<rparr>) t"
  define w2 where "w2 = log_gate env n entry [] w1"
  have t1: "tk_node t1 = n" "gates t1 = [entry]" "nr_attempts (tk_result t1) = 1"
    "\<not> nr_used_fallback (tk_result t1)" "nr_node_id (tk_result t1) = ns_id n" "gd_gate entry = ''entry''"
    using assms by (simp_all add: t1_def entry_def)
  have e: "enter env t w =
    (if \<not> gd_allowed entry then finish_with env REJECTED (''entry gate: '' @ gd_reason entry) t1 w2
     else case take_snapshot env n w2 of
       Inl (x, w3) \<Rightarrow> (raised x t1, w3)
     | Inr (sn, w3) \<Rightarrow>
         if 1 \<le> attempts_of n then launch env (on_result (\<lambda>r. r\<lparr>nr_attempts := 1\<rparr>) (t1\<lparr>tk_snapshot := sn\<rparr>)) w3
         else give_up env (t1\<lparr>tk_snapshot := sn\<rparr>) w3)"
    unfolding enter_def Let_def t1_def w2_def entry_def w1_def assms(1) ..
  show ?thesis
  proof (cases "gd_allowed entry")
    case False
    then have "fst (enter env t w) = fst (finish_with env REJECTED (''entry gate: '' @ gd_reason entry) t1 w2)"
      by (simp add: e)
    then show ?thesis using t1 False by (simp add: finish_with_def task_inv_def last_attempt_def)
  next
    case True
    with t1 have entered: "entered (gates t1)" by (simp add: entered_def)
    show ?thesis
    proof (cases "take_snapshot env n w2")
      case (Inl x)
      obtain x1 w3 where "x = (x1, w3)" by (cases x)
      then have "fst (enter env t w) = raised x1 t1" using True Inl by (simp add: e)
      then show ?thesis using t1 by (simp add: task_inv_def last_attempt_def)
    next
      case (Inr s)
      obtain sn w3 where s: "s = (sn, w3)" by (cases s)
      from take_snapshot_rollback [OF Inr [unfolded s]] have sn: "sn \<noteq> None \<longleftrightarrow> ns_rollback n" by simp
      show ?thesis
      proof (cases "1 \<le> attempts_of n")
        case True
        then have "fst (enter env t w)
            = fst (launch env (on_result (\<lambda>r. r\<lparr>nr_attempts := 1\<rparr>) (t1\<lparr>tk_snapshot := sn\<rparr>)) w3)"
          using \<open>gd_allowed entry\<close> Inr s by (simp add: e)
        moreover have "task_inv \<dots>" by (rule launch_inv) (use t1 sn True entered in auto)
        ultimately show ?thesis by simp
      next
        case False
        let ?u = "t1\<lparr>tk_snapshot := sn\<rparr>"
        have "fst (enter env t w) = fst (give_up env ?u w3)"
          using \<open>gd_allowed entry\<close> Inr s False by (simp add: e)
        moreover have "attempting ?u" using t1 sn entered
          by (simp add: attempting_def last_attempt_def)
        moreover have "attempt_end [] ?u (fst (give_up env ?u w3))"
          by (rule give_up_end) (use t1 False in simp)
        moreover have "\<not> last_attempt ?u" using t1 by (simp add: last_attempt_def)
        ultimately show ?thesis using attempt_end_inv by metis
      qed
    qed
  qed
qed

lemma start_inv:
  assumes "task_inv t" and "tk_phase t = Fresh" shows "task_inv (fst (start env t w))"
proof -
  let ?t = "on_result (\<lambda>r. r\<lparr>nr_started_at := en_time env (w_tick w)\<rparr>) t"
  define w1 where "w1 = log_event env NODE_STARTED
    [(''kind'', JStr (sk_value (ns_kind (tk_node t))))] (Some (ns_id (tk_node t))) (ticked w)"
  have t: "gates t = []" "nr_attempts (tk_result t) = 1" "\<not> nr_used_fallback (tk_result t)"
    "nr_node_id (tk_result t) = ns_id (tk_node t)"
    using assms by (auto simp: task_inv_def last_attempt_def)
  have in_time: "task_inv (fst (enter env ?t w'))" for w'
    by (rule enter_inv) (use t in simp_all)
  show ?thesis
  proof (cases "needs_approval (tk_node t)")
    case False
    then have "start env t w = enter env ?t w1" by (simp add: start_def w1_def Let_def)
    then show ?thesis using in_time by simp
  next
    case True
    show ?thesis
    proof (cases "approve env (tk_node t) w1")
      case (Inl x)
      obtain e w2 where "x = (e, w2)" by (cases x)
      then have "fst (start env t w) = raised e ?t" using True Inl by (simp add: start_def w1_def Let_def)
      then show ?thesis using t by (simp add: task_inv_def last_attempt_def)
    next
      case (Inr x)
      obtain granted w2 where "x = (granted, w2)" by (cases x)
      then have "start env t w = (if granted then enter env ?t w2
          else finish_with env REJECTED ''human declined the change'' ?t w2)"
        using True Inr by (simp add: start_def w1_def Let_def)
      then show ?thesis using in_time t True
        by (simp add: finish_with_def task_inv_def last_attempt_def)
    qed
  qed
qed

lemma step_task_inv:
  assumes "task_inv t" shows "task_inv (fst (step_task env t w))"
proof (cases "tk_phase t")
  case Fresh
  with start_inv [OF assms] show ?thesis by (simp add: step_task_def)
next
  case Sleeping
  have "task_inv (fst (launch env t w))"
    by (rule launch_inv) (use assms Sleeping in \<open>simp_all add: task_inv_def\<close>)
  with Sleeping show ?thesis by (simp add: step_task_def)
next
  case (Dispatching req)
  obtain emitted answer where d: "en_dispatch env (w_tick w) req = (emitted, answer)"
    by (cases "en_dispatch env (w_tick w) req")
  show ?thesis
  proof (cases answer)
    case (Inl e)
    with assms Dispatching d show ?thesis by (simp add: step_task_def task_inv_def last_attempt_def)
  next
    case (Inr outcome)
    from finish_attempt_end obtain gs
      where e: "attempt_end gs t (fst (finish_attempt env t outcome (log_all env emitted (ticked w))))" by blast
    have a: "attempting t" using assms Dispatching by (auto simp: task_inv_def attempting_def)
    have "nr_attempts (tk_result t) \<le> attempts_of (tk_node t)" using assms Dispatching by (simp add: task_inv_def)
    with attempt_begun_inv [OF a _ this] e Dispatching d Inr show ?thesis
      by (auto simp: step_task_def attempt_begun_def)
  qed
qed (use assms in \<open>simp_all add: step_task_def\<close>)

end
