(* ===== verification/ExecutorRun.thy ===== *)
theory ExecutorRun
  imports ExecutorTask
begin

text \<open>
  A whole run, \<open>Executor.run\<close> of \<^verbatim>\<open>keel/executor.py\<close>: batches of ready nodes gathered on the event loop, the
  collection of their outcomes in plan order, repair, replanning, safe stop. The event loop may
  resume the pending tasks of a batch in any order: the environment picks one at every step.
\<close>

section \<open>A batch on the event loop\<close>

definition pending :: "task \<Rightarrow> bool" where
  "pending t \<longleftrightarrow> (case tk_phase t of Returned \<Rightarrow> False | Raised _ \<Rightarrow> False | _ \<Rightarrow> True)"

text \<open>How many steps a task has left at most: a sleep and a dispatch per attempt still to come.\<close>

definition steps_left :: "task \<Rightarrow> nat" where
  "steps_left t =
     (let further = nat (attempts_of (tk_node t) - nr_attempts (tk_result t))
      in case tk_phase t of
           Fresh \<Rightarrow> 2 * nat (attempts_of (tk_node t)) + 3
         | Sleeping \<Rightarrow> 2 * further + 2
         | Dispatching _ \<Rightarrow> 2 * further + 1
         | _ \<Rightarrow> 0)"

lemma steps_left_attempt_end:
  assumes "attempt_end gs t u"
  shows "steps_left u \<le> 2 * nat (attempts_of (tk_node t) - nr_attempts (tk_result t))"
proof (cases "tk_phase u")
  case Sleeping
  with assms have "nr_attempts (tk_result u) = nr_attempts (tk_result t) + 1"
    "nr_attempts (tk_result u) \<le> attempts_of (tk_node t)" "tk_node u = tk_node t"
    by (simp_all add: attempt_end_def ending_def)
  with Sleeping show ?thesis by (simp add: steps_left_def Let_def)
qed (use assms in \<open>simp_all add: attempt_end_def ending_def steps_left_def Let_def\<close>)

lemma steps_left_attempt_begun:
  assumes "attempt_begun t u"
  shows "steps_left u \<le> Suc (2 * nat (attempts_of (tk_node t) - nr_attempts (tk_result t)))"
  using assms steps_left_attempt_end [of _ t u]
  by (auto simp: attempt_begun_def keeps_def steps_left_def Let_def le_SucI)

lemma launch_steps:
  "steps_left (fst (launch env t w)) \<le> Suc (2 * nat (attempts_of (tk_node t) - nr_attempts (tk_result t)))"
  using steps_left_attempt_begun [OF launch_begun [of t env w]] by simp

lemma give_up_steps: "steps_left (fst (give_up env t w)) = 0"
  by (auto simp: give_up_def steps_left_def Let_def split: option.splits sum.splits)

lemma enter_steps: "steps_left (fst (enter env t w)) \<le> Suc (2 * nat (attempts_of (tk_node t)))"
proof -
  have l: "steps_left (fst (launch env u w')) \<le> Suc (2 * nat (attempts_of (tk_node t)))"
    if "tk_node u = tk_node t" "nr_attempts (tk_result u) = 1" for u w'
    using launch_steps [of env u w'] that by (simp add: nat_diff_distrib)
  have f: "steps_left (fst (finish_with env s x u w')) = 0" for s x u w'
    by (simp add: finish_with_def steps_left_def)
  have r: "steps_left (raised e u) = 0" for e u by (simp add: steps_left_def)
  show ?thesis
    unfolding enter_def Let_def
    by (auto simp: f r give_up_steps intro!: l split: sum.split)
qed

lemma start_steps: "steps_left (fst (start env t w)) \<le> Suc (2 * nat (attempts_of (tk_node t)))"
proof -
  have l: "steps_left (fst (enter env u w')) \<le> Suc (2 * nat (attempts_of (tk_node t)))"
    if "tk_node u = tk_node t" for u w'
    using enter_steps [of env u w'] that by simp
  have f: "steps_left (fst (finish_with env s x u w')) = 0" for s x u w'
    by (simp add: finish_with_def steps_left_def)
  have r: "steps_left (raised e u) = 0" for e u by (simp add: steps_left_def)
  show ?thesis
  proof (cases "needs_approval (tk_node t)")
    case True
    then show ?thesis unfolding start_def Let_def by (auto simp: f r intro!: l split: sum.split)
  next
    case False
    then show ?thesis unfolding start_def Let_def by (auto intro!: l)
  qed
qed

lemma step_task_steps:
  assumes "pending t" shows "steps_left (fst (step_task env t w)) < steps_left t"
proof (cases "tk_phase t")
  case Fresh
  with start_steps [of env t w] show ?thesis by (simp add: step_task_def steps_left_def Let_def)
next
  case Sleeping
  with launch_steps [of env t w] show ?thesis by (simp add: step_task_def steps_left_def Let_def)
next
  case (Dispatching req)
  obtain emitted answer where d: "en_dispatch env (w_tick w) req = (emitted, answer)"
    by (cases "en_dispatch env (w_tick w) req")
  show ?thesis
  proof (cases answer)
    case (Inl e)
    with Dispatching d show ?thesis by (simp add: step_task_def steps_left_def)
  next
    case (Inr outcome)
    from finish_attempt_end obtain gs
      where "attempt_end gs t (fst (finish_attempt env t outcome (log_all env emitted (ticked w))))" by blast
    from steps_left_attempt_end [OF this] Dispatching d Inr show ?thesis
      by (simp add: step_task_def steps_left_def Let_def)
  qed
qed (use assms in \<open>simp_all add: pending_def\<close>)

text \<open>One step of the event loop; the index of the task to resume is the environment's.\<close>

definition pending_at :: "task list \<Rightarrow> nat list" where
  "pending_at ts = filter (\<lambda>i. pending (ts ! i)) [0..<length ts]"

definition pick :: "env \<Rightarrow> task list \<Rightarrow> world \<Rightarrow> nat" where
  "pick env ts w = pending_at ts ! (en_sched env (w_tick w) mod length (pending_at ts))"

lemma pick_pending:
  assumes "pending_at ts \<noteq> []"
  shows "pick env ts w < length ts" and "pending (ts ! pick env ts w)"
proof -
  have "pick env ts w \<in> set (pending_at ts)"
    unfolding pick_def by (rule nth_mem) (use assms in simp)
  then show "pick env ts w < length ts" "pending (ts ! pick env ts w)" by (auto simp: pending_at_def)
qed

definition loop_step :: "env \<Rightarrow> task list \<Rightarrow> world \<Rightarrow> task list \<times> world" where
  "loop_step env ts w =
     (let i = pick env ts w in
      case step_task env (ts ! i) (ticked w) of (t, w1) \<Rightarrow> (ts[i := t], w1))"

text \<open>\<open>asyncio.gather\<close>: until no task is pending.\<close>

function run_tasks :: "env \<Rightarrow> task list \<Rightarrow> world \<Rightarrow> task list \<times> world" where
  "run_tasks env ts w =
     (if pending_at ts = [] then (ts, w)
      else run_tasks env (fst (loop_step env ts w)) (snd (loop_step env ts w)))"
  by pat_completeness auto

lemma sum_list_update_less:
  fixes f :: "'a \<Rightarrow> nat"
  assumes "i < length xs" and "f x < f (xs ! i)"
  shows "sum_list (map f (xs[i := x])) < sum_list (map f xs)"
  using assms
proof (induction xs arbitrary: i)
  case Nil
  then show ?case by simp
next
  case (Cons y ys)
  then show ?case by (cases i) auto
qed

lemma loop_step_less:
  assumes "pending_at ts \<noteq> []"
  shows "sum_list (map steps_left (fst (loop_step env ts w))) < sum_list (map steps_left ts)"
  using sum_list_update_less [OF pick_pending(1) [OF assms]] step_task_steps [OF pick_pending(2) [OF assms]]
  by (simp add: loop_step_def Let_def split: prod.split) (metis fst_conv)

termination run_tasks
  by (relation "measure (\<lambda>(env, ts, w). sum_list (map steps_left ts))") (auto simp: case_prod_beta loop_step_less)

declare run_tasks.simps [simp del]

section \<open>The state of a run\<close>

record run_state =
  st_world :: world
  st_graph :: plan_graph
  st_completed :: "string list"
  st_results :: "(string, node_result) dict"
  st_state :: task_state
  st_stopped :: string
  st_revisions :: int
  st_repairs :: int
  st_pending :: "string list"

section \<open>Repair\<close>

definition repair_transcript :: "node_result \<Rightarrow> string" where
  "repair_transcript r =
     (let transcript = str_strip (str_join newline (map art_content (nr_artifacts r)))
      in take 6000 (or_text transcript
           (or_text (case nr_error r of None \<Rightarrow> [] | Some e \<Rightarrow> e)
              ''the test suite failed with no captured output'')))"

definition repair_note :: "int \<Rightarrow> int \<Rightarrow> string \<Rightarrow> string" where
  "repair_note attempt limit transcript =
     ''The generated test suite was run against your previous implementation ''
     @ ''and it failed. The tests are the specification here, so change the ''
     @ ''implementation to satisfy them rather than changing the tests. ''
     @ ''This is repair attempt '' @ str_int attempt @ '' of '' @ str_int limit @ ''.'' @ blank_line @ transcript"

text \<open>\<open>None\<close>: no repair, the run stops.\<close>

definition repair :: "env \<Rightarrow> node_spec \<Rightarrow> node_result \<Rightarrow> run_state \<Rightarrow> run_state option" where
  "repair env n outcome st =
     (if ns_id n \<noteq> VERIFY then None
      else if nr_state outcome \<noteq> FAILED then None
      else if en_max_repairs env \<le> st_repairs st then None
      else if dget (st_results st) IMPLEMENT = None then None
      else (let k = st_repairs st + 1;
                note = repair_note k (en_max_repairs env) (repair_transcript outcome);
                w = log_event env REPAIR_STARTED
                  [(''attempt'', JInt k), (''limit'', JInt (en_max_repairs env)),
                   (''trigger'', JStr ''verification failed''),
                   (''re_running'', JArr [JStr IMPLEMENT, JStr VERIFY])] (Some (ns_id n))
                  ((st_world st)\<lparr>w_repair_note := Some note\<rparr>)
            in Some (st\<lparr>st_repairs := k, st_world := w,
                 st_results := dpop VERIFY (dpop IMPLEMENT (st_results st)),
                 st_completed := filter (\<lambda>i. i \<notin> {IMPLEMENT, VERIFY}) (st_completed st)\<rparr>)))"

section \<open>Collecting a batch\<close>

definition result_of :: "task \<Rightarrow> node_result" where
  "result_of t =
     (case tk_phase t of
        Raised e \<Rightarrow> (nr_new (ns_id (tk_node t)) FAILED)\<lparr>nr_error := Some (fst e @ '': '' @ snd e)\<rparr>
      | _ \<Rightarrow> tk_result t)"

text \<open>The left side is the reason of the safe stop.\<close>

definition collect_one :: "env \<Rightarrow> task \<Rightarrow> run_state \<Rightarrow> (string \<times> run_state) + run_state" where
  "collect_one env t st0 =
     (let n = tk_node t; outcome = result_of t;
          st = st0\<lparr>st_results := dset (ns_id n) outcome (st_results st0)\<rparr>;
          err = (case nr_error outcome of None \<Rightarrow> [] | Some e \<Rightarrow> e)
      in if nr_state outcome = COMPLETED
         then Inr (st\<lparr>st_completed := List.insert (ns_id n) (st_completed st)\<rparr>)
         else if nr_state outcome = INPUT_REQUIRED
         then Inl (ns_id n @ '' needs human input'',
                st\<lparr>st_state := INPUT_REQUIRED, st_pending := st_pending st @ [or_text err ''input required'']\<rparr>)
         else (case repair env n outcome st of
                 Some st' \<Rightarrow> Inr st'
               | None \<Rightarrow> Inl (ns_id n @ '' failed: ''
                            @ (case nr_error outcome of None \<Rightarrow> ''None'' | Some e \<Rightarrow> e), st)))"

definition collect :: "env \<Rightarrow> task list \<Rightarrow> run_state \<Rightarrow> (string \<times> run_state) + run_state" where
  "collect env ts st = efold (collect_one env) ts st"

section \<open>Replanning\<close>

definition ancestor_set :: "plan_graph \<Rightarrow> string \<Rightarrow> string set" where
  "ancestor_set g i = (case ancestors g i of Inl _ \<Rightarrow> {} | Inr s \<Rightarrow> s)"

definition sees_implementation :: "plan_graph \<Rightarrow> (string, bool) dict" where
  "sees_implementation g = map (\<lambda>i. (i, IMPLEMENT \<in> ancestor_set g i)) (pg_order g)"

definition maybe_replan :: "env \<Rightarrow> run_state \<Rightarrow> (exn \<times> run_state) + run_state" where
  "maybe_replan env st =
     (if en_max_revisions env \<le> st_revisions st then Inr st
      else case dget (w_outputs (st_world st)) ''impact-analysis'' of
        None \<Rightarrow> Inr st
      | Some evidence \<Rightarrow>
          (case revise_from_evidence (en_fr env) (pg_plan (st_graph st)) evidence of
             Inl e \<Rightarrow> Inl (en_planner_exn env e, st)
           | Inr None \<Rightarrow> Inr st
           | Inr (Some revised) \<Rightarrow>
               (let w = log_event env PLAN_REVISED
                      [(''version'', JInt (pl_version revised)),
                       (''supersedes'', (case pl_supersedes revised of None \<Rightarrow> JNull | Some v \<Rightarrow> JInt v)),
                       (''rationale'', JStr (pl_rationale revised)),
                       (''nodes'', JArr (map (JStr \<circ> ns_id) (pl_nodes revised)))] None (st_world st);
                    st' = st\<lparr>st_revisions := st_revisions st + 1, st_world := w\<rparr>
                in case build_graph revised of
                     Inl e \<Rightarrow> Inl (en_graph_exn env e, st')
                   | Inr g \<Rightarrow> Inr (st'\<lparr>st_graph := g, st_world := w\<lparr>w_sees := sees_implementation g\<rparr>\<rparr>))))"

section \<open>The scheduling loop\<close>

datatype round_end =
    Again run_state
  | AllDone run_state
  | Stopped string run_state
  | Crashed exn run_state

definition round :: "env \<Rightarrow> run_state \<Rightarrow> round_end" where
  "round env st =
     (let stop = en_stop env (w_tick (st_world st));
          st1 = st\<lparr>st_world := ticked (st_world st)\<rparr>
      in if stop then Stopped ''stop requested'' st1
         else case ready (st_graph st1) (st_completed st1) of
           Inl e \<Rightarrow> Crashed (en_graph_exn env e) st1
         | Inr ns \<Rightarrow>
             (let todo = filter (\<lambda>n. dget (st_results st1) (ns_id n) = None) ns
              in if todo = [] then AllDone st1
                 else (case run_tasks env (map new_task todo) (st_world st1) of (ts, w) \<Rightarrow>
                   (case collect env ts (st1\<lparr>st_world := w\<rparr>) of
                      Inl (reason, st2) \<Rightarrow> Stopped reason st2
                    | Inr st2 \<Rightarrow>
                        (case maybe_replan env st2 of
                           Inl (e, st3) \<Rightarrow> Crashed e st3
                         | Inr st3 \<Rightarrow> Again st3)))))"

datatype run_end = Finished run_state | Broken exn run_state

definition close :: "env \<Rightarrow> run_state \<Rightarrow> run_end" where
  "close env st =
     Finished (st\<lparr>st_world := log_event env RUN_FINISHED
       [(''state'', JStr (ts_value (st_state st))), (''reason'', JStr (st_stopped st))] None (st_world st)\<rparr>)"

definition safe_stop :: "env \<Rightarrow> string \<Rightarrow> run_state \<Rightarrow> run_end" where
  "safe_stop env reason st =
     close env (st\<lparr>st_state := (if st_state st = WORKING then FAILED else st_state st), st_stopped := reason,
       st_world := log_event env SAFE_STOP [(''reason'', JStr reason)] None (st_world st)\<rparr>)"

text \<open>The loop with fuel; \<open>None\<close> when it runs out.\<close>

fun rounds :: "nat \<Rightarrow> env \<Rightarrow> run_state \<Rightarrow> run_end option" where
  "rounds 0 env st = None"
| "rounds (Suc n) env st =
     (case round env st of
        Again st' \<Rightarrow> rounds n env st'
      | AllDone st' \<Rightarrow> Some (close env (st'\<lparr>st_state := COMPLETED\<rparr>))
      | Stopped reason st' \<Rightarrow> Some (safe_stop env reason st')
      | Crashed e st' \<Rightarrow> Some (Broken e st'))"

text \<open>What the executor is constructed with; the context of a run starts empty.\<close>

record services =
  su_ws :: workspace
  su_audit :: audit_log
  su_policy :: policy_engine
  su_lineage :: lineage_store
  su_broker :: broker

definition initial_world :: "services \<Rightarrow> engineering_problem \<Rightarrow> plan_graph \<Rightarrow> world" where
  "initial_world su problem g =
     \<lparr>w_tick = 0, w_ws = su_ws su, w_audit = su_audit su, w_policy = su_policy su,
       w_lineage = su_lineage su, w_broker = su_broker su, w_problem = problem, w_outputs = [],
       w_baseline = existing_code (su_ws su), w_sees = sees_implementation g,
       w_ancestors = map (\<lambda>i. (i, ancestor_set g i)) (pg_order g), w_path_owner = [],
       w_repair_note = None\<rparr>"

definition first_state :: "env \<Rightarrow> services \<Rightarrow> engineering_problem \<Rightarrow> plan \<Rightarrow> plan_graph \<Rightarrow> run_state" where
  "first_state env su problem p g =
     (let w1 = log_event env RUN_STARTED
            [(''requirement'', JStr (ep_raw_requirement problem)),
             (''scenario'', JStr (sc_value (ep_scenario problem)))] None (initial_world su problem g);
          w2 = log_event env PLAN_CREATED
            [(''version'', JInt (pl_version p)), (''nodes'', JArr (map (JStr \<circ> ns_id) (pl_nodes p))),
             (''rationale'', JStr (pl_rationale p))] None w1
      in \<lparr>st_world = w2, st_graph = g, st_completed = [], st_results = [], st_state = WORKING,
          st_stopped = [], st_revisions = 0, st_repairs = 0, st_pending = []\<rparr>)"

text \<open>The left side is the graph error of an invalid plan, raised before anything is recorded.\<close>

definition run ::
  "nat \<Rightarrow> env \<Rightarrow> services \<Rightarrow> engineering_problem \<Rightarrow> plan \<Rightarrow> graph_error + run_end option" where
  "run fuel env su problem p =
     (case build_graph p of
        Inl e \<Rightarrow> Inl e
      | Inr g \<Rightarrow> Inr (rounds fuel env (first_state env su problem p g)))"

definition run_ok :: "run_state \<Rightarrow> bool" where
  "run_ok st \<longleftrightarrow> st_state st = COMPLETED"

end
