(* ===== verification/ExecutorLoop.thy ===== *)
theory ExecutorLoop
  imports ExecutorRun PlannerProps
begin

text \<open>
  What holds of a batch and of the scheduling loop: every task of a batch comes to an end whatever
  the event loop picks, a round leaves the state consistent and closer to the end, and with the fuel
  the bound names the run returns.
\<close>

section \<open>Batches\<close>

text \<open>What every step keeps is kept by the batch.\<close>

lemma run_tasks_induct:
  assumes "I ts w"
    and step: "\<And>ts w i. I ts w \<Longrightarrow> i < length ts \<Longrightarrow> pending (ts ! i) \<Longrightarrow>
      I (ts[i := fst (step_task env (ts ! i) (ticked w))]) (snd (step_task env (ts ! i) (ticked w)))"
  shows "I (fst (run_tasks env ts w)) (snd (run_tasks env ts w))"
  using assms
proof (induction env ts w rule: run_tasks.induct)
  case (1 env ts w)
  show ?case
  proof (cases "pending_at ts = []")
    case True
    with 1(2) show ?thesis by (simp add: run_tasks.simps)
  next
    case False
    have "I (fst (loop_step env ts w)) (snd (loop_step env ts w))"
      using 1(3) [OF 1(2) pick_pending [OF False, of env w]] by (simp add: loop_step_def Let_def case_prod_beta)
    from 1(1) [OF False this 1(3)] False show ?thesis by (subst (1 2) run_tasks.simps) simp
  qed
qed

lemma run_tasks_ended: "pending_at (fst (run_tasks env ts w)) = []"
proof (induction env ts w rule: run_tasks.induct)
  case (1 env ts w)
  then show ?case by (subst run_tasks.simps) simp
qed

lemma no_pending: "pending_at ts = [] \<Longrightarrow> t \<in> set ts \<Longrightarrow> \<not> pending t"
  by (auto simp: pending_at_def filter_empty_conv in_set_conv_nth)

text \<open>The node of a task never changes.\<close>

lemma attempt_begun_node: "attempt_begun t u \<Longrightarrow> tk_node u = tk_node t"
  by (auto simp: attempt_begun_def keeps_def attempt_end_def)

lemma launch_node [simp]: "tk_node (fst (launch env t w)) = tk_node t"
  using attempt_begun_node [OF launch_begun [of t env w]] by simp

lemma give_up_node [simp]: "tk_node (fst (give_up env t w)) = tk_node t"
  by (auto simp: give_up_def Let_def dest: rollback_task split: option.splits sum.splits)

lemma finish_with_node [simp]: "tk_node (fst (finish_with env s x t w)) = tk_node t"
  by (simp add: finish_with_def)

lemma enter_node [simp]: "tk_node (fst (enter env t w)) = tk_node t"
  unfolding enter_def Let_def by (auto split: sum.split)

lemma start_node [simp]: "tk_node (fst (start env t w)) = tk_node t"
  by (cases "needs_approval (tk_node t)") (auto simp: start_def Let_def split: sum.split)

lemma step_task_node [simp]: "tk_node (fst (step_task env t w)) = tk_node t"
proof (cases "tk_phase t")
  case (Dispatching req)
  obtain emitted answer where d: "en_dispatch env (w_tick w) req = (emitted, answer)"
    by (cases "en_dispatch env (w_tick w) req")
  have "tk_node (fst (finish_attempt env t outcome w')) = tk_node t" for outcome w'
    using finish_attempt_end [of t env outcome w'] by (auto simp: attempt_end_def)
  with Dispatching d show ?thesis by (cases answer) (simp_all add: step_task_def)
qed (simp_all add: step_task_def)

lemma run_tasks_inv:
  assumes "\<forall>t \<in> set ts. task_inv t"
  shows "(\<forall>t \<in> set (fst (run_tasks env ts w)). task_inv t)
    \<and> map tk_node (fst (run_tasks env ts w)) = map tk_node ts"
proof (rule run_tasks_induct [where I = "\<lambda>us w. (\<forall>t \<in> set us. task_inv t) \<and> map tk_node us = map tk_node ts"])
  show "(\<forall>t \<in> set ts. task_inv t) \<and> map tk_node ts = map tk_node ts" using assms by simp
next
  fix us and w :: world and i
  assume a: "(\<forall>t \<in> set us. task_inv t) \<and> map tk_node us = map tk_node ts" and i: "i < length us"
  let ?t = "fst (step_task env (us ! i) (ticked w))"
  have "task_inv ?t" using a i step_task_inv by simp
  moreover have "map tk_node (us[i := ?t]) = map tk_node us"
    using i by (simp add: map_update list_update_same_conv)
  ultimately show "(\<forall>t \<in> set (us[i := ?t]). task_inv t) \<and> map tk_node (us[i := ?t]) = map tk_node ts"
    using a set_update_subset_insert [of us i ?t] by auto
qed

text \<open>A batch is over when each of its tasks returned or raised.\<close>

lemma batch_over:
  assumes "t \<in> set (fst (run_tasks env (map new_task ns) w))"
  shows "task_inv t \<and> tk_node t \<in> set ns \<and> (tk_phase t = Returned \<or> (\<exists>e. tk_phase t = Raised e))"
proof -
  have inv: "(\<forall>t \<in> set (fst (run_tasks env (map new_task ns) w)). task_inv t)
    \<and> map tk_node (fst (run_tasks env (map new_task ns) w)) = ns"
    using run_tasks_inv [of "map new_task ns" env w] by (simp add: new_task_inv comp_def)
  have "tk_node t \<in> set (map tk_node (fst (run_tasks env (map new_task ns) w)))" using assms by simp
  then have "tk_node t \<in> set ns" using inv by (simp only:)
  moreover have "\<not> pending t" by (rule no_pending [OF run_tasks_ended assms])
  ultimately show ?thesis using inv assms
    by (cases "tk_phase t") (auto simp: pending_def)
qed

lemma batch_nodes: "map tk_node (fst (run_tasks env (map new_task ns) w)) = ns"
  using run_tasks_inv [of "map new_task ns" env w] by (simp add: new_task_inv comp_def)


section \<open>Rounds\<close>

text \<open>What a run records about a node: its result, judged by the plan's own bounds.\<close>

definition result_ok :: "node_spec \<Rightarrow> node_result \<Rightarrow> bool" where
  "result_ok n r \<longleftrightarrow> nr_node_id r = ns_id n \<and> 1 \<le> nr_attempts r
     \<and> nr_attempts r \<le> max 1 (attempts_of n)
     \<and> (nr_used_fallback r \<longrightarrow> nr_attempts r = attempts_of n \<and> 1 < nr_attempts r)
     \<and> (nr_state r = COMPLETED \<longrightarrow> accepted (nr_gate_decisions r))"

lemma result_of_ok:
  assumes "task_inv t" and "\<not> pending t" shows "result_ok (tk_node t) (result_of t)"
proof (cases "tk_phase t")
  case Returned
  with assms show ?thesis by (auto simp: result_ok_def result_of_def task_inv_def last_attempt_def)
next
  case (Raised e)
  then show ?thesis by (simp add: result_ok_def result_of_def)
qed (use assms(2) in \<open>simp_all add: pending_def\<close>)

lemma result_ok_revised:
  "result_ok n r \<Longrightarrow> result_ok (revise_node q n) r"
  by (auto simp: result_ok_def attempts_of_def revise_node_def Let_def split: option.splits)

text \<open>The state between two nodes of a batch, and between two rounds.\<close>

abbreviation st_plan :: "run_state \<Rightarrow> plan" where
  "st_plan st \<equiv> pg_plan (st_graph st)"

definition results_ok :: "run_state \<Rightarrow> bool" where
  "results_ok st \<longleftrightarrow> (\<forall>i r. dget (st_results st) i = Some r \<longrightarrow>
     nr_state r = COMPLETED \<and> (\<exists>n \<in> set (pl_nodes (st_plan st)). ns_id n = i \<and> result_ok n r))"

definition run_inv :: "env \<Rightarrow> run_state \<Rightarrow> bool" where
  "run_inv env st \<longleftrightarrow> wf_graph (st_graph st)
     \<and> set (st_completed st) \<subseteq> set (plan_ids (st_plan st))
     \<and> set (dkeys (st_results st)) = set (st_completed st)
     \<and> results_ok st \<and> st_state st = WORKING
     \<and> 0 \<le> st_repairs st \<and> st_repairs st \<le> max 0 (en_max_repairs env)
     \<and> 0 \<le> st_revisions st \<and> st_revisions st \<le> max 0 (en_max_revisions env)"

text \<open>The nodes still to complete, and what repairs may add to them.\<close>

definition unfinished :: "run_state \<Rightarrow> nat" where
  "unfinished st = card (set (plan_ids (st_plan st)) - set (st_completed st))"

definition potential :: "env \<Rightarrow> run_state \<Rightarrow> nat" where
  "potential env st = unfinished st + 3 * nat (en_max_repairs env - st_repairs st)"

lemma repair_SomeE:
  assumes "repair env n outcome st = Some st'"
  obtains w where "ns_id n = VERIFY" and "nr_state outcome = FAILED" and "st_repairs st < en_max_repairs env"
    and "st' = st\<lparr>st_repairs := st_repairs st + 1, st_world := w,
           st_results := dpop VERIFY (dpop IMPLEMENT (st_results st)),
           st_completed := filter (\<lambda>i. i \<notin> {IMPLEMENT, VERIFY}) (st_completed st)\<rparr>"
  using assms by (auto simp: repair_def Let_def split: if_splits)

lemma dkeys_dget: "set (dkeys d) = {k. dget d k \<noteq> None}"
proof (rule set_eqI)
  fix k show "k \<in> set (dkeys d) \<longleftrightarrow> k \<in> {k. dget d k \<noteq> None}"
    by (simp only: mem_Collect_eq dget_None_iff not_not)
qed

lemma repair_inv:
  assumes inv: "run_inv env st" and r: "repair env n outcome (st\<lparr>st_results := dset (ns_id n) x (st_results st)\<rparr>) = Some st'"
  shows "run_inv env st'" and "st_graph st' = st_graph st" and "potential env st' < potential env st"
    and "st_revisions st' = st_revisions st"
proof -
  from r obtain w where v: "ns_id n = VERIFY" and lt: "st_repairs st < en_max_repairs env"
    and st': "st' = st\<lparr>st_repairs := st_repairs st + 1, st_world := w,
           st_results := dpop VERIFY (dpop IMPLEMENT (dset VERIFY x (st_results st))),
           st_completed := filter (\<lambda>i. i \<notin> {IMPLEMENT, VERIFY}) (st_completed st)\<rparr>"
    by (auto elim: repair_SomeE)
  have get: "dget (st_results st') i = (if i \<in> {IMPLEMENT, VERIFY} then None else dget (st_results st) i)" for i
    by (simp add: st')
  have "set (dkeys (st_results st')) = set (st_completed st')"
    using inv unfolding dkeys_dget run_inv_def by (auto simp: get) (auto simp: st')
  moreover have "results_ok st'" using inv get by (simp add: results_ok_def run_inv_def st')
  ultimately show "run_inv env st'" using inv lt by (auto simp: run_inv_def st')
  show "st_graph st' = st_graph st" "st_revisions st' = st_revisions st" by (simp_all add: st')
  let ?ids = "set (plan_ids (st_plan st))"
  have "unfinished st' \<le> card ((?ids - set (st_completed st)) \<union> {IMPLEMENT, VERIFY})"
    unfolding unfinished_def by (rule card_mono) (auto simp: st')
  also have "\<dots> \<le> unfinished st + card {IMPLEMENT, VERIFY}"
    unfolding unfinished_def by (rule card_Un_le)
  also have "card {IMPLEMENT, VERIFY} \<le> 2" by (simp add: card_insert_if)
  finally have "unfinished st' \<le> unfinished st + 2" by simp
  then show "potential env st' < potential env st" using lt by (simp add: potential_def st')
qed

lemma collect_one_inv:
  assumes inv: "run_inv env st" and t: "task_inv t" "\<not> pending t" "tk_node t \<in> set (pl_nodes (st_plan st))"
    and c: "collect_one env t st = Inr st'"
  shows "run_inv env st'" and "st_graph st' = st_graph st" and "potential env st' \<le> potential env st"
    and "ns_id (tk_node t) \<notin> set (st_completed st) \<Longrightarrow> potential env st' < potential env st"
    and "st_revisions st' = st_revisions st"
proof -
  let ?i = "ns_id (tk_node t)" and ?r = "result_of t"
  let ?ids = "set (plan_ids (st_plan st))"
  consider (finished) "nr_state ?r = COMPLETED" "st' = st\<lparr>st_results := dset ?i ?r (st_results st),
      st_completed := List.insert ?i (st_completed st)\<rparr>"
    | (repair) "repair env (tk_node t) ?r (st\<lparr>st_results := dset ?i ?r (st_results st)\<rparr>) = Some st'"
    using c by (auto simp: collect_one_def Let_def split: if_splits option.splits)
  then have "run_inv env st' \<and> st_graph st' = st_graph st \<and> potential env st' \<le> potential env st
    \<and> (?i \<notin> set (st_completed st) \<longrightarrow> potential env st' < potential env st)
    \<and> st_revisions st' = st_revisions st"
  proof cases
    case finished
    have id: "?i \<in> ?ids" using t(3) by (simp add: plan_ids_def)
    have "results_ok st'"
      using inv result_of_ok [OF t(1,2)] t(3) finished by (auto simp: results_ok_def run_inv_def)
    then have "run_inv env st'"
      using inv id unfolding run_inv_def by (simp add: finished(2))
    moreover have "unfinished st' \<le> unfinished st"
      unfolding unfinished_def finished(2) by (rule card_mono) auto
    moreover have "unfinished st' < unfinished st" if "?i \<notin> set (st_completed st)"
      unfolding unfinished_def finished(2) by (rule psubset_card_mono) (use id that in auto)
    ultimately show ?thesis by (auto simp: potential_def finished(2))
  next
    case repair
    from repair_inv [OF inv repair] show ?thesis by simp
  qed
  then show "run_inv env st'" "st_graph st' = st_graph st" "potential env st' \<le> potential env st"
    "?i \<notin> set (st_completed st) \<Longrightarrow> potential env st' < potential env st" "st_revisions st' = st_revisions st"
    by blast+
qed

lemma collect_inv:
  assumes "run_inv env st" and "\<forall>t \<in> set ts. task_inv t \<and> \<not> pending t \<and> tk_node t \<in> set (pl_nodes (st_plan st))"
    and "collect env ts st = Inr st'"
  shows "run_inv env st' \<and> st_graph st' = st_graph st \<and> potential env st' \<le> potential env st
    \<and> st_revisions st' = st_revisions st"
  using assms
proof (induction ts arbitrary: st)
  case Nil
  then show ?case by (simp add: collect_def)
next
  case (Cons t ts)
  from Cons.prems(3) obtain st1 where s: "collect_one env t st = Inr st1" "collect env ts st1 = Inr st'"
    by (auto simp: collect_def split: sum.splits)
  have t: "task_inv t" "\<not> pending t" "tk_node t \<in> set (pl_nodes (st_plan st))" using Cons.prems(2) by simp_all
  note one = collect_one_inv [OF Cons.prems(1) t s(1)]
  have "run_inv env st' \<and> st_graph st' = st_graph st1 \<and> potential env st' \<le> potential env st1
      \<and> st_revisions st' = st_revisions st1"
    by (rule Cons.IH [OF one(1) _ s(2)]) (use Cons.prems(2) one(2) in simp)
  with one show ?case by auto
qed

lemma collect_less:
  assumes "run_inv env st" and "\<forall>t \<in> set ts. task_inv t \<and> \<not> pending t \<and> tk_node t \<in> set (pl_nodes (st_plan st))"
    and "collect env ts st = Inr st'" and "ts \<noteq> []" and "ns_id (tk_node (hd ts)) \<notin> set (st_completed st)"
  shows "potential env st' < potential env st"
proof -
  obtain t ts1 where ts: "ts = t # ts1" using assms(4) by (cases ts) auto
  from assms(3) obtain st1 where s: "collect_one env t st = Inr st1" "collect env ts1 st1 = Inr st'"
    by (auto simp: collect_def ts split: sum.splits)
  have t: "task_inv t" "\<not> pending t" "tk_node t \<in> set (pl_nodes (st_plan st))" using assms(2) ts by simp_all
  note one = collect_one_inv [OF assms(1) t s(1)]
  have "potential env st' \<le> potential env st1"
    using collect_inv [OF one(1) _ s(2)] assms(2) one(2) ts by simp
  with one(4) assms(5) ts show ?thesis by simp
qed

section \<open>Replanning\<close>

definition total :: "env \<Rightarrow> run_state \<Rightarrow> nat" where
  "total env st = potential env st + 2 * nat (en_max_revisions env - st_revisions st)"

lemma results_ok_revised:
  assumes "results_ok st" and "pl_nodes (st_plan st') = map (revise_node q) (pl_nodes (st_plan st)) @ add"
    and "st_results st' = st_results st"
  shows "results_ok st'"
  unfolding results_ok_def
proof (intro allI impI)
  fix i r assume "dget (st_results st') i = Some r"
  with assms(1,3) obtain n where n: "nr_state r = COMPLETED" "n \<in> set (pl_nodes (st_plan st))" "ns_id n = i" "result_ok n r"
    unfolding results_ok_def by auto
  then have "revise_node q n \<in> set (pl_nodes (st_plan st'))" "ns_id (revise_node q n) = i" "result_ok (revise_node q n) r"
    using assms(2) result_ok_revised by auto
  with n(1) show "nr_state r = COMPLETED \<and> (\<exists>n \<in> set (pl_nodes (st_plan st')). ns_id n = i \<and> result_ok n r)" by blast
qed

lemma maybe_replan_inv:
  assumes inv: "run_inv env st" and m: "maybe_replan env st = Inr st'"
  shows "run_inv env st'" and "total env st' \<le> total env st"
proof -
  have "run_inv env st' \<and> total env st' \<le> total env st"
  proof (cases "st' = st")
    case True
    with inv show ?thesis by simp
  next
    case False
    with m obtain evidence revised g w where s: "st_revisions st < en_max_revisions env"
      "revise_from_evidence (en_fr env) (st_plan st) evidence = Inr (Some revised)"
      "build_graph revised = Inr g"
      "st' = st\<lparr>st_revisions := st_revisions st + 1, st_graph := g, st_world := w\<rparr>"
      by (auto simp: maybe_replan_def Let_def split: if_splits option.splits sum.splits)
    from build_graph_Inr [OF s(3)] have g: "wf_graph g" "pg_plan g = revised" by simp_all
    from s(2) obtain impacted where q: "revised = revise (st_plan st) (seam_request impacted)"
      and fresh: "REFACTOR \<notin> set (plan_ids (st_plan st))" by (rule revise_from_evidence_Some)
    have ids: "plan_ids revised = plan_ids (st_plan st) @ [REFACTOR]" by (simp add: q seam_ids)
    have ok: "results_ok st'"
      by (rule results_ok_revised [of st _ "seam_request impacted" "[seam_node impacted]"]) (use inv in \<open>simp_all add: run_inv_def s(4) g q\<close>)
    have i: "run_inv env st'" using inv ok s(1) g(1) unfolding run_inv_def by (auto simp: s(4) g(2) ids)
    have "unfinished st' \<le> Suc (unfinished st)"
    proof -
      have "unfinished st' \<le> card (insert REFACTOR (set (plan_ids (st_plan st)) - set (st_completed st)))"
        unfolding unfinished_def by (rule card_mono) (auto simp: s(4) g(2) ids)
      also have "\<dots> \<le> Suc (unfinished st)" unfolding unfinished_def by (simp add: card_insert_if)
      finally show ?thesis .
    qed
    moreover have "2 * nat (en_max_revisions env - st_revisions st') + 2
        = 2 * nat (en_max_revisions env - st_revisions st)" using s(1) by (simp add: s(4))
    ultimately show ?thesis using i by (simp add: total_def potential_def s(4))
  qed
  then show "run_inv env st'" "total env st' \<le> total env st" by simp_all
qed

section \<open>The loop\<close>

lemma ticked_state [simp]:
  "run_inv env (st\<lparr>st_world := w\<rparr>) = run_inv env st"
  "potential env (st\<lparr>st_world := w\<rparr>) = potential env st" "total env (st\<lparr>st_world := w\<rparr>) = total env st"
  by (simp_all add: run_inv_def results_ok_def potential_def unfinished_def total_def)

text \<open>What is offered: unfinished nodes whose dependencies completed.\<close>

lemma run_inv_todo:
  assumes "run_inv env st"
  obtains ns where "ready (st_graph st) (st_completed st) = Inr ns"
    and "filter (\<lambda>n. dget (st_results st) (ns_id n) = None) ns = ns"
    and "\<forall>n \<in> set ns. n \<in> set (pl_nodes (st_plan st)) \<and> ns_id n \<notin> set (st_completed st)
           \<and> set (ns_depends_on n) \<subseteq> set (st_completed st)"
    and "ns = [] \<longleftrightarrow> set (st_completed st) = set (plan_ids (st_plan st))"
proof -
  have g: "wf_graph (st_graph st)" and c: "set (st_completed st) \<subseteq> set (plan_ids (st_plan st))"
    and k: "set (dkeys (st_results st)) = set (st_completed st)"
    using assms by (simp_all add: run_inv_def)
  let ?ns = "filter (\<lambda>n. ns_id n \<notin> set (st_completed st) \<and> set (ns_depends_on n) \<subseteq> set (st_completed st))
    (pl_nodes (st_plan st))"
  note r = ready_eq [OF g c]
  have "?ns = [] \<longleftrightarrow> set (st_completed st) = set (plan_ids (st_plan st))"
  proof
    assume e: "?ns = []"
    show "set (st_completed st) = set (plan_ids (st_plan st))"
    proof (rule ccontr)
      assume "set (st_completed st) \<noteq> set (plan_ids (st_plan st))"
      with c have "set (st_completed st) \<subset> set (plan_ids (st_plan st))" by blast
      from ready_nonempty [OF g this] r e show False by (metis sum.inject(2))
    qed
  next
    assume "set (st_completed st) = set (plan_ids (st_plan st))"
    then show "?ns = []" by (auto simp: filter_empty_conv plan_ids_def)
  qed
  moreover have "filter (\<lambda>n. dget (st_results st) (ns_id n) = None) ?ns = ?ns"
  proof -
    have "dget (st_results st) (ns_id n) = None" if "ns_id n \<notin> set (st_completed st)" for n
      using k that unfolding dkeys_dget by auto
    then show ?thesis by (intro filter_True) auto
  qed
  moreover have "\<forall>n \<in> set ?ns. n \<in> set (pl_nodes (st_plan st)) \<and> ns_id n \<notin> set (st_completed st)
           \<and> set (ns_depends_on n) \<subseteq> set (st_completed st)" by simp
  ultimately show thesis by (intro that [OF r])
qed

lemma round_Again:
  assumes inv: "run_inv env st" and r: "round env st = Again st'"
  shows "run_inv env st'" and "total env st' < total env st"
proof -
  from run_inv_todo [OF inv] obtain ns where ns: "ready (st_graph st) (st_completed st) = Inr ns"
    "filter (\<lambda>n. dget (st_results st) (ns_id n) = None) ns = ns"
    "\<forall>n \<in> set ns. n \<in> set (pl_nodes (st_plan st)) \<and> ns_id n \<notin> set (st_completed st)
       \<and> set (ns_depends_on n) \<subseteq> set (st_completed st)" by metis
  let ?w = "ticked (st_world st)"
  let ?ts = "fst (run_tasks env (map new_task ns) ?w)" and ?w1 = "snd (run_tasks env (map new_task ns) ?w)"
  from r ns(1,2) obtain st2 where ne: "ns \<noteq> []" and c: "collect env ?ts (st\<lparr>st_world := ?w1\<rparr>) = Inr st2"
    and m: "maybe_replan env st2 = Inr st'"
    by (auto simp: round_def Let_def case_prod_beta split: if_splits sum.splits)
  have tasks: "\<forall>t \<in> set ?ts. task_inv t \<and> \<not> pending t \<and> tk_node t \<in> set (pl_nodes (st_plan (st\<lparr>st_world := ?w1\<rparr>)))"
    using batch_over ns(3) by (fastforce simp: pending_def)
  have len: "?ts \<noteq> []" "ns_id (tk_node (hd ?ts)) \<notin> set (st_completed st)"
  proof -
    have nodes: "map tk_node ?ts = ns" by (rule batch_nodes)
    then show "?ts \<noteq> []" using ne by (metis list.map_disc_iff)
    then have "tk_node (hd ?ts) \<in> set ns" using nodes by (metis hd_in_set image_eqI list.set_map)
    with ns(3) show "ns_id (tk_node (hd ?ts)) \<notin> set (st_completed st)" by blast
  qed
  have inv1: "run_inv env (st\<lparr>st_world := ?w1\<rparr>)" using inv by simp
  from collect_inv [OF inv1 tasks c] have s2: "run_inv env st2" "st_revisions st2 = st_revisions st" by simp_all
  have "potential env st2 < potential env st" using collect_less [OF inv1 tasks c len(1)] len(2) by simp
  then have "total env st2 < total env st" by (simp add: total_def s2(2))
  with maybe_replan_inv [OF s2(1) m] show "run_inv env st'" "total env st' < total env st" by simp_all
qed

lemma round_AllDone:
  assumes inv: "run_inv env st" and r: "round env st = AllDone st'"
  shows "run_inv env st'" and "set (st_completed st') = set (plan_ids (st_plan st'))"
proof -
  from run_inv_todo [OF inv] obtain ns where ns: "ready (st_graph st) (st_completed st) = Inr ns"
    "filter (\<lambda>n. dget (st_results st) (ns_id n) = None) ns = ns"
    "ns = [] \<longleftrightarrow> set (st_completed st) = set (plan_ids (st_plan st))" by metis
  from r ns(1,2) have "ns = []" and "st' = st\<lparr>st_world := ticked (st_world st)\<rparr>"
    by (auto simp: round_def Let_def case_prod_beta split: if_splits sum.splits)
  with inv ns(3) show "run_inv env st'" "set (st_completed st') = set (plan_ids (st_plan st'))" by simp_all
qed

text \<open>The fuel the measure names is enough.\<close>

lemma rounds_return:
  "run_inv env st \<Longrightarrow> total env st < fuel \<Longrightarrow> rounds fuel env st \<noteq> None"
proof (induction fuel arbitrary: st)
  case 0
  then show ?case by simp
next
  case (Suc n)
  show ?case
  proof (cases "round env st")
    case (Again st')
    from round_Again [OF Suc.prems(1) Again] Suc.prems(2) Suc.IH [of st'] Again show ?thesis by simp
  qed simp_all
qed

lemma first_state_sel [simp]:
  "st_graph (first_state env su problem p g) = g" "st_completed (first_state env su problem p g) = []"
  "st_results (first_state env su problem p g) = []" "st_state (first_state env su problem p g) = WORKING"
  "st_revisions (first_state env su problem p g) = 0" "st_repairs (first_state env su problem p g) = 0"
  by (simp_all add: first_state_def Let_def)

lemma first_state_inv:
  assumes "build_graph p = Inr g"
  shows "run_inv env (first_state env su problem p g)"
  using build_graph_Inr [OF assms] by (simp add: run_inv_def results_ok_def)

lemma first_state_total:
  assumes "build_graph p = Inr g"
  shows "total env (first_state env su problem p g)
    \<le> length (pl_nodes p) + 3 * nat (en_max_repairs env) + 2 * nat (en_max_revisions env)"
proof -
  have "card (set (plan_ids p)) \<le> length (pl_nodes p)"
    using card_length [of "plan_ids p"] by (simp add: plan_ids_def)
  with build_graph_Inr [OF assms] show ?thesis by (simp add: total_def potential_def unfinished_def)
qed

text \<open>Where a run that returns came from.\<close>

lemma rounds_last:
  assumes "rounds fuel env st = Some e" and "run_inv env st"
  shows "\<exists>st0. run_inv env st0 \<and>
    (\<exists>st'. round env st0 = AllDone st' \<and> e = close env (st'\<lparr>st_state := COMPLETED\<rparr>)
      \<or> (\<exists>reason. round env st0 = Stopped reason st' \<and> e = safe_stop env reason st')
      \<or> (\<exists>x. round env st0 = Crashed x st' \<and> e = Broken x st'))"
  using assms
proof (induction fuel arbitrary: st)
  case 0
  then show ?case by simp
next
  case (Suc n)
  show ?case
  proof (cases "round env st")
    case (Again st')
    with Suc.IH [of st'] Suc.prems round_Again [OF Suc.prems(2) Again] show ?thesis by simp
  qed (use Suc.prems in auto)
qed

end
