(* ===== verification/ExecutorProtocol.thy ===== *)
theory ExecutorProtocol
  imports ExecutorLoop
begin

text \<open>
  The contract of a node, abstractly: a life that waits, runs, pauses before a retry, and settles
  once. The tasks of a batch refine it step by step: whatever the event loop picks, each resumption of a
  task is a resumption of this machine, which never skips a pause and never wakes a settled life.
\<close>

section \<open>The abstract machine\<close>

datatype life =
    Waiting
  | Running int
  | Pausing int
  | Settled task_state int
  | Lost

text \<open>The moves of a node that may be attempted \<open>limit\<close> times.\<close>

inductive move :: "int \<Rightarrow> life \<Rightarrow> life \<Rightarrow> bool" for limit where
  turned_away: "move limit Waiting (Settled REJECTED 1)"
| admitted: "1 \<le> limit \<Longrightarrow> move limit Waiting (Running 1)"
| hopeless: "limit < 1 \<Longrightarrow> move limit Waiting (Settled FAILED 1)"
| succeeded: "move limit (Running k) (Settled COMPLETED k)"
| asked_back: "move limit (Running k) (Settled INPUT_REQUIRED k)"
| retried: "k < limit \<Longrightarrow> move limit (Running k) (Pausing (k + 1))"
| exhausted: "limit \<le> k \<Longrightarrow> move limit (Running k) (Settled FAILED k)"
| resumed: "move limit (Pausing k) (Running k)"
| crashed_waiting: "move limit Waiting Lost"
| crashed_running: "move limit (Running k) Lost"

code_pred move .

inductive_cases settled_move: "move limit (Settled s k) l"
inductive_cases lost_move: "move limit Lost l"

text \<open>
  What a task may do between two suspensions: one move, or entering an attempt and ending it at once, as
  the verification does, which suspends nowhere. A pause is left by resuming only, and the next attempt
  is entered from a pause only, so no resumption leads from one attempt into the next.
\<close>

inductive resumption :: "int \<Rightarrow> life \<Rightarrow> life \<Rightarrow> bool" for limit where
  single: "move limit l m \<Longrightarrow> resumption limit l m"
| through: "move limit l (Running k) \<Longrightarrow> move limit (Running k) m \<Longrightarrow> resumption limit l m"

fun over :: "life \<Rightarrow> bool" where
  "over (Settled s k) = True"
| "over Lost = True"
| "over l = False"

text \<open>The event loop resumes one task of a batch at a time; the others stay as they are.\<close>

inductive batch_move :: "int list \<Rightarrow> life list \<Rightarrow> life list \<Rightarrow> bool" for limits where
  "i < length ls \<Longrightarrow> resumption (limits ! i) (ls ! i) l \<Longrightarrow> batch_move limits ls (ls[i := l])"

definition over_for_good :: "life list \<Rightarrow> life list \<Rightarrow> bool" where
  "over_for_good ls ms \<longleftrightarrow> list_all2 (\<lambda>l m. over l \<longrightarrow> m = l) ls ms"

fun ended_well :: "int \<Rightarrow> life \<Rightarrow> bool" where
  "ended_well limit (Settled s k) =
     (1 \<le> k \<and> k \<le> max 1 limit \<and> s \<in> {COMPLETED, INPUT_REQUIRED, FAILED, REJECTED}
      \<and> (s = FAILED \<longrightarrow> limit \<le> k) \<and> (s = REJECTED \<longrightarrow> k = 1))"
| "ended_well limit Lost = True"
| "ended_well limit l = False"

text \<open>What the machine promises of the lives it can reach.\<close>

fun life_ok :: "int \<Rightarrow> life \<Rightarrow> bool" where
  "life_ok limit Waiting = True"
| "life_ok limit (Running k) = (1 \<le> k \<and> k \<le> limit)"
| "life_ok limit (Pausing k) = (2 \<le> k \<and> k \<le> limit)"
| "life_ok limit (Settled s k) =
     (1 \<le> k \<and> k \<le> max 1 limit \<and> s \<in> {COMPLETED, INPUT_REQUIRED, FAILED, REJECTED}
      \<and> (s = FAILED \<longrightarrow> limit \<le> k) \<and> (s = REJECTED \<longrightarrow> k = 1))"
| "life_ok limit Lost = True"

lemma move_ok: "move limit l m \<Longrightarrow> life_ok limit l \<Longrightarrow> life_ok limit m"
  by (induction rule: move.induct) auto

lemma resumption_ok: "resumption limit l m \<Longrightarrow> life_ok limit l \<Longrightarrow> life_ok limit m"
  by (induction rule: resumption.induct) (blast intro: move_ok)+

lemma ok_over: "life_ok limit l \<Longrightarrow> over l \<Longrightarrow> ended_well limit l"
  by (cases l) auto

text \<open>A settled life is settled for good, and so is one that was lost.\<close>

lemma over_stays: "resumption limit l m \<Longrightarrow> \<not> over l"
  by (cases l) (auto elim: resumption.cases settled_move lost_move)

lemma batch_move_over: "batch_move limits ls ms \<Longrightarrow> over_for_good ls ms"
  by (auto simp: over_for_good_def list_all2_conv_all_nth nth_list_update dest: over_stays elim!: batch_move.cases)

lemma over_for_good_trans: "transp over_for_good"
  by (rule transpI) (auto simp: over_for_good_def list_all2_conv_all_nth)

lemma trace_over: "successively (batch_move limits) tr \<Longrightarrow> sorted_wrt over_for_good tr"
  using successively_mono [of "batch_move limits" tr over_for_good] batch_move_over [of limits]
  by (simp add: successively_conv_sorted_wrt [OF over_for_good_trans])

lemma batch_move_ok:
  "batch_move limits ls ms \<Longrightarrow> list_all2 life_ok limits ls \<Longrightarrow> list_all2 life_ok limits ms"
  by (auto simp: list_all2_conv_all_nth nth_list_update elim!: batch_move.cases) (blast intro: resumption_ok)

lemma trace_ok:
  "successively (batch_move limits) tr \<Longrightarrow> tr \<noteq> [] \<Longrightarrow> list_all2 life_ok limits (hd tr) \<Longrightarrow> list_all2 life_ok limits (last tr)"
proof (induction tr)
  case (Cons ls tr)
  then show ?case using batch_move_ok [of limits ls] by (cases tr) (auto simp: successively_Cons)
qed simp

section \<open>The tasks refine it\<close>

definition life_of :: "task \<Rightarrow> life" where
  "life_of t =
     (let k = nr_attempts (tk_result t)
      in case tk_phase t of
           Fresh \<Rightarrow> Waiting
         | Sleeping \<Rightarrow> Pausing k
         | Dispatching _ \<Rightarrow> Running k
         | Returned \<Rightarrow> Settled (nr_state (tk_result t)) k
         | Raised _ \<Rightarrow> Lost)"

abbreviation task_limit :: "task \<Rightarrow> int" where
  "task_limit t \<equiv> attempts_of (tk_node t)"

lemma attempt_end_moves:
  assumes "attempt_end gs t u"
  shows "move (task_limit t) (Running (nr_attempts (tk_result t))) (life_of u)"
  using assms move.retried [of "nr_attempts (tk_result t)" "task_limit t"]
  by (cases "tk_phase u")
    (auto simp: attempt_end_def ending_def life_of_def Let_def intro: move.intros)

lemma attempt_begun_moves:
  assumes "attempt_begun t u"
  shows "life_of u = Running (nr_attempts (tk_result t))
    \<or> move (task_limit t) (Running (nr_attempts (tk_result t))) (life_of u)"
  using assms attempt_end_moves [of _ t u]
  by (auto simp: attempt_begun_def keeps_def life_of_def Let_def)

text \<open>A life from which an attempt is entered.\<close>

lemma launch_moves:
  assumes "move (task_limit t) l (Running (nr_attempts (tk_result t)))"
  shows "resumption (task_limit t) l (life_of (fst (launch env t w)))"
proof -
  have "life_of (fst (launch env t w)) = Running (nr_attempts (tk_result t))
    \<or> move (task_limit t) (Running (nr_attempts (tk_result t))) (life_of (fst (launch env t w)))"
    using attempt_begun_moves [OF launch_begun [of t env w]] by simp
  then show ?thesis using resumption.single [OF assms] resumption.through [OF assms] by auto
qed

lemma life_of_raised [simp]: "life_of (raised e t) = Lost"
  by (simp add: life_of_def)

lemma finish_with_life [simp]: "life_of (fst (finish_with env s x t w)) = Settled s (nr_attempts (tk_result t))"
  by (simp add: finish_with_def life_of_def)

lemma give_up_life:
  "life_of (fst (give_up env t w)) = Lost \<or> life_of (fst (give_up env t w)) = Settled FAILED (nr_attempts (tk_result t))"
  by (auto simp: give_up_def Let_def life_of_def split: option.splits sum.splits dest: rollback_task)

lemmas waiting_ends =
  resumption.single [OF move.turned_away] resumption.single [OF move.crashed_waiting] resumption.single [OF move.hopeless]

lemma enter_moves:
  assumes "nr_attempts (tk_result t) = 1"
  shows "resumption (task_limit t) Waiting (life_of (fst (enter env t w)))"
proof -
  have l: "resumption (task_limit t) Waiting (life_of (fst (launch env u w')))"
    if "tk_node u = tk_node t" "nr_attempts (tk_result u) = 1" "1 \<le> task_limit t" for u w'
    using launch_moves [of u Waiting env w'] that move.admitted by simp
  have f: "resumption (task_limit t) Waiting (life_of (fst (give_up env u w')))"
    if "nr_attempts (tk_result u) = 1" "task_limit t < 1" for u w'
    using give_up_life [of env u w'] that waiting_ends [of "task_limit t"] by auto
  show ?thesis unfolding enter_def Let_def
    using assms by (auto intro!: l f intro: waiting_ends split: sum.split)
qed

lemma start_moves:
  assumes "nr_attempts (tk_result t) = 1"
  shows "resumption (task_limit t) Waiting (life_of (fst (start env t w)))"
proof -
  have e: "resumption (task_limit t) Waiting (life_of (fst (enter env u w')))"
    if "tk_node u = tk_node t" "nr_attempts (tk_result u) = 1" for u w'
    using enter_moves [of u env w'] that by simp
  show ?thesis
    using assms by (cases "needs_approval (tk_node t)")
      (auto simp: start_def Let_def intro!: e intro: waiting_ends split: sum.split)
qed

lemma step_task_moves:
  assumes "task_inv t" and "pending t"
  shows "resumption (task_limit t) (life_of t) (life_of (fst (step_task env t w)))"
proof (cases "tk_phase t")
  case Fresh
  with assms start_moves [of t env w] show ?thesis
    by (simp add: step_task_def task_inv_def life_of_def)
next
  case Sleeping
  then have l: "life_of t = Pausing (nr_attempts (tk_result t))" by (simp add: life_of_def)
  show ?thesis using launch_moves [OF move.resumed, of t env w] Sleeping by (simp add: step_task_def l)
next
  case (Dispatching req)
  obtain emitted answer where d: "en_dispatch env (w_tick w) req = (emitted, answer)"
    by (cases "en_dispatch env (w_tick w) req")
  have l: "life_of t = Running (nr_attempts (tk_result t))" using Dispatching by (simp add: life_of_def)
  show ?thesis
  proof (cases answer)
    case (Inl e)
    with Dispatching d l show ?thesis
      by (auto simp: step_task_def intro: resumption.single [OF move.crashed_running])
  next
    case (Inr outcome)
    from finish_attempt_end obtain gs
      where "attempt_end gs t (fst (finish_attempt env t outcome (log_all env emitted (ticked w))))" by blast
    from resumption.single [OF attempt_end_moves [OF this]] Dispatching d Inr l show ?thesis by (simp add: step_task_def)
  qed
qed (use assms(2) in \<open>simp_all add: pending_def\<close>)

section \<open>The states a batch passes through\<close>

text \<open>What the tasks are after each resumption, from the first state on.\<close>

function batch_trace :: "env \<Rightarrow> task list \<Rightarrow> world \<Rightarrow> task list list" where
  "batch_trace env ts w =
     ts # (if pending_at ts = [] then [] else batch_trace env (fst (loop_step env ts w)) (snd (loop_step env ts w)))"
  by pat_completeness auto
termination
  by (relation "measure (\<lambda>(env, ts, w). sum_list (map steps_left ts))") (auto simp: case_prod_beta loop_step_less)

declare batch_trace.simps [simp del]

lemma batch_trace_Cons: "\<exists>us. batch_trace env ts w = ts # us"
  by (subst batch_trace.simps) simp

lemma last_batch_trace: "last (batch_trace env ts w) = fst (run_tasks env ts w)"
proof (induction env ts w rule: batch_trace.induct)
  case (1 env ts w)
  obtain us where us: "batch_trace env (fst (loop_step env ts w)) (snd (loop_step env ts w)) = fst (loop_step env ts w) # us"
    using batch_trace_Cons by blast
  with 1 show ?case by (subst batch_trace.simps, subst run_tasks.simps) simp
qed

lemma loop_step_batch_move:
  assumes "pending_at ts \<noteq> []" and "\<forall>t \<in> set ts. task_inv t"
  shows "batch_move (map task_limit ts) (map life_of ts) (map life_of (fst (loop_step env ts w)))"
proof -
  let ?i = "pick env ts w"
  note p = pick_pending [OF assms(1), of env w]
  have "resumption (map task_limit ts ! ?i) (map life_of ts ! ?i) (life_of (fst (step_task env (ts ! ?i) (ticked w))))"
    using step_task_moves [OF _ p(2), of env "ticked w"] assms(2) p(1) by simp
  from batch_move.intros [OF _ this] p(1) show ?thesis
    by (simp add: loop_step_def Let_def case_prod_beta map_update)
qed

lemma loop_step_inv:
  assumes "pending_at ts \<noteq> []" and "\<forall>t \<in> set ts. task_inv t"
  shows "\<forall>t \<in> set (fst (loop_step env ts w)). task_inv t"
    and "map tk_node (fst (loop_step env ts w)) = map tk_node ts"
proof -
  let ?i = "pick env ts w" and ?t = "fst (step_task env (ts ! pick env ts w) (ticked w))"
  note p = pick_pending [OF assms(1), of env w]
  have "task_inv ?t" using assms(2) p(1) step_task_inv by simp
  then show "\<forall>t \<in> set (fst (loop_step env ts w)). task_inv t"
    using assms(2) set_update_subset_insert [of ts ?i ?t] by (auto simp: loop_step_def Let_def case_prod_beta)
  show "map tk_node (fst (loop_step env ts w)) = map tk_node ts"
    using p(1) by (simp add: loop_step_def Let_def case_prod_beta map_update list_update_same_conv)
qed

lemma batch_trace_moves:
  assumes "\<forall>t \<in> set ts. task_inv t"
  shows "successively (batch_move (map task_limit ts)) (map (map life_of) (batch_trace env ts w))"
  using assms
proof (induction env ts w rule: batch_trace.induct)
  case (1 env ts w)
  show ?case
  proof (cases "pending_at ts = []")
    case True
    then show ?thesis by (subst batch_trace.simps) simp
  next
    case False
    let ?ts = "fst (loop_step env ts w)" and ?w = "snd (loop_step env ts w)"
    have "map task_limit ?ts = map attempts_of (map tk_node ?ts)" by simp
    then have same: "map task_limit ?ts = map task_limit ts" by (simp only: loop_step_inv(2) [OF False 1(2)]) simp
    obtain us where us: "batch_trace env ?ts ?w = ?ts # us" using batch_trace_Cons by blast
    with 1(1) [OF False loop_step_inv(1) [OF False 1(2)]] same loop_step_batch_move [OF False 1(2), of env w] False
    show ?thesis by (subst batch_trace.simps) (simp add: successively_Cons)
  qed
qed

end
