(* ===== verification/ExecutorFrame.thy ===== *)
theory ExecutorFrame
  imports ExecutorLoop WorkspaceProps
begin

text \<open>
  What a run does to the state its nodes share. A property of the world that every single operation
  on it keeps is kept by a step of a task, by a batch under every interleaving, and by a whole run.
  The operations are the interface \<open>world_inv\<close>; its lemmas are proved once and used for each
  property through an interpretation.
\<close>

section \<open>The operations on the world\<close>

definition left_world :: "'a raising \<Rightarrow> world" where
  "left_world r = (case r of Inl (e, w) \<Rightarrow> w | Inr (x, w) \<Rightarrow> w)"

lemma left_world_simps [simp]: "left_world (Inl (e, w)) = w" "left_world (Inr (x, w)) = w"
  by (simp_all add: left_world_def)

locale world_ops =
  fixes env :: env and P :: "world \<Rightarrow> bool"
  assumes tick: "P w \<Longrightarrow> P (ticked w)"
    and log: "et \<noteq> ARTIFACT_WRITTEN \<Longrightarrow> P w \<Longrightarrow> P (log_event env et p i w)"

text \<open>The operations of one node.\<close>

locale node_world = world_ops env P for env :: env and n :: node_spec and P :: "world \<Rightarrow> bool" +
  assumes stored: "P w \<Longrightarrow> P (log_event env ARTIFACT_WRITTEN p (Some (ns_id n)) w)"
    and answered: "P w \<Longrightarrow> P (log_all env (fst (en_dispatch env k req)) w)"
    and consumed: "P w \<Longrightarrow> P (consume_input env n d w)"
    and conflict: "P w \<Longrightarrow> P (w\<lparr>w_path_owner := ow\<rparr>)"
    and wrote: "P w \<Longrightarrow> P (w\<lparr>w_ws := written_ws (ws_write (w_ws w) rel c [] None None)\<rparr>)"
    and undone: "P w \<Longrightarrow> P (w\<lparr>w_ws := restored_ws (ws_restore_paths (w_ws w) sn ps)\<rparr>)"
    and tested: "P w \<Longrightarrow> P (w\<lparr>w_ws := (w_ws w)\<lparr>ws_fs := snd (en_pytest env k (w_ws w))\<rparr>\<rparr>)"
    and committed: "P w \<Longrightarrow> P (w\<lparr>w_outputs := os, w_lineage := fold (record_production (en_sha env)) as (w_lineage w)\<rparr>)"
begin

lemma inputs_inv: "P w \<Longrightarrow> P (inputs_for env n w)"
proof -
  have "P w \<Longrightarrow> P (fold (consume_input env n) ds w)" for ds
    by (induction ds arbitrary: w) (simp_all add: consumed)
  then show "P w \<Longrightarrow> P (inputs_for env n w)" by (simp add: inputs_for_def)
qed

lemma finish_inv: "P w \<Longrightarrow> P (snd (finish env t w))"
  by (simp add: finish_def Let_def log tick)

lemma finish_with_inv: "P w \<Longrightarrow> P (snd (finish_with env s x t w))"
  by (simp add: finish_with_def finish_inv)

lemma conflict_inv: "P w \<Longrightarrow> P (check_write_conflict env n path w)"
  unfolding check_write_conflict_def Let_def by (intro conflict) (auto simp: log split: option.splits)

lemma persist_one_inv: "P w \<Longrightarrow> P (left_world (persist_one env n a (xs, w)))"
proof -
  assume P: "P w"
  show "P (left_world (persist_one env n a (xs, w)))"
  proof (cases "art_path a")
    case None
    with P show ?thesis by (simp add: persist_one_def)
  next
    case (Some path)
    let ?w1 = "check_write_conflict env n path w"
    have w: "P (?w1\<lparr>w_ws := written_ws (ws_write (w_ws ?w1) path (art_content a) [] None None)\<rparr>)"
      by (rule wrote) (rule conflict_inv [OF P])
    show ?thesis
    proof (cases "ws_write (w_ws ?w1) path (art_content a) [] None None")
      case (Inl e)
      with w P Some show ?thesis by (cases e) (simp add: persist_one_def written_ws_def)
    next
      case (Inr r)
      with w P Some show ?thesis by (cases r) (simp add: persist_one_def written_ws_def Let_def stored)
    qed
  qed
qed

lemma persist_inv: "P w \<Longrightarrow> P (left_world (persist env n outcome w))"
proof -
  have "P w \<Longrightarrow> P (left_world (efold (persist_one env n) as (xs, w)))" for as xs
  proof (induction as arbitrary: xs w)
    case (Cons a as)
    from persist_one_inv [OF Cons.prems, of a xs] Cons.IH show ?case
      by (cases "persist_one env n a (xs, w)") auto
  qed simp
  then show "P w \<Longrightarrow> P (left_world (persist env n outcome w))" by (simp add: persist_def)
qed

lemma rollback_inv: "P w \<Longrightarrow> P (left_world (rollback env t sn w))"
  using undone [of w sn "sort (tk_written t)"]
  by (auto simp: rollback_def restored_ws_def log split: sum.splits)

lemma give_up_inv: "P w \<Longrightarrow> P (snd (give_up env t w))"
  using rollback_inv [of w "on_result (\<lambda>r. r\<lparr>nr_state := FAILED\<rparr>) t"]
  by (auto simp: give_up_def Let_def finish_inv left_world_def split: option.splits sum.splits)
    (metis (no_types, lifting) finish_inv sum.case(1,2) case_prod_conv)+

lemma next_attempt_inv: "P w \<Longrightarrow> P (snd (next_attempt env t w))"
  by (auto simp: next_attempt_def Let_def give_up_inv log split: option.splits)

lemma commit_inv: "P w \<Longrightarrow> P (snd (commit env t outcome written w))"
  by (simp add: commit_def Let_def finish_inv committed)

lemma reject_inv: "P w \<Longrightarrow> P (snd (reject env t g w))"
proof -
  assume P: "P w"
  let ?t = "(on_result (\<lambda>r. r\<lparr>nr_error := Some (''exit gate: '' @ gd_reason g)\<rparr>) t)
                 \<lparr>tk_failure := failure_brief (gd_reason g) (gd_violations g)\<rparr>"
  show ?thesis
  proof (cases "tk_snapshot t")
    case None
    with P show ?thesis by (simp add: reject_def Let_def next_attempt_inv)
  next
    case (Some sn)
    with rollback_inv [OF P, of ?t sn] show ?thesis
      by (cases "rollback env ?t sn w") (auto simp: reject_def Let_def next_attempt_inv)
  qed
qed

lemma exit_gate_inv: "P w \<Longrightarrow> P (snd (exit_gate env t outcome written w))"
proof -
  assume P: "P w"
  have v: "P w \<Longrightarrow> P (fold (log_violation env n) vs w)" for n vs w
    by (induction vs arbitrary: w) (simp_all add: log_violation_def log)
  have "P (log_gate env n g x w)" for n g x by (simp add: log_gate_def log P)
  then show ?thesis by (simp add: exit_gate_def Let_def v commit_inv reject_inv)
qed

lemma finish_attempt_inv: "tk_node t = n \<Longrightarrow> P w \<Longrightarrow> P (snd (finish_attempt env t outcome w))"
proof -
  assume n: "tk_node t = n" and P: "P w"
  show ?thesis
  proof (cases "so_state outcome = COMPLETED")
    case True
    with persist_inv [OF P, of outcome] n show ?thesis
      by (cases "persist env n outcome w") (auto simp: finish_attempt_def Let_def exit_gate_inv)
  next
    case False
    with P show ?thesis by (simp add: finish_attempt_def Let_def finish_with_inv next_attempt_inv)
  qed
qed

lemma verify_inv: "P w \<Longrightarrow> P (left_world (verify env w))"
proof -
  assume P: "P w"
  obtain a fs where e: "en_pytest env (w_tick w) (w_ws w) = (a, fs)" by fastforce
  have "P ((ticked w)\<lparr>w_ws := (w_ws w)\<lparr>ws_fs := fs\<rparr>\<rparr>)"
    using tested [OF tick [OF P], of "w_tick w"] e by (simp add: ticked_def)
  then show ?thesis by (auto simp: verify_def e Let_def split: sum.splits)
qed

lemma dispatch_node_inv: "tk_node t = n \<Longrightarrow> P w \<Longrightarrow> P (snd (dispatch_node env fb t w))"
proof -
  assume n: "tk_node t = n" and P: "P w"
  from verify_inv [OF P] P n show ?thesis
    by (cases "verify env w") (auto simp: dispatch_node_def Let_def finish_attempt_inv)
qed

lemma launch_keeps: "tk_node t = n \<Longrightarrow> P w \<Longrightarrow> P (snd (launch env t w))"
  by (simp add: launch_def dispatch_node_inv log)

lemma take_snapshot_world: "left_world (take_snapshot env n w) = w"
  by (simp add: take_snapshot_def split: sum.splits)

lemma enter_keeps: "tk_node t = n \<Longrightarrow> P w \<Longrightarrow> P (snd (enter env t w))"
proof -
  assume n: "tk_node t = n" and P: "P w"
  let ?w = "log_gate env n (entry_gate n (inputs_for env n w)) [] (inputs_for env n w)"
  have w: "P ?w" by (simp add: log_gate_def log inputs_inv P)
  with take_snapshot_world [of ?w] n show ?thesis
    by (cases "take_snapshot env n ?w") (auto simp: enter_def Let_def finish_with_inv launch_keeps give_up_inv)
qed

lemma later_step_inv:
  assumes "tk_node t = n" and "tk_phase t \<noteq> Fresh" and P: "P w"
  shows "P (snd (step_task env t w))"
proof (cases "tk_phase t")
  case (Dispatching req)
  obtain es answer where d: "en_dispatch env (w_tick w) req = (es, answer)" by fastforce
  have "P (log_all env es (ticked w))" using answered [OF tick [OF P], of "w_tick w" req] d by simp
  with Dispatching d assms(1) show ?thesis
    by (cases answer) (simp_all add: step_task_def Let_def finish_attempt_inv)
qed (use assms in \<open>simp_all add: step_task_def launch_keeps\<close>)

lemma step_inv:
  assumes "tk_node t = n" and asked: "\<And>w. P w \<Longrightarrow> P (left_world (approve env n w))" and P: "P w"
  shows "P (snd (step_task env t w))"
proof (cases "tk_phase t = Fresh")
  case True
  let ?w = "log_event env NODE_STARTED [(''kind'', JStr (sk_value (ns_kind n)))] (Some (ns_id n)) (ticked w)"
  have w: "P ?w" by (simp add: log tick P)
  with asked [OF w] assms(1) True show ?thesis
    by (cases "approve env n ?w")
      (auto simp: step_task_def start_def Let_def finish_with_inv enter_keeps)
next
  case False
  with later_step_inv assms show ?thesis by blast
qed

end

section \<open>Where a round leaves the world\<close>

definition round_state :: "round_end \<Rightarrow> run_state" where
  "round_state r = (case r of Again st \<Rightarrow> st | AllDone st \<Rightarrow> st | Stopped _ st \<Rightarrow> st | Crashed _ st \<Rightarrow> st)"

definition end_state :: "run_end \<Rightarrow> run_state" where
  "end_state r = (case r of Finished st \<Rightarrow> st | Broken _ st \<Rightarrow> st)"

lemma round_state_simps [simp]:
  "round_state (Again st) = st" "round_state (AllDone st) = st" "round_state (Stopped r st) = st"
  "round_state (Crashed e st) = st" "end_state (Finished st) = st" "end_state (Broken e st) = st"
  by (simp_all add: round_state_def end_state_def)

text \<open>
  The loop around the batches: \<open>N\<close> is what it may assume of the state of the run to know that a batch
  keeps \<open>P\<close>.
\<close>

locale loop_world = world_ops env P for env :: env and P :: "world \<Rightarrow> bool" and N :: "run_state \<Rightarrow> bool" +
  assumes noted: "P w \<Longrightarrow> P (w\<lparr>w_repair_note := note\<rparr>)"
    and seen: "P w \<Longrightarrow> P (w\<lparr>w_sees := s\<rparr>)"
    and batch: "N st \<Longrightarrow> ready (st_graph st) (st_completed st) = Inr ns \<Longrightarrow> P w \<Longrightarrow>
      P (snd (run_tasks env (map new_task (filter f ns)) w))"
    and onward: "N st \<Longrightarrow> round env st = Again st' \<Longrightarrow> N st'"
begin

lemma repair_world: "P (st_world st) \<Longrightarrow> repair env n r st = Some st' \<Longrightarrow> P (st_world st')"
  by (auto simp: repair_def Let_def log noted split: if_splits)

lemma collect_one_world:
  assumes "P (st_world st)"
  shows "P (st_world (case collect_one env t st of Inl (reason, st') \<Rightarrow> st' | Inr st' \<Rightarrow> st'))"
  using assms repair_world [of "st\<lparr>st_results := dset (ns_id (tk_node t)) (result_of t) (st_results st)\<rparr>"]
  by (auto simp: collect_one_def Let_def split: option.splits)

lemma collect_world:
  assumes "P (st_world st)"
  shows "P (st_world (case collect env ts st of Inl (reason, st') \<Rightarrow> st' | Inr st' \<Rightarrow> st'))"
  using assms unfolding collect_def
proof (induction ts arbitrary: st)
  case (Cons t ts)
  from collect_one_world [OF Cons.prems, of t] Cons.IH show ?case
    by (cases "collect_one env t st") auto
qed simp

lemma maybe_replan_world:
  assumes "P (st_world st)"
  shows "P (st_world (case maybe_replan env st of Inl (e, st') \<Rightarrow> st' | Inr st' \<Rightarrow> st'))"
  using assms by (auto simp: maybe_replan_def Let_def log seen split: option.splits sum.splits)

lemma round_world:
  assumes N: "N st" and "P (st_world st)" shows "P (st_world (round_state (round env st)))"
proof -
  let ?st = "st\<lparr>st_world := ticked (st_world st)\<rparr>"
  have P: "P (ticked (st_world st))" using assms(2) by (rule tick)
  show ?thesis
  proof (cases "en_stop env (w_tick (st_world st)) \<or> (\<exists>e. ready (st_graph st) (st_completed st) = Inl e)")
    case True
    with P show ?thesis by (auto simp: round_def Let_def)
  next
    case False
    then obtain ns where ns: "ready (st_graph st) (st_completed st) = Inr ns" by (cases "ready (st_graph st) (st_completed st)") auto
    let ?todo = "filter (\<lambda>n. dget (st_results st) (ns_id n) = None) ns"
    obtain ts w where b: "run_tasks env (map new_task ?todo) (ticked (st_world st)) = (ts, w)" by fastforce
    have w: "P w" using batch [OF N ns P, of "\<lambda>n. dget (st_results st) (ns_id n) = None"] b by simp
    from collect_world [of "?st\<lparr>st_world := w\<rparr>" ts] w
    have c: "P (st_world (case collect env ts (?st\<lparr>st_world := w\<rparr>) of Inl (reason, st') \<Rightarrow> st' | Inr st' \<Rightarrow> st'))" by simp
    show ?thesis
    proof (cases "collect env ts (?st\<lparr>st_world := w\<rparr>)")
      case (Inl x)
      with False ns b P c show ?thesis by (auto simp: round_def Let_def split: prod.split)
    next
      case (Inr st2)
      with c have "P (st_world st2)" by simp
      from maybe_replan_world [OF this] Inr False ns b P show ?thesis
        by (cases "maybe_replan env st2") (auto simp: round_def Let_def)
    qed
  qed
qed

lemma close_world: "P (st_world st) \<Longrightarrow> P (st_world (end_state (close env st)))"
  by (simp add: close_def log)

lemma safe_stop_world: "P (st_world st) \<Longrightarrow> P (st_world (end_state (safe_stop env reason st)))"
  by (simp add: safe_stop_def close_world log)

lemma rounds_world: "rounds fuel env st = Some r \<Longrightarrow> N st \<Longrightarrow> P (st_world st) \<Longrightarrow> P (st_world (end_state r))"
proof (induction fuel arbitrary: st)
  case (Suc k)
  from Suc.prems round_world [OF Suc.prems(2,3)] Suc.IH onward show ?case
    by (cases "round env st") (auto intro: close_world safe_stop_world)
qed simp

lemma first_state_world: "P (initial_world su problem g) \<Longrightarrow> P (st_world (first_state env su problem p g))"
  by (simp add: first_state_def Let_def log)

lemma run_world:
  assumes "run fuel env su problem p = Inr (Some r)"
    and "\<And>g. build_graph p = Inr g \<Longrightarrow> P (initial_world su problem g) \<and> N (first_state env su problem p g)"
  shows "P (st_world (end_state r))"
  using assms rounds_world first_state_world by (auto simp: run_def split: sum.splits)

end

text \<open>What is kept by the operations of every node, the human's decision included, is kept by the run.\<close>

locale world_inv =
  fixes env :: env and P :: "world \<Rightarrow> bool"
  assumes nodes: "\<And>n. node_world env n P"
    and asked: "P w \<Longrightarrow> P (left_world (approve env n w))"
    and noted: "P w \<Longrightarrow> P (w\<lparr>w_repair_note := note\<rparr>)"
    and seen: "P w \<Longrightarrow> P (w\<lparr>w_sees := s\<rparr>)"

sublocale world_inv \<subseteq> node: node_world env n P for n
  by (rule nodes)

context world_inv
begin

lemma step_task_keeps: "P w \<Longrightarrow> P (snd (step_task env t w))"
  using node.step_inv [OF refl asked] .

lemma run_tasks_world: "P w \<Longrightarrow> P (snd (run_tasks env ts w))"
  by (rule run_tasks_induct [where I = "\<lambda>ts. P"]) (simp_all add: step_task_keeps node.tick)

end

sublocale world_inv \<subseteq> loop: loop_world env P "\<lambda>_. True"
  by unfold_locales (simp_all add: noted seen run_tasks_world)

end
