(* ===== verification/ExecutorTrail.thy ===== *)
theory ExecutorTrail
  imports ExecutorFrame
begin

text \<open>
  What a run leaves on record: interpretations of the interface of the world for the audit log, the
  lineage store and the decisions of the human, and what they say of every run.
\<close>

section \<open>The fields an operation leaves alone\<close>

lemma ticked_sel [simp]:
  "w_audit (ticked w) = w_audit w" "w_lineage (ticked w) = w_lineage w" "w_ws (ticked w) = w_ws w"
  by (simp_all add: ticked_def)

lemma log_event_sel [simp]:
  "w_audit (log_event env et p i w) = emit (en_fr env) (en_time env (w_tick w)) et p i (w_audit w)"
  "w_lineage (log_event env et p i w) = w_lineage w" "w_ws (log_event env et p i w) = w_ws w"
  by (simp_all add: log_event_def)

lemma log_all_sel [simp]:
  "w_lineage (log_all env es w) = w_lineage w" "w_ws (log_all env es w) = w_ws w"
  by (induction es arbitrary: w) (auto simp: log_all_def)

lemma approve_sel [simp]:
  "w_lineage (left_world (approve env n w)) = w_lineage w" "w_ws (left_world (approve env n w)) = w_ws w"
  by (simp_all add: approve_def Let_def split: sum.splits)

lemma consume_input_sel [simp]:
  "w_audit (consume_input env n d w) = w_audit w" "w_ws (consume_input env n d w) = w_ws w"
  by (simp_all add: consume_input_def split: option.split)

section \<open>The audit log\<close>

text \<open>Asking logs the request, and then the decision, unless the broker itself fails.\<close>

lemma approve_audit:
  obtains (broken) e w1 t p where "approve env n w = Inl (e, w1)"
      and "w_audit w1 = emit (en_fr env) t APPROVAL_REQUESTED p (Some (ns_id n)) (w_audit w)"
  | (decided) yes w1 t p t' by_note where "approve env n w = Inr (yes, w1)"
      and "w_audit w1 = emit (en_fr env) t' APPROVAL_DECIDED ((''approved'', JBool yes) # by_note) (Some (ns_id n))
        (emit (en_fr env) t APPROVAL_REQUESTED p (Some (ns_id n)) (w_audit w))"
proof (cases "approve env n w")
  case (Inl r)
  obtain e w1 where r: "r = (e, w1)" by (cases r)
  from Inl show thesis unfolding r by (intro broken) (auto simp: approve_def Let_def split: sum.splits)
next
  case (Inr r)
  obtain yes w1 where r: "r = (yes, w1)" by (cases r)
  from Inr have "\<exists>t p t' q. w_audit w1 = emit (en_fr env) t' APPROVAL_DECIDED ((''approved'', JBool yes) # q) (Some (ns_id n))
        (emit (en_fr env) t APPROVAL_REQUESTED p (Some (ns_id n)) (w_audit w))"
    unfolding r by (fastforce simp: approve_def Let_def split: sum.splits prod.splits if_splits)
  with Inr r show thesis by (auto intro: decided)
qed

text \<open>Whatever happens, the log grows by events and nothing else.\<close>

definition log_grown :: "(real \<Rightarrow> string) \<Rightarrow> audit_log \<Rightarrow> audit_log \<Rightarrow> bool" where
  "log_grown fr l l' \<longleftrightarrow> (\<exists>new. al_events l' = al_events l @ new)
     \<and> (\<forall>run_id. log_inv fr run_id l \<longrightarrow> log_inv fr run_id l')"

lemma log_grown_refl [simp]: "log_grown fr l l"
  by (simp add: log_grown_def)

lemma log_grown_emit [simp]: "log_grown fr l l' \<Longrightarrow> log_grown fr l (emit fr t et p i l')"
  by (auto simp: log_grown_def emit_inv)

lemma log_grown_all: "log_grown (en_fr env) l (w_audit w) \<Longrightarrow> log_grown (en_fr env) l (w_audit (log_all env es w))"
  by (induction es arbitrary: w) (auto simp: log_all_def)

lemma log_grown_approve:
  assumes "log_grown (en_fr env) l (w_audit w)"
  shows "log_grown (en_fr env) l (w_audit (left_world (approve env n w)))"
  using assms by (cases env n w rule: approve_audit) simp_all

interpretation trail: world_inv env "\<lambda>w. log_grown (en_fr env) l (w_audit w)" for env l
  by unfold_locales (simp_all add: log_grown_all log_grown_approve)

section \<open>The lineage store\<close>

lemma fold_productions: "lineage_run sha s \<Longrightarrow> lineage_run sha (fold (record_production sha) as s)"
  by (induction as arbitrary: s) (simp_all add: lineage_run.produced)

interpretation provenance: world_inv env "\<lambda>w. lineage_run (en_sha env) (w_lineage w)" for env
  by unfold_locales
    (auto simp: fold_productions consume_input_def lineage_run.consumed split: option.split)

section \<open>The human's decision\<close>

definition grants :: "string \<Rightarrow> audit_event \<Rightarrow> bool" where
  "grants i e \<longleftrightarrow> ae_event_type e = APPROVAL_DECIDED \<and> ae_node_id e = Some i
     \<and> dget (ae_payload e) ''approved'' = Some (JBool True)"

definition writes :: "string \<Rightarrow> audit_event \<Rightarrow> bool" where
  "writes i e \<longleftrightarrow> ae_event_type e = ARTIFACT_WRITTEN \<and> ae_node_id e = Some i"

text \<open>Every write of the node comes after a decision that grants it.\<close>

definition guarded :: "string \<Rightarrow> audit_event list \<Rightarrow> bool" where
  "guarded i es \<longleftrightarrow> (\<forall>k < length es. writes i (es ! k) \<longrightarrow> (\<exists>j < k. grants i (es ! j)))"

lemma guarded_Nil [simp]: "guarded i []"
  by (simp add: guarded_def)

lemma guarded_snoc:
  "guarded i (es @ [e]) \<longleftrightarrow> guarded i es \<and> (writes i e \<longrightarrow> (\<exists>x \<in> set es. grants i x))"
proof -
  let ?L = "\<lambda>es k. writes i (es ! k) \<longrightarrow> (\<exists>j < k. grants i (es ! j))"
  have 1: "guarded i (es @ [e]) \<longleftrightarrow> ?L (es @ [e]) (length es) \<and> (\<forall>k < length es. ?L (es @ [e]) k)"
    by (simp only: guarded_def length_append_singleton All_less_Suc)
  have 2: "(\<forall>k < length es. ?L (es @ [e]) k) \<longleftrightarrow> (\<forall>k < length es. ?L es k)"
  proof -
    have "?L (es @ [e]) k \<longleftrightarrow> ?L es k" if k: "k < length es" for k
    proof -
      have "(es @ [e]) ! j = es ! j" if "j \<le> k" for j using k that by (simp add: nth_append)
      then show ?thesis by (simp cong: conj_cong)
    qed
    then show ?thesis by blast
  qed
  have 3: "?L (es @ [e]) (length es) \<longleftrightarrow> (writes i e \<longrightarrow> (\<exists>x \<in> set es. grants i x))"
  proof -
    have "(\<exists>x \<in> set es. grants i x) \<longleftrightarrow> (\<exists>j < length es. grants i (es ! j))"
      by (metis in_set_conv_nth)
    then show ?thesis by (simp add: nth_append cong: conj_cong)
  qed
  show ?thesis unfolding 1 2 3 by (subst guarded_def) (rule conj_commute)
qed

text \<open>The events of a run, after those the log held before.\<close>

definition watched :: "string \<Rightarrow> audit_log \<Rightarrow> audit_log \<Rightarrow> bool" where
  "watched i l l' \<longleftrightarrow> (\<exists>new. al_events l' = al_events l @ new \<and> guarded i new)"

definition granted :: "string \<Rightarrow> audit_log \<Rightarrow> audit_log \<Rightarrow> bool" where
  "granted i l l' \<longleftrightarrow> watched i l l' \<and> (\<exists>new. al_events l' = al_events l @ new \<and> (\<exists>e \<in> set new. grants i e))"

lemma watched_emit:
  assumes "watched i l l'" and "\<not> (et = ARTIFACT_WRITTEN \<and> nid = Some i)"
  shows "watched i l (emit fr t et p nid l')"
  using assms by (auto simp: watched_def guarded_snoc writes_def)

lemma granted_emit:
  assumes "granted i l l'" shows "granted i l (emit fr t et p nid l')"
  using assms by (auto simp: granted_def watched_def guarded_snoc)

lemma granted_decided:
  assumes "watched i l l'"
  shows "granted i l (emit fr t APPROVAL_DECIDED ((''approved'', JBool True) # q) (Some i) l')"
  using assms by (auto simp: granted_def watched_def guarded_snoc writes_def grants_def redact_payload_def)

lemma granted_watched: "granted i l l' \<Longrightarrow> watched i l l'"
  by (simp add: granted_def)

text \<open>The dispatcher records calls; it does not claim to have written files.\<close>

definition honest :: "env \<Rightarrow> bool" where
  "honest env \<longleftrightarrow> (\<forall>k req. \<forall>(et, p, nid) \<in> set (fst (en_dispatch env k req)). et \<noteq> ARTIFACT_WRITTEN)"

lemma log_all_watched:
  "\<forall>(et, p, nid) \<in> set es. et \<noteq> ARTIFACT_WRITTEN \<Longrightarrow> watched i l (w_audit w) \<Longrightarrow>
   watched i l (w_audit (log_all env es w))"
  by (induction es arbitrary: w) (auto simp: log_all_def watched_emit)

lemma log_all_granted: "granted i l (w_audit w) \<Longrightarrow> granted i l (w_audit (log_all env es w))"
  by (induction es arbitrary: w) (auto simp: log_all_def granted_emit)

text \<open>The operations of the other nodes, and those of the node once it is granted.\<close>

interpretation cleared: node_world env n "\<lambda>w. granted i l (w_audit w)" for env n i l
  by unfold_locales (simp_all add: granted_emit log_all_granted)

lemma others_watched:
  assumes "honest env" and "ns_id n \<noteq> i"
  shows "node_world env n (\<lambda>w. watched i l (w_audit w))"
  by unfold_locales
    (use assms in \<open>simp_all add: watched_emit log_all_watched honest_def\<close>)

lemma approve_watched:
  "watched i l (w_audit w) \<Longrightarrow> watched i l (w_audit (left_world (approve env n w)))"
  by (cases env n w rule: approve_audit) (simp_all add: watched_emit)

lemma approve_granted:
  assumes "watched (ns_id n) l (w_audit w)" and "approve env n w = Inr (True, w1)"
  shows "granted (ns_id n) l (w_audit w1)"
  using assms by (cases env n w rule: approve_audit) (auto simp: granted_decided watched_emit)

text \<open>A task of the node is past the human only when the log says so.\<close>

definition cleared_task :: "string \<Rightarrow> audit_log \<Rightarrow> audit_log \<Rightarrow> task \<Rightarrow> bool" where
  "cleared_task i l l' t \<longleftrightarrow>
     (ns_id (tk_node t) = i \<longrightarrow> needs_approval (tk_node t)
        \<and> (tk_phase t = Sleeping \<or> (\<exists>req. tk_phase t = Dispatching req) \<or> gates t \<noteq> [] \<longrightarrow> granted i l l'))"

interpretation kept: world_inv env "\<lambda>w. granted i l (w_audit w)" for env i l
proof (unfold_locales)
  fix w :: world and n assume "granted i l (w_audit w)"
  then show "granted i l (w_audit (left_world (approve env n w)))"
    by (cases env n w rule: approve_audit) (simp_all add: granted_emit)
qed simp_all

lemma cleared_task_kept:
  "cleared_task i l (w_audit w) t \<Longrightarrow> cleared_task i l (w_audit (snd (step_task env u w))) t"
  using kept.step_task_keeps [of i l w env u] by (auto simp: cleared_task_def)

lemma step_watched:
  assumes h: "honest env" and w: "watched i l (w_audit w)" and t: "cleared_task i l (w_audit w) t"
  shows "watched i l (w_audit (snd (step_task env t w)))
    \<and> cleared_task i l (w_audit (snd (step_task env t w))) (fst (step_task env t w))"
proof (cases "ns_id (tk_node t) = i \<and> \<not> granted i l (w_audit w)")
  case False
  show ?thesis
  proof (cases "ns_id (tk_node t) = i")
    case True
    with False have "granted i l (w_audit (snd (step_task env t w)))" using kept.step_task_keeps by blast
    with True t show ?thesis by (simp add: cleared_task_def granted_watched)
  next
    case other: False
    have "watched i l (w_audit (snd (step_task env t w)))"
      by (rule node_world.step_inv [OF others_watched [OF h other] refl approve_watched w])
    with other show ?thesis by (simp add: cleared_task_def)
  qed
next
  case True
  with t have n: "needs_approval (tk_node t)" "gates t = []" "ns_id (tk_node t) = i"
    and ph: "tk_phase t = Fresh \<or> tk_phase t = Returned \<or> (\<exists>e. tk_phase t = Raised e)"
    by (cases "tk_phase t"; auto simp: cleared_task_def)+
  show ?thesis
  proof (cases "tk_phase t = Fresh")
    case False
    with ph w t show ?thesis by (auto simp: step_task_def)
  next
    case True
    let ?w = "log_event env NODE_STARTED [(''kind'', JStr (sk_value (ns_kind (tk_node t))))] (Some i) (ticked w)"
    let ?t = "on_result (\<lambda>r. r\<lparr>nr_started_at := en_time env (w_tick w)\<rparr>) t"
    have w1: "watched i l (w_audit ?w)" using w by (simp add: watched_emit)
    show ?thesis
    proof (cases "approve env (tk_node t) ?w")
      case (Inl r)
      with approve_watched [OF w1, of env "tk_node t"] True n show ?thesis
        by (cases r) (simp add: step_task_def start_def Let_def cleared_task_def)
    next
      case (Inr r)
      obtain yes w2 where r: "r = (yes, w2)" by (cases r)
      have w2: "watched i l (w_audit w2)" using approve_watched [OF w1, of env "tk_node t"] Inr r by simp
      show ?thesis
      proof (cases yes)
        case False
        with Inr r w2 True n show ?thesis
          by (simp add: step_task_def start_def Let_def cleared_task_def finish_with_def finish_def watched_emit)
      next
        case yes: True
        have "granted i l (w_audit w2)"
          using approve_granted [of "tk_node t" l ?w env w2] w1 Inr r yes n(3) by simp
        then have "granted i l (w_audit (snd (enter env ?t w2)))"
          using cleared.enter_keeps [of ?t "tk_node t"] by simp
        with Inr r yes True n show ?thesis
          by (simp add: step_task_def start_def Let_def cleared_task_def granted_watched)
      qed
    qed
  qed
qed

text \<open>A batch of the event loop, whatever it picks.\<close>

lemma batch_watched:
  assumes h: "honest env" and w: "watched i l (w_audit w)" and ns: "\<forall>n \<in> set ns. ns_id n = i \<longrightarrow> needs_approval n"
  shows "watched i l (w_audit (snd (run_tasks env (map new_task ns) w)))
    \<and> (\<forall>t \<in> set (fst (run_tasks env (map new_task ns) w)).
         cleared_task i l (w_audit (snd (run_tasks env (map new_task ns) w))) t)"
proof (rule run_tasks_induct [where I = "\<lambda>ts w. watched i l (w_audit w) \<and> (\<forall>t \<in> set ts. cleared_task i l (w_audit w) t)"])
  show "watched i l (w_audit w) \<and> (\<forall>t \<in> set (map new_task ns). cleared_task i l (w_audit w) t)"
    using w ns by (auto simp: cleared_task_def nr_new_def)
next
  fix ts and v :: world and k
  assume I: "watched i l (w_audit v) \<and> (\<forall>t \<in> set ts. cleared_task i l (w_audit v) t)" and k: "k < length ts"
  let ?r = "step_task env (ts ! k) (ticked v)"
  have "watched i l (w_audit (snd ?r)) \<and> cleared_task i l (w_audit (snd ?r)) (fst ?r)"
    by (rule step_watched [OF h]) (use I k in simp_all)
  moreover have "cleared_task i l (w_audit (snd ?r)) t" if "t \<in> set ts" for t
    by (rule cleared_task_kept) (use I that in simp)
  ultimately show "watched i l (w_audit (snd ?r)) \<and> (\<forall>t \<in> set (ts[k := fst ?r]). cleared_task i l (w_audit (snd ?r)) t)"
    using set_update_subset_insert [of ts k "fst ?r"] by auto
qed

section \<open>The human's decision over a whole run\<close>

lemma revise_node_approval [simp]: "needs_approval (revise_node q n) = needs_approval n"
  by (auto simp: revise_node_def needs_approval_def Let_def split: option.split)

lemma maybe_replan_plan:
  assumes "maybe_replan env st = Inr st'"
  shows "st_graph st' = st_graph st \<or> (\<exists>q impacted. pl_nodes (st_plan st') =
    map (revise_node q) (pl_nodes (st_plan st)) @ [seam_node impacted])"
proof (cases "st_graph st' = st_graph st")
  case False
  with assms obtain evidence revised where s: "revise_from_evidence (en_fr env) (st_plan st) evidence = Inr (Some revised)"
    "build_graph revised = Inr (st_graph st')"
    by (auto simp: maybe_replan_def Let_def split: if_splits option.splits sum.splits)
  from s(1) obtain impacted where "revised = revise (st_plan st) (seam_request impacted)"
    by (rule revise_from_evidence_Some)
  with build_graph_Inr [OF s(2)] show ?thesis by (auto simp: revise_def seam_request_def)
qed simp

lemma round_plan:
  assumes inv: "run_inv env st" and r: "round env st = Again st'"
  shows "st_graph st' = st_graph st \<or> (\<exists>q impacted. pl_nodes (st_plan st') =
    map (revise_node q) (pl_nodes (st_plan st)) @ [seam_node impacted])"
proof -
  from run_inv_todo [OF inv] obtain ns where ns: "ready (st_graph st) (st_completed st) = Inr ns"
    "filter (\<lambda>n. dget (st_results st) (ns_id n) = None) ns = ns"
    "\<forall>n \<in> set ns. n \<in> set (pl_nodes (st_plan st))" by metis
  let ?w = "ticked (st_world st)"
  let ?ts = "fst (run_tasks env (map new_task ns) ?w)" and ?w1 = "snd (run_tasks env (map new_task ns) ?w)"
  from r ns(1,2) obtain st2 where c: "collect env ?ts (st\<lparr>st_world := ?w1\<rparr>) = Inr st2"
    and m: "maybe_replan env st2 = Inr st'"
    by (auto simp: round_def Let_def case_prod_beta split: if_splits sum.splits)
  have "\<forall>t \<in> set ?ts. task_inv t \<and> \<not> pending t \<and> tk_node t \<in> set (pl_nodes (st_plan (st\<lparr>st_world := ?w1\<rparr>)))"
    using batch_over ns(3) by (fastforce simp: pending_def)
  from collect_inv [OF _ this c] inv have "st_graph st2 = st_graph st" by simp
  with maybe_replan_plan [OF m] show ?thesis by simp
qed

definition gated_plan :: "string \<Rightarrow> env \<Rightarrow> run_state \<Rightarrow> bool" where
  "gated_plan i env st \<longleftrightarrow> run_inv env st \<and>
     (\<forall>n \<in> set (pl_nodes (st_plan st)). ns_id n = i \<longrightarrow> needs_approval n)"

lemma gated_plan_round:
  assumes "gated_plan i env st" and "round env st = Again st'" shows "gated_plan i env st'"
proof -
  have inv: "run_inv env st" using assms(1) by (simp add: gated_plan_def)
  have "needs_approval (seam_node impacted)" for impacted
    by (simp add: needs_approval_def seam_node_def)
  with assms round_plan [OF inv assms(2)] round_Again(1) [OF inv assms(2)] show ?thesis
    by (auto simp: gated_plan_def)
qed

lemma gated_loop:
  assumes "honest env"
  shows "loop_world env (\<lambda>w. watched i l (w_audit w)) (gated_plan i env)"
proof unfold_locales
  fix st ns f and w :: world
  assume g: "gated_plan i env st" and r: "ready (st_graph st) (st_completed st) = Inr ns" and w: "watched i l (w_audit w)"
  have "run_inv env st" using g by (simp add: gated_plan_def)
  from run_inv_todo [OF this] r have "\<forall>n \<in> set ns. n \<in> set (pl_nodes (st_plan st))" by (metis sum.inject(2))
  with g have "\<forall>n \<in> set (filter f ns). ns_id n = i \<longrightarrow> needs_approval n" by (auto simp: gated_plan_def)
  from batch_watched [OF assms w this]
  show "watched i l (w_audit (snd (run_tasks env (map new_task (filter f ns)) w)))" by simp
qed (auto simp: watched_emit intro: gated_plan_round)

lemma run_watched:
  assumes "honest env" and "run fuel env su problem p = Inr (Some r)"
    and "\<forall>n \<in> set (pl_nodes p). ns_id n = i \<longrightarrow> needs_approval n"
  shows "watched i (su_audit su) (w_audit (st_world (end_state r)))"
proof (rule loop_world.run_world [OF gated_loop [OF assms(1)] assms(2)], intro conjI)
  fix g assume g: "build_graph p = Inr g"
  show "watched i (su_audit su) (w_audit (initial_world su problem g))"
    by (simp add: watched_def initial_world_def)
  show "gated_plan i env (first_state env su problem p g)"
    using first_state_inv [OF g] build_graph_Inr [OF g] assms(3) by (simp add: gated_plan_def)
qed

end
