(* ===== verification/ExecutorOutcome.thy ===== *)
theory ExecutorOutcome
  imports ExecutorTrail
begin

text \<open>
  How a run ends: what holds of its state when the loop stops early, and that a run that returns
  either completed every node of its plan or stopped for a recorded reason.
\<close>

section \<open>Rounds that stop\<close>

definition budgets :: "env \<Rightarrow> run_state \<Rightarrow> bool" where
  "budgets env st \<longleftrightarrow> 0 \<le> st_repairs st \<and> st_repairs st \<le> max 0 (en_max_repairs env)
     \<and> 0 \<le> st_revisions st \<and> st_revisions st \<le> max 0 (en_max_revisions env)"

text \<open>Whatever a run has recorded about a node respects the node's own bounds.\<close>

definition judged :: "run_state \<Rightarrow> bool" where
  "judged st \<longleftrightarrow> (\<forall>i r. dget (st_results st) i = Some r \<longrightarrow>
     (\<exists>n \<in> set (pl_nodes (st_plan st)). ns_id n = i \<and> result_ok n r))"

definition consistent :: "env \<Rightarrow> run_state \<Rightarrow> bool" where
  "consistent env st \<longleftrightarrow> wf_graph (st_graph st) \<and> judged st \<and> budgets env st
     \<and> set (st_completed st) \<subseteq> set (plan_ids (st_plan st))"

lemma run_inv_consistent: "run_inv env st \<Longrightarrow> consistent env st"
  by (auto simp: run_inv_def consistent_def judged_def results_ok_def budgets_def)

lemma consistent_world [simp]: "consistent env (st\<lparr>st_world := w\<rparr>) = consistent env st"
  "consistent env (st\<lparr>st_state := s\<rparr>) = consistent env st"
  "consistent env (st\<lparr>st_stopped := x\<rparr>) = consistent env st"
  "consistent env (st\<lparr>st_pending := y\<rparr>) = consistent env st"
  by (simp_all add: consistent_def judged_def budgets_def)

lemma collect_one_stop:
  assumes "run_inv env st" and "task_inv t" and "\<not> pending t" and "tk_node t \<in> set (pl_nodes (st_plan st))"
    and "collect_one env t st = Inl (reason, st')"
  shows "consistent env st' \<and> st_state st' \<in> {WORKING, INPUT_REQUIRED}
    \<and> nr_state (result_of t) \<noteq> COMPLETED \<and> dget (st_results st') (ns_id (tk_node t)) = Some (result_of t)"
proof -
  let ?st = "st\<lparr>st_results := dset (ns_id (tk_node t)) (result_of t) (st_results st)\<rparr>"
  have "consistent env ?st"
    using run_inv_consistent [OF assms(1)] result_of_ok [OF assms(2,3)] assms(4)
    by (auto simp: consistent_def judged_def budgets_def)
  moreover have "st_state st = WORKING" using assms(1) by (simp add: run_inv_def)
  ultimately show ?thesis using assms(5)
    by (auto simp: collect_one_def Let_def split: if_splits option.splits)
qed

lemma collect_stop:
  assumes "run_inv env st"
    and "\<forall>t \<in> set ts. task_inv t \<and> \<not> pending t \<and> tk_node t \<in> set (pl_nodes (st_plan st))"
    and "collect env ts st = Inl (reason, st')"
  shows "consistent env st' \<and> st_state st' \<in> {WORKING, INPUT_REQUIRED}"
  using assms
proof (induction ts arbitrary: st)
  case Nil
  then show ?case by (simp add: collect_def)
next
  case (Cons t ts)
  have t: "task_inv t" "\<not> pending t" "tk_node t \<in> set (pl_nodes (st_plan st))" using Cons.prems(2) by simp_all
  show ?case
  proof (cases "collect_one env t st")
    case (Inl r)
    with Cons.prems(3) have "collect_one env t st = Inl (reason, st')" by (simp add: collect_def)
    from collect_one_stop [OF Cons.prems(1) t this] show ?thesis by simp
  next
    case (Inr st1)
    note one = collect_one_inv [OF Cons.prems(1) t Inr]
    have "collect env ts st1 = Inl (reason, st')" using Cons.prems(3) Inr by (simp add: collect_def)
    from Cons.IH [OF one(1) _ this] Cons.prems(2) one(2) show ?thesis by simp
  qed
qed

text \<open>A round with its batch and its collection named.\<close>

lemma round_batch:
  assumes inv: "run_inv env st"
  obtains (stop) "round env st = Stopped ''stop requested'' (st\<lparr>st_world := ticked (st_world st)\<rparr>)"
  | (finished) "round env st = AllDone (st\<lparr>st_world := ticked (st_world st)\<rparr>)"
  | (batch) ts w where "\<forall>t \<in> set ts. task_inv t \<and> \<not> pending t \<and> tk_node t \<in> set (pl_nodes (st_plan st))"
      and "run_inv env (st\<lparr>st_world := w\<rparr>)"
      and "round env st = (case collect env ts (st\<lparr>st_world := w\<rparr>) of
             Inl (reason, st2) \<Rightarrow> Stopped reason st2
           | Inr st2 \<Rightarrow> (case maybe_replan env st2 of Inl (e, st3) \<Rightarrow> Crashed e st3 | Inr st3 \<Rightarrow> Again st3))"
proof -
  from run_inv_todo [OF inv] obtain ns where ns: "ready (st_graph st) (st_completed st) = Inr ns"
    "filter (\<lambda>n. dget (st_results st) (ns_id n) = None) ns = ns"
    "\<forall>n \<in> set ns. n \<in> set (pl_nodes (st_plan st))" by metis
  let ?w = "ticked (st_world st)"
  let ?ts = "fst (run_tasks env (map new_task ns) ?w)" and ?w1 = "snd (run_tasks env (map new_task ns) ?w)"
  have "\<forall>t \<in> set ?ts. task_inv t \<and> \<not> pending t \<and> tk_node t \<in> set (pl_nodes (st_plan st))"
    using batch_over ns(3) by (fastforce simp: pending_def)
  from batch [OF this, of ?w1] inv ns(1,2) stop finished show thesis
    by (cases "en_stop env (w_tick (st_world st))"; cases "ns = []")
      (simp_all add: round_def Let_def case_prod_beta)
qed

lemma round_Stopped:
  assumes "run_inv env st" and "round env st = Stopped reason st'"
  shows "consistent env st' \<and> st_state st' \<in> {WORKING, INPUT_REQUIRED}"
  using assms(1)
proof (cases rule: round_batch)
  case stop
  with assms run_inv_consistent show ?thesis by (auto simp: run_inv_def)
next
  case (batch ts w)
  with assms(2) have "collect env ts (st\<lparr>st_world := w\<rparr>) = Inl (reason, st')"
    by (auto split: sum.splits)
  from collect_stop [OF batch(2) _ this] batch(1) show ?thesis by simp
qed (use assms(2) in simp)

text \<open>Only a revision can make the loop raise: on evidence it cannot slice, or with a plan that is invalid.\<close>

lemma round_Crashed:
  assumes "run_inv env st" and "round env st = Crashed x st'"
  shows "consistent env st' \<and> st_state st' = WORKING
    \<and> ((\<exists>e. x = en_planner_exn env e) \<or> (\<exists>e. x = en_graph_exn env e))"
  using assms(1)
proof (cases rule: round_batch)
  case (batch ts w)
  with assms(2) obtain st2 where c: "collect env ts (st\<lparr>st_world := w\<rparr>) = Inr st2" and m: "maybe_replan env st2 = Inl (x, st')"
    by (auto split: sum.splits)
  from collect_inv [OF batch(2) _ c] batch(1) have inv: "run_inv env st2" by simp
  then have "consistent env st2" "st_state st2 = WORKING" using run_inv_consistent by (auto simp: run_inv_def)
  then show ?thesis using m
    by (auto simp: maybe_replan_def Let_def consistent_def judged_def budgets_def
        split: if_splits option.splits sum.splits)
qed (use assms(2) in simp_all)

section \<open>Runs that return\<close>

lemma run_rounds:
  assumes "run fuel env su problem p = Inr (Some r)"
  obtains g where "build_graph p = Inr g" and "rounds fuel env (first_state env su problem p g) = Some r"
    and "run_inv env (first_state env su problem p g)"
  using assms first_state_inv by (auto simp: run_def split: sum.splits)

lemma run_consistent:
  assumes "run fuel env su problem p = Inr (Some r)"
  shows "consistent env (end_state r)"
proof -
  from assms obtain g where r: "rounds fuel env (first_state env su problem p g) = Some r"
    and i: "run_inv env (first_state env su problem p g)" by (rule run_rounds)
  from rounds_last [OF r i] obtain st0 st' where "run_inv env st0" and
    "round env st0 = AllDone st' \<and> r = close env (st'\<lparr>st_state := COMPLETED\<rparr>)
      \<or> (\<exists>reason. round env st0 = Stopped reason st' \<and> r = safe_stop env reason st')
      \<or> (\<exists>x. round env st0 = Crashed x st' \<and> r = Broken x st')" by blast
  then show ?thesis
    using round_AllDone(1) [of env st0 st'] round_Stopped [of env st0] round_Crashed [of env st0] run_inv_consistent
    by (auto simp: close_def safe_stop_def)
qed

text \<open>A plan holds one node per id, so a recorded result is judged by that node.\<close>

lemma plan_node_unique:
  "wf_graph g \<Longrightarrow> n \<in> set (pl_nodes (pg_plan g)) \<Longrightarrow> m \<in> set (pl_nodes (pg_plan g)) \<Longrightarrow> ns_id n = ns_id m \<Longrightarrow> n = m"
  by (auto simp: wf_graph_def valid_plan_def plan_ids_def distinct_map inj_on_def)

lemma run_completed:
  assumes "run fuel env su problem p = Inr (Some (Finished st))" and "st_state st = COMPLETED"
    and n: "n \<in> set (pl_nodes (st_plan st))"
  shows "\<exists>r. dget (st_results st) (ns_id n) = Some r \<and> nr_state r = COMPLETED \<and> result_ok n r"
proof -
  from assms(1) obtain g where r: "rounds fuel env (first_state env su problem p g) = Some (Finished st)"
    and i: "run_inv env (first_state env su problem p g)" by (rule run_rounds)
  from rounds_last [OF r i] obtain st0 st' where s0: "run_inv env st0" and
    c: "round env st0 = AllDone st' \<and> Finished st = close env (st'\<lparr>st_state := COMPLETED\<rparr>)
      \<or> (\<exists>reason. round env st0 = Stopped reason st' \<and> Finished st = safe_stop env reason st')
      \<or> (\<exists>x. round env st0 = Crashed x st' \<and> Finished st = Broken x st')" by blast
  have "\<not> (\<exists>reason. round env st0 = Stopped reason st' \<and> Finished st = safe_stop env reason st')"
    using round_Stopped [OF s0] assms(2) by (auto simp: safe_stop_def close_def split: if_splits)
  with c have d: "round env st0 = AllDone st'" "Finished st = close env (st'\<lparr>st_state := COMPLETED\<rparr>)" by auto
  note all = round_AllDone [OF s0 d(1)]
  have st: "st_results st = st_results st'" "st_graph st = st_graph st'" using d(2) by (simp_all add: close_def)
  have "ns_id n \<in> set (dkeys (st_results st'))" using all n st by (auto simp: run_inv_def plan_ids_def)
  then obtain r where g: "dget (st_results st') (ns_id n) = Some r" by (metis dget_Some_iff)
  with all(1) obtain m where m: "nr_state r = COMPLETED" "m \<in> set (pl_nodes (st_plan st'))" "ns_id m = ns_id n" "result_ok m r"
    unfolding run_inv_def results_ok_def by metis
  have "m = n" using plan_node_unique [of "st_graph st'" m n] all(1) m n st by (simp add: run_inv_def)
  with m g st show ?thesis by auto
qed

end
