(* ===== verification/ExecutorProps.thy ===== *)
theory ExecutorProps
  imports ExecutorProtocol ExecutorOutcome GraphProps
begin

text \<open>
  What a run of the executor promises, for every environment: every clock, every answer of the
  dispatcher and of the test process, every order in which the event loop resumes the nodes of a
  batch. The witnesses run a one-node plan whose node needs a human and writes a file.
\<close>

section \<open>A run to test against\<close>

text \<open>Left symbolic when a run is evaluated: the logarithm, redaction, and the text of the file.\<close>

declare shannon_entropy_def [code del] redact_payload_def [code del] dump_line.simps [code del]

definition sample_env :: env where
  "sample_env = \<lparr>en_sha = id, en_fr = (\<lambda>_. ''0.0''), en_time = (\<lambda>_. 0), en_uuid = (\<lambda>_. ''u''),
     en_dispatch = (\<lambda>_ req. ([], Inr ((outcome_new COMPLETED)\<lparr>so_parsed := Some [],
       so_artifacts := [\<lparr>art_name = ''m.py'', art_content = ''x'', art_produced_by = dr_node_id req,
         art_path = Some ''m.py'', art_media_type = ''text/x-python''\<rparr>]\<rparr>))),
     en_pytest = (\<lambda>_ ws. (Exited 0 [] [], ws_fs ws)), en_interpreter = ''python'', en_sched = id,
     en_stop = (\<lambda>_. False), en_ws_exn = (\<lambda>_. (''WorkspaceError'', [])), en_broker_exn = (\<lambda>_. (''KeyError'', [])),
     en_graph_exn = (\<lambda>_. (''GraphError'', [])), en_planner_exn = (\<lambda>_. (''TypeError'', [])),
     en_max_revisions = 3, en_max_repairs = 2\<rparr>"

definition change_node :: node_spec where
  "change_node = node_default\<lparr>ns_id := ''change'', ns_impact := IMPACT_HIGH\<rparr>"

definition change_plan :: plan where
  "change_plan = \<lparr>pl_nodes = [change_node], pl_version = 1, pl_rationale = [], pl_supersedes = None\<rparr>"

definition sample_services :: "bool \<Rightarrow> services" where
  "sample_services yes = \<lparr>su_ws = sample_ws, su_audit = new_log ''r'', su_policy = [ChangeControlRule {}],
     su_lineage = new_store, su_broker = new_broker (AutoApproval yes)\<rparr>"

definition sample_run :: "bool \<Rightarrow> graph_error + run_end option" where
  "sample_run yes = run 20 sample_env (sample_services yes) sample_problem change_plan"

definition labels :: "run_state \<Rightarrow> (event_type \<times> string option) list" where
  "labels st = map (\<lambda>e. (ae_event_type e, ae_node_id e)) (al_events (w_audit (st_world st)))"

definition completes_with :: "(event_type \<times> string option) list \<Rightarrow> graph_error + run_end option \<Rightarrow> bool" where
  "completes_with es r =
     (case r of
        Inr (Some (Finished st)) \<Rightarrow> st_state st = COMPLETED \<and> labels st = es
      | _ \<Rightarrow> False)"

definition sample_labels :: "(event_type \<times> string option) list" where
  "sample_labels = (let n = Some ''change'' in
     [(RUN_STARTED, None), (PLAN_CREATED, None), (NODE_STARTED, n), (APPROVAL_REQUESTED, n),
      (APPROVAL_DECIDED, n), (GATE_DECISION, n), (ARTIFACT_WRITTEN, n), (GATE_DECISION, n),
      (NODE_FINISHED, n), (RUN_FINISHED, None)])"

lemma sample_run_completes: "completes_with sample_labels (sample_run True)"
  by code_simp

lemma sample_run_ends:
  obtains st where "sample_run True = Inr (Some (Finished st))" and "st_state st = COMPLETED"
    and "labels st = sample_labels"
  using sample_run_completes by (auto simp: completes_with_def split: sum.splits option.splits run_end.splits)

lemma sample_length: "labels st = sample_labels \<Longrightarrow> length (al_events (w_audit (st_world st))) = 10"
proof -
  assume "labels st = sample_labels"
  then have "length (labels st) = length sample_labels" by simp
  then show ?thesis by (simp add: labels_def sample_labels_def Let_def)
qed

section \<open>Termination\<close>

text \<open>
  C19: Every run returns. An invalid plan is refused before anything is recorded; for a valid plan
  as many rounds as it has nodes, plus three per allowed repair and two per allowed revision, are
  enough, whatever the dispatcher, the tests, the clock and the event loop do.
\<close>

theorem run_terminates:
  assumes "length (pl_nodes p) + 3 * nat (en_max_repairs env) + 2 * nat (en_max_revisions env) < fuel"
  shows "if valid_plan p then \<exists>r. run fuel env su problem p = Inr (Some r)
    else \<exists>e. run fuel env su problem p = Inl e"
proof (cases "valid_plan p")
  case True
  then obtain g where g: "build_graph p = Inr g" using build_graph_ok by blast
  have "total env (first_state env su problem p g) < fuel" using first_state_total [OF g, of env su problem] assms by simp
  from rounds_return [OF first_state_inv [OF g] this] True g show ?thesis by (auto simp: run_def)
next
  case False
  then have "build_graph p \<noteq> Inr g" for g using build_graph_Inr by blast
  with False show ?thesis by (cases "build_graph p") (auto simp: run_def)
qed

theorem run_terminates_witness:
  "(if valid_plan sample_plan then \<exists>r. run 17 sample_env (sample_services False) sample_problem sample_plan = Inr (Some r)
     else \<exists>e. run 17 sample_env (sample_services False) sample_problem sample_plan = Inl e)
   \<and> length (pl_nodes sample_plan) = 4"
  using run_terminates [of sample_plan sample_env 17 "sample_services False" sample_problem]
  by (simp add: sample_plan_def sample_env_def)

section \<open>Outcomes\<close>

definition event_types :: "run_state \<Rightarrow> event_type list" where
  "event_types st = map ae_event_type (al_events (w_audit (st_world st)))"

lemma close_types: "close env st = Finished st' \<Longrightarrow> event_types st' = event_types st @ [RUN_FINISHED] \<and> st_state st' = st_state st"
  by (auto simp: close_def event_types_def)

lemma safe_stop_types:
  "safe_stop env reason st = Finished st' \<Longrightarrow> event_types st' = event_types st @ [SAFE_STOP, RUN_FINISHED]
     \<and> st_state st' = (if st_state st = WORKING then FAILED else st_state st) \<and> st_stopped st' = reason"
  by (auto simp: safe_stop_def close_def event_types_def)

text \<open>
  C21: A run that returns has one of two outcomes. It completed: then every node of its final plan
  has a result that is completed, whose entry gate opened first and whose exit gate opened last, with every exit
  gate in between closed. Or it stopped: then it reports failure or missing input, and a safe stop is the last thing
  logged before the end of the run. Its last event is always the end of the run.
\<close>

theorem run_outcome:
  assumes "run fuel env su problem p = Inr (Some (Finished st))"
  shows "last (event_types st) = RUN_FINISHED \<and>
    (if st_state st = COMPLETED
     then \<forall>n \<in> set (pl_nodes (pg_plan (st_graph st))). \<exists>r. dget (st_results st) (ns_id n) = Some r
       \<and> nr_state r = COMPLETED \<and> accepted (nr_gate_decisions r)
     else st_state st \<in> {FAILED, INPUT_REQUIRED} \<and> last (butlast (event_types st)) = SAFE_STOP)"
proof -
  from assms obtain g where r: "rounds fuel env (first_state env su problem p g) = Some (Finished st)"
    and i: "run_inv env (first_state env su problem p g)" by (rule run_rounds)
  from rounds_last [OF r i] obtain st0 st' where s0: "run_inv env st0" and
    c: "round env st0 = AllDone st' \<and> Finished st = close env (st'\<lparr>st_state := COMPLETED\<rparr>)
      \<or> (\<exists>reason. round env st0 = Stopped reason st' \<and> Finished st = safe_stop env reason st')
      \<or> (\<exists>x. round env st0 = Crashed x st' \<and> Finished st = Broken x st')" by blast
  have "last (event_types st) = RUN_FINISHED \<and> (st_state st = COMPLETED \<or>
      st_state st \<in> {FAILED, INPUT_REQUIRED} \<and> last (butlast (event_types st)) = SAFE_STOP)"
    using c close_types [of env _ st] safe_stop_types [of env _ st' st] round_Stopped [OF s0]
    by (auto simp: butlast_append)
  moreover have "\<exists>r. dget (st_results st) (ns_id n) = Some r \<and> nr_state r = COMPLETED \<and> accepted (nr_gate_decisions r)"
    if "st_state st = COMPLETED" "n \<in> set (pl_nodes (st_plan st))" for n
    using run_completed [OF assms that] by (auto simp: result_ok_def)
  ultimately show ?thesis by auto
qed

theorem run_outcome_witness:
  "\<exists>st. sample_run True = Inr (Some (Finished st)) \<and> st_state st = COMPLETED \<and> last (event_types st) = RUN_FINISHED
    \<and> list_all (\<lambda>n. \<exists>r. dget (st_results st) (ns_id n) = Some r \<and> nr_state r = COMPLETED) (pl_nodes (pg_plan (st_graph st)))"
proof -
  obtain st where r: "sample_run True = Inr (Some (Finished st))" and s: "st_state st = COMPLETED"
    by (rule sample_run_ends)
  from run_outcome [OF r [unfolded sample_run_def]] r s show ?thesis by (auto simp: list_all_iff)
qed

section \<open>Every interleaving\<close>

text \<open>
  C22: A batch refines the abstract life of its nodes, step by step. Whatever the event loop resumes and
  whatever is answered, all tasks start waiting, and between any two consecutive states exactly one task
  made a resumption of the machine, with the attempts its own node allows: it pauses before every
  further attempt, and is never resumed once it has settled or was lost. From any state on, a task that
  is over stays as it is. At the end, which is what the batch returns, every task is over, and a settled one
  respected its limit: it failed only after the last attempt and was rejected only without any.
\<close>

theorem batch_refines_protocol:
  "successively (batch_move (map attempts_of ns)) (map (map life_of) (batch_trace env (map new_task ns) w))
   \<and> hd (map (map life_of) (batch_trace env (map new_task ns) w)) = replicate (length ns) Waiting
   \<and> sorted_wrt over_for_good (map (map life_of) (batch_trace env (map new_task ns) w))
   \<and> last (batch_trace env (map new_task ns) w) = fst (run_tasks env (map new_task ns) w)
   \<and> list_all2 ended_well (map attempts_of ns) (map life_of (fst (run_tasks env (map new_task ns) w)))"
proof -
  let ?us = "fst (run_tasks env (map new_task ns) w)"
  have m: "successively (batch_move (map attempts_of ns)) (map (map life_of) (batch_trace env (map new_task ns) w))"
    using batch_trace_moves [of "map new_task ns" env w] by (simp add: new_task_inv comp_def)
  have hd: "hd (batch_trace env (map new_task ns) w) = map new_task ns" by (subst batch_trace.simps) simp
  have ne: "batch_trace env (map new_task ns) w \<noteq> []" by (subst batch_trace.simps) simp
  have start: "hd (map (map life_of) (batch_trace env (map new_task ns) w)) = replicate (length ns) Waiting"
    using hd ne by (simp add: hd_map comp_def life_of_def map_replicate_const)
  have "list_all2 life_ok (map attempts_of ns) (replicate (length ns) Waiting)"
    by (simp add: list_all2_conv_all_nth)
  with trace_ok [OF m] ne start last_batch_trace [of env "map new_task ns" w]
  have "list_all2 life_ok (map attempts_of ns) (map life_of ?us)" by (simp add: last_map)
  moreover have "over (life_of t)" if "t \<in> set ?us" for t
    using batch_over [OF that] by (auto simp: life_of_def)
  ultimately have "list_all2 ended_well (map attempts_of ns) (map life_of ?us)"
    by (auto simp: list_all2_conv_all_nth intro!: ok_over)
  with start m show ?thesis using trace_over [OF m] last_batch_trace [of env "map new_task ns" w] by blast
qed

text \<open>
  C23: A result of a batch is earned, under every interleaving. A completed node passed its entry
  gate, then every closed exit gate of earlier attempts, then an open one; a failed node that may be rolled back was
  rolled back; a rejected node was declined by the human or by its entry gate and nothing was
  attempted; and the fallback was used exactly when the last of several attempts was begun.
\<close>

theorem batch_results_are_earned:
  assumes "t \<in> set (fst (run_tasks env (map new_task ns) w))" and "tk_phase t = Returned"
  shows "tk_node t \<in> set ns \<and> nr_node_id (tk_result t) = ns_id (tk_node t)
    \<and> (nr_state (tk_result t) = COMPLETED \<longrightarrow> accepted (nr_gate_decisions (tk_result t)))
    \<and> (nr_state (tk_result t) = FAILED \<and> ns_rollback (tk_node t) \<longrightarrow> nr_rolled_back (tk_result t))
    \<and> (nr_state (tk_result t) = REJECTED \<longrightarrow>
         needs_approval (tk_node t) \<and> nr_gate_decisions (tk_result t) = []
         \<or> (\<exists>e. nr_gate_decisions (tk_result t) = [e] \<and> gd_gate e = ''entry'' \<and> \<not> gd_allowed e))
    \<and> (nr_used_fallback (tk_result t) \<longleftrightarrow> last_attempt t)"
  using batch_over [OF assms(1)] assms(2) by (auto simp: task_inv_def)

definition sample_batch :: "bool \<Rightarrow> task list \<times> world" where
  "sample_batch yes = run_tasks sample_env (map new_task [change_node])
     (initial_world (sample_services yes) sample_problem
       \<lparr>pg_plan = change_plan, pg_nodes = [], pg_order = [], pg_deps = [], pg_dependents = [], pg_level_ids = []\<rparr>)"

lemma sample_batch_declined:
  "map (\<lambda>t. tk_phase t = Returned \<and> nr_state (tk_result t) = REJECTED) (fst (sample_batch False)) = [True]"
  by code_simp

theorem batch_results_are_earned_witness:
  "list_all (\<lambda>t. nr_state (tk_result t) = REJECTED \<and> nr_node_id (tk_result t) = ''change''
     \<and> length (nr_gate_decisions (tk_result t)) \<le> 1) (fst (sample_batch False))
   \<and> length (fst (sample_batch False)) = 1"
proof -
  obtain t where t: "fst (sample_batch False) = [t]" "tk_phase t = Returned" "nr_state (tk_result t) = REJECTED"
    using sample_batch_declined by (cases "fst (sample_batch False)") auto
  have "t \<in> set (fst (sample_batch False))" by (simp add: t(1))
  from batch_results_are_earned [OF this [unfolded sample_batch_def] t(2)] t(3)
  have "tk_node t = change_node" "nr_node_id (tk_result t) = ns_id (tk_node t)" "length (gates t) \<le> 1"
    by auto
  with t show ?thesis by (simp add: change_node_def)
qed

section \<open>Budgets\<close>

text \<open>
  C24: A run respects its budgets, however it ends: repairs and plan revisions stay within what the
  executor was given, and every recorded result, completed or not, took at least one attempt and no
  more than its node allows, with the fallback only on the last of several.
\<close>

theorem run_stays_within_budgets:
  assumes "run fuel env su problem p = Inr (Some r)"
  shows "0 \<le> st_repairs (end_state r) \<and> st_repairs (end_state r) \<le> max 0 (en_max_repairs env)
    \<and> 0 \<le> st_revisions (end_state r) \<and> st_revisions (end_state r) \<le> max 0 (en_max_revisions env)
    \<and> (\<forall>i res. dget (st_results (end_state r)) i = Some res \<longrightarrow>
         (\<exists>n \<in> set (pl_nodes (pg_plan (st_graph (end_state r)))). ns_id n = i
            \<and> 1 \<le> nr_attempts res \<and> nr_attempts res \<le> max 1 (attempts_of n)
            \<and> (nr_used_fallback res \<longrightarrow> nr_attempts res = attempts_of n \<and> 1 < nr_attempts res)))"
  using run_consistent [OF assms] unfolding consistent_def judged_def budgets_def result_ok_def by blast

theorem run_stays_within_budgets_witness:
  "\<exists>st. sample_run True = Inr (Some (Finished st)) \<and> st_repairs st \<le> 2 \<and> st_revisions st \<le> 3"
proof -
  obtain st where r: "sample_run True = Inr (Some (Finished st))"
    by (rule sample_run_ends)
  from run_stays_within_budgets [OF r [unfolded sample_run_def]] r show ?thesis by (simp add: sample_env_def)
qed

section \<open>Records\<close>

text \<open>
  C25: What a run leaves on record is sound, even when it ends by an exception. The log it was given
  is extended, never rewritten; its events are numbered without gaps, in time order, and hide every
  value of a secret-looking field; every consumed artifact revision is in the lineage store, where no two consecutive
  revisions of an artifact have the same content.
\<close>

theorem run_records_are_sound:
  assumes "log_run (en_fr env) run_id (su_audit su)" and "lineage_run (en_sha env) (su_lineage su)"
    and "run fuel env su problem p = Inr (Some r)"
  defines "l \<equiv> w_audit (st_world (end_state r))" and "s \<equiv> w_lineage (st_world (end_state r))"
  shows "(\<exists>new. al_events l = al_events (su_audit su) @ new)
    \<and> map ae_seq (al_events l) = map int [1..<Suc (length (al_events l))] \<and> sorted (map ae_at (al_events l))
    \<and> (\<forall>e \<in> set (al_events l). ae_run_id e = run_id \<and> hides_secrets None (JObj (ae_payload e)))
    \<and> (\<forall>e \<in> set (lg_edges s). \<exists>a \<in> set (revisions_of s (le_artifact_name e)).
         art_sha (en_sha env) a = le_artifact_sha e)
    \<and> (\<forall>name. successively (\<lambda>a b. art_sha (en_sha env) a \<noteq> art_sha (en_sha env) b) (revisions_of s name))"
proof -
  have "log_grown (en_fr env) (su_audit su) l"
    unfolding l_def by (rule trail.loop.run_world [OF assms(3)]) (simp add: initial_world_def)
  with log_run_inv [OF assms(1)] have l: "\<exists>new. al_events l = al_events (su_audit su) @ new" "log_inv (en_fr env) run_id l"
    by (auto simp: log_grown_def)
  have "lineage_run (en_sha env) s"
    unfolding s_def by (rule provenance.loop.run_world [OF assms(3)]) (simp add: initial_world_def assms(2))
  from lineage_run_inv [OF this] have s: "lineage_inv (en_sha env) s" .
  from l s show ?thesis by (simp add: log_inv_def lineage_inv_def knows_sha_def list_ex_iff)
qed

theorem run_records_are_sound_witness:
  "\<exists>st. sample_run True = Inr (Some (Finished st)) \<and> map ae_seq (al_events (w_audit (st_world st))) = [1, 2, 3, 4, 5, 6, 7, 8, 9, 10]"
proof -
  obtain st where r: "sample_run True = Inr (Some (Finished st))" and l: "labels st = sample_labels"
    by (rule sample_run_ends)
  have "log_run (en_fr sample_env) ''r'' (su_audit (sample_services True))"
    and "lineage_run (en_sha sample_env) (su_lineage (sample_services True))"
    by (simp_all add: sample_services_def log_run.fresh lineage_run.start)
  from run_records_are_sound [OF this r [unfolded sample_run_def]] r show ?thesis
    by (simp add: sample_length [OF l] upt_rec)
qed

section \<open>The human in the loop\<close>

text \<open>
  C20: Approval comes before the change. If every node with an id needs approval, then in the events
  a run logs each write of an artifact by that node comes after a decision of the human that granted
  it, for every interleaving, retry, repair and revision of the plan. The dispatcher is only
  assumed not to log writes itself.
\<close>

theorem approval_precedes_writes:
  assumes "\<forall>k req. \<forall>(et, payload, nid) \<in> set (fst (en_dispatch env k req)). et \<noteq> ARTIFACT_WRITTEN"
    and "\<forall>n \<in> set (pl_nodes p). ns_id n = i \<longrightarrow> needs_approval n"
    and "run fuel env su problem p = Inr (Some r)"
  shows "\<exists>new. al_events (w_audit (st_world (end_state r))) = al_events (su_audit su) @ new
    \<and> (\<forall>k < length new. ae_event_type (new ! k) = ARTIFACT_WRITTEN \<and> ae_node_id (new ! k) = Some i \<longrightarrow>
         (\<exists>j < k. ae_event_type (new ! j) = APPROVAL_DECIDED \<and> ae_node_id (new ! j) = Some i
            \<and> dget (ae_payload (new ! j)) ''approved'' = Some (JBool True)))"
proof -
  have "honest env" using assms(1) by (simp add: honest_def)
  from run_watched [OF this assms(3,2)] show ?thesis
    by (simp add: watched_def guarded_def writes_def grants_def)
qed

theorem approval_precedes_writes_witness:
  "\<exists>st. sample_run True = Inr (Some (Finished st))
    \<and> (\<exists>j. ae_event_type (al_events (w_audit (st_world st)) ! 6) = ARTIFACT_WRITTEN \<and> j < 6
        \<and> ae_event_type (al_events (w_audit (st_world st)) ! j) = APPROVAL_DECIDED
        \<and> dget (ae_payload (al_events (w_audit (st_world st)) ! j)) ''approved'' = Some (JBool True))"
proof -
  obtain st where r: "sample_run True = Inr (Some (Finished st))" and l: "labels st = sample_labels"
    by (rule sample_run_ends)
  let ?es = "al_events (w_audit (st_world st))"
  have "labels st ! 6 = sample_labels ! 6" using l by simp
  then have six: "ae_event_type (?es ! 6) = ARTIFACT_WRITTEN \<and> ae_node_id (?es ! 6) = Some ''change''"
    using sample_length [OF l] by (simp add: labels_def sample_labels_def Let_def)
  have "\<forall>k req. \<forall>(et, payload, nid) \<in> set (fst (en_dispatch sample_env k req)). et \<noteq> ARTIFACT_WRITTEN"
    and "\<forall>n \<in> set (pl_nodes change_plan). ns_id n = ''change'' \<longrightarrow> needs_approval n"
    by (simp_all add: sample_env_def change_plan_def change_node_def needs_approval_def)
  from approval_precedes_writes [OF this r [unfolded sample_run_def]] obtain new where n:
    "?es = al_events (su_audit (sample_services True)) @ new"
    "\<forall>k < length new. ae_event_type (new ! k) = ARTIFACT_WRITTEN \<and> ae_node_id (new ! k) = Some ''change'' \<longrightarrow>
         (\<exists>j < k. ae_event_type (new ! j) = APPROVAL_DECIDED \<and> ae_node_id (new ! j) = Some ''change''
            \<and> dget (ae_payload (new ! j)) ''approved'' = Some (JBool True))" by auto
  have "?es = new" using n(1) by (simp add: sample_services_def new_log_def)
  with spec [OF n(2), of 6] six sample_length [OF l] r show ?thesis by auto
qed

end
