(* ===== verification/Agents.thy ===== *)
theory Agents
  imports Executor
begin

text \<open>
  The stage agents, \<^verbatim>\<open>keel/agents/definitions.py\<close>: the seven prompt templates, the variables they name,
  and rendering. System prompts and JSON schemas are text handed through to the model; they are an
  argument of the table of definitions. What the executor's payload has to do with the templates is
  proved here: every prompt can be rendered, and the text about a failed attempt reaches none but
  the analysis.
\<close>

section \<open>Templates\<close>

definition analyze_template :: string where
  "analyze_template = str_join newline
    [''REQUIREMENT'',
     ''{requirement}'',
     [],
     ''EXISTING CODE'',
     ''{existing_code}'',
     [],
     ''PRIOR ANSWERS'',
     ''{prior_answers}'',
     [],
     ''An empty EXISTING CODE section means there is nothing to preserve and the scenario is '' @
     ''greenfield. PRIOR ANSWERS are decisions a human already made about this requirement; '' @
     ''treat them as authoritative, do not raise them again, and let them raise your '' @
     ''confidence.'',
     [],
     ''Normalize the requirement into the schema.'']"

definition design_template :: string where
  "design_template = str_join newline
    [''INTENT'',
     ''{intent}'',
     [],
     ''ACCEPTANCE CRITERIA'',
     ''{acceptance_criteria}'',
     [],
     ''CONSTRAINTS'',
     ''{constraints}'',
     [],
     ''SCENARIO'',
     ''{scenario}'',
     [],
     ''Design the API and data model that satisfies exactly these criteria under these '' @
     ''constraints. Every acceptance criterion must be satisfiable by an endpoint you listed, '' @
     ''and every endpoint must trace to a criterion.'']"

definition implement_template :: string where
  "implement_template = str_join newline
    [''INTENT'',
     ''{intent}'',
     [],
     ''DESIGN'',
     ''{design}'',
     [],
     ''ACCEPTANCE CRITERIA'',
     ''{acceptance_criteria}'',
     [],
     ''CONSTRAINTS'',
     ''{constraints}'',
     [],
     ''Implement this design as a complete, runnable service. Include requirements.txt with '' @
     ''pinned versions. The next stage generates tests against the files you return and '' @
     ''reviews them line by line, so return the code you would defend in that review.'']"

definition test_template :: string where
  "test_template = str_join newline
    [''DESIGN'',
     ''{design}'',
     [],
     ''IMPLEMENTATION'',
     ''{implementation}'',
     [],
     ''ACCEPTANCE CRITERIA'',
     ''{acceptance_criteria}'',
     [],
     ''Write the pytest suite for this implementation. Import paths, endpoint paths, field '' @
     ''names and status codes must match the implementation exactly, not the design, when the '' @
     ''two differ. Note any such difference in coverage_notes, because a mismatch between '' @
     ''design and code is a finding even when your tests pass.'']"

definition document_template :: string where
  "document_template = str_join newline
    [''INTENT'',
     ''{intent}'',
     [],
     ''DESIGN'',
     ''{design}'',
     [],
     ''IMPLEMENTATION'',
     ''{implementation}'',
     [],
     ''Write README.md for this service. Take every path, field name, default and status code '' @
     ''from the implementation.'']"

definition review_template :: string where
  "review_template = str_join newline
    [''ARTIFACTS UNDER REVIEW'',
     ''{artifacts}'',
     [],
     ''ACCEPTANCE CRITERIA'',
     ''{acceptance_criteria}'',
     [],
     ''CONSTRAINTS'',
     ''{constraints}'',
     [],
     ''Review these artifacts. Include findings against the tests and the documentation, not '' @
     ''only the service code: a test that cannot fail and a README that documents behaviour '' @
     ''the code does not have are both defects. Report everything you found.'']"

definition release_check_template :: string where
  "release_check_template = str_join newline
    [''ACCEPTANCE CRITERIA'',
     ''{acceptance_criteria}'',
     [],
     ''ARTIFACTS PRODUCED'',
     ''{artifacts}'',
     [],
     ''REVIEW FINDINGS'',
     ''{review_findings}'',
     [],
     ''Decide whether this is releasable against the criteria and the findings.'']"

section \<open>The definitions\<close>

fun template_for :: "stage_kind \<Rightarrow> string" where
  "template_for ANALYZE = analyze_template"
| "template_for DESIGN_STAGE = design_template"
| "template_for IMPLEMENT_STAGE = implement_template"
| "template_for TEST_STAGE = test_template"
| "template_for DOCUMENT_STAGE = document_template"
| "template_for REVIEW_STAGE = review_template"
| "template_for RELEASE_CHECK = release_check_template"

definition stage_definition_of ::
  "(stage_kind \<Rightarrow> string \<times> (string, json) dict option) \<Rightarrow> stage_kind \<Rightarrow> stage_definition" where
  "stage_definition_of prompts k =
     \<lparr>sd_skill_id = sk_value k, sd_system_prompt = fst (prompts k),
      sd_prompt_template = template_for k, sd_json_schema = snd (prompts k)\<rparr>"

definition stage_definitions ::
  "(stage_kind \<Rightarrow> string \<times> (string, json) dict option) \<Rightarrow> stage_definition list" where
  "stage_definitions prompts = map (stage_definition_of prompts) all_stages"

text \<open>
  The fields of a template in order of appearance; \<open>Inl\<close> is the \<open>ValueError\<close> of a stray brace.
\<close>

fun fields_of :: "string option \<Rightarrow> string \<Rightarrow> exn + string list" where
  "fields_of None [] = Inr []"
| "fields_of None (c # cs) =
     (if c = CHR 0x7B
      then (if str_startswith cs [CHR 0x7B] then fields_of None (tl cs) else fields_of (Some []) cs)
      else if c = CHR 0x7D
      then (if str_startswith cs [CHR 0x7D] then fields_of None (tl cs)
            else Inl (''ValueError'', ''Single closing brace encountered in format string''))
      else fields_of None cs)"
| "fields_of (Some name) [] = Inl (''ValueError'', ''unmatched opening brace in format string'')"
| "fields_of (Some name) (c # cs) =
     (if c = CHR 0x7D then map_sum id (Cons (rev name)) (fields_of None cs)
      else fields_of (Some (c # name)) cs)"

definition template_variables :: "stage_definition \<Rightarrow> exn + string list" where
  "template_variables d = map_sum id (\<lambda>ns. uniq (filter (\<lambda>n. n \<noteq> []) ns)) (fields_of None (sd_prompt_template d))"

text \<open>\<open>definition_for\<close>: the stage by the value of its kind.\<close>

definition definition_of_stage ::
  "(stage_kind \<Rightarrow> string \<times> (string, json) dict option) \<Rightarrow> string \<Rightarrow> exn + stage_definition" where
  "definition_of_stage prompts kind =
     (case sk_of_value kind of
        None \<Rightarrow> Inl (''KeyError'', str_repr (''unknown stage '' @ str_repr kind @ ''; expected one of: ''
                  @ str_join '', '' (map sk_value all_stages)))
      | Some k \<Rightarrow> Inr (stage_definition_of prompts k))"

definition list_repr :: "string list \<Rightarrow> string" where
  "list_repr xs = ''['' @ str_join '', '' (map str_repr xs) @ '']''"

text \<open>The key of the \<open>KeyError\<close> that formatting raises.\<close>

fun missing_key :: "string option \<Rightarrow> (string, string) dict \<Rightarrow> string \<Rightarrow> string" where
  "missing_key None kwargs [] = ''?''"
| "missing_key None kwargs (c # cs) =
     (if c = CHR 0x7B
      then (if str_startswith cs [CHR 0x7B] then missing_key None kwargs (tl cs) else missing_key (Some []) kwargs cs)
      else if c = CHR 0x7D
      then (if str_startswith cs [CHR 0x7D] then missing_key None kwargs (tl cs) else ''?'')
      else missing_key None kwargs cs)"
| "missing_key (Some name) kwargs [] = ''?''"
| "missing_key (Some name) kwargs (c # cs) =
     (if c = CHR 0x7D
      then (if dget kwargs (rev name) = None then rev name else missing_key None kwargs cs)
      else missing_key (Some (c # name)) kwargs cs)"

text \<open>A missing variable is reported with the stage, the variable and what was supplied.\<close>

definition render ::
  "(stage_kind \<Rightarrow> string \<times> (string, json) dict option) \<Rightarrow> string \<Rightarrow> (string, string) dict \<Rightarrow> exn + string \<times> string"
where
  "render prompts kind kwargs =
     (case definition_of_stage prompts kind of
        Inl e \<Rightarrow> Inl e
      | Inr d \<Rightarrow>
          (case format_text None kwargs (sd_prompt_template d) of
             Inr prompt \<Rightarrow> Inr (sd_system_prompt d, prompt)
           | Inl e \<Rightarrow>
               if fst e = ''KeyError''
               then Inl (''MissingTemplateVariable'', ''stage '' @ str_repr (sd_skill_id d)
                      @ '' needs template variable {'' @ missing_key None kwargs (sd_prompt_template d)
                      @ ''}, which was not supplied. Required: ''
                      @ list_repr (case template_variables d of Inl _ \<Rightarrow> [] | Inr ns \<Rightarrow> ns)
                      @ ''. Supplied: '' @ list_repr (sort (dkeys kwargs)) @ ''.'')
               else Inl e))"

section \<open>Rendering depends on the fields alone\<close>

lemma format_text_cong:
  "fields_of st t = Inr ns \<Longrightarrow> \<forall>n \<in> set ns. dget p n = dget q n \<Longrightarrow> format_text st p t = format_text st q t"
proof (induction st t arbitrary: ns rule: fields_of.induct)
  case (2 c cs)
  consider "c = CHR 0x7B" "str_startswith cs [CHR 0x7B]" | "c = CHR 0x7B" "\<not> str_startswith cs [CHR 0x7B]"
    | "c = CHR 0x7D" "str_startswith cs [CHR 0x7D]" | "c = CHR 0x7D" "\<not> str_startswith cs [CHR 0x7D]"
    | "c \<noteq> CHR 0x7B" "c \<noteq> CHR 0x7D" by blast
  then show ?case using 2 by cases simp_all
next
  case (4 name c cs)
  show ?case
  proof (cases "c = CHR 0x7D")
    case True
    with 4(3) obtain ms where m: "fields_of None cs = Inr ms" "ns = rev name # ms" by (auto simp: map_sum_Inr)
    with 4(1) [OF True m(1)] 4(4) True show ?thesis by (simp split: option.split)
  next
    case False
    with 4 show ?thesis by simp
  qed
qed simp_all

lemma format_text_renders:
  "fields_of st t = Inr ns \<Longrightarrow> \<forall>n \<in> set ns. dget p n \<noteq> None \<Longrightarrow> \<exists>s. format_text st p t = Inr s"
proof (induction st t arbitrary: ns rule: fields_of.induct)
  case (2 c cs)
  consider "c = CHR 0x7B" "str_startswith cs [CHR 0x7B]" | "c = CHR 0x7B" "\<not> str_startswith cs [CHR 0x7B]"
    | "c = CHR 0x7D" "str_startswith cs [CHR 0x7D]" | "c = CHR 0x7D" "\<not> str_startswith cs [CHR 0x7D]"
    | "c \<noteq> CHR 0x7B" "c \<noteq> CHR 0x7D" by blast
  then show ?case using 2 by cases (auto simp: map_sum_Inr)
next
  case (4 name c cs)
  show ?case
  proof (cases "c = CHR 0x7D")
    case True
    with 4(3) obtain ms where m: "fields_of None cs = Inr ms" "ns = rev name # ms" by (auto simp: map_sum_Inr)
    with 4(1) [OF True m(1)] 4(4) True show ?thesis by (auto simp: map_sum_Inr)
  next
    case False
    with 4 show ?thesis by simp
  qed
qed simp_all

text \<open>The fields of each template, as the class documents them.\<close>

fun documented_fields :: "stage_kind \<Rightarrow> string list" where
  "documented_fields ANALYZE = [''requirement'', ''existing_code'', ''prior_answers'']"
| "documented_fields DESIGN_STAGE = [''intent'', ''acceptance_criteria'', ''constraints'', ''scenario'']"
| "documented_fields IMPLEMENT_STAGE = [''intent'', ''design'', ''acceptance_criteria'', ''constraints'']"
| "documented_fields TEST_STAGE = [''design'', ''implementation'', ''acceptance_criteria'']"
| "documented_fields DOCUMENT_STAGE = [''intent'', ''design'', ''implementation'']"
| "documented_fields REVIEW_STAGE = [''artifacts'', ''acceptance_criteria'', ''constraints'']"
| "documented_fields RELEASE_CHECK = [''acceptance_criteria'', ''artifacts'', ''review_findings'']"

lemma template_fields: "fields_of None (template_for k) = Inr (documented_fields k)"
proof -
  have "list_all (\<lambda>k. fields_of None (template_for k) = Inr (documented_fields k)) all_stages" by code_simp
  moreover have "k \<in> set all_stages" by (cases k) (simp_all add: all_stages_def)
  ultimately show ?thesis by (simp add: list_all_iff)
qed

section \<open>The payload of the executor\<close>

lemma payload_known:
  "n' \<in> set (documented_fields k) \<Longrightarrow> dget (payload env w n fb failure) n' \<noteq> None"
  by (cases k) (auto simp: payload_def Let_def)

lemma payload_feedback:
  "n' \<in> set (documented_fields k) \<Longrightarrow> k \<noteq> ANALYZE \<Longrightarrow>
   dget (payload env (w\<lparr>w_repair_note := note\<rparr>) n fb failure) n' = dget (payload env w n fb' failure') n'"
  by (cases k) (auto simp: payload_def Let_def source_text_def output_text_def)

text \<open>
  C18: A stage can always be rendered: whatever has happened in a run, the payload the executor
  builds binds every variable that the template of any stage names, so no prompt is refused for a
  missing variable or a stray brace, and the names are those the class documents.
\<close>

theorem stage_prompts_render:
  "(\<exists>prompt. format_text None (payload env w n fb failure) (template_for k) = Inr prompt)
   \<and> fields_of None (template_for k) = Inr (documented_fields k)"
  using format_text_renders [OF template_fields, of k] payload_known template_fields by blast

text \<open>
  Feedback does not reach the model. For every stage but the analysis the local dispatcher answers a
  request exactly as it would have without the reason the last attempt was rejected, without the
  hint for the final attempt, and without the failing test transcript of a repair: the executor puts
  these texts in the requirement, and no other template names it.
\<close>

theorem feedback_never_reaches_the_model:
  assumes "ld_definitions d = stage_definitions prompts" and "skill \<noteq> ''analyze''"
  shows "local_dispatch d \<lparr>dr_node_id = i, dr_skill_id = skill, dr_tier = tier,
       dr_payload = payload env (w\<lparr>w_repair_note := note\<rparr>) n fallback failure\<rparr>
    = local_dispatch d \<lparr>dr_node_id = i, dr_skill_id = skill, dr_tier = tier,
       dr_payload = payload env (w\<lparr>w_repair_note := None\<rparr>) n False []\<rparr>"
proof (cases "definition_for d skill")
  case (Inl e)
  then show ?thesis by (simp add: local_dispatch_def)
next
  case (Inr s)
  then have "s \<in> set (stage_definitions prompts)" and sk: "sd_skill_id s = skill"
    using assms(1) by (auto simp: definition_for_def find_Some_iff split: option.splits)
  then obtain k where k: "s = stage_definition_of prompts k" by (auto simp: stage_definitions_def)
  with sk assms(2) have "k \<noteq> ANALYZE" by (auto simp: stage_definition_of_def)
  then have "dget (payload env (w\<lparr>w_repair_note := m\<rparr>) n fb fl) x = dget (payload env w n False []) x"
    if "x \<in> set (documented_fields k)" for m fb fl x using payload_feedback that by blast
  then have "format_text None (payload env (w\<lparr>w_repair_note := note\<rparr>) n fallback failure) (template_for k)
      = format_text None (payload env (w\<lparr>w_repair_note := None\<rparr>) n False []) (template_for k)"
    by (intro format_text_cong [OF template_fields]) simp
  then show ?thesis
    by (cases "format_text None (payload env (w\<lparr>w_repair_note := None\<rparr>) n False []) (template_for k)")
      (simp_all add: local_dispatch_def Inr k stage_definition_of_def outcome_of_response_def Let_def split: sum.split option.split)
qed

theorem feedback_never_reaches_the_model_witness:
  "\<forall>env w n. local_dispatch \<lparr>ld_sha = id, ld_fr = (\<lambda>_. ''0.0''), ld_adapter = (\<lambda>q. Inl (''Error'', rq_prompt q)),
       ld_definitions = stage_definitions (\<lambda>_. ([], None)), ld_on_call = True\<rparr>
     \<lparr>dr_node_id = IMPLEMENT, dr_skill_id = ''implement'', dr_tier = DEEP,
       dr_payload = payload env (w\<lparr>w_repair_note := Some ''test_delete failed''\<rparr>) n True ''Gate result: denied''\<rparr>
   = local_dispatch \<lparr>ld_sha = id, ld_fr = (\<lambda>_. ''0.0''), ld_adapter = (\<lambda>q. Inl (''Error'', rq_prompt q)),
       ld_definitions = stage_definitions (\<lambda>_. ([], None)), ld_on_call = True\<rparr>
     \<lparr>dr_node_id = IMPLEMENT, dr_skill_id = ''implement'', dr_tier = DEEP,
       dr_payload = payload env (w\<lparr>w_repair_note := None\<rparr>) n False []\<rparr>"
  by (intro allI feedback_never_reaches_the_model) simp_all

end
