(* ===== verification/Replay.thy ===== *)
theory Replay
  imports AuditReopen Dispatch
begin

text \<open>
  The replay adapter of \<^verbatim>\<open>keel/adapters/replay.py\<close>: reading cassettes out of an audit log, serving recorded
  responses by request key, falling back to the next unused recording of the node, and stubs. Payloads
  are shared between the two indexes of the adapter, so the node index holds keys into the cassettes.
\<close>

section \<open>Reading cassettes\<close>

text \<open>\<open>a or b\<close> on JSON values, and \<open>d.get(k)\<close>\<close>

definition py_or :: "json \<Rightarrow> json \<Rightarrow> json" where
  "py_or a b = (if truthy a then a else b)"

definition get_or_none :: "(string, json) dict \<Rightarrow> string \<Rightarrow> json" where
  "get_or_none d k = (case dget d k of None \<Rightarrow> JNull | Some v \<Rightarrow> v)"

text \<open>The lines of an open text file; their ends are stripped by the reader.\<close>

definition file_lines :: "string \<Rightarrow> string list" where
  "file_lines contents =
     (let ps = split_on (CHR 0x0A) (universal_newlines contents)
      in if last ps = [] then butlast ps else ps)"

definition event_type_text :: "(real \<Rightarrow> string) \<Rightarrow> (string, json) dict \<Rightarrow> string" where
  "event_type_text fr event =
     (let v = (case get_or_none event ''event_type'' of JObj kvs \<Rightarrow> get_or_none kvs ''value'' | w \<Rightarrow> w)
      in py_str fr (py_or v (JStr [])))"

type_synonym cassette_map = "(string, (string, json) dict) dict"

definition add_event_cassette ::
  "(real \<Rightarrow> string) \<Rightarrow> (string, json) dict \<Rightarrow> cassette_map \<Rightarrow> cassette_map" where
  "add_event_cassette fr event cs =
     (if event_type_text fr event \<noteq> ''model_call'' then cs
      else case get_or_none event ''payload'' of
        JObj payload \<Rightarrow>
          (case get_or_none payload ''cassette_key'' of
             JStr key \<Rightarrow>
               if key = [] then cs
               else dset key (dsetdefault ''node_id'' (py_or (get_or_none event ''node_id'') (JStr [])) payload) cs
           | _ \<Rightarrow> cs)
      | _ \<Rightarrow> cs)"

definition add_line_cassette :: "(real \<Rightarrow> string) \<Rightarrow> string \<Rightarrow> cassette_map \<Rightarrow> cassette_map" where
  "add_line_cassette fr raw cs =
     (let line = str_strip raw
      in if line = [] then cs
         else case loads line of Inr (JObj event) \<Rightarrow> add_event_cassette fr event cs | _ \<Rightarrow> cs)"

definition cassettes_from_lines :: "(real \<Rightarrow> string) \<Rightarrow> string list \<Rightarrow> cassette_map" where
  "cassettes_from_lines fr ls = fold (add_line_cassette fr) ls []"

text \<open>The audit module exposes no loader of its own, so the file is parsed here.\<close>

definition load_cassettes ::
  "(real \<Rightarrow> string) \<Rightarrow> string \<Rightarrow> string \<Rightarrow> string option \<Rightarrow> exn + cassette_map" where
  "load_cassettes fr fpath root_name contents =
     (case contents of
        None \<Rightarrow> Inl (''FileNotFoundError'',
          ''No audit log at '' @ fpath @ ''. Replay needs a recorded run; pass a run id from '' @ root_name
          @ ''/ or record one. Re-record it by running the same scenario live: KEEL_AGENT_MODE=live (with ''
          @ ''ANTHROPIC_API_KEY set), then replay the new run id.'')
      | Some t \<Rightarrow> Inr (cassettes_from_lines fr (file_lines t)))"

definition cassette_from_response :: "adapter_response \<Rightarrow> (string, json) dict" where
  "cassette_from_response r =
     [(''text'', JStr (rs_text r)),
      (''parsed'', (case rs_parsed r of None \<Rightarrow> JNull | Some kvs \<Rightarrow> JObj kvs)),
      (''model'', JStr (rs_model r)), (''input_tokens'', JInt (rs_input_tokens r)),
      (''output_tokens'', JInt (rs_output_tokens r)),
      (''latency_seconds'', JFloat (Fin (rs_latency_seconds r)))]"

section \<open>The adapter\<close>

record replay_adapter =
  ra_cassettes :: cassette_map
  ra_strict :: bool
  ra_by_node :: "(string, string list) dict"
  ra_drifted :: "string list"

definition index_payload ::
  "(real \<Rightarrow> string) \<Rightarrow> string \<times> (string, json) dict \<Rightarrow> (string, string list) dict \<Rightarrow> (string, string list) dict"
where
  "index_payload fr kp ix =
     (let node_id = py_str fr (py_or (get_or_none (snd kp) ''node_id'') (JStr []))
      in if node_id = [] then ix
         else dset node_id ((case dget ix node_id of None \<Rightarrow> [] | Some q \<Rightarrow> q) @ [fst kp]) ix)"

definition new_replay :: "(real \<Rightarrow> string) \<Rightarrow> cassette_map \<Rightarrow> bool \<Rightarrow> replay_adapter" where
  "new_replay fr cs strict =
     \<lparr>ra_cassettes = cs, ra_strict = strict, ra_by_node = fold (index_payload fr) cs [], ra_drifted = []\<rparr>"

text \<open>A replayed response: its latency is whatever float the recording holds; it spends no tokens.\<close>

record replayed =
  rp_text :: string
  rp_parsed :: "(string, json) dict option"
  rp_model :: string
  rp_latency :: pfloat

definition usable :: "adapter_request \<Rightarrow> (string, json) dict \<Rightarrow> bool" where
  "usable q candidate \<longleftrightarrow>
     \<not> truthy (get_or_none candidate ''_consumed'')
     \<and> \<not> (truthy (get_or_none candidate ''skill_id'') \<and> get_or_none candidate ''skill_id'' \<noteq> JStr (rq_skill_id q))"

definition by_node_fallback ::
  "adapter_request \<Rightarrow> replay_adapter \<Rightarrow> (string, json) dict option \<times> replay_adapter" where
  "by_node_fallback q a =
     (let queue = (case dget (ra_by_node a) (rq_node_id q) of None \<Rightarrow> [] | Some ks \<Rightarrow> ks);
          payload_at = (\<lambda>k. case dget (ra_cassettes a) k of None \<Rightarrow> [] | Some p \<Rightarrow> p)
      in case List.find (\<lambda>k. usable q (payload_at k)) queue of
           None \<Rightarrow> (None, a)
         | Some k \<Rightarrow>
             (let p = dset ''_consumed'' (JBool True) (payload_at k)
              in (Some p, a\<lparr>ra_cassettes := dset k p (ra_cassettes a),
                    ra_drifted := ra_drifted a @ [if rq_node_id q = [] then ''?'' else rq_node_id q]\<rparr>)))"

definition cassette_miss :: "string \<Rightarrow> adapter_request \<Rightarrow> exn" where
  "cassette_miss key q =
     (''CassetteMiss'', ''No cassette for node '' @ str_repr (rq_node_id q) @ '' (skill '' @ str_repr (rq_skill_id q)
        @ '', tier '' @ mt_value (rq_tier q) @ '', key '' @ key @ ''). Re-record it by running the same scenario ''
        @ ''live: KEEL_AGENT_MODE=live (with ANTHROPIC_API_KEY set), then replay the new run id.'')"

definition stub :: "(string \<Rightarrow> string option) \<Rightarrow> string \<Rightarrow> adapter_request \<Rightarrow> replayed" where
  "stub getenv key q =
     \<lparr>rp_text = ''[keel:replay-stub] no cassette for node '' @ str_repr (rq_node_id q) @ '' (skill ''
        @ str_repr (rq_skill_id q) @ '', key '' @ key @ ''). This is synthetic filler, not model output.'',
      rp_parsed = None, rp_model = model_for_tier getenv (rq_tier q), rp_latency = Fin 0\<rparr>"

definition serve_cassette ::
  "(string \<Rightarrow> string option) \<Rightarrow> (real \<Rightarrow> string) \<Rightarrow> adapter_request \<Rightarrow> (string, json) dict \<Rightarrow> exn + replayed" where
  "serve_cassette getenv fr q c =
     map_sum id
       (\<lambda>latency.
          \<lparr>rp_text = py_str fr (py_or (py_or (get_or_none c ''text'') (get_or_none c ''response_text'')) (JStr [])),
           rp_parsed = (case get_or_none c ''parsed'' of JObj kvs \<Rightarrow> Some kvs | _ \<Rightarrow> None),
           rp_model = py_str fr (py_or (get_or_none c ''model'') (JStr (model_for_tier getenv (rq_tier q)))),
           rp_latency = latency\<rparr>)
       (py_float (py_or (get_or_none c ''latency_seconds'') (JFloat (Fin 0))))"

definition replay_invoke ::
  "(string \<Rightarrow> string option) \<Rightarrow> (string \<Rightarrow> string) \<Rightarrow> (real \<Rightarrow> string) \<Rightarrow> adapter_request \<Rightarrow> replay_adapter
    \<Rightarrow> (exn + replayed) \<times> replay_adapter"
where
  "replay_invoke getenv sha fr q a =
     (let key = cassette_key sha fr q
      in case (case dget (ra_cassettes a) key of Some c \<Rightarrow> (Some c, a) | None \<Rightarrow> by_node_fallback q a) of
           (None, b) \<Rightarrow> (if ra_strict b then Inl (cassette_miss key q) else Inr (stub getenv key q), b)
         | (Some c, b) \<Rightarrow> (serve_cassette getenv fr q c, b))"

end
