(* ===== verification/ReplayProps.thy ===== *)
theory ReplayProps
  imports Replay
begin

text \<open>
  Recording and replay are one artifact: the cassettes read from the file of a log are the payloads of its
  model calls, a request recorded once is answered with what was recorded, and a strict adapter answers
  from recordings only, in whatever order it is asked. A key recorded twice is where the file and the log differ.
\<close>

section \<open>The cassettes of a written log\<close>

lemma file_lines_log:
  assumes "list_all printable ls" shows "file_lines (log_text ls) = ls"
proof -
  have free: "CHR 0x0A \<notin> set l \<and> CHR 0x0D \<notin> set l" if "l \<in> set ls" for l
  proof -
    have "\<forall>c \<in> set l. CHR '' '' \<le> c" using assms that by (simp add: list_all_iff printable_def)
    moreover have "\<not> CHR '' '' \<le> CHR 0x0A" "\<not> CHR '' '' \<le> CHR 0x0D" by (simp_all add: less_eq_char_def)
    ultimately show ?thesis by blast
  qed
  have "CHR 0x0D \<notin> set (log_text ls)" using free by (auto simp: log_text_def newline_def)
  moreover have "split_on (CHR 0x0A) (log_text ls) = ls @ [[]]"
    using free by (induction ls) (simp_all add: log_text_def newline_def split_on_line)
  ultimately show ?thesis by (simp add: file_lines_def universal_newlines_id)
qed

lemma cassette_entry:
  "dsetdefault ''node_id'' (py_or (opt_str n) (JStr [])) p
     = dsetdefault ''node_id'' (JStr (case n of None \<Rightarrow> [] | Some i \<Rightarrow> i)) p"
  by (cases n) (simp_all add: py_or_def opt_str_def)

lemma model_call_text: "et_value t = ''model_call'' \<longleftrightarrow> t = MODEL_CALL"
  by (cases t) simp_all

lemma add_line_get:
  assumes "json_ok fr (event_to_json e)"
  shows "dget (add_line_cassette fr (event_line fr e) cs) k =
    (if k \<noteq> [] \<and> records_key k e then Some (cassette_of e) else dget cs k)"
proof -
  let ?kvs = "[(''seq'', JInt (ae_seq e)), (''at'', JFloat (Fin (ae_at e))), (''run_id'', JStr (ae_run_id e)),
      (''event_type'', JStr (et_value (ae_event_type e))), (''node_id'', opt_str (ae_node_id e)),
      (''payload'', JObj (ae_payload e))]"
  have "loads (event_line fr e) = Inr (JObj ?kvs)"
    using loads_dump [OF assms] by (simp only: event_to_json_def)
  then have "add_line_cassette fr (event_line fr e) cs = add_event_cassette fr ?kvs cs"
    using event_line_ne [of fr e] by (simp only: add_line_cassette_def event_line_strip Let_def if_False sum.case json.case)
  moreover have "event_type_text fr ?kvs = et_value (ae_event_type e)"
    by (cases "ae_event_type e") (simp_all add: event_type_text_def get_or_none_def py_or_def)
  ultimately show ?thesis
    by (auto simp: add_event_cassette_def get_or_none_def model_call_text records_key_def cassette_of_def cassette_entry
        split: json.splits option.splits)
qed

lemma fold_lines_get:
  "list_all (\<lambda>e. json_ok fr (event_to_json e)) es \<Longrightarrow>
   dget (fold (add_line_cassette fr) (map (event_line fr) es) cs) k =
     (case List.find (records_key k) (rev es) of
        Some e \<Rightarrow> if k = [] then dget cs k else Some (cassette_of e)
      | None \<Rightarrow> dget cs k)"
proof (induction es rule: rev_induct)
  case (snoc e es)
  then show ?case by (cases "k = []") (simp_all add: add_line_get split: option.splits)
qed simp

lemma loaded_cassettes:
  assumes "log_run fr rid l" and "list_all (\<lambda>e. json_ok fr (event_to_json e)) (al_events l)"
    and "load_cassettes fr fpath root_name (Some (al_text l)) = Inr cs"
  shows "dget cs k = (if k = [] then None else map_option cassette_of (List.find (records_key k) (rev (al_events l))))"
proof -
  from log_run_inv [OF assms(1)] have "al_text l = log_text (map (event_line fr) (al_events l))"
    by (simp add: log_inv_def log_text_def comp_def)
  moreover have "list_all printable (map (event_line fr) (al_events l))"
    using assms(2) dump_printable by (auto simp: list_all_iff)
  ultimately have "cs = fold (add_line_cassette fr) (map (event_line fr) (al_events l)) []"
    using assms(3) by (simp add: load_cassettes_def cassettes_from_lines_def file_lines_log)
  then show ?thesis by (simp add: fold_lines_get [OF assms(2)] split: option.splits)
qed

lemma find_after: "\<forall>x \<in> set xs. \<not> P x \<Longrightarrow> List.find P (xs @ ys) = List.find P ys"
  by (induction xs) simp_all

section \<open>What was recorded is what is replayed\<close>

lemma plain_names:
  "\<not> is_secret_name (Some ''cassette_key'')" "\<not> is_secret_name (Some ''text'')" "\<not> is_secret_name (Some ''model'')"
  by code_simp+

definition recorded_answer ::
  "(string \<Rightarrow> string option) \<Rightarrow> adapter_request \<Rightarrow> adapter_response \<Rightarrow> replayed" where
  "recorded_answer getenv q r =
     \<lparr>rp_text = scrub (rs_text r), rp_parsed = map_option redact_payload (rs_parsed r),
      rp_model = (if scrub (rs_model r) = [] then model_for_tier getenv (rq_tier q) else scrub (rs_model r)),
      rp_latency = Fin (py_round (rs_latency_seconds r) 6)\<rparr>"

lemma serve_recorded:
  assumes "ae_payload e = redact_payload (model_call_payload sha fr q0 r)"
  shows "serve_cassette getenv fr q (cassette_of e) = Inr (recorded_answer getenv q r)"
  by (cases "rs_parsed r")
    (simp_all add: serve_cassette_def cassette_of_def assms get_or_none_def model_call_payload_def redact_payload_def
      py_or_def plain_names recorded_answer_def)

lemma served_from:
  assumes "dget cs (cassette_key sha fr q0) = Some (cassette_of (make_event now MODEL_CALL (model_call_payload sha fr q0 r) node l0))"
    and "cassette_key sha fr q = cassette_key sha fr q0"
  shows "fst (replay_invoke getenv sha fr q (new_replay fr cs strict)) = Inr (recorded_answer getenv q r)"
  using assms serve_recorded [of _ sha fr q0 r getenv q] by (simp add: replay_invoke_def new_replay_def Let_def)

lemma records_its_key:
  "scrub (cassette_key sha fr q) = cassette_key sha fr q \<Longrightarrow>
   records_key (cassette_key sha fr q) (make_event now MODEL_CALL (model_call_payload sha fr q r) node l)"
  by (simp add: records_key_def redact_payload_def model_call_payload_def plain_names)

text \<open>
  C26: A request asked again is answered with what was recorded. Whatever else the log holds, a request
  whose key one call of the log recorded, and only one, is answered with the text, parsed output, model
  and latency of that call, as the log keeps them: scrubbed of credentials and rounded. It is the same
  whether the replay is built from the log's own cassettes or by reading its file. The events must
  print as what they are, and the key must itself survive scrubbing.
\<close>

theorem replay_reproduces_recording:
  assumes "log_run fr rid l" and "list_all (\<lambda>e. json_ok fr (event_to_json e)) (al_events l)"
    and "al_events l = us @ make_event now MODEL_CALL (model_call_payload sha fr q0 r) node l0 # vs"
    and "cassette_key sha fr q = cassette_key sha fr q0" and "cassette_key sha fr q0 \<noteq> []"
    and "scrub (cassette_key sha fr q0) = cassette_key sha fr q0"
    and "\<forall>v \<in> set us \<union> set vs. \<not> records_key (cassette_key sha fr q0) v"
    and "load_cassettes fr fpath root_name (Some (al_text l)) = Inr cs"
  shows "fst (replay_invoke getenv sha fr q (new_replay fr cs strict)) = Inr (recorded_answer getenv q r)
    \<and> fst (replay_invoke getenv sha fr q (new_replay fr (cassettes l) strict)) = Inr (recorded_answer getenv q r)"
proof -
  let ?e = "make_event now MODEL_CALL (model_call_payload sha fr q0 r) node l0"
  let ?k = "cassette_key sha fr q0"
  have e: "records_key ?k ?e" by (rule records_its_key [OF assms(6)])
  have "List.find (records_key ?k) (rev (al_events l)) = Some ?e" "List.find (records_key ?k) (al_events l) = Some ?e"
    using assms(7) e by (simp_all add: assms(3) find_after)
  then have "dget cs ?k = Some (cassette_of ?e)" "dget (cassettes l) ?k = Some (cassette_of ?e)"
    using loaded_cassettes [OF assms(1,2,8)] first_recording_wins [of l ?k] assms(5) by simp_all
  then show ?thesis using served_from [OF _ assms(4)] by blast
qed

text \<open>
  Where a key was recorded more than once the two readers part: the log promises its first recording, but
  a replay built from its file, as \<open>keel run\<close> builds it, is answered with the last.
\<close>

theorem file_replay_takes_the_last:
  assumes "log_run fr rid l" and "list_all (\<lambda>e. json_ok fr (event_to_json e)) (al_events l)"
    and "al_events l = us @ make_event now MODEL_CALL (model_call_payload sha fr q r) node l0 # ms
       @ make_event now' MODEL_CALL (model_call_payload sha fr q r') node' l0' # vs"
    and "cassette_key sha fr q \<noteq> []" and "scrub (cassette_key sha fr q) = cassette_key sha fr q"
    and "\<forall>v \<in> set us \<union> set vs. \<not> records_key (cassette_key sha fr q) v"
    and "load_cassettes fr fpath root_name (Some (al_text l)) = Inr cs"
  shows "fst (replay_invoke getenv sha fr q (new_replay fr cs strict)) = Inr (recorded_answer getenv q r')
    \<and> fst (replay_invoke getenv sha fr q (new_replay fr (cassettes l) strict)) = Inr (recorded_answer getenv q r)"
proof -
  let ?k = "cassette_key sha fr q"
  note keys = records_its_key [OF assms(5)]
  have "List.find (records_key ?k) (rev (al_events l)) = Some (make_event now' MODEL_CALL (model_call_payload sha fr q r') node' l0')"
    "List.find (records_key ?k) (al_events l) = Some (make_event now MODEL_CALL (model_call_payload sha fr q r) node l0)"
    using assms(6) keys by (simp_all add: assms(3) find_after)
  then show ?thesis
    using loaded_cassettes [OF assms(1,2,7)] first_recording_wins [of l ?k] assms(4) by (simp add: served_from [OF _ refl])
qed

section \<open>A strict adapter answers from recordings only\<close>

inductive replay_run ::
  "(string \<Rightarrow> string option) \<Rightarrow> (string \<Rightarrow> string) \<Rightarrow> (real \<Rightarrow> string) \<Rightarrow> cassette_map \<Rightarrow> replay_adapter \<Rightarrow> bool"
for getenv sha fr cs where
  built: "replay_run getenv sha fr cs (new_replay fr cs True)"
| asked: "replay_run getenv sha fr cs a \<Longrightarrow> replay_run getenv sha fr cs (snd (replay_invoke getenv sha fr q a))"

definition node_of :: "(real \<Rightarrow> string) \<Rightarrow> (string, json) dict \<Rightarrow> string" where
  "node_of fr c = py_str fr (py_or (get_or_none c ''node_id'') (JStr []))"

definition used_up :: "(string, json) dict \<Rightarrow> bool" where
  "used_up c \<longleftrightarrow> truthy (get_or_none c ''_consumed'')"

abbreviation consumed :: "(string, json) dict \<Rightarrow> (string, json) dict" where
  "consumed c \<equiv> dset ''_consumed'' (JBool True) c"

lemma consumed_get [simp]: "k \<noteq> ''_consumed'' \<Longrightarrow> get_or_none (consumed c) k = get_or_none c k"
  by (simp add: get_or_none_def)

lemma consumed_used_up [simp]: "used_up (consumed c)"
  by (simp add: used_up_def get_or_none_def)

lemma consumed_serves [simp]: "serve_cassette getenv fr q (consumed c) = serve_cassette getenv fr q c"
  by (simp add: serve_cassette_def)

lemma index_payload_node:
  "index_payload fr kp ix =
     (if node_of fr (snd kp) = [] then ix
      else dset (node_of fr (snd kp))
             ((case dget ix (node_of fr (snd kp)) of None \<Rightarrow> [] | Some q \<Rightarrow> q) @ [fst kp]) ix)"
  by (simp add: index_payload_def node_of_def Let_def)

lemma index_fold:
  assumes "\<forall>n ks k. dget ix n = Some ks \<and> k \<in> set ks \<longrightarrow> (\<exists>c. (k, c) \<in> S \<and> node_of fr c = n)" and "set cs \<subseteq> S"
  shows "\<forall>n ks k. dget (fold (index_payload fr) cs ix) n = Some ks \<and> k \<in> set ks \<longrightarrow> (\<exists>c. (k, c) \<in> S \<and> node_of fr c = n)"
  using assms
proof (induction cs arbitrary: ix)
  case (Cons kp cs)
  have "\<forall>n ks k. dget (index_payload fr kp ix) n = Some ks \<and> k \<in> set ks \<longrightarrow> (\<exists>c. (k, c) \<in> S \<and> node_of fr c = n)"
  proof (intro allI impI)
    fix n ks k
    assume at: "dget (index_payload fr kp ix) n = Some ks \<and> k \<in> set ks"
    have "(fst kp, snd kp) \<in> S" using Cons.prems(2) by simp
    moreover have "k = fst kp \<and> n = node_of fr (snd kp) \<or> (\<exists>ks. dget ix n = Some ks \<and> k \<in> set ks)"
      using at by (auto simp: index_payload_node split: if_splits option.splits)
    ultimately show "\<exists>c. (k, c) \<in> S \<and> node_of fr c = n" using Cons.prems(1) by blast
  qed
  from Cons.IH [OF this] Cons.prems(2) show ?case by simp
qed simp

definition replay_inv :: "(real \<Rightarrow> string) \<Rightarrow> cassette_map \<Rightarrow> replay_adapter \<Rightarrow> bool" where
  "replay_inv fr cs a \<longleftrightarrow> ra_strict a
     \<and> dkeys (ra_cassettes a) = dkeys cs
     \<and> (\<forall>k c. dget (ra_cassettes a) k = Some c \<longrightarrow> (\<exists>c0. dget cs k = Some c0 \<and> (c = c0 \<or> c = consumed c0)))
     \<and> (\<forall>n ks k. dget (ra_by_node a) n = Some ks \<and> k \<in> set ks \<longrightarrow> (\<exists>c. dget cs k = Some c \<and> node_of fr c = n))
     \<and> length (ra_drifted a) \<le> length (filter (\<lambda>kc. used_up (snd kc)) (ra_cassettes a))"

lemma new_replay_inv: "distinct (dkeys cs) \<Longrightarrow> replay_inv fr cs (new_replay fr cs True)"
  using index_fold [of "[]" "set cs" fr cs]
  by (auto simp: replay_inv_def new_replay_def dest!: map_of_is_SomeI)

lemma length_used_up:
  "distinct (dkeys d) \<Longrightarrow> dget d k = Some c \<Longrightarrow> \<not> used_up c \<Longrightarrow>
   length (filter (\<lambda>kc. used_up (snd kc)) (dset k (consumed c') d))
     = Suc (length (filter (\<lambda>kc. used_up (snd kc)) d))"
proof (induction d)
  case (Cons x d)
  then show ?case by (cases x) (auto simp: update_nonempty split: if_splits)
qed simp

lemma fallback_cases:
  assumes "replay_inv fr cs a" and "by_node_fallback q a = (r, b)"
  obtains (none) "r = None" "b = a"
    | (served) k c where "dget cs k = Some c" "dget (ra_cassettes a) k = Some c" "\<not> used_up c" "node_of fr c = rq_node_id q"
        "usable q c" "r = Some (consumed c)"
        "b = a\<lparr>ra_cassettes := dset k (consumed c) (ra_cassettes a),
               ra_drifted := ra_drifted a @ [if rq_node_id q = [] then ''?'' else rq_node_id q]\<rparr>"
proof (cases r)
  case None
  with assms(2) that(1) show ?thesis by (auto simp: by_node_fallback_def Let_def split: option.splits)
next
  case (Some p)
  let ?at = "\<lambda>k. case dget (ra_cassettes a) k of None \<Rightarrow> [] | Some p \<Rightarrow> p"
  define queue where "queue = (case dget (ra_by_node a) (rq_node_id q) of None \<Rightarrow> [] | Some ks \<Rightarrow> ks)"
  have fb: "by_node_fallback q a = (case List.find (\<lambda>k. usable q (?at k)) queue of
      None \<Rightarrow> (None, a)
    | Some k \<Rightarrow> (Some (consumed (?at k)), a\<lparr>ra_cassettes := dset k (consumed (?at k)) (ra_cassettes a),
           ra_drifted := ra_drifted a @ [if rq_node_id q = [] then ''?'' else rq_node_id q]\<rparr>))"
    unfolding by_node_fallback_def queue_def Let_def by (rule refl)
  obtain k where k: "List.find (\<lambda>k. usable q (?at k)) queue = Some k" "r = Some (consumed (?at k))"
    "b = a\<lparr>ra_cassettes := dset k (consumed (?at k)) (ra_cassettes a),
           ra_drifted := ra_drifted a @ [if rq_node_id q = [] then ''?'' else rq_node_id q]\<rparr>"
  proof (cases "List.find (\<lambda>k. usable q (?at k)) queue")
    case None
    then show ?thesis using Some assms(2) unfolding fb by simp
  next
    case (Some k)
    then show ?thesis using that [of k] assms(2) unfolding fb by auto
  qed
  from k(1) have "k \<in> set queue" by (auto simp: find_Some_iff)
  then obtain ks where ks: "dget (ra_by_node a) (rq_node_id q) = Some ks" "k \<in> set ks"
    by (cases "dget (ra_by_node a) (rq_node_id q)") (simp_all add: queue_def)
  have u: "usable q (?at k)" using k(1) by (auto simp: find_Some_iff)
  obtain c where c: "dget cs k = Some c" "node_of fr c = rq_node_id q"
    using assms(1) ks unfolding replay_inv_def by blast
  then have "k \<in> set (dkeys (ra_cassettes a))" using assms(1) dget_in_keys by (metis replay_inv_def)
  then obtain c1 where c1: "dget (ra_cassettes a) k = Some c1" using dget_Some_iff [of "ra_cassettes a" k] by blast
  with u have "\<not> used_up c1" by (simp add: usable_def used_up_def)
  with assms(1) c(1) c1 have "c1 = c" unfolding replay_inv_def by (metis consumed_used_up option.inject)
  with that(2) [of k c] c c1 u k(2,3) \<open>\<not> used_up c1\<close> show ?thesis by simp
qed

lemma replay_invoke_state:
  "snd (replay_invoke getenv sha fr q a) =
     (case dget (ra_cassettes a) (cassette_key sha fr q) of Some c \<Rightarrow> a | None \<Rightarrow> snd (by_node_fallback q a))"
  by (auto simp: replay_invoke_def Let_def split: option.splits prod.splits)

lemma fallback_inv:
  assumes inv: "replay_inv fr cs a" and "distinct (dkeys cs)"
  shows "replay_inv fr cs (snd (by_node_fallback q a))"
proof -
  obtain r b where fb: "by_node_fallback q a = (r, b)" by fastforce
  from inv fb show ?thesis
  proof (cases rule: fallback_cases)
    case none
    with inv fb show ?thesis by simp
  next
    case (served k c)
    have "distinct (dkeys (ra_cassettes a))" using inv assms(2) by (simp add: replay_inv_def)
    from length_used_up [OF this served(2,3)] inv
    have "length (ra_drifted b) \<le> length (filter (\<lambda>kc. used_up (snd kc)) (ra_cassettes b))"
      by (simp add: replay_inv_def served(7))
    moreover have "dkeys (ra_cassettes b) = dkeys cs"
      using inv dget_in_keys [OF served(2)] by (simp add: replay_inv_def served(7) dkeys_dset)
    ultimately show ?thesis using inv served(1) fb by (auto simp: replay_inv_def served(7))
  qed
qed

lemma replay_run_inv:
  "replay_run getenv sha fr cs a \<Longrightarrow> distinct (dkeys cs) \<Longrightarrow> replay_inv fr cs a"
  by (induction rule: replay_run.induct)
    (auto simp: new_replay_inv replay_invoke_state fallback_inv split: option.splits)

text \<open>
  C27: A strict replay never invents an answer. Whatever it was asked before, each answer is served from a
  cassette it was built with: the one under the request's own key or, only when that key was never
  recorded, one recorded for the same node and skill, which is then reported as drift. No more drifts can
  be reported than there are cassettes.
\<close>

theorem strict_replay_never_invents:
  assumes "replay_run getenv sha fr cs a" and "distinct (dkeys cs)"
    and "replay_invoke getenv sha fr q a = (Inr answer, b)"
  shows "\<exists>k c. dget cs k = Some c \<and> serve_cassette getenv fr q c = Inr answer
    \<and> (k = cassette_key sha fr q \<and> ra_drifted b = ra_drifted a
        \<or> dget cs (cassette_key sha fr q) = None \<and> node_of fr c = rq_node_id q
          \<and> (truthy (get_or_none c ''skill_id'') \<longrightarrow> get_or_none c ''skill_id'' = JStr (rq_skill_id q))
          \<and> ra_drifted b = ra_drifted a @ [if rq_node_id q = [] then ''?'' else rq_node_id q])
    \<and> length (ra_drifted b) \<le> length cs"
proof -
  let ?k = "cassette_key sha fr q"
  have inv: "replay_inv fr cs a" using replay_run_inv assms(1,2) by blast
  have "replay_run getenv sha fr cs b" using replay_run.asked [OF assms(1), of q] assms(3) by simp
  from replay_run_inv [OF this assms(2)]
  have b: "length (ra_drifted b) \<le> length (filter (\<lambda>kc. used_up (snd kc)) (ra_cassettes b))"
    "dkeys (ra_cassettes b) = dkeys cs"
    by (simp_all add: replay_inv_def)
  then have few: "length (ra_drifted b) \<le> length cs"
    using length_filter_le [of "\<lambda>kc. used_up (snd kc)" "ra_cassettes b"] by (metis le_trans length_map)
  show ?thesis
  proof (cases "dget (ra_cassettes a) ?k")
    case (Some c)
    then obtain c0 where "dget cs ?k = Some c0" "c = c0 \<or> c = consumed c0"
      using inv unfolding replay_inv_def by blast
    moreover have "serve_cassette getenv fr q c = Inr answer" "b = a"
      using assms(3) Some by (simp_all add: replay_invoke_def)
    ultimately show ?thesis using few by auto
  next
    case None
    then have absent: "dget cs ?k = None" using inv by (metis dget_None_iff replay_inv_def)
    obtain r b' where fb: "by_node_fallback q a = (r, b')" by fastforce
    have strict: "ra_strict a" using inv by (simp add: replay_inv_def)
    from inv fb show ?thesis
  proof (cases rule: fallback_cases)
      case none
      with assms(3) None fb strict show ?thesis by (simp add: replay_invoke_def)
    next
      case (served k c)
      with assms(3) None fb have "serve_cassette getenv fr q c = Inr answer" "b = b'"
        by (simp_all add: replay_invoke_def)
      with served absent few show ?thesis by (auto simp: usable_def)
    qed
  qed
qed

section \<open>A recorded call\<close>

definition asked_request :: adapter_request where
  "asked_request = \<lparr>rq_node_id = ''design'', rq_skill_id = ''design'', rq_tier = FAST, rq_system = ''s'',
     rq_prompt = ''p'', rq_json_schema = None\<rparr>"

definition given_response :: adapter_response where
  "given_response = \<lparr>rs_text = ''done'', rs_parsed = Some [(''ok'', JBool True)], rs_model = ''m'',
     rs_input_tokens = 0, rs_output_tokens = 0, rs_latency_seconds = 7, rs_from_replay = False\<rparr>"

definition zero_or_seven :: "real \<Rightarrow> string" where
  "zero_or_seven x = (if x = 7 then ''7.0'' else ''0.0'')"

definition digest :: "string \<Rightarrow> string" where
  "digest s = ''c0ffee''"

abbreviation recorded_payload :: "(string, json) dict" where
  "recorded_payload \<equiv> model_call_payload digest zero_or_seven asked_request given_response"

definition recorded_log :: audit_log where
  "recorded_log = emit zero_or_seven 7 MODEL_CALL recorded_payload (Some ''design'') (new_log ''r'')"

lemma recorded_key: "cassette_key digest zero_or_seven asked_request = ''c0ffee''"
  by (simp add: cassette_key_def digest_def)

lemma recorded_run: "log_run zero_or_seven ''r'' recorded_log"
  unfolding recorded_log_def by (intro log_run.intros)

lemma recorded_events:
  "al_events recorded_log = [] @ make_event 7 MODEL_CALL recorded_payload (Some ''design'') (new_log ''r'') # []"
  by (simp add: recorded_log_def new_log_def)

lemma recorded_redacted:
  "redact_payload recorded_payload =
     [(''cassette_key'', JStr ''c0ffee''), (''skill_id'', JStr ''design''), (''tier'', JStr ''fast''), (''model'', JStr ''m''),
      (''text'', JStr ''done''), (''parsed'', JObj [(''ok'', JBool True)]), (''input_tokens'', JInt 0),
      (''output_tokens'', JInt 0), (''cost_usd'', JFloat (Fin 0)), (''latency_seconds'', JFloat (Fin 7)),
      (''from_replay'', JBool False), (''system'', JStr ''s''), (''prompt'', JStr ''p'')]"
  by code_simp

lemma recorded_ok: "list_all (\<lambda>e. json_ok zero_or_seven (event_to_json e)) (al_events recorded_log)"
proof -
  have "p_number (zero_or_seven 0) = Some (JFloat (Fin 0), [])" "p_number (zero_or_seven 7) = Some (JFloat (Fin 7), [])"
    by code_simp+
  moreover have "ae_at (make_event 7 MODEL_CALL recorded_payload (Some ''design'') (new_log ''r'')) = 7"
    by (simp add: new_log_def py_round_def round_half_even_def Let_def)
  ultimately show ?thesis
    by (simp add: recorded_events event_to_json_def opt_str_def recorded_redacted del: make_event_sel(5))
qed

definition recorded_cassettes :: cassette_map where
  "recorded_cassettes = cassettes_from_lines zero_or_seven (file_lines (al_text recorded_log))"

lemma recorded_loads:
  "load_cassettes zero_or_seven ''p'' ''runs'' (Some (al_text recorded_log)) = Inr recorded_cassettes"
  by (simp add: load_cassettes_def recorded_cassettes_def)

theorem replay_reproduces_recording_witness:
  "fst (replay_invoke (\<lambda>_. None) digest zero_or_seven asked_request (new_replay zero_or_seven recorded_cassettes True))
     = fst (replay_invoke (\<lambda>_. None) digest zero_or_seven asked_request (new_replay zero_or_seven (cassettes recorded_log) True))
   \<and> fst (replay_invoke (\<lambda>_. None) digest zero_or_seven asked_request (new_replay zero_or_seven recorded_cassettes True))
     = Inr \<lparr>rp_text = ''done'', rp_parsed = Some [(''ok'', JBool True)], rp_model = ''m'', rp_latency = Fin 7\<rparr>"
proof -
  have "recorded_answer (\<lambda>_. None) asked_request given_response =
      \<lparr>rp_text = ''done'', rp_parsed = Some [(''ok'', JBool True)], rp_model = ''m'', rp_latency = Fin 7\<rparr>"
    by code_simp
  moreover have "scrub ''c0ffee'' = ''c0ffee''" by code_simp
  ultimately show ?thesis
    using replay_reproduces_recording [OF recorded_run recorded_ok recorded_events refl _ _ _ recorded_loads,
        of "\<lambda>_. None" True]
    by (simp add: recorded_key)
qed

text \<open>The same question under a changed prompt: a drift, served by the node's recording.\<close>

definition drifted_request :: adapter_request where
  "drifted_request = asked_request\<lparr>rq_prompt := ''changed''\<rparr>"

definition short_cassette :: "(string, json) dict" where
  "short_cassette = [(''text'', JStr ''done''), (''node_id'', JStr ''design'')]"

definition by_prompt :: "string \<Rightarrow> string" where
  "by_prompt s = s"

lemma drifted_answer:
  "replay_invoke (\<lambda>_. None) by_prompt zero_or_seven drifted_request
     (new_replay zero_or_seven [(''c0ffee'', short_cassette)] True)
   = (Inr \<lparr>rp_text = ''done'', rp_parsed = None, rp_model = ''claude-haiku-4-5'', rp_latency = Fin 0\<rparr>,
      \<lparr>ra_cassettes = [(''c0ffee'', consumed short_cassette)], ra_strict = True,
       ra_by_node = [(''design'', [''c0ffee''])], ra_drifted = [''design'']\<rparr>)"
  by code_simp

theorem strict_replay_never_invents_witness:
  "\<exists>k c. dget [(''c0ffee'', short_cassette)] k = Some c \<and> node_of zero_or_seven c = ''design''
     \<and> serve_cassette (\<lambda>_. None) zero_or_seven drifted_request c
         = Inr \<lparr>rp_text = ''done'', rp_parsed = None, rp_model = ''claude-haiku-4-5'', rp_latency = Fin 0\<rparr>"
proof -
  have "node_of zero_or_seven short_cassette = ''design''" by code_simp
  with strict_replay_never_invents [OF replay_run.built _ drifted_answer] show ?thesis
    by (auto split: if_splits)
qed

end
