(* ===== verification/Cards.thy ===== *)
theory Cards
  imports Models
begin

text \<open>
  The agent cards of \<^verbatim>\<open>keel/a2a/cards.py\<close>: what each stage agent says of itself, the conventional addresses
  of the mesh, and the rule that a skill is named by its stage. The protobuf messages of the SDK are
  records with the fields the sources set.
\<close>

section \<open>Profiles\<close>

record stage_profile =
  sp_title :: string
  sp_summary :: string
  sp_skill_summary :: string
  sp_tags :: "string list"

fun profile :: "stage_kind \<Rightarrow> stage_profile" where
  "profile ANALYZE =
     \<lparr>sp_title = ''Analyze'',
      sp_summary = ''Turns a raw requirement into something a planner can act on.'',
      sp_skill_summary = ''Normalizes a requirement into intent, acceptance criteria and constraints, and names ''
       @ ''the ambiguities that block planning instead of guessing past them.'',
      sp_tags = [''requirements'', ''ambiguity'']\<rparr>"
| "profile DESIGN_STAGE =
     \<lparr>sp_title = ''Design'',
      sp_summary = ''Chooses a shape for the change before any code is written.'',
      sp_skill_summary = ''Produces a component design, the interfaces it implies and the trade-offs that were ''
       @ ''rejected, so review has something to argue with.'',
      sp_tags = [''architecture'', ''interfaces'']\<rparr>"
| "profile IMPLEMENT_STAGE =
     \<lparr>sp_title = ''Implement'',
      sp_summary = ''Writes the code for one planned unit of work.'',
      sp_skill_summary = ''Emits source files for a single node of the plan, scoped to that node''
       @ [CHR 0x27]
       @ ''s description so a failure rolls back one unit rather than the whole run.'',
      sp_tags = [''codegen'', ''files'']\<rparr>"
| "profile TEST_STAGE =
     \<lparr>sp_title = ''Test'',
      sp_summary = ''Writes and evaluates tests against the acceptance criteria.'',
      sp_skill_summary = ''Produces tests traceable to acceptance criteria and reports failures as structured ''
       @ ''artifacts, which is what lets the exit gate be mechanical.'',
      sp_tags = [''tests'', ''verification'']\<rparr>"
| "profile DOCUMENT_STAGE =
     \<lparr>sp_title = ''Document'',
      sp_summary = ''Keeps the docs honest in the same pass as the change.'',
      sp_skill_summary = ''Writes the documentation a change makes necessary, so no run finishes with docs that ''
       @ ''contradict the code it just shipped.'',
      sp_tags = [''docs'']\<rparr>"
| "profile REVIEW_STAGE =
     \<lparr>sp_title = ''Review'',
      sp_summary = ''Reads the diff the way a senior engineer would.'',
      sp_skill_summary = ''Reviews produced artifacts for correctness, security surface and convention drift, ''
       @ ''returning severities the governance plane can gate on.'',
      sp_tags = [''review'', ''security'']\<rparr>"
| "profile RELEASE_CHECK =
     \<lparr>sp_title = ''Release Check'',
      sp_summary = ''The last gate before anything is called done.'',
      sp_skill_summary = ''Confirms acceptance criteria are covered, policy violations are cleared and rollback is ''
       @ ''available, then allows or blocks the release.'',
      sp_tags = [''gate'', ''release'']\<rparr>"

section \<open>Names and addresses\<close>

definition agent_name :: "stage_kind \<Rightarrow> string" where
  "agent_name kind = ''keel-'' @ map (\<lambda>c. if c = CHR ''_'' then CHR ''-'' else c) (sk_value kind)"

definition default_port_base :: nat where
  "default_port_base = 8710"

definition default_port :: "stage_kind \<Rightarrow> nat" where
  "default_port kind = default_port_base + (case py_index all_stages kind of None \<Rightarrow> 0 | Some i \<Rightarrow> i)"

definition local_base_url :: "stage_kind \<Rightarrow> string \<Rightarrow> string" where
  "local_base_url kind host = ''http://'' @ host @ '':'' @ str_nat (default_port kind)"

section \<open>Cards\<close>

record agent_skill =
  ask_id :: string
  ask_name :: string
  ask_description :: string
  ask_tags :: "string list"

record security_scheme =
  ss_scheme :: string
  ss_bearer_format :: string
  ss_description :: string

record agent_card =
  ac_name :: string
  ac_description :: string
  ac_version :: string
  ac_streaming :: bool
  ac_skills :: "agent_skill list"
  ac_rpc_url :: string
  ac_input_modes :: "string list"
  ac_output_modes :: "string list"
  ac_security_schemes :: "(string, security_scheme) dict"
  ac_security_requirements :: "(string, string list) dict list"

definition bearer_scheme_name :: string where
  "bearer_scheme_name = ''keel_bearer''"

definition bearer_security_scheme :: security_scheme where
  "bearer_security_scheme =
     \<lparr>ss_scheme = ''bearer'', ss_bearer_format = ''opaque'',
      ss_description = ''Bearer token issued to the keel orchestrator. Presented on every ''
        @ ''JSON-RPC call. Card discovery is deliberately exempt.''\<rparr>"

definition bearer_security_requirement :: "(string, string list) dict" where
  "bearer_security_requirement = [(bearer_scheme_name, [])]"

definition skill_for :: "stage_kind \<Rightarrow> agent_skill" where
  "skill_for kind =
     \<lparr>ask_id = sk_value kind, ask_name = sp_title (profile kind), ask_description = sp_skill_summary (profile kind),
      ask_tags = ''sdlc'' # sp_tags (profile kind)\<rparr>"

definition rstrip_slash :: "string \<Rightarrow> string" where
  "rstrip_slash s = rev (dropWhile (\<lambda>c. c = CHR ''/'') (rev s))"

definition card_for :: "stage_kind \<Rightarrow> string \<Rightarrow> agent_card" where
  "card_for kind base_url =
     \<lparr>ac_name = agent_name kind, ac_description = sp_summary (profile kind), ac_version = ''1.0.0'', ac_streaming = True,
      ac_skills = [skill_for kind], ac_rpc_url = rstrip_slash base_url @ ''/'',
      ac_input_modes = [''text/plain''], ac_output_modes = [''text/plain''],
      ac_security_schemes = [(bearer_scheme_name, bearer_security_scheme)],
      ac_security_requirements = [bearer_security_requirement]\<rparr>"

definition all_cards :: "string \<Rightarrow> (stage_kind, agent_card) dict" where
  "all_cards host = map (\<lambda>kind. (kind, card_for kind (local_base_url kind host))) all_stages"

definition skill_ids :: "agent_card \<Rightarrow> string list" where
  "skill_ids c = map ask_id (ac_skills c)"

definition stage_for_skill :: "string \<Rightarrow> (string \<times> string) + stage_kind" where
  "stage_for_skill skill_id =
     (case sk_of_value skill_id of
        None \<Rightarrow> Inl (''KeyError'', str_repr (''no stage kind for skill '' @ str_repr skill_id))
      | Some kind \<Rightarrow> Inr kind)"

section \<open>Discovery finds the stage\<close>

lemma default_port_inj: "default_port k = default_port k' \<longleftrightarrow> k = k'"
  by (cases k; cases k') (simp_all add: default_port_def all_stages_def)

text \<open>Reading the skill off a served card gives back the stage that serves it.\<close>

lemma card_names_stage: "map stage_for_skill (skill_ids (card_for kind base_url)) = [Inr kind]"
  by (simp add: skill_ids_def card_for_def skill_for_def stage_for_skill_def)

lemma all_cards_get: "dget (all_cards host) kind = Some (card_for kind (local_base_url kind host))"
  by (cases kind) (simp_all add: all_cards_def all_stages_def)

end
