(* ===== verification/A2AServer.thy ===== *)
theory A2AServer
  imports Cards Dispatch AuditFile
begin

text \<open>
  Serving a stage, \<^verbatim>\<open>keel/a2a/server.py\<close>: the result a handler reports, validated, and the lifecycle calls a
  stage agent makes on the A2A SDK. The SDK is outside the repository, so an execution is the trace of
  the calls it makes. A handler is a function from the prompt to an exception or a value.
\<close>

section \<open>What a handler reports\<close>

type_synonym stage_handler = "string \<Rightarrow> exn + json"

definition handler_states :: "task_state set" where
  "handler_states = {COMPLETED, INPUT_REQUIRED, FAILED, REJECTED}"

record stage_result =
  sr_state :: task_state
  sr_artifacts :: "(string \<times> string) list"
  sr_message :: string

definition artifact_content :: "(real \<Rightarrow> string) \<Rightarrow> json \<Rightarrow> string" where
  "artifact_content fr v = (case v of JStr s \<Rightarrow> s | _ \<Rightarrow> dumps_indent fr 0 v)"

definition value_error :: "string \<Rightarrow> exn" where
  "value_error msg = (''ValueError'', msg)"

definition state_of_status :: "string \<Rightarrow> exn + task_state" where
  "state_of_status status =
     (case ts_of_value status of
        None \<Rightarrow> Inl (value_error (''stage handler returned unknown status '' @ str_repr status))
      | Some state \<Rightarrow>
          if state \<in> handler_states then Inr state
          else Inl (value_error (''stage handler may not report '' @ str_repr status)))"

definition truthy_field :: "(string, json) dict \<Rightarrow> string \<Rightarrow> json option" where
  "truthy_field d k = (case dget d k of Some v \<Rightarrow> if truthy v then Some v else None | None \<Rightarrow> None)"

definition artifact_item :: "(real \<Rightarrow> string) \<Rightarrow> nat \<times> json \<Rightarrow> exn + string \<times> string" where
  "artifact_item fr indexed =
     (case indexed of (index, item) \<Rightarrow>
       (case item of
          JObj kvs \<Rightarrow>
            Inr (case truthy_field kvs ''name'' of None \<Rightarrow> ''artifact-'' @ str_nat index | Some v \<Rightarrow> py_str fr v,
                 artifact_content fr (case dget kvs ''content'' of None \<Rightarrow> JStr [] | Some v \<Rightarrow> v))
        | _ \<Rightarrow> Inl (value_error ''each artifact must be a mapping with name and content'')))"

definition artifact_items :: "(real \<Rightarrow> string) \<Rightarrow> (string, json) dict \<Rightarrow> exn + (string \<times> string) list" where
  "artifact_items fr raw =
     (case truthy_field raw ''artifacts'' of
        None \<Rightarrow> Inr []
      | Some (JArr items) \<Rightarrow>
          efold (\<lambda>x acc. map_sum id (\<lambda>a. acc @ [a]) (artifact_item fr x)) (zip [0..<length items] items) []
      | Some _ \<Rightarrow> Inl (value_error (''stage handler '' @ str_repr ''artifacts'' @ '' must be a list'')))"

text \<open>Whichever key the handler used for its message.\<close>

definition message_of :: "(real \<Rightarrow> string) \<Rightarrow> (string, json) dict \<Rightarrow> string" where
  "message_of fr raw =
     (case List.map_filter (truthy_field raw) [''message'', ''error'', ''reason''] of
        [] \<Rightarrow> []
      | v # _ \<Rightarrow> py_str fr v)"

definition parse_stage_result :: "(real \<Rightarrow> string) \<Rightarrow> json \<Rightarrow> exn + stage_result" where
  "parse_stage_result fr raw =
     (case raw of
        JObj kvs \<Rightarrow>
          (case state_of_status (map latin_lower (str_strip
                  (case dget kvs ''status'' of None \<Rightarrow> [] | Some v \<Rightarrow> py_str fr v))) of
             Inl e \<Rightarrow> Inl e
           | Inr state \<Rightarrow>
               map_sum id
                 (\<lambda>artifacts. \<lparr>sr_state = state, sr_artifacts = artifacts, sr_message = message_of fr kvs\<rparr>)
                 (artifact_items fr kvs))
      | _ \<Rightarrow> Inl (value_error (''stage handler must return a mapping, got '' @ type_name raw)))"

text \<open>A handler is run and its value parsed; either may raise.\<close>

definition run_handler :: "(real \<Rightarrow> string) \<Rightarrow> stage_handler \<Rightarrow> string \<Rightarrow> exn + stage_result" where
  "run_handler fr handler text =
     (case handler text of Inl e \<Rightarrow> Inl e | Inr raw \<Rightarrow> parse_stage_result fr raw)"

definition exception_text :: "exn \<Rightarrow> string" where
  "exception_text e = fst e @ '': '' @ snd e"

section \<open>The stage agent\<close>

text \<open>The calls on the event queue and the task updater, in order; a message is its text.\<close>

datatype sdk_call =
    EnqueueTask string
  | StartWork
  | AddArtifact string string
  | Complete "string option"
  | RequiresInput "string option"
  | RejectTask "string option"
  | FailTask "string option"
  | CancelTask

fun final_call :: "task_state \<Rightarrow> string option \<Rightarrow> sdk_call" where
  "final_call COMPLETED m = Complete m"
| "final_call INPUT_REQUIRED m = RequiresInput m"
| "final_call REJECTED m = RejectTask m"
| "final_call _ m = FailTask m"

definition cancelled :: "exn \<Rightarrow> bool" where
  "cancelled e \<longleftrightarrow> fst e = ''CancelledError''"

text \<open>A cancellation leaves the executor; every other exception fails the task.\<close>

definition execute ::
  "(real \<Rightarrow> string) \<Rightarrow> stage_handler \<Rightarrow> bool \<Rightarrow> string \<Rightarrow> string \<Rightarrow> sdk_call list \<times> exn option" where
  "execute fr handler has_task task_id text =
     (let opening = (if has_task then [] else [EnqueueTask task_id]) @ [StartWork]
      in case run_handler fr handler text of
           Inl e \<Rightarrow> if cancelled e then (opening, Some e) else (opening @ [FailTask (Some (exception_text e))], None)
         | Inr result \<Rightarrow>
             (let message = (if sr_message result = [] then None else Some (sr_message result));
                  artifacts = (if sr_state result = COMPLETED
                               then map (\<lambda>(name, content). AddArtifact content name) (sr_artifacts result) else [])
              in (opening @ artifacts @ [final_call (sr_state result) message], None)))"

definition cancel_execution :: "sdk_call list" where
  "cancel_execution = [CancelTask]"

section \<open>The bearer guard\<close>

text \<open>Card discovery is exempt; every other request must carry the expected token, and there must be one.\<close>

definition guard_passes :: "string \<Rightarrow> string \<Rightarrow> string \<Rightarrow> bool" where
  "guard_passes path expected presented \<longleftrightarrow>
     str_startswith path ''/.well-known/'' \<or> (expected \<noteq> [] \<and> presented = ''Bearer '' @ expected)"

text \<open>The status of a request behind the guard, if the guard answers it.\<close>

definition guarded_status :: "bool \<Rightarrow> string \<Rightarrow> string \<Rightarrow> string \<Rightarrow> nat option" where
  "guarded_status require_auth path expected presented =
     (if require_auth \<and> \<not> guard_passes path expected presented then Some 401 else None)"

section \<open>Serving\<close>

text \<open>A running agent: the server on its thread is told to exit when the agent is stopped.\<close>

record served_agent =
  sv_card :: agent_card
  sv_guarded :: bool
  sv_base_url :: string
  sv_should_exit :: bool

definition serve_agent :: "agent_card \<Rightarrow> nat \<Rightarrow> string \<Rightarrow> bool \<Rightarrow> served_agent" where
  "serve_agent c port host require_auth =
     \<lparr>sv_card = c, sv_guarded = require_auth, sv_base_url = ''http://'' @ host @ '':'' @ str_nat port,
      sv_should_exit = False\<rparr>"

definition stop_serving :: "served_agent \<Rightarrow> served_agent" where
  "stop_serving a = a\<lparr>sv_should_exit := True\<rparr>"

text \<open>
  Polling the card route until it answers or the time is up. A reading of the clock comes before every
  poll; a poll raises, or gives a status and what its body parses to. Fuel is the number of readings.
\<close>

fun await_card ::
  "nat \<Rightarrow> (nat \<Rightarrow> real) \<Rightarrow> (nat \<Rightarrow> exn + int \<times> (exn + json)) \<Rightarrow> real \<Rightarrow> nat \<Rightarrow> string option \<Rightarrow> (string option + json) option"
where
  "await_card 0 clock poll deadline i last_error = None"
| "await_card (Suc k) clock poll deadline i last_error =
     (if clock i < deadline
      then (case poll i of
              Inr (status, Inr body) \<Rightarrow>
                if status = 200 then Some (Inr body) else await_card k clock poll deadline (Suc i) last_error
            | Inr (status, Inl e) \<Rightarrow>
                await_card k clock poll deadline (Suc i) (if status = 200 then Some (snd e) else last_error)
            | Inl e \<Rightarrow> await_card k clock poll deadline (Suc i) (Some (snd e)))
      else Some (Inl last_error))"

definition wait_until_ready ::
  "nat \<Rightarrow> (nat \<Rightarrow> real) \<Rightarrow> (nat \<Rightarrow> exn + int \<times> (exn + json)) \<Rightarrow> real \<Rightarrow> served_agent \<Rightarrow> (exn + json) option"
where
  "wait_until_ready fuel clock poll timeout a =
     map_option (\<lambda>r. case r of
         Inr body \<Rightarrow> Inr body
       | Inl err \<Rightarrow> Inl (''RuntimeError'', ''agent at '' @ sv_base_url a @ '' never served its card: ''
           @ (case err of None \<Rightarrow> ''None'' | Some t \<Rightarrow> t)))
       (await_card fuel clock poll (clock 0 + timeout) 1 None)"

text \<open>Waiting ends once the clock has passed the deadline, and with the card if it is served before.\<close>

lemma await_card_ends:
  "deadline \<le> clock (i + n) \<Longrightarrow> n < k \<Longrightarrow> \<exists>r. await_card k clock poll deadline i err = Some r"
proof (induction k arbitrary: i n err)
  case (Suc k)
  show ?case
  proof (cases n)
    case 0
    with Suc.prems show ?thesis by simp
  next
    case (Suc m)
    with Suc.prems have "deadline \<le> clock (Suc i + m)" "m < k" by simp_all
    from Suc.IH [OF this] show ?thesis by (auto split: sum.split prod.split)
  qed
qed simp

lemma await_card_found:
  assumes "poll (i + n) = Inr (200, Inr body)" and "\<forall>j \<le> n. clock (i + j) < deadline"
    and "\<forall>j < n. \<forall>b. poll (i + j) \<noteq> Inr (200, Inr b)" and "n < k"
  shows "await_card k clock poll deadline i err = Some (Inr body)"
  using assms
proof (induction k arbitrary: i n err)
  case (Suc k)
  have now: "clock i < deadline" using Suc.prems(2) by (metis add.right_neutral le0)
  show ?case
  proof (cases n)
    case 0
    with Suc.prems(1) now show ?thesis by simp
  next
    case n: (Suc m)
    have "await_card k clock poll deadline (Suc i) e = Some (Inr body)" for e
    proof (rule Suc.IH [of "Suc i" m])
      show "\<forall>j \<le> m. clock (Suc i + j) < deadline"
        using Suc.prems(2) n by (metis Suc_le_mono add_Suc_shift)
      show "\<forall>j < m. \<forall>b. poll (Suc i + j) \<noteq> Inr (200, Inr b)"
        using Suc.prems(3) n by (metis Suc_mono add_Suc_shift)
    qed (use Suc.prems(1,4) n in simp_all)
    moreover have "\<forall>b. poll i \<noteq> Inr (200, Inr b)" using Suc.prems(3) n by (metis add.right_neutral zero_less_Suc)
    ultimately show ?thesis using now by (auto split: sum.split prod.split)
  qed
qed simp

theorem wait_until_ready_ends:
  "timeout \<le> clock (Suc n) - clock 0 \<Longrightarrow> n < fuel \<Longrightarrow> \<exists>r. wait_until_ready fuel clock poll timeout a = Some r"
  using await_card_ends [of "clock 0 + timeout" clock 1 n fuel poll None] by (auto simp: wait_until_ready_def)

theorem wait_until_ready_finds:
  assumes "poll (Suc n) = Inr (200, Inr body)" and "\<forall>j \<le> n. clock (Suc j) - clock 0 < timeout"
    and "\<forall>j < n. \<forall>b. poll (Suc j) \<noteq> Inr (200, Inr b)" and "n < fuel"
  shows "wait_until_ready fuel clock poll timeout a = Some (Inr body)"
proof -
  have "\<forall>j \<le> n. clock (1 + j) < clock 0 + timeout" using assms(2) by (simp add: algebra_simps)
  with assms await_card_found [of poll 1 n body clock "clock 0 + timeout" fuel None]
  show ?thesis by (simp add: wait_until_ready_def)
qed

end
