(* ===== verification/A2AClient.thy ===== *)
theory A2AClient
  imports A2AServer
begin

text \<open>
  Reaching a stage, \<^verbatim>\<open>keel/a2a/client.py\<close> and \<^verbatim>\<open>keel/a2a/transport.py\<close>: the client that folds the SDK's
  event stream into an outcome, the in-process transport that calls handlers directly, the HTTP transport
  with its clients, and the dispatcher over either. The stream of the SDK is an argument; its protobuf
  states are numbers.
\<close>

section \<open>The stage client\<close>

datatype stream_event =
    TaskEvent string int
  | StatusUpdate string int "string list"
  | ArtifactUpdate string "string list"
  | MessageEvent "string list"
  | OtherEvent

definition text_of :: "string list \<Rightarrow> string" where
  "text_of parts = str_join newline (filter (\<lambda>p. p \<noteq> []) parts)"

definition join_or :: "string \<Rightarrow> string \<Rightarrow> string" where
  "join_or a b = (if a = [] then b else a)"

text \<open>A client is connected once the SDK has resolved its card; closing it drops the connection only.\<close>

record stage_client =
  sc_base_url :: string
  sc_token :: string
  sc_node_id :: string
  sc_last_task_id :: string
  sc_connected :: bool
  sc_card :: "agent_card option"

definition new_client :: "(string \<Rightarrow> string option) \<Rightarrow> string \<Rightarrow> string option \<Rightarrow> string \<Rightarrow> stage_client" where
  "new_client getenv base_url token node_id =
     \<lparr>sc_base_url = rstrip_slash base_url,
      sc_token = (case token of Some t \<Rightarrow> t
                  | None \<Rightarrow> (case getenv ''KEEL_A2A_AUTH_TOKEN'' of None \<Rightarrow> [] | Some t \<Rightarrow> t)),
      sc_node_id = node_id, sc_last_task_id = [], sc_connected = False, sc_card = None\<rparr>"

text \<open>Any scheme the card names gets the token; without one no request is signed.\<close>

definition get_credentials :: "string \<Rightarrow> string \<Rightarrow> string option" where
  "get_credentials token scheme = Some token"

definition request_credentials :: "stage_client \<Rightarrow> string \<Rightarrow> string option" where
  "request_credentials c scheme = (if sc_token c = [] then None else get_credentials (sc_token c) scheme)"

definition supports :: "stage_client \<Rightarrow> string \<Rightarrow> bool" where
  "supports c skill_id =
     (case sc_card c of None \<Rightarrow> False | Some k \<Rightarrow> list_ex (\<lambda>s. ask_id s = skill_id) (ac_skills k))"

text \<open>Discovery is what the agent serves at its address, or the exception of a failed request.\<close>

definition ensure_client :: "(string \<Rightarrow> exn + agent_card) \<Rightarrow> stage_client \<Rightarrow> exn + stage_client" where
  "ensure_client discover c =
     (if sc_connected c then Inr c
      else map_sum id (\<lambda>k. c\<lparr>sc_connected := True, sc_card := Some k\<rparr>) (discover (sc_base_url c)))"

definition client_card :: "(string \<Rightarrow> exn + agent_card) \<Rightarrow> stage_client \<Rightarrow> exn + agent_card \<times> stage_client" where
  "client_card discover c =
     (case sc_card c of
        Some k \<Rightarrow> Inr (k, c)
      | None \<Rightarrow>
          (case ensure_client discover c of
             Inl e \<Rightarrow> Inl e
           | Inr c1 \<Rightarrow> (case sc_card c1 of Some k \<Rightarrow> Inr (k, c1) | None \<Rightarrow> Inl (''AssertionError'', []))))"

text \<open>What the loop over the stream keeps; ids are announced as they become known.\<close>

record stream_state =
  st_state :: task_state
  st_artifacts :: "artifact list"
  st_message :: string
  st_task_id :: string
  st_last_id :: string
  st_announced :: "string list"

definition pb_error :: "(int \<Rightarrow> string option) \<Rightarrow> int \<Rightarrow> exn" where
  "pb_error pb_name v =
     (case pb_name v of
        None \<Rightarrow> (''ValueError'', ''Enum TaskState has no name defined for value '' @ str_int v)
      | Some n \<Rightarrow> (''KeyError'', str_repr (remove_prefix ''TASK_STATE_'' n)))"

definition read_stream_event ::
  "(int \<Rightarrow> string option) \<Rightarrow> string \<Rightarrow> stream_event \<Rightarrow> stream_state \<Rightarrow> exn + stream_state" where
  "read_stream_event pb_name owner ev st =
     (case ev of
        TaskEvent i v \<Rightarrow>
          (case from_a2a pb_name v of
             None \<Rightarrow> Inl (pb_error pb_name v)
           | Some s \<Rightarrow> Inr (st\<lparr>st_task_id := join_or i (st_task_id st), st_state := s\<rparr>))
      | StatusUpdate i v parts \<Rightarrow>
          (case from_a2a pb_name v of
             None \<Rightarrow> Inl (pb_error pb_name v)
           | Some s \<Rightarrow>
               Inr (st\<lparr>st_task_id := join_or i (st_task_id st), st_state := s,
                       st_message := join_or (text_of parts) (st_message st)\<rparr>))
      | ArtifactUpdate name parts \<Rightarrow>
          Inr (st\<lparr>st_artifacts := st_artifacts st @ [text_artifact (join_or name ''artifact'') (text_of parts) owner]\<rparr>)
      | MessageEvent parts \<Rightarrow> Inr (st\<lparr>st_message := join_or (text_of parts) (st_message st)\<rparr>)
      | OtherEvent \<Rightarrow> Inr st)"

definition announce :: "stream_state \<Rightarrow> stream_state" where
  "announce st =
     (if st_task_id st \<noteq> [] \<and> st_task_id st \<noteq> st_last_id st
      then st\<lparr>st_last_id := st_task_id st, st_announced := st_announced st @ [st_task_id st]\<rparr>
      else st)"

definition stream_step ::
  "(int \<Rightarrow> string option) \<Rightarrow> string \<Rightarrow> stream_event \<Rightarrow> stream_state \<Rightarrow> exn + stream_state" where
  "stream_step pb_name owner ev st = map_sum id announce (read_stream_event pb_name owner ev st)"

definition outcome_with :: "task_state \<Rightarrow> artifact list \<Rightarrow> string \<Rightarrow> stage_outcome" where
  "outcome_with s as m = (outcome_new s)\<lparr>so_artifacts := as, so_message := m\<rparr>"

text \<open>An event that raises ends the loop with what it had read.\<close>

fun read_stream ::
  "(int \<Rightarrow> string option) \<Rightarrow> string \<Rightarrow> stream_event list \<Rightarrow> stream_state \<Rightarrow> exn option \<times> stream_state"
where
  "read_stream pb_name owner [] st = (None, st)"
| "read_stream pb_name owner (ev # events) st =
     (case stream_step pb_name owner ev st of
        Inl e \<Rightarrow> (Some e, st)
      | Inr st1 \<Rightarrow> read_stream pb_name owner events st1)"

text \<open>\<open>StageClient.invoke\<close> on the stream the SDK delivers for the request, and the task ids it announced.\<close>

definition client_invoke ::
  "(string \<Rightarrow> exn + agent_card) \<Rightarrow> (int \<Rightarrow> string option) \<Rightarrow> stream_event list \<Rightarrow> string \<Rightarrow> string \<Rightarrow> stage_client
     \<Rightarrow> (exn + stage_outcome) \<times> stage_client \<times> string list"
where
  "client_invoke discover pb_name events skill_id node_id c0 =
     (case ensure_client discover c0 of
        Inl e \<Rightarrow> (Inl e, c0, [])
      | Inr c \<Rightarrow>
          if sc_card c \<noteq> None \<and> \<not> supports c skill_id
          then (Inl (''KeyError'', str_repr (''agent at '' @ sc_base_url c @ '' does not offer skill '' @ str_repr skill_id)), c, [])
          else
            (case read_stream pb_name (join_or node_id (join_or (sc_node_id c) skill_id)) events
                \<lparr>st_state = SUBMITTED, st_artifacts = [], st_message = [], st_task_id = [],
                 st_last_id = sc_last_task_id c, st_announced = []\<rparr> of
               (err, st) \<Rightarrow>
                 ((case err of Some e \<Rightarrow> Inl e
                   | None \<Rightarrow> Inr (outcome_with (st_state st) (st_artifacts st) (st_message st))),
                  c\<lparr>sc_last_task_id := st_last_id st\<rparr>, st_announced st)))"

text \<open>The SDK answers a cancellation with the state the agent settled on.\<close>

definition client_cancel ::
  "(string \<Rightarrow> exn + agent_card) \<Rightarrow> (int \<Rightarrow> string option) \<Rightarrow> (string \<Rightarrow> string \<Rightarrow> exn + int) \<Rightarrow> string \<Rightarrow> stage_client
     \<Rightarrow> (exn + task_state) \<times> stage_client"
where
  "client_cancel discover pb_name sdk_cancel task_id c0 =
     (case ensure_client discover c0 of
        Inl e \<Rightarrow> (Inl e, c0)
      | Inr c \<Rightarrow>
          (case sdk_cancel (sc_base_url c) task_id of
             Inl e \<Rightarrow> (Inl e, c)
           | Inr v \<Rightarrow> (case from_a2a pb_name v of None \<Rightarrow> (Inl (pb_error pb_name v), c) | Some s \<Rightarrow> (Inr s, c))))"

definition client_close :: "stage_client \<Rightarrow> stage_client" where
  "client_close c = (if sc_connected c then c\<lparr>sc_connected := False\<rparr> else c)"

section \<open>The in-process transport\<close>

record in_process =
  ip_handlers :: "(stage_kind, stage_handler) dict"
  ip_task_states :: "(string, task_state) dict"

definition in_process_new :: "(stage_kind, stage_handler) dict \<Rightarrow> in_process" where
  "in_process_new handlers = \<lparr>ip_handlers = handlers, ip_task_states = []\<rparr>"

definition ip_handler :: "in_process \<Rightarrow> stage_kind \<Rightarrow> exn + stage_handler" where
  "ip_handler t kind =
     (case dget (ip_handlers t) kind of
        None \<Rightarrow> Inl (''KeyError'', str_repr (''no in-process handler for stage '' @ str_repr (sk_value kind)))
      | Some h \<Rightarrow> Inr h)"

text \<open>The task id is minted from a fresh UUID. A cancellation is no \<open>Exception\<close> and passes through.\<close>

definition in_process_invoke ::
  "(real \<Rightarrow> string) \<Rightarrow> string \<Rightarrow> stage_kind \<Rightarrow> string \<Rightarrow> string \<Rightarrow> string \<Rightarrow> in_process
     \<Rightarrow> (exn + stage_outcome) \<times> in_process"
where
  "in_process_invoke fr hex kind skill_id text node_id t =
     (case ip_handler t kind of
        Inl e \<Rightarrow> (Inl e, t)
      | Inr handler \<Rightarrow>
          (let task_id = ''local-'' @ take 12 hex;
               owner = join_or node_id (join_or skill_id (sk_value kind));
               settle = (\<lambda>s. t\<lparr>ip_task_states := dset task_id s (ip_task_states t)\<rparr>)
           in case run_handler fr handler text of
                Inl e \<Rightarrow>
                  if cancelled e then (Inl e, settle WORKING)
                  else (Inr (outcome_with FAILED [] (exception_text e)), settle FAILED)
              | Inr result \<Rightarrow>
                  (Inr (outcome_with (sr_state result)
                         (map (\<lambda>(name, content). text_artifact name content owner) (sr_artifacts result))
                         (sr_message result)),
                   settle (sr_state result))))"

definition in_process_cancel :: "string \<Rightarrow> in_process \<Rightarrow> (exn + task_state) \<times> in_process" where
  "in_process_cancel task_id t =
     (case dget (ip_task_states t) task_id of
        None \<Rightarrow> (Inl (''KeyError'', str_repr (''unknown task '' @ str_repr task_id)), t)
      | Some s \<Rightarrow>
          if is_terminal s then (Inl (''CancelNotAllowed'', ''task '' @ str_repr task_id @ '' already finished''), t)
          else (Inr CANCELED, t\<lparr>ip_task_states := dset task_id CANCELED (ip_task_states t)\<rparr>))"

section \<open>The HTTP transport and the dispatcher\<close>

record http_transport =
  ht_base_urls :: "(stage_kind, string) dict"
  ht_token :: "string option"
  ht_clients :: "(stage_kind, stage_client) dict"

definition http_new :: "(stage_kind, string) dict option \<Rightarrow> string option \<Rightarrow> string \<Rightarrow> http_transport" where
  "http_new base_urls token host =
     \<lparr>ht_base_urls = (case base_urls of Some us \<Rightarrow> us
                       | None \<Rightarrow> map (\<lambda>kind. (kind, local_base_url kind host)) all_stages),
      ht_token = token, ht_clients = []\<rparr>"

definition client_for ::
  "(string \<Rightarrow> string option) \<Rightarrow> stage_kind \<Rightarrow> http_transport \<Rightarrow> exn + stage_client \<times> http_transport" where
  "client_for getenv kind t =
     (case dget (ht_clients t) kind of
        Some c \<Rightarrow> Inr (c, t)
      | None \<Rightarrow>
          (case dget (ht_base_urls t) kind of
             None \<Rightarrow> Inl (''KeyError'', str_repr (''no address for stage '' @ str_repr (sk_value kind)))
           | Some url \<Rightarrow>
               (let c = new_client getenv url (ht_token t) []
                in Inr (c, t\<lparr>ht_clients := dset kind c (ht_clients t)\<rparr>))))"

text \<open>The stream is what the SDK delivers for a request with this text to that stage.\<close>

definition http_invoke ::
  "(string \<Rightarrow> string option) \<Rightarrow> (string \<Rightarrow> exn + agent_card) \<Rightarrow> (int \<Rightarrow> string option)
     \<Rightarrow> (stage_kind \<Rightarrow> string \<Rightarrow> stream_event list)
     \<Rightarrow> stage_kind \<Rightarrow> string \<Rightarrow> string \<Rightarrow> string \<Rightarrow> http_transport \<Rightarrow> (exn + stage_outcome) \<times> http_transport"
where
  "http_invoke getenv discover pb_name stream kind skill_id text node_id t =
     (case client_for getenv kind t of
        Inl e \<Rightarrow> (Inl e, t)
      | Inr (c, t1) \<Rightarrow>
          (case client_invoke discover pb_name (stream kind text) skill_id node_id c of
             (result, c1, _) \<Rightarrow> (result, t1\<lparr>ht_clients := dset kind c1 (ht_clients t1)\<rparr>)))"

definition http_cancel ::
  "(string \<Rightarrow> string option) \<Rightarrow> (string \<Rightarrow> exn + agent_card) \<Rightarrow> (int \<Rightarrow> string option) \<Rightarrow> (string \<Rightarrow> string \<Rightarrow> exn + int)
     \<Rightarrow> stage_kind \<Rightarrow> string \<Rightarrow> http_transport \<Rightarrow> (exn + task_state) \<times> http_transport"
where
  "http_cancel getenv discover pb_name sdk_cancel kind task_id t =
     (case client_for getenv kind t of
        Inl e \<Rightarrow> (Inl e, t)
      | Inr (c, t1) \<Rightarrow>
          (case client_cancel discover pb_name sdk_cancel task_id c of
             (result, c1) \<Rightarrow> (result, t1\<lparr>ht_clients := dset kind c1 (ht_clients t1)\<rparr>)))"

definition http_close :: "http_transport \<Rightarrow> http_transport" where
  "http_close t = t\<lparr>ht_clients := []\<rparr>"

text \<open>The payload crosses as text, with sorted keys; the transport is the argument.\<close>

definition payload_text :: "(real \<Rightarrow> string) \<Rightarrow> (string, string) dict \<Rightarrow> string" where
  "payload_text fr payload = dumps_indent fr 0 (JObj (map (\<lambda>(k, v). (k, JStr v)) payload))"

definition a2a_dispatch ::
  "(real \<Rightarrow> string) \<Rightarrow> (stage_kind \<Rightarrow> string \<Rightarrow> string \<Rightarrow> string \<Rightarrow> 't \<Rightarrow> (exn + stage_outcome) \<times> 't)
     \<Rightarrow> dispatch_request \<Rightarrow> 't \<Rightarrow> (exn + stage_outcome) \<times> 't"
where
  "a2a_dispatch fr invoke r t =
     (case stage_for_skill (dr_skill_id r) of
        Inl e \<Rightarrow> (Inl e, t)
      | Inr kind \<Rightarrow> invoke kind (dr_skill_id r) (payload_text fr (dr_payload r)) (dr_node_id r) t)"

end
