(* ===== verification/Intake.thy ===== *)
theory Intake
  imports AuditFile Dispatch
begin

text \<open>
  The pre-flight stage of \<^verbatim>\<open>keel/intake.py\<close>: the analyst's structured output becomes a problem, answers a
  human gave before resolve its questions, and the run is planned, parked or failed. The dispatcher is a
  function of its request; strings are Latin-1, whose letters and lower case are Python's.
\<close>

section \<open>Coercions\<close>

text \<open>\<open>for x in v\<close>\<close>

fun py_iter :: "json \<Rightarrow> exn + json list" where
  "py_iter (JArr xs) = Inr xs"
| "py_iter (JStr s) = Inr (map (\<lambda>c. JStr [c]) s)"
| "py_iter (JObj kvs) = Inr (map (\<lambda>(k, v). JStr k) kvs)"
| "py_iter v = Inl (''TypeError'', str_repr (type_name v) @ '' object is not iterable'')"

text \<open>\<open>for x in d.get(k) or []\<close>\<close>

definition iter_field :: "(string, json) dict \<Rightarrow> string \<Rightarrow> exn + json list" where
  "iter_field d k =
     py_iter (case dget d k of None \<Rightarrow> JArr [] | Some v \<Rightarrow> if truthy v then v else JArr [])"

definition str_field :: "(real \<Rightarrow> string) \<Rightarrow> (string, json) dict \<Rightarrow> string \<Rightarrow> string" where
  "str_field fr d k = str_strip (case dget d k of None \<Rightarrow> [] | Some v \<Rightarrow> py_str fr v)"

section \<open>From structured output to a problem\<close>

definition default_confidence_threshold :: pfloat where
  "default_confidence_threshold = Fin (3 / 5)"

definition to_ambiguity :: "(real \<Rightarrow> string) \<Rightarrow> (string, json) dict \<Rightarrow> exn + ambiguity" where
  "to_ambiguity fr raw =
     map_sum id
       (\<lambda>options.
          \<lparr>amb_question = str_field fr raw ''question'', amb_why = str_field fr raw ''why_it_matters'',
           amb_blocking = (case dget raw ''blocking'' of None \<Rightarrow> True | Some v \<Rightarrow> truthy v),
           amb_options = map (py_str fr) options, amb_answer = None\<rparr>)
       (iter_field raw ''options'')"

definition add_ambiguity :: "(real \<Rightarrow> string) \<Rightarrow> json \<Rightarrow> ambiguity list \<Rightarrow> exn + ambiguity list" where
  "add_ambiguity fr raw acc =
     (case raw of JObj kvs \<Rightarrow> map_sum id (\<lambda>a. acc @ [a]) (to_ambiguity fr kvs) | _ \<Rightarrow> Inr acc)"

definition scenario_of :: "(real \<Rightarrow> string) \<Rightarrow> (string, json) dict \<Rightarrow> scenario_kind" where
  "scenario_of fr parsed =
     (case sc_of_value (map latin_lower
              (case dget parsed ''scenario'' of None \<Rightarrow> ''greenfield'' | Some v \<Rightarrow> py_str fr v)) of
        None \<Rightarrow> GREENFIELD
      | Some s \<Rightarrow> s)"

text \<open>Only a type or value error of the conversion is caught.\<close>

definition confidence_of :: "(string, json) dict \<Rightarrow> exn + pfloat" where
  "confidence_of parsed =
     (case py_float (case dget parsed ''confidence'' of None \<Rightarrow> JFloat (Fin 0) | Some v \<Rightarrow> v) of
        Inr x \<Rightarrow> Inr x
      | Inl e \<Rightarrow> if fst e \<in> {''TypeError'', ''ValueError''} then Inr (Fin 0) else Inl e)"

definition clamp_unit :: "pfloat \<Rightarrow> pfloat" where
  "clamp_unit x = py_max (Fin 0) (py_min (Fin 1) x)"

definition to_problem :: "(real \<Rightarrow> string) \<Rightarrow> string \<Rightarrow> (string, json) dict \<Rightarrow> exn + engineering_problem" where
  "to_problem fr requirement parsed =
     (case iter_field parsed ''ambiguities'' of Inl e \<Rightarrow> Inl e | Inr raws \<Rightarrow>
     (case efold (add_ambiguity fr) raws [] of Inl e \<Rightarrow> Inl e | Inr ambiguities \<Rightarrow>
     (case confidence_of parsed of Inl e \<Rightarrow> Inl e | Inr confidence \<Rightarrow>
     (case iter_field parsed ''acceptance_criteria'' of Inl e \<Rightarrow> Inl e | Inr criteria \<Rightarrow>
     (case iter_field parsed ''constraints'' of Inl e \<Rightarrow> Inl e | Inr constraints \<Rightarrow>
        Inr \<lparr>ep_raw_requirement = requirement, ep_intent = str_field fr parsed ''intent'',
             ep_acceptance_criteria = map (py_str fr) criteria, ep_constraints = map (py_str fr) constraints,
             ep_ambiguities = filter (\<lambda>a. amb_question a \<noteq> []) ambiguities,
             ep_scenario = scenario_of fr parsed, ep_confidence = clamp_unit confidence,
             ep_notes = str_field fr parsed ''notes''\<rparr>)))))"

section \<open>Answers given before\<close>

definition question_key :: "string \<Rightarrow> string" where
  "question_key q = take 60 (filter latin_alnum (map latin_lower q))"

definition normalized_answers :: "(string, string) dict \<Rightarrow> (string, string) dict" where
  "normalized_answers answers = fold (\<lambda>(q, a). dset (question_key q) a) answers []"

definition answer_one :: "(string, string) dict \<Rightarrow> ambiguity \<Rightarrow> ambiguity" where
  "answer_one normalized amb =
     (case dget normalized (question_key (amb_question amb)) of
        None \<Rightarrow> amb
      | Some hit \<Rightarrow> amb\<lparr>amb_answer := Some hit\<rparr>)"

definition apply_answers :: "(string, string) dict option \<Rightarrow> engineering_problem \<Rightarrow> engineering_problem" where
  "apply_answers answers p =
     (case answers of
        None \<Rightarrow> p
      | Some [] \<Rightarrow> p
      | Some as \<Rightarrow>
          let q = p\<lparr>ep_ambiguities := map (answer_one (normalized_answers as)) (ep_ambiguities p)\<rparr>
          in if blocking_ambiguities q = []
             then q\<lparr>ep_confidence := py_max (ep_confidence q) default_confidence_threshold\<rparr>
             else q)"

definition format_answers :: "(string, string) dict option \<Rightarrow> string" where
  "format_answers answers =
     (case answers of
        None \<Rightarrow> ''(none)''
      | Some [] \<Rightarrow> ''(none)''
      | Some as \<Rightarrow> str_join newline (map (\<lambda>(q, a). ''- Q: '' @ q @ newline @ ''  A: '' @ a) as))"

section \<open>The stage\<close>

record intake_result =
  ir_problem :: engineering_problem
  ir_state :: task_state
  ir_questions :: "ambiguity list"
  ir_cost_usd :: real
  ir_input_tokens :: int
  ir_output_tokens :: int

definition parked :: "intake_result \<Rightarrow> bool" where
  "parked r \<longleftrightarrow> ir_state r = INPUT_REQUIRED"

definition intake_request ::
  "string \<Rightarrow> string option \<Rightarrow> (string, string) dict option \<Rightarrow> dispatch_request" where
  "intake_request requirement existing_code answers =
     \<lparr>dr_node_id = ''intake'', dr_skill_id = sk_value ANALYZE, dr_tier = DEEP,
      dr_payload =
        [(''requirement'', requirement),
         (''existing_code'', (case existing_code of
            None \<Rightarrow> ''(none, this is a new system)''
          | Some c \<Rightarrow> if c = [] then ''(none, this is a new system)'' else c)),
         (''prior_answers'', format_answers answers)]\<rparr>"

definition unread_problem :: "string \<Rightarrow> engineering_problem" where
  "unread_problem requirement =
     \<lparr>ep_raw_requirement = requirement, ep_intent = [], ep_acceptance_criteria = [], ep_constraints = [],
      ep_ambiguities = [], ep_scenario = GREENFIELD, ep_confidence = Fin 0, ep_notes = []\<rparr>"

definition intake_of :: "stage_outcome \<Rightarrow> engineering_problem \<Rightarrow> task_state \<Rightarrow> ambiguity list \<Rightarrow> intake_result" where
  "intake_of out p s qs =
     \<lparr>ir_problem = p, ir_state = s, ir_questions = qs, ir_cost_usd = so_cost_usd out,
      ir_input_tokens = so_input_tokens out, ir_output_tokens = so_output_tokens out\<rparr>"

definition conclude ::
  "(real \<Rightarrow> string) \<Rightarrow> pfloat \<Rightarrow> string \<Rightarrow> (string, string) dict option \<Rightarrow> stage_outcome \<Rightarrow> exn + intake_result"
where
  "conclude fr threshold requirement answers out =
     (case (so_state out = COMPLETED, so_parsed out) of
        (True, Some parsed) \<Rightarrow>
          map_sum id
            (\<lambda>p0. let p = apply_answers answers p0
                  in intake_of out p (if is_plannable p threshold then COMPLETED else INPUT_REQUIRED)
                       (blocking_ambiguities p))
            (to_problem fr requirement parsed)
      | _ \<Rightarrow> Inr (intake_of out (unread_problem requirement) FAILED []))"

definition analyze ::
  "(real \<Rightarrow> string) \<Rightarrow> (dispatch_request \<Rightarrow> dispatch_reply) \<Rightarrow> pfloat \<Rightarrow> string \<Rightarrow> string option \<Rightarrow>
   (string, string) dict option \<Rightarrow> emission list \<times> (exn + intake_result)"
where
  "analyze fr dispatch threshold requirement existing_code answers =
     (case dispatch (intake_request requirement existing_code answers) of
        (es, Inl e) \<Rightarrow> (es, Inl e)
      | (es, Inr out) \<Rightarrow> (es, conclude fr threshold requirement answers out))"

end
