(* ===== verification/A2AProps.thy ===== *)
theory A2AProps
  imports A2AClient Intake
begin

text \<open>
  The two ways of reaching a stage agree: what an A2A client makes of a served stage is what the in-process
  transport makes of its handler, but for the artifacts of a stage that did not complete. Whatever the
  transport, an outcome carries text only.
\<close>

section \<open>What the SDK delivers\<close>

text \<open>The event a lifecycle call appears as in the client's stream; parts are those of its message.\<close>

definition message_parts :: "string option \<Rightarrow> string list" where
  "message_parts m = (case m of None \<Rightarrow> [] | Some t \<Rightarrow> [t])"

definition status_event ::
  "(int \<Rightarrow> string option) \<Rightarrow> string \<Rightarrow> task_state \<Rightarrow> string option \<Rightarrow> stream_event \<Rightarrow> bool" where
  "status_event pb_name tid s m ev \<longleftrightarrow>
     (case ev of
        StatusUpdate i v parts \<Rightarrow> i = tid \<and> from_a2a pb_name v = Some s \<and> parts = message_parts m
      | _ \<Rightarrow> False)"

fun delivers :: "(int \<Rightarrow> string option) \<Rightarrow> string \<Rightarrow> sdk_call \<Rightarrow> stream_event \<Rightarrow> bool" where
  "delivers pb_name tid (EnqueueTask i) ev =
     (case ev of TaskEvent j v \<Rightarrow> j = i \<and> from_a2a pb_name v = Some SUBMITTED | _ \<Rightarrow> False)"
| "delivers pb_name tid StartWork ev = status_event pb_name tid WORKING None ev"
| "delivers pb_name tid (AddArtifact content name) ev = (ev = ArtifactUpdate name [content])"
| "delivers pb_name tid (Complete m) ev = status_event pb_name tid COMPLETED m ev"
| "delivers pb_name tid (RequiresInput m) ev = status_event pb_name tid INPUT_REQUIRED m ev"
| "delivers pb_name tid (RejectTask m) ev = status_event pb_name tid REJECTED m ev"
| "delivers pb_name tid (FailTask m) ev = status_event pb_name tid FAILED m ev"
| "delivers pb_name tid CancelTask ev = status_event pb_name tid CANCELED None ev"

text \<open>What a call does to the state, the artifacts and the message the client holds.\<close>

type_synonym seen = "task_state \<times> artifact list \<times> string"

fun effect :: "string \<Rightarrow> sdk_call \<Rightarrow> seen \<Rightarrow> seen" where
  "effect owner (EnqueueTask i) (s, as, m) = (SUBMITTED, as, m)"
| "effect owner StartWork (s, as, m) = (WORKING, as, m)"
| "effect owner (AddArtifact content name) (s, as, m) = (s, as @ [text_artifact (join_or name ''artifact'') content owner], m)"
| "effect owner (Complete t) (s, as, m) = (COMPLETED, as, join_or (case t of None \<Rightarrow> [] | Some x \<Rightarrow> x) m)"
| "effect owner (RequiresInput t) (s, as, m) = (INPUT_REQUIRED, as, join_or (case t of None \<Rightarrow> [] | Some x \<Rightarrow> x) m)"
| "effect owner (RejectTask t) (s, as, m) = (REJECTED, as, join_or (case t of None \<Rightarrow> [] | Some x \<Rightarrow> x) m)"
| "effect owner (FailTask t) (s, as, m) = (FAILED, as, join_or (case t of None \<Rightarrow> [] | Some x \<Rightarrow> x) m)"
| "effect owner CancelTask (s, as, m) = (CANCELED, as, m)"

definition seen_of :: "stream_state \<Rightarrow> seen" where
  "seen_of st = (st_state st, st_artifacts st, st_message st)"

lemma seen_of_announce [simp]: "seen_of (announce st) = seen_of st"
  by (simp add: seen_of_def announce_def)

lemma text_of_message [simp]: "text_of (message_parts m) = (case m of None \<Rightarrow> [] | Some t \<Rightarrow> t)"
  by (simp add: text_of_def message_parts_def split: option.splits)

lemma join_or_simps [simp]: "join_or [] b = b" "a \<noteq> [] \<Longrightarrow> join_or a b = a" "join_or a [] = a"
  by (simp_all add: join_or_def)

lemma status_step:
  "status_event pb_name tid s m ev \<Longrightarrow>
   \<exists>st'. stream_step pb_name owner ev st = Inr st'
     \<and> seen_of st' = (s, st_artifacts st, join_or (case m of None \<Rightarrow> [] | Some t \<Rightarrow> t) (st_message st))"
  by (cases ev) (auto simp: status_event_def stream_step_def read_stream_event_def, auto simp: seen_of_def)

lemma delivered_step:
  assumes "delivers pb_name tid call ev"
  shows "\<exists>st'. stream_step pb_name owner ev st = Inr st' \<and> seen_of st' = effect owner call (seen_of st)"
proof (cases call)
  case (EnqueueTask i)
  with assms obtain v where "ev = TaskEvent i v" "from_a2a pb_name v = Some SUBMITTED"
    by (cases ev) auto
  with EnqueueTask show ?thesis by (simp add: stream_step_def read_stream_event_def) (simp add: seen_of_def)
next
  case (AddArtifact content name)
  then show ?thesis using assms
    by (simp add: stream_step_def read_stream_event_def) (simp add: seen_of_def text_of_def)
qed (use assms status_step [of pb_name tid _ _ ev owner st] in \<open>force simp: seen_of_def\<close>)+

lemma delivered_stream:
  "list_all2 (delivers pb_name tid) calls events \<Longrightarrow>
   \<exists>st'. efold (stream_step pb_name owner) events st = Inr st' \<and> seen_of st' = fold (effect owner) calls (seen_of st)"
proof (induction arbitrary: st rule: list_all2_induct)
  case (Cons call calls ev events)
  from delivered_step [OF Cons.hyps(1), of owner st] obtain st1 where
    "stream_step pb_name owner ev st = Inr st1" "seen_of st1 = effect owner call (seen_of st)" by blast
  with Cons.IH [of st1] show ?case by simp
qed simp

lemma read_stream_efold:
  "read_stream pb_name owner events st = (None, st') \<longleftrightarrow> efold (stream_step pb_name owner) events st = Inr st'"
  by (induction events arbitrary: st) (auto split: sum.split)

section \<open>The wire and the process agree\<close>

lemma truthy_py_str: "\<forall>x. fr x \<noteq> [] \<Longrightarrow> truthy v \<Longrightarrow> py_str fr v \<noteq> []"
proof (cases v)
  case (JInt i)
  then show ?thesis by (simp add: str_int_def)
next
  case (JFloat f)
  assume "\<forall>x. fr x \<noteq> []"
  with JFloat show ?thesis by (cases f) simp_all
qed simp_all

lemma artifact_item_named: "\<forall>x. fr x \<noteq> [] \<Longrightarrow> artifact_item fr ix = Inr a \<Longrightarrow> fst a \<noteq> []"
  using truthy_py_str [of fr]
  by (auto simp: artifact_item_def truthy_field_def split: prod.splits json.splits option.splits if_splits)

lemma artifact_items_named:
  assumes "\<forall>x. fr x \<noteq> []" and "artifact_items fr raw = Inr as" and "a \<in> set as"
  shows "fst a \<noteq> []"
proof -
  have "\<forall>a \<in> set as. fst a \<noteq> []"
  proof (cases "truthy_field raw ''artifacts''")
    case (Some v)
    with assms(2) obtain items where
      "efold (\<lambda>x acc. map_sum id (\<lambda>a. acc @ [a]) (artifact_item fr x)) (zip [0..<length items] items) [] = Inr as"
      by (cases v) (auto simp: artifact_items_def)
    then show ?thesis
      by (rule efold_invariant) (fastforce simp: map_sum_Inr dest: artifact_item_named [OF assms(1)])+
  qed (use assms(2) in \<open>simp add: artifact_items_def\<close>)
  with assms(3) show ?thesis by blast
qed

lemma run_handler_result:
  assumes "run_handler fr handler text = Inr r"
  shows "sr_state r \<in> handler_states"
    and "(\<forall>x. fr x \<noteq> []) \<longrightarrow> (\<forall>a \<in> set (sr_artifacts r). fst a \<noteq> [])"
  using assms artifact_items_named [of fr]
  by (auto simp: run_handler_def parse_stage_result_def map_sum_Inr state_of_status_def
      split: sum.splits json.splits option.splits if_splits)

definition owned :: "string \<Rightarrow> string \<times> string \<Rightarrow> artifact" where
  "owned owner a = text_artifact (fst a) (snd a) owner"

lemma fold_artifacts:
  "\<forall>a \<in> set as. fst a \<noteq> [] \<Longrightarrow>
   fold (effect owner) (map (\<lambda>(name, content). AddArtifact content name) as) (s, xs, m) = (s, xs @ map (owned owner) as, m)"
  by (induction as arbitrary: xs) (auto simp: owned_def)

lemma final_effect:
  "s \<in> handler_states \<Longrightarrow>
   effect owner (final_call s (if m = [] then None else Some m)) (s', as, []) = (s, as, m)"
  by (auto simp: handler_states_def)

definition without_files :: "stage_outcome \<Rightarrow> stage_outcome" where
  "without_files out = (if so_state out = COMPLETED then out else out\<lparr>so_artifacts := []\<rparr>)"

text \<open>
  C30: Dispatching over the wire and in process agree. If the SDK delivers the calls of a served stage, in
  order, to a client that may ask for its skill, then the outcome the client builds is the one the
  in-process transport gives for the same handler: the same state, message and artifacts, where a
  crashing handler is a failed task on both sides. Only a stage that did not complete differs: the
  in-process transport hands its artifacts on, the wire does not.
\<close>

theorem wire_matches_in_process:
  assumes "execute fr handler False tid text = (calls, None)"
    and "list_all2 (delivers pb_name tid) calls events"
    and "dget (ip_handlers t) kind = Some handler" and "ensure_client discover c = Inr c1" and "supports c1 skill_id"
    and "node_id \<noteq> []" and "\<forall>x. fr x \<noteq> []"
  shows "\<exists>out t' c' ids. in_process_invoke fr hex kind skill_id text node_id t = (Inr out, t')
    \<and> client_invoke discover pb_name events skill_id node_id c = (Inr (without_files out), c', ids)"
proof -
  define st0 where "st0 = \<lparr>st_state = SUBMITTED, st_artifacts = [], st_message = [], st_task_id = [],
    st_last_id = sc_last_task_id c1, st_announced = []\<rparr>"
  obtain st where st: "efold (stream_step pb_name node_id) events st0 = Inr st"
    "seen_of st = fold (effect node_id) calls (SUBMITTED, [], [])"
    using delivered_stream [OF assms(2), of node_id st0] by (auto simp: st0_def seen_of_def)
  have client: "client_invoke discover pb_name events skill_id node_id c
      = (Inr (case seen_of st of (s, as, m) \<Rightarrow> outcome_with s as m), c1\<lparr>sc_last_task_id := st_last_id st\<rparr>, st_announced st)"
    using st(1) assms(4-6) by (simp add: client_invoke_def st0_def seen_of_def flip: read_stream_efold)
  show ?thesis
  proof (cases "run_handler fr handler text")
    case (Inl e)
    with assms(1) have nc: "\<not> cancelled e" by (auto simp: execute_def Let_def split: if_splits)
    with assms(1) Inl have "calls = [EnqueueTask tid, StartWork, FailTask (Some (exception_text e))]"
      by (auto simp: execute_def)
    with st(2) have "seen_of st = (FAILED, [], exception_text e)" by (simp add: exception_text_def)
    with client nc assms(3,6) Inl show ?thesis
      by (simp add: in_process_invoke_def ip_handler_def without_files_def outcome_with_def outcome_new_def)
  next
    case (Inr r)
    note named = run_handler_result [OF Inr]
    have calls: "calls = [EnqueueTask tid, StartWork]
        @ (if sr_state r = COMPLETED then map (\<lambda>(name, content). AddArtifact content name) (sr_artifacts r) else [])
        @ [final_call (sr_state r) (if sr_message r = [] then None else Some (sr_message r))]"
      using assms(1) Inr by (auto simp: execute_def Let_def split: if_splits)
    have "seen_of st = (sr_state r, if sr_state r = COMPLETED then map (owned node_id) (sr_artifacts r) else [], sr_message r)"
      using named assms(7) by (simp add: st(2) calls fold_artifacts final_effect)
    moreover have "in_process_invoke fr hex kind skill_id text node_id t
        = (Inr (outcome_with (sr_state r) (map (owned node_id) (sr_artifacts r)) (sr_message r)),
           t\<lparr>ip_task_states := dset (''local-'' @ take 12 hex) (sr_state r) (ip_task_states t)\<rparr>)"
      using assms(3,6) Inr
      by (simp add: in_process_invoke_def ip_handler_def owned_def [abs_def] case_prod_beta' Let_def)
    ultimately show ?thesis
      using client by (simp add: without_files_def outcome_with_def outcome_new_def)
  qed
qed

section \<open>What any transport gives\<close>

text \<open>An outcome of text only: no structured output, no tokens or cost, and no artifact with a path.\<close>

definition text_only :: "string \<Rightarrow> stage_outcome \<Rightarrow> bool" where
  "text_only node_id out \<longleftrightarrow> so_parsed out = None \<and> so_cost_usd out = 0
     \<and> so_input_tokens out = 0 \<and> so_output_tokens out = 0
     \<and> (\<forall>a \<in> set (so_artifacts out). art_path a = None \<and> (node_id \<noteq> [] \<longrightarrow> art_produced_by a = node_id))"

locale stage_transport =
  fixes invoke :: "stage_kind \<Rightarrow> string \<Rightarrow> string \<Rightarrow> string \<Rightarrow> 't \<Rightarrow> (exn + stage_outcome) \<times> 't"
  assumes text_only: "fst (invoke kind skill_id text node_id t) = Inr out \<Longrightarrow> text_only node_id out"
begin

lemma dispatch_text_only: "fst (a2a_dispatch fr invoke r t) = Inr out \<Longrightarrow> text_only (dr_node_id r) out"
  by (auto simp: a2a_dispatch_def split: sum.splits intro: text_only)

lemma intake_fails:
  assumes "snd (analyze fr (\<lambda>r. ([], fst (a2a_dispatch fr invoke r t))) threshold requirement code answers) = Inr res"
  shows "ir_state res = FAILED"
proof -
  let ?q = "intake_request requirement code answers"
  obtain out where out: "fst (a2a_dispatch fr invoke ?q t) = Inr out"
    "conclude fr threshold requirement answers out = Inr res"
    using assms by (auto simp: analyze_def split: sum.splits)
  from dispatch_text_only [OF out(1)] have "so_parsed out = None" by (simp add: text_only_def)
  with out(2) show ?thesis by (auto simp: conclude_def intake_of_def split: bool.splits)
qed

end

lemma text_only_with:
  "\<forall>a \<in> set as. art_path a = None \<and> (n \<noteq> [] \<longrightarrow> art_produced_by a = n) \<Longrightarrow> text_only n (outcome_with s as m)"
  by (simp add: text_only_def outcome_with_def outcome_new_def)

interpretation process: stage_transport "in_process_invoke fr hex" for fr hex
proof
  fix kind skill_id prompt node_id t out
  assume "fst (in_process_invoke fr hex kind skill_id prompt node_id t) = Inr out"
  then show "text_only node_id out"
    by (auto simp: in_process_invoke_def Let_def text_artifact_def split: sum.splits if_splits intro!: text_only_with)
qed

lemma read_stream_event_owner:
  assumes "read_stream_event pb_name owner ev st = Inr st'"
    and "\<forall>a \<in> set (st_artifacts st). art_path a = None \<and> art_produced_by a = owner"
  shows "\<forall>a \<in> set (st_artifacts st'). art_path a = None \<and> art_produced_by a = owner"
  using assms by (auto simp: read_stream_event_def text_artifact_def split: stream_event.splits option.splits)

lemma client_text_only:
  assumes "client_invoke discover pb_name events skill_id node_id c = (Inr out, c', ids)"
  shows "text_only node_id out"
proof -
  from assms obtain c1 where c1: "ensure_client discover c = Inr c1"
    by (auto simp: client_invoke_def split: sum.splits)
  let ?owner = "join_or node_id (join_or (sc_node_id c1) skill_id)"
  from assms c1 obtain st where st: "read_stream pb_name ?owner events
      \<lparr>st_state = SUBMITTED, st_artifacts = [], st_message = [], st_task_id = [],
       st_last_id = sc_last_task_id c1, st_announced = []\<rparr> = (None, st)"
    "out = outcome_with (st_state st) (st_artifacts st) (st_message st)"
    by (auto simp: client_invoke_def split: if_splits prod.splits option.splits)
  have "\<forall>a \<in> set (st_artifacts st). art_path a = None \<and> art_produced_by a = ?owner"
    by (rule efold_invariant [OF st(1) [unfolded read_stream_efold]])
      (auto simp: stream_step_def map_sum_Inr announce_def dest: read_stream_event_owner split: if_splits)
  with st(2) show ?thesis by (auto intro!: text_only_with)
qed

interpretation wire: stage_transport "http_invoke getenv discover pb_name stream" for getenv discover pb_name stream
proof
  fix kind skill_id prompt node_id t out
  assume "fst (http_invoke getenv discover pb_name stream kind skill_id prompt node_id t) = Inr out"
  then show "text_only node_id out"
    by (auto simp: http_invoke_def split: sum.splits prod.splits dest: client_text_only)
qed

text \<open>
  Nothing structured crosses A2A. Whatever a stage answers, an outcome dispatched over either transport
  has no parsed output, no tokens or cost, and no artifact with a path, so an intake run through the A2A
  dispatcher always fails, however clear the requirement.
\<close>

theorem nothing_structured_crosses_a2a:
  "(fst (a2a_dispatch fr (http_invoke getenv discover pb_name stream) r t) = Inr out \<longrightarrow> text_only (dr_node_id r) out)
   \<and> (snd (analyze fr (\<lambda>q. ([], fst (a2a_dispatch fr (http_invoke getenv discover pb_name stream) q t))) threshold requirement code
        answers) = Inr res \<longrightarrow> ir_state res = FAILED)
   \<and> (fst (a2a_dispatch fr (in_process_invoke fr hex) r t') = Inr out' \<longrightarrow> text_only (dr_node_id r) out')
   \<and> (snd (analyze fr (\<lambda>q. ([], fst (a2a_dispatch fr (in_process_invoke fr hex) q t'))) threshold requirement code
        answers) = Inr res' \<longrightarrow> ir_state res' = FAILED)"
  by (intro conjI impI)
    (rule wire.dispatch_text_only wire.intake_fails process.dispatch_text_only process.intake_fails; assumption)+

section \<open>A stage that answers and a stage that asks\<close>

definition answering_handler :: stage_handler where
  "answering_handler text =
     Inr (JObj [(''status'', JStr ''completed''), (''artifacts'', JArr [JObj [(''name'', JStr ''plan''), (''content'', JStr ''x'')]])])"

definition asking_handler :: stage_handler where
  "asking_handler text =
     Inr (JObj [(''status'', JStr ''input_required''), (''message'', JStr ''which one?''),
       (''artifacts'', JArr [JObj [(''name'', JStr ''draft''), (''content'', JStr ''y'')]])])"

definition mesh :: in_process where
  "mesh = in_process_new [(ANALYZE, answering_handler), (DESIGN_STAGE, asking_handler)]"

abbreviation pb_of :: "int \<Rightarrow> string option" where
  "pb_of \<equiv> map_of (map (\<lambda>(n, v). (v, n)) pb_names)"

definition plain_floats :: "real \<Rightarrow> string" where
  "plain_floats x = ''0.0''"

definition asked_stream :: "stream_event list" where
  "asked_stream = [TaskEvent ''t'' 1, StatusUpdate ''t'' 2 [], StatusUpdate ''t'' 6 [''which one?'']]"

definition stage_conn :: stage_client where
  "stage_conn = new_client (\<lambda>_. None) ''http://127.0.0.1:8711/'' None []"

lemma asking_runs:
  "execute plain_floats asking_handler False ''t'' ''p'' = ([EnqueueTask ''t'', StartWork, RequiresInput (Some ''which one?'')], None)"
  by code_simp

lemma asking_in_process:
  "fst (in_process_invoke plain_floats ''0123456789abcdef'' DESIGN_STAGE ''design'' ''p'' ''n'' mesh)
     = Inr (outcome_with INPUT_REQUIRED [text_artifact ''draft'' ''y'' ''n''] ''which one?'')"
  by code_simp

text \<open>The draft of the stage that asks reaches the caller in process only.\<close>

theorem wire_matches_in_process_witness:
  "\<exists>c ids. client_invoke (\<lambda>url. Inr (card_for DESIGN_STAGE url)) pb_of asked_stream ''design'' ''n'' stage_conn
     = (Inr (outcome_with INPUT_REQUIRED [] ''which one?''), c, ids)"
proof -
  have "list_all2 (delivers pb_of ''t'') [EnqueueTask ''t'', StartWork, RequiresInput (Some ''which one?'')] asked_stream"
    by code_simp
  moreover have "dget (ip_handlers mesh) DESIGN_STAGE = Some asking_handler" by (simp add: mesh_def in_process_new_def)
  moreover obtain c1 where "ensure_client (\<lambda>url. Inr (card_for DESIGN_STAGE url)) stage_conn = Inr c1" "supports c1 ''design''"
  proof
    show "ensure_client (\<lambda>url. Inr (card_for DESIGN_STAGE url)) stage_conn
        = Inr (stage_conn\<lparr>sc_connected := True, sc_card := Some (card_for DESIGN_STAGE (sc_base_url stage_conn))\<rparr>)"
      by (simp add: ensure_client_def stage_conn_def new_client_def)
    show "supports (stage_conn\<lparr>sc_connected := True, sc_card := Some (card_for DESIGN_STAGE (sc_base_url stage_conn))\<rparr>) ''design''"
      by code_simp
  qed
  ultimately obtain out t' c ids where
    "in_process_invoke plain_floats ''0123456789abcdef'' DESIGN_STAGE ''design'' ''p'' ''n'' mesh = (Inr out, t')"
    "client_invoke (\<lambda>url. Inr (card_for DESIGN_STAGE url)) pb_of asked_stream ''design'' ''n'' stage_conn = (Inr (without_files out), c, ids)"
    using wire_matches_in_process [OF asking_runs, of pb_of asked_stream mesh DESIGN_STAGE "\<lambda>url. Inr (card_for DESIGN_STAGE url)"
        stage_conn _ "''design''" "''n''" "''0123456789abcdef''"] by (auto simp: plain_floats_def)
  with asking_in_process show ?thesis by (auto simp: without_files_def outcome_with_def outcome_new_def)
qed

definition mesh_intake :: "intake_result" where
  "mesh_intake = intake_of (outcome_with COMPLETED [text_artifact ''plan'' ''x'' ''intake''] [])
     (unread_problem ''links'') FAILED []"

theorem nothing_structured_crosses_a2a_witness:
  "ir_state mesh_intake = FAILED"
proof -
  have "snd (analyze plain_floats (\<lambda>q. ([], fst (a2a_dispatch plain_floats (in_process_invoke plain_floats ''0123456789abcdef'')
      q mesh))) default_confidence_threshold ''links'' None None) = Inr mesh_intake"
    by code_simp
  with nothing_structured_crosses_a2a show ?thesis by blast
qed

end
