(* ===== verification/IntakeProps.thy ===== *)
theory IntakeProps
  imports Intake
begin

text \<open>
  What intake promises: it plans only what is understood, with every blocking question answered by a human,
  and answering the questions of a parked run lets the same analysis through.
\<close>

section \<open>Confidence\<close>

lemma clamp_unit_bounds: "\<exists>x. clamp_unit c = Fin x \<and> 0 \<le> x \<and> x \<le> 1"
  by (cases c) (auto simp: clamp_unit_def py_max_def py_min_def)

text \<open>A confidence that is not a number counts as certainty.\<close>

lemma nan_is_certain: "clamp_unit NaN = Fin 1"
  by (simp add: clamp_unit_def py_max_def py_min_def)

lemma to_problem_confidence:
  "to_problem fr requirement parsed = Inr p \<Longrightarrow> \<exists>x. ep_confidence p = Fin x \<and> 0 \<le> x \<and> x \<le> 1"
  using clamp_unit_bounds by (auto simp: to_problem_def split: sum.splits)

lemma to_ambiguity_open: "to_ambiguity fr raw = Inr a \<Longrightarrow> amb_answer a = None"
  by (auto simp: to_ambiguity_def map_sum_Inr)

lemma to_problem_open:
  assumes "to_problem fr requirement parsed = Inr p" and "a \<in> set (ep_ambiguities p)"
  shows "amb_answer a = None"
proof -
  from assms obtain raws as where as: "efold (add_ambiguity fr) raws [] = Inr as" "a \<in> set as"
    by (auto simp: to_problem_def split: sum.splits)
  have "\<forall>b \<in> set as. amb_answer b = None"
    by (rule efold_invariant [OF as(1)])
      (auto simp: add_ambiguity_def map_sum_Inr dest: to_ambiguity_open split: json.splits)
  with as(2) show ?thesis by simp
qed

section \<open>Answers\<close>

lemma normalized_fold:
  "dget (fold (\<lambda>(q, a). dset (question_key q) a) as d) k =
     (case map_of (rev (map (apfst question_key) as)) k of Some a \<Rightarrow> Some a | None \<Rightarrow> dget d k)"
  by (induction as arbitrary: d) (auto simp: map_add_def split: option.splits)

lemma normalized_get:
  "dget (normalized_answers as) k = map_of (rev (map (apfst question_key) as)) k"
  by (simp add: normalized_answers_def normalized_fold split: option.splits)

lemma normalized_Some:
  "dget (normalized_answers as) k = Some a \<Longrightarrow> \<exists>q. (q, a) \<in> set as \<and> question_key q = k"
proof -
  assume "dget (normalized_answers as) k = Some a"
  then have "(k, a) \<in> set (map (apfst question_key) as)" unfolding normalized_get by (auto dest: map_of_SomeD)
  then show ?thesis by (auto simp: apfst_def map_prod_def)
qed

lemma normalized_None:
  "dget (normalized_answers as) k = None \<longleftrightarrow> k \<notin> question_key ` fst ` set as"
  by (auto simp: normalized_get map_of_eq_None_iff image_image)

lemma answer_one_sel [simp]:
  "amb_question (answer_one n a) = amb_question a" "amb_blocking (answer_one n a) = amb_blocking a"
  "amb_answer (answer_one n a) =
     (case dget n (question_key (amb_question a)) of None \<Rightarrow> amb_answer a | Some hit \<Rightarrow> Some hit)"
  by (simp_all add: answer_one_def split: option.splits)

lemma apply_answers_Cons:
  "apply_answers (Some (x # as)) p =
     (let q = p\<lparr>ep_ambiguities := map (answer_one (normalized_answers (x # as))) (ep_ambiguities p)\<rparr>
      in if blocking_ambiguities q = []
         then q\<lparr>ep_confidence := py_max (ep_confidence q) default_confidence_threshold\<rparr> else q)"
  by (simp add: apply_answers_def)

lemma apply_answers_other: "\<nexists>x as. answers = Some (x # as) \<Longrightarrow> apply_answers answers p = p"
proof (cases answers)
  case (Some as)
  assume "\<nexists>x as. answers = Some (x # as)"
  with Some show ?thesis by (cases as) (simp_all add: apply_answers_def)
qed (simp add: apply_answers_def)

lemma apply_answers_none: "apply_answers None p = p" "apply_answers (Some []) p = p"
  by (simp_all add: apply_answers_def)

text \<open>Every answer in a problem comes from the human, under the same question.\<close>

definition answered_by :: "(string, string) dict option \<Rightarrow> ambiguity \<Rightarrow> bool" where
  "answered_by answers a \<longleftrightarrow>
     (\<exists>q ans. (q, ans) \<in> set (case answers of None \<Rightarrow> [] | Some as \<Rightarrow> as)
        \<and> question_key q = question_key (amb_question a) \<and> amb_answer a = Some ans)"

lemma apply_answers_answered:
  assumes "\<forall>a \<in> set (ep_ambiguities p). amb_answer a = None"
    and "a \<in> set (ep_ambiguities (apply_answers answers p))" and "amb_answer a \<noteq> None"
  shows "answered_by answers a"
proof (cases "\<exists>x as. answers = Some (x # as)")
  case True
  then obtain x as where an: "answers = Some (x # as)" by auto
  with assms(2) obtain b where b: "b \<in> set (ep_ambiguities p)" "a = answer_one (normalized_answers (x # as)) b"
    by (auto simp: apply_answers_Cons Let_def split: if_splits)
  with assms(1,3) obtain hit where "dget (normalized_answers (x # as)) (question_key (amb_question b)) = Some hit"
    by (auto split: option.splits)
  with normalized_Some [OF this] b(2) an show ?thesis by (auto simp: answered_by_def)
next
  case False
  with apply_answers_other have "apply_answers answers p = p" by blast
  with assms show ?thesis by auto
qed

lemma apply_answers_confidence:
  assumes "ep_confidence p = Fin x" and "0 \<le> x" and "x \<le> 1"
  shows "\<exists>y. ep_confidence (apply_answers answers p) = Fin y \<and> 0 \<le> y \<and> y \<le> 1"
proof (cases "\<exists>z as. answers = Some (z # as)")
  case True
  moreover have "\<exists>y. py_max (Fin x) default_confidence_threshold = Fin y \<and> 0 \<le> y \<and> y \<le> 1"
    using assms(2,3) by (auto simp: py_max_def default_confidence_threshold_def intro: exI [of _ "3 / 5"])
  ultimately show ?thesis using assms by (auto simp: apply_answers_Cons Let_def)
next
  case False
  with apply_answers_other have "apply_answers answers p = p" by blast
  with assms show ?thesis by simp
qed

section \<open>What the stage concludes\<close>

lemma conclude_cases:
  assumes "conclude fr threshold requirement answers out = Inr r"
  obtains (unread) "r = intake_of out (unread_problem requirement) FAILED []"
    | (read) parsed p where "so_state out = COMPLETED" "so_parsed out = Some parsed"
        "to_problem fr requirement parsed = Inr p"
        "r = intake_of out (apply_answers answers p)
           (if is_plannable (apply_answers answers p) threshold then COMPLETED else INPUT_REQUIRED)
           (blocking_ambiguities (apply_answers answers p))"
  using assms by (cases "so_parsed out") (auto simp: conclude_def map_sum_Inr Let_def split: bool.splits)

lemma analyze_conclude:
  "snd (analyze fr dispatch threshold requirement code answers) = Inr r \<Longrightarrow>
   \<exists>out. conclude fr threshold requirement answers out = Inr r"
  by (auto simp: analyze_def split: prod.splits sum.splits)

lemma intake_of_sel [simp]:
  "ir_problem (intake_of out p s qs) = p" "ir_state (intake_of out p s qs) = s"
  "ir_questions (intake_of out p s qs) = qs"
  by (simp_all add: intake_of_def)

text \<open>
  C28: Intake never plans what it does not understand. Whatever the dispatcher returns, an analysis is
  planned only if its confidence reaches the threshold and every blocking question it raised carries an
  answer the human gave to that question; otherwise it is parked or failed. It asks for exactly the open
  blocking questions, and the confidence it reports lies between 0 and 1.
\<close>

theorem intake_never_guesses:
  assumes "snd (analyze fr dispatch threshold requirement code answers) = Inr r"
  shows "(ir_state r = COMPLETED \<longrightarrow>
        flt_ge (ep_confidence (ir_problem r)) threshold
        \<and> (\<forall>a \<in> set (ep_ambiguities (ir_problem r)). amb_blocking a \<longrightarrow> answered_by answers a))
    \<and> ir_state r \<in> {COMPLETED, INPUT_REQUIRED, FAILED}
    \<and> ir_questions r = blocking_ambiguities (ir_problem r)
    \<and> (\<exists>x. ep_confidence (ir_problem r) = Fin x \<and> 0 \<le> x \<and> x \<le> 1)"
proof -
  from analyze_conclude [OF assms] obtain out where "conclude fr threshold requirement answers out = Inr r" by blast
  then show ?thesis
  proof (cases rule: conclude_cases)
    case unread
    then show ?thesis by (simp add: unread_problem_def blocking_ambiguities_def)
  next
    case (read parsed p)
    let ?p = "apply_answers answers p"
    have "\<forall>a \<in> set (ep_ambiguities p). amb_answer a = None" using to_problem_open [OF read(3)] by blast
    from apply_answers_answered [OF this]
    have "blocking_ambiguities ?p = [] \<Longrightarrow> \<forall>a \<in> set (ep_ambiguities ?p). amb_blocking a \<longrightarrow> answered_by answers a"
      by (auto simp: blocking_ambiguities_def amb_resolved_def filter_empty_conv)
    moreover have "\<exists>y. ep_confidence ?p = Fin y \<and> 0 \<le> y \<and> y \<le> 1"
      using to_problem_confidence [OF read(3)] apply_answers_confidence by blast
    ultimately show ?thesis using read(4) by (simp add: is_plannable_def)
  qed
qed

text \<open>
  C29: Answering the questions unparks the run. If an analysis parks with questions, then the same stage
  output, read again with an answer to each of those questions, completes, as long as the threshold is at
  most the default one.
\<close>

theorem answers_unpark_the_run:
  assumes "conclude fr threshold requirement None out = Inr r" and "parked r" and "ir_questions r \<noteq> []"
    and "flt_ge default_confidence_threshold threshold"
    and "answers = map (\<lambda>a. (amb_question a, reply a)) (ir_questions r)"
  shows "\<exists>r'. conclude fr threshold requirement (Some answers) out = Inr r' \<and> ir_state r' = COMPLETED"
  using assms(1)
proof (cases rule: conclude_cases)
  case unread
  with assms(2) show ?thesis by (simp add: parked_def)
next
  case (read parsed p)
  let ?p = "apply_answers (Some answers) p"
  have qs: "ir_questions r = blocking_ambiguities p" using read(4) by (simp add: apply_answers_none)
  obtain x as where an: "answers = x # as" using assms(3,5) by (cases "ir_questions r") auto
  have keys: "question_key ` fst ` set answers = (question_key \<circ> amb_question) ` set (blocking_ambiguities p)"
    by (simp add: assms(5) qs image_image)
  have "\<forall>a \<in> set (ep_ambiguities p). amb_blocking a \<longrightarrow> amb_answer (answer_one (normalized_answers answers) a) \<noteq> None"
  proof (intro ballI impI)
    fix a assume a: "a \<in> set (ep_ambiguities p)" "amb_blocking a"
    with to_problem_open [OF read(3)] have "a \<in> set (blocking_ambiguities p)"
      by (auto simp: blocking_ambiguities_def amb_resolved_def)
    then have "question_key (amb_question a) \<in> question_key ` fst ` set answers" by (simp add: keys)
    then show "amb_answer (answer_one (normalized_answers answers) a) \<noteq> None"
      using normalized_None [of answers "question_key (amb_question a)"] by (auto split: option.splits)
  qed
  then have none: "filter (\<lambda>a. amb_blocking a \<and> \<not> amb_resolved a)
      (map (answer_one (normalized_answers answers)) (ep_ambiguities p)) = []"
    by (auto simp: filter_empty_conv amb_resolved_def simp del: answer_one_sel(3))
  obtain c where "ep_confidence p = Fin c" using to_problem_confidence [OF read(3)] by blast
  with none assms(4) have "is_plannable ?p threshold"
    by (cases threshold)
      (auto simp: an [symmetric] apply_answers_Cons [of x as, folded an] Let_def is_plannable_def blocking_ambiguities_def
        py_max_def default_confidence_threshold_def)
  with read show ?thesis by (simp add: conclude_def Let_def)
qed

section \<open>An analysis with one open question\<close>

definition no_floats :: "real \<Rightarrow> string" where
  "no_floats x = ''0.0''"

definition open_question :: stage_outcome where
  "open_question = (outcome_new COMPLETED)\<lparr>so_parsed := Some
     [(''confidence'', JFloat (Fin (9 / 10))), (''intent'', JStr '' share links ''),
      (''ambiguities'', JArr [JObj [(''question'', JStr ''Which users?'')], JStr ''noise''])]\<rparr>"

definition asked_problem :: "string option \<Rightarrow> engineering_problem" where
  "asked_problem answer =
     \<lparr>ep_raw_requirement = ''links'', ep_intent = ''share links'', ep_acceptance_criteria = [], ep_constraints = [],
      ep_ambiguities = [\<lparr>amb_question = ''Which users?'', amb_why = [], amb_blocking = True, amb_options = [],
        amb_answer = answer\<rparr>],
      ep_scenario = GREENFIELD, ep_confidence = Fin (9 / 10), ep_notes = []\<rparr>"

lemma parked_analysis:
  "conclude no_floats default_confidence_threshold ''links'' None open_question
     = Inr (intake_of open_question (asked_problem None) INPUT_REQUIRED (ep_ambiguities (asked_problem None)))"
  by code_simp

lemma answered_analysis:
  "analyze no_floats (\<lambda>_. ([], Inr open_question)) default_confidence_threshold ''links'' None
       (Some [(''which users'', ''all'')])
     = ([], Inr (intake_of open_question (asked_problem (Some ''all'')) COMPLETED []))"
  by code_simp

theorem intake_never_guesses_witness:
  "answered_by (Some [(''which users'', ''all'')]) (hd (ep_ambiguities (asked_problem (Some ''all''))))"
proof -
  have "snd (analyze no_floats (\<lambda>_. ([], Inr open_question)) default_confidence_threshold ''links'' None
      (Some [(''which users'', ''all'')]))
    = Inr (intake_of open_question (asked_problem (Some ''all'')) COMPLETED [])"
    by (simp add: answered_analysis)
  from intake_never_guesses [OF this] show ?thesis by (simp add: asked_problem_def)
qed

theorem answers_unpark_the_run_witness:
  "\<exists>r. conclude no_floats default_confidence_threshold ''links'' (Some [(''Which users?'', ''all'')]) open_question = Inr r
     \<and> ir_state r = COMPLETED"
proof -
  have "flt_ge default_confidence_threshold default_confidence_threshold"
    by (simp add: default_confidence_threshold_def)
  from answers_unpark_the_run [OF parked_analysis _ _ this refl, of "\<lambda>_. ''all''"] show ?thesis
    by (simp add: parked_def asked_problem_def)
qed

end
