(* ===== verification/Metrics.thy ===== *)
theory Metrics
  imports AuditFile "HOL-Library.Product_Lexorder"
begin

text \<open>
  The reliability metrics of \<^verbatim>\<open>keel/governance/metrics.py\<close>: one result per node, recovery intervals walked
  off the log, latency, the metric set, the per-stage breakdown and its stage inference, and the two
  tables and the JSON record they are shown as.
\<close>

section \<open>Reading results and events\<close>

definition failed_states :: "task_state set" where
  "failed_states = {FAILED, REJECTED}"

definition final_results :: "node_result list \<Rightarrow> node_result list" where
  "final_results results = dvals (fold (\<lambda>r. dset (nr_node_id r) r) results [])"

definition ordered :: "audit_event list \<Rightarrow> audit_event list" where
  "ordered events = sort_key (\<lambda>e. (ae_seq e, ae_at e)) events"

definition count_type :: "audit_event list \<Rightarrow> event_type \<Rightarrow> nat" where
  "count_type events t = length (filter (\<lambda>e. ae_event_type e = t) events)"

text \<open>\<open>s.upper()\<close>; no letter beyond ASCII becomes part of a state's name.\<close>

definition str_upper :: "string \<Rightarrow> string" where
  "str_upper s = map (\<lambda>c. if is_lower c then char_of (of_char c - 32 :: nat) else c) s"

definition state_keys :: "string list" where
  "state_keys = [''state'', ''task_state'']"

fun read_state_at :: "string list \<Rightarrow> (string, json) dict \<Rightarrow> task_state option" where
  "read_state_at [] payload = None"
| "read_state_at (k # ks) payload =
     (case dget payload k of
        Some (JStr s) \<Rightarrow> (case ts_of_value (str_lower s) of Some t \<Rightarrow> Some t | None \<Rightarrow> ts_of_name (str_upper s))
      | _ \<Rightarrow> read_state_at ks payload)"

definition read_state :: "(string, json) dict \<Rightarrow> task_state option" where
  "read_state payload = read_state_at state_keys payload"

definition is_failure_marker :: "audit_event \<Rightarrow> bool" where
  "is_failure_marker e \<longleftrightarrow>
     ae_event_type e = RETRY
     \<or> (ae_event_type e = NODE_FINISHED \<and> (case read_state (ae_payload e) of None \<Rightarrow> False | Some s \<Rightarrow> s \<in> failed_states))"

definition is_success_marker :: "audit_event \<Rightarrow> bool" where
  "is_success_marker e \<longleftrightarrow> ae_event_type e = NODE_FINISHED \<and> read_state (ae_payload e) = Some COMPLETED"

section \<open>Recovery\<close>

record recovery_interval =
  ri_node_id :: string
  ri_failed_at :: real
  ri_recovered_at :: real

definition ri_seconds :: "recovery_interval \<Rightarrow> real" where
  "ri_seconds i = max 0 (ri_recovered_at i - ri_failed_at i)"

type_synonym recovery_state = "(string, real) dict \<times> recovery_interval list"

definition recover_step :: "audit_event \<Rightarrow> recovery_state \<Rightarrow> recovery_state" where
  "recover_step e st =
     (case (ae_node_id e, st) of
        (None, _) \<Rightarrow> st
      | (Some n, pending, intervals) \<Rightarrow>
          if is_failure_marker e then (dsetdefault n (ae_at e) pending, intervals)
          else if is_success_marker e
          then (case dget pending n of
                  None \<Rightarrow> (pending, intervals)
                | Some failed_at \<Rightarrow>
                    (dpop n pending,
                     intervals @ [\<lparr>ri_node_id = n, ri_failed_at = failed_at, ri_recovered_at = ae_at e\<rparr>]))
          else st)"

definition recovery_intervals :: "audit_event list \<Rightarrow> recovery_interval list" where
  "recovery_intervals events = snd (fold recover_step (ordered events) ([], []))"

definition fmean :: "real list \<Rightarrow> real" where
  "fmean xs = sum_list xs / real (length xs)"

definition mttr :: "audit_event list \<Rightarrow> real option" where
  "mttr events =
     (let is = recovery_intervals events in if is = [] then None else Some (fmean (map ri_seconds is)))"

section \<open>Latency\<close>

fun fold1 :: "('a \<Rightarrow> 'a \<Rightarrow> 'a) \<Rightarrow> 'a \<Rightarrow> 'a list \<Rightarrow> 'a" where
  "fold1 f x [] = x"
| "fold1 f x (y # ys) = fold1 f (f x y) ys"

definition e2e_latency :: "audit_event list \<Rightarrow> node_result list \<Rightarrow> real" where
  "e2e_latency events results =
     (let es = ordered events;
          started = List.find (\<lambda>e. ae_event_type e = RUN_STARTED) es;
          finished = List.find (\<lambda>e. ae_event_type e = RUN_FINISHED) (rev es);
          timed = filter (\<lambda>r. nr_ended_at r \<noteq> 0 \<or> nr_started_at r \<noteq> 0) results
      in case (started, finished) of
           (Some s, Some f) \<Rightarrow> max 0 (ae_at f - ae_at s)
         | _ \<Rightarrow>
             if es \<noteq> [] then max 0 (ae_at (last es) - ae_at (hd es))
             else (case timed of
                     [] \<Rightarrow> 0
                   | r # rs \<Rightarrow> max 0 (fold1 max (nr_ended_at r) (map nr_ended_at rs)
                       - fold1 min (nr_started_at r) (map nr_started_at rs))))"

section \<open>The metric set\<close>

definition from_results :: "string \<Rightarrow> node_result list \<Rightarrow> audit_event list \<Rightarrow> run_metrics" where
  "from_results run_id results events =
     (let own = filter (\<lambda>e. ae_run_id e = run_id) events;
          final = final_results results
      in \<lparr>rm_run_id = run_id, rm_total_nodes = length final,
          rm_succeeded = length (filter (\<lambda>r. nr_state r = COMPLETED) final),
          rm_failed = length (filter (\<lambda>r. nr_state r \<in> failed_states) final),
          rm_retries = max (sum_list (map (\<lambda>r. max 0 (nr_attempts r - 1)) final)) (int (count_type own RETRY)),
          rm_rollbacks = max (length (filter nr_rolled_back final)) (count_type own ROLLBACK),
          rm_fallbacks = max (length (filter nr_used_fallback final)) (count_type own FALLBACK),
          rm_approvals_requested = count_type own APPROVAL_REQUESTED,
          rm_plan_revisions = count_type own PLAN_REVISED,
          rm_e2e_latency_seconds = e2e_latency own final, rm_mttr_seconds = mttr own,
          rm_cost_usd = sum_list (map nr_cost_usd final),
          rm_input_tokens = sum_list (map nr_input_tokens final),
          rm_output_tokens = sum_list (map nr_output_tokens final)\<rparr>)"

section \<open>Per stage\<close>

definition separators :: re where
  "separators = Rep 1 None (Chr (\<lambda>c. \<not> (is_lower c \<or> is_digit c)))"

definition strip_underscores :: "string \<Rightarrow> string" where
  "strip_underscores s =
     rev (dropWhile (\<lambda>c. c = CHR ''_'') (rev (dropWhile (\<lambda>c. c = CHR ''_'') s)))"

definition names_stage :: "string \<Rightarrow> stage_kind \<Rightarrow> bool" where
  "names_stage snake stage =
     (let v = sk_value stage
      in snake = v \<or> str_startswith snake (v @ ''_'') \<or> str_endswith snake (''_'' @ v)
         \<or> str_contains snake (''_'' @ v @ ''_''))"

definition infer_stage :: "string \<Rightarrow> stage_kind option" where
  "infer_stage node_id =
     (let snake = strip_underscores (re_sub separators ''_'' (str_lower node_id))
      in List.find (names_stage snake) (sort_key (\<lambda>s. - int (length (sk_value s))) all_stages))"

record stage_bucket =
  bk_nodes :: nat
  bk_succeeded :: nat
  bk_failed :: nat
  bk_retries :: int
  bk_latency_seconds :: real
  bk_cost_usd :: real
  bk_input_tokens :: int
  bk_output_tokens :: int

definition empty_bucket :: stage_bucket where
  "empty_bucket = \<lparr>bk_nodes = 0, bk_succeeded = 0, bk_failed = 0, bk_retries = 0, bk_latency_seconds = 0,
     bk_cost_usd = 0, bk_input_tokens = 0, bk_output_tokens = 0\<rparr>"

definition stage_index :: "node_spec list \<Rightarrow> (string, stage_kind) dict" where
  "stage_index nodes = fold (\<lambda>n. dset (ns_id n) (ns_kind n)) nodes []"

definition unknown_stage :: string where
  "unknown_stage = ''unknown''"

definition bucket_key :: "(string, stage_kind) dict \<Rightarrow> node_result \<Rightarrow> string" where
  "bucket_key index r =
     (case (case dget index (nr_node_id r) of Some k \<Rightarrow> Some k | None \<Rightarrow> infer_stage (nr_node_id r)) of
        None \<Rightarrow> unknown_stage
      | Some k \<Rightarrow> sk_value k)"

definition fill_bucket :: "node_result \<Rightarrow> stage_bucket \<Rightarrow> stage_bucket" where
  "fill_bucket r b =
     \<lparr>bk_nodes = bk_nodes b + 1,
      bk_succeeded = bk_succeeded b + (if nr_state r = COMPLETED then 1 else 0),
      bk_failed = bk_failed b + (if nr_state r \<in> failed_states then 1 else 0),
      bk_retries = bk_retries b + max 0 (nr_attempts r - 1),
      bk_latency_seconds = bk_latency_seconds b + nr_duration r,
      bk_cost_usd = bk_cost_usd b + nr_cost_usd r,
      bk_input_tokens = bk_input_tokens b + nr_input_tokens r,
      bk_output_tokens = bk_output_tokens b + nr_output_tokens r\<rparr>"

definition add_to_bucket ::
  "(string, stage_kind) dict \<Rightarrow> node_result \<Rightarrow> (string, stage_bucket) dict \<Rightarrow> (string, stage_bucket) dict" where
  "add_to_bucket index r bs =
     (let k = bucket_key index r
      in dset k (fill_bucket r (case dget bs k of None \<Rightarrow> empty_bucket | Some b \<Rightarrow> b)) bs)"

text \<open>Stages in order of declaration, the unattributed bucket last.\<close>

definition stage_sort_key :: "string \<Rightarrow> nat" where
  "stage_sort_key stage =
     (case py_index (map sk_value all_stages) stage of None \<Rightarrow> length all_stages | Some i \<Rightarrow> i)"

definition per_stage :: "node_spec list \<Rightarrow> node_result list \<Rightarrow> (string, stage_bucket) dict" where
  "per_stage nodes results =
     sort_key (\<lambda>kb. stage_sort_key (fst kb)) (fold (add_to_bucket (stage_index nodes)) (final_results results) [])"

section \<open>Rendering\<close>

text \<open>Formats \<open>x:.df\<close> and \<open>n:,\<close>\<close>

definition zero_pad :: "nat \<Rightarrow> string \<Rightarrow> string" where
  "zero_pad w s = replicate (w - length s) (CHR ''0'') @ s"

definition fixed :: "nat \<Rightarrow> real \<Rightarrow> string" where
  "fixed d x =
     (let n = nat (round_half_even (\<bar>x\<bar> * 10 ^ d))
      in (if x < 0 then ''-'' else []) @ str_nat (n div 10 ^ d) @ ''.'' @ zero_pad d (str_nat (n mod 10 ^ d)))"

fun comma_groups :: "nat \<Rightarrow> string" where
  "comma_groups n = (if n < 1000 then str_nat n else comma_groups (n div 1000) @ '','' @ zero_pad 3 (str_nat (n mod 1000)))"

declare comma_groups.simps [simp del]

definition with_commas :: "int \<Rightarrow> string" where
  "with_commas i = (if i < 0 then ''-'' else []) @ comma_groups (nat \<bar>i\<bar>)"

text \<open>Rows are cut or padded to the width of the headers.\<close>

definition pad_row :: "nat \<Rightarrow> string list \<Rightarrow> string list" where
  "pad_row width r = (let cells = take width r in cells @ replicate (width - length cells) [])"

definition column_widths :: "nat \<Rightarrow> string list list \<Rightarrow> nat list" where
  "column_widths width grid = map (\<lambda>j. fold max (map (\<lambda>r. length (r ! j)) grid) 0) [0..<width]"

definition ljust :: "nat \<Rightarrow> string \<Rightarrow> string" where
  "ljust w s = s @ replicate (w - length s) (CHR '' '')"

definition table_line :: "nat list \<Rightarrow> string list \<Rightarrow> string" where
  "table_line widths cells =
     ''|'' @ str_join ''|'' (map (\<lambda>(c, w). '' '' @ ljust w c @ '' '') (zip (pad_row (length widths) cells) widths)) @ ''|''"

definition table_rule :: "nat list \<Rightarrow> string" where
  "table_rule widths = ''+'' @ str_join ''+'' (map (\<lambda>w. replicate (w + 2) (CHR ''-'')) widths) @ ''+''"

definition render_table :: "string \<Rightarrow> string list \<Rightarrow> string list list \<Rightarrow> string" where
  "render_table title headers rows =
     (let width = length headers;
          grid = headers # map (pad_row width) rows;
          widths = column_widths width grid;
          rule = table_rule widths
      in str_join newline ([title, rule, table_line widths headers, rule] @ map (table_line widths) rows @ [rule]))"

definition format_table :: "run_metrics \<Rightarrow> string" where
  "format_table m = render_table (''run metrics: '' @ rm_run_id m) [''metric'', ''value'']
     [[''nodes'', str_nat (rm_total_nodes m)], [''succeeded'', str_nat (rm_succeeded m)],
      [''failed'', str_nat (rm_failed m)], [''success rate'', fixed 1 (success_rate m * 100) @ ''%''],
      [''retries'', str_int (rm_retries m)], [''rollbacks'', str_nat (rm_rollbacks m)],
      [''fallbacks'', str_nat (rm_fallbacks m)], [''approvals requested'', str_nat (rm_approvals_requested m)],
      [''plan revisions'', str_nat (rm_plan_revisions m)],
      [''e2e latency'', fixed 3 (rm_e2e_latency_seconds m) @ ''s''],
      [''MTTR'', (case rm_mttr_seconds m of None \<Rightarrow> ''n/a (no recovered failures)'' | Some x \<Rightarrow> fixed 3 x @ ''s'')],
      [''cost'', ''$'' @ fixed 4 (rm_cost_usd m)], [''tokens in'', with_commas (rm_input_tokens m)],
      [''tokens out'', with_commas (rm_output_tokens m)]]"

definition format_stage_table :: "(string, stage_bucket) dict \<Rightarrow> string" where
  "format_stage_table stages =
     render_table ''per-stage breakdown'' [''stage'', ''nodes'', ''ok'', ''latency'', ''cost'', ''tok in'', ''tok out'']
       (map (\<lambda>(stage, b).
          [stage, str_nat (bk_nodes b), str_nat (bk_succeeded b) @ ''/'' @ str_nat (bk_nodes b),
           fixed 2 (bk_latency_seconds b) @ ''s'', ''$'' @ fixed 4 (bk_cost_usd b),
           with_commas (bk_input_tokens b), with_commas (bk_output_tokens b)]) stages)"

text \<open>The fields in order of declaration, with the success rate added back.\<close>

definition metrics_fields :: "run_metrics \<Rightarrow> (string, json) dict" where
  "metrics_fields m =
     [(''run_id'', JStr (rm_run_id m)), (''total_nodes'', JInt (int (rm_total_nodes m))),
      (''succeeded'', JInt (int (rm_succeeded m))), (''failed'', JInt (int (rm_failed m))),
      (''retries'', JInt (rm_retries m)), (''rollbacks'', JInt (int (rm_rollbacks m))),
      (''fallbacks'', JInt (int (rm_fallbacks m))),
      (''approvals_requested'', JInt (int (rm_approvals_requested m))),
      (''plan_revisions'', JInt (int (rm_plan_revisions m))),
      (''e2e_latency_seconds'', JFloat (Fin (rm_e2e_latency_seconds m))),
      (''mttr_seconds'', (case rm_mttr_seconds m of None \<Rightarrow> JNull | Some x \<Rightarrow> JFloat (Fin x))),
      (''cost_usd'', JFloat (Fin (rm_cost_usd m))), (''input_tokens'', JInt (rm_input_tokens m)),
      (''output_tokens'', JInt (rm_output_tokens m)), (''success_rate'', JFloat (Fin (success_rate m)))]"

definition metrics_to_json :: "(real \<Rightarrow> string) \<Rightarrow> run_metrics \<Rightarrow> string" where
  "metrics_to_json fr m =
     [CHR 0x7B] @ indent_to 2
     @ str_join ('','' @ indent_to 2) (map (\<lambda>(k, v). json_string k @ '': '' @ dumps fr v) (metrics_fields m))
     @ indent_to 0 @ [CHR 0x7D]"

end
