(* ===== verification/MetricsProps.thy ===== *)
theory MetricsProps
  imports Metrics
begin

text \<open>
  What the metrics mean: an interval of recovery runs from the first failure of a node since it last
  recovered to its next success, and the counts of a run are those of one result per node.
\<close>

section \<open>Recovery intervals, declaratively\<close>

definition fails :: "string \<Rightarrow> audit_event \<Rightarrow> bool" where
  "fails n e \<longleftrightarrow> ae_node_id e = Some n \<and> is_failure_marker e"

definition recovers :: "string \<Rightarrow> audit_event \<Rightarrow> bool" where
  "recovers n e \<longleftrightarrow> ae_node_id e = Some n \<and> is_success_marker e"

text \<open>The first failure of a node after its last success, by its position.\<close>

definition open_failure :: "string \<Rightarrow> audit_event list \<Rightarrow> nat option" where
  "open_failure n es =
     List.find (\<lambda>i. fails n (es ! i) \<and> (\<forall>k \<in> set [Suc i..<length es]. \<not> recovers n (es ! k))) [0..<length es]"

text \<open>The interval an event closes, if it closes one.\<close>

definition closes :: "audit_event list \<Rightarrow> nat \<Rightarrow> recovery_interval option" where
  "closes es j =
     (case ae_node_id (es ! j) of
        None \<Rightarrow> None
      | Some n \<Rightarrow>
          if recovers n (es ! j)
          then map_option (\<lambda>i. \<lparr>ri_node_id = n, ri_failed_at = ae_at (es ! i), ri_recovered_at = ae_at (es ! j)\<rparr>)
                 (open_failure n (take j es))
          else None)"

lemma markers_exclusive: "is_failure_marker e \<Longrightarrow> \<not> is_success_marker e"
  by (auto simp: is_failure_marker_def is_success_marker_def failed_states_def)

lemma find_cong_set: "(\<And>x. x \<in> set xs \<Longrightarrow> P x = Q x) \<Longrightarrow> List.find P xs = List.find Q xs"
  by (induction xs) auto

lemma find_none: "(\<And>x. x \<in> set xs \<Longrightarrow> \<not> P x) \<Longrightarrow> List.find P xs = None"
  by (induction xs) auto

lemma find_snoc: "List.find P (xs @ [x]) = (case List.find P xs of Some y \<Rightarrow> Some y | None \<Rightarrow> if P x then Some x else None)"
  by (induction xs) auto

lemma open_failure_snoc:
  "open_failure n (es @ [e]) =
     (if recovers n e then None
      else case open_failure n es of Some i \<Rightarrow> Some i | None \<Rightarrow> if fails n e then Some (length es) else None)"
proof -
  let ?P = "\<lambda>es i. fails n (es ! i) \<and> (\<forall>k \<in> set [Suc i..<length es]. \<not> recovers n (es ! k))"
  have last: "?P (es @ [e]) (length es) \<longleftrightarrow> fails n e" by simp
  have early: "?P (es @ [e]) i \<longleftrightarrow> ?P es i \<and> \<not> recovers n e" if "i < length es" for i
    using that by (auto simp: nth_append less_Suc_eq)
  have "List.find (?P (es @ [e])) [0..<length es] = List.find (\<lambda>i. ?P es i \<and> \<not> recovers n e) [0..<length es]"
    by (rule find_cong_set) (use early in auto)
  moreover have "List.find (\<lambda>i. ?P es i \<and> \<not> recovers n e) [0..<length es]
      = (if recovers n e then None else open_failure n es)"
    by (simp add: open_failure_def find_none)
  moreover have "recovers n e \<Longrightarrow> \<not> fails n e"
    using markers_exclusive by (auto simp: fails_def recovers_def)
  ultimately show ?thesis
    unfolding open_failure_def [of n "es @ [e]"] length_append_singleton upt_Suc_append [OF le0] find_snoc last by simp
qed

lemma open_failure_less: "open_failure n es = Some i \<Longrightarrow> i < length es"
  by (auto simp: open_failure_def find_Some_iff)

lemma map_option_same: "(\<And>i. x = Some i \<Longrightarrow> f i = g i) \<Longrightarrow> map_option f x = map_option g x"
  by (cases x) simp_all

lemma map_filter_same: "(\<And>x. x \<in> set xs \<Longrightarrow> f x = g x) \<Longrightarrow> List.map_filter f xs = List.map_filter g xs"
  by (induction xs) (simp_all split: option.splits)

lemma map_filter_snoc:
  "List.map_filter f (xs @ [x]) = List.map_filter f xs @ (case f x of None \<Rightarrow> [] | Some y \<Rightarrow> [y])"
  by (induction xs) (simp_all split: option.splits)

lemma closes_prefix:
  assumes "j < length es" shows "closes (es @ [e]) j = closes es j"
proof (cases "ae_node_id (es ! j)")
  case (Some n)
  have "map_option (\<lambda>i. \<lparr>ri_node_id = n, ri_failed_at = ae_at ((es @ [e]) ! i), ri_recovered_at = ae_at (es ! j)\<rparr>)
        (open_failure n (take j es))
      = map_option (\<lambda>i. \<lparr>ri_node_id = n, ri_failed_at = ae_at (es ! i), ri_recovered_at = ae_at (es ! j)\<rparr>)
        (open_failure n (take j es))"
    by (rule map_option_same) (use open_failure_less [of n "take j es"] assms in \<open>auto simp: nth_append\<close>)
  with Some assms show ?thesis by (simp add: closes_def nth_append_left)
qed (use assms in \<open>simp add: closes_def nth_append\<close>)

lemma closes_last:
  "closes (es @ [e]) (length es) =
     (case ae_node_id e of
        None \<Rightarrow> None
      | Some n \<Rightarrow>
          if is_success_marker e
          then map_option (\<lambda>x. \<lparr>ri_node_id = n, ri_failed_at = x, ri_recovered_at = ae_at e\<rparr>)
                 (map_option (\<lambda>i. ae_at (es ! i)) (open_failure n es))
          else None)"
proof (cases "ae_node_id e")
  case (Some n)
  have "map_option (\<lambda>i. \<lparr>ri_node_id = n, ri_failed_at = ae_at ((es @ [e]) ! i), ri_recovered_at = ae_at e\<rparr>) (open_failure n es)
      = map_option (\<lambda>i. \<lparr>ri_node_id = n, ri_failed_at = ae_at (es ! i), ri_recovered_at = ae_at e\<rparr>) (open_failure n es)"
    by (rule map_option_same) (use open_failure_less [of n es] in \<open>auto simp: nth_append\<close>)
  with Some show ?thesis by (simp add: closes_def recovers_def option.map_comp comp_def)
qed (simp add: closes_def)

lemma recover_fold:
  "(\<forall>n. dget (fst (fold recover_step es ([], []))) n = map_option (\<lambda>i. ae_at (es ! i)) (open_failure n es))
   \<and> snd (fold recover_step es ([], [])) = List.map_filter (closes es) [0..<length es]"
proof (induction es rule: rev_induct)
  case Nil
  then show ?case by (simp add: open_failure_def)
next
  case (snoc e es)
  obtain pending intervals where st: "fold recover_step es ([], []) = (pending, intervals)" by fastforce
  have pend: "dget pending n = map_option (\<lambda>i. ae_at (es ! i)) (open_failure n es)" for n using snoc st by simp
  have "List.map_filter (closes (es @ [e])) [0..<length es] = List.map_filter (closes es) [0..<length es]"
    by (rule map_filter_same) (simp add: closes_prefix)
  also have "\<dots> = intervals" using snoc st by simp
  finally have ints: "List.map_filter (closes (es @ [e])) [0..<length (es @ [e])]
      = intervals @ (case closes (es @ [e]) (length es) of None \<Rightarrow> [] | Some i \<Rightarrow> [i])"
    by (simp add: map_filter_snoc)
  have next_at: "map_option (\<lambda>i. ae_at ((es @ [e]) ! i)) (open_failure n (es @ [e])) =
      (if recovers n e then None
       else case dget pending n of Some x \<Rightarrow> Some x | None \<Rightarrow> if fails n e then Some (ae_at e) else None)" for n
    using open_failure_less [of n es] by (cases "open_failure n es") (auto simp: open_failure_snoc pend nth_append)
  have step: "fold recover_step (es @ [e]) ([], []) = recover_step e (pending, intervals)" by (simp add: st)
  show ?case
  proof (cases "ae_node_id e")
    case None
    then show ?thesis unfolding ints next_at step
      by (simp add: recover_step_def closes_last recovers_def fails_def split: option.splits)
  next
    case (Some n)
    consider (fail) "is_failure_marker e" "\<not> is_success_marker e" | (succeed) "is_success_marker e" "\<not> is_failure_marker e"
      | (neither) "\<not> is_failure_marker e" "\<not> is_success_marker e"
      using markers_exclusive by blast
    then show ?thesis
    proof cases
      case fail
      then show ?thesis unfolding ints next_at step
        by (auto simp: recover_step_def closes_last recovers_def fails_def Some split: option.splits)
    next
      case succeed
      then show ?thesis unfolding ints next_at closes_last step
        by (auto simp: recover_step_def recovers_def fails_def Some simp flip: pend split: option.splits)
    next
      case neither
      then show ?thesis unfolding ints next_at step
        by (auto simp: recover_step_def closes_last recovers_def fails_def Some split: option.splits)
    qed
  qed
qed

section \<open>The log of a run\<close>

lemma ordered_log:
  assumes "log_run fr run_id l" shows "ordered (al_events l) = al_events l"
proof -
  let ?es = "al_events l"
  have "sorted_wrt (<) (map ae_seq ?es)"
    using log_run_inv [OF assms] by (simp add: log_inv_def sorted_wrt_map del: upt_Suc)
  then have "sorted_wrt (\<lambda>a b. ae_seq a < ae_seq b) ?es" by (simp add: sorted_wrt_map)
  then have "sorted (map (\<lambda>e. (ae_seq e, ae_at e)) ?es)"
    unfolding sorted_wrt_map by (rule sorted_wrt_mono_rel [rotated]) (simp add: less_eq_prod_def)
  then show ?thesis by (simp add: ordered_def sort_key_id_if_sorted)
qed

lemma set_map_filter: "y \<in> set (List.map_filter f xs) \<longleftrightarrow> (\<exists>x \<in> set xs. f x = Some y)"
  by (induction xs) (auto split: option.splits)

lemma closes_span:
  assumes "closes es j = Some i" and "j < length es" and "sorted (map ae_at es)"
  shows "ri_failed_at i \<le> ri_recovered_at i"
proof -
  from assms(1,2) obtain k where k: "ri_failed_at i = ae_at (es ! k)" "ri_recovered_at i = ae_at (es ! j)" "k < j"
    by (auto simp: closes_def dest: open_failure_less split: option.splits if_splits)
  with assms(2,3) show ?thesis by (simp add: sorted_iff_nth_mono)
qed

text \<open>
  C31: Mean time to recovery measures what it says. In the log of a run, the recovery intervals are, in
  order, those of the events that complete a node after a failure: each runs from the first failure of the
  node since it last completed, retries included, to that completion, with no clamping. The mean is over
  exactly these, and is undefined when there are none.
\<close>

theorem recovery_runs_from_first_failure:
  assumes "log_run fr run_id l"
  shows "recovery_intervals (al_events l) = List.map_filter (closes (al_events l)) [0..<length (al_events l)]
    \<and> map ri_seconds (recovery_intervals (al_events l))
        = map (\<lambda>i. ri_recovered_at i - ri_failed_at i) (recovery_intervals (al_events l))
    \<and> (mttr (al_events l) = None) = (List.map_filter (closes (al_events l)) [0..<length (al_events l)] = [])"
proof -
  let ?es = "al_events l"
  have ints: "recovery_intervals ?es = List.map_filter (closes ?es) [0..<length ?es]"
    using recover_fold [of ?es] by (simp add: recovery_intervals_def ordered_log [OF assms])
  have "sorted (map ae_at ?es)" using log_run_inv [OF assms] by (simp add: log_inv_def)
  then have "\<forall>i \<in> set (recovery_intervals ?es). ri_failed_at i \<le> ri_recovered_at i"
    using closes_span by (auto simp: ints set_map_filter)
  then have "map ri_seconds (recovery_intervals ?es) = map (\<lambda>i. ri_recovered_at i - ri_failed_at i) (recovery_intervals ?es)"
    by (simp add: ri_seconds_def)
  with ints show ?thesis by (simp add: mttr_def Let_def)
qed

definition mended_log :: audit_log where
  "mended_log =
     emit (\<lambda>_. []) 9 NODE_FINISHED [(''state'', JStr ''completed'')] (Some ''n'')
       (emit (\<lambda>_. []) 5 RETRY [] (Some ''n'')
         (emit (\<lambda>_. []) 3 NODE_FINISHED [(''state'', JStr ''failed'')] (Some ''n'') (new_log ''r'')))"

theorem recovery_runs_from_first_failure_witness:
  "recovery_intervals (al_events mended_log) = [\<lparr>ri_node_id = ''n'', ri_failed_at = 3, ri_recovered_at = 9\<rparr>]
   \<and> mttr (al_events mended_log) \<noteq> None"
proof -
  have run: "log_run (\<lambda>_. []) ''r'' mended_log" unfolding mended_log_def by (intro log_run.intros)
  have "List.map_filter (closes (al_events mended_log)) [0..<length (al_events mended_log)]
      = [\<lparr>ri_node_id = ''n'', ri_failed_at = 3, ri_recovered_at = 9\<rparr>]"
    by code_simp
  with recovery_runs_from_first_failure [OF run] show ?thesis by simp
qed

section \<open>Each node counts once\<close>

lemma final_fold:
  "distinct (dkeys d) \<Longrightarrow> distinct (dkeys (fold (\<lambda>r. dset (nr_node_id r) r) results d))
     \<and> set (dkeys (fold (\<lambda>r. dset (nr_node_id r) r) results d)) = set (dkeys d) \<union> nr_node_id ` set results"
  by (induction results arbitrary: d) (auto simp: distinct_dset)

lemma final_results_length: "length (final_results results) = card (nr_node_id ` set results)"
  using final_fold [of "[]" results] distinct_card [of "dkeys (fold (\<lambda>r. dset (nr_node_id r) r) results [])"]
  by (simp add: final_results_def)

lemma filters_disjoint:
  "(\<And>x. P x \<Longrightarrow> \<not> Q x) \<Longrightarrow> length (filter P xs) + length (filter Q xs) \<le> length xs"
  by (induction xs) auto

text \<open>The nodes of a run count once each; the buckets for success and failure do not overlap.\<close>

theorem metrics_count_each_node_once:
  "rm_total_nodes (from_results run_id results events) = card (nr_node_id ` set results)
   \<and> rm_succeeded (from_results run_id results events) + rm_failed (from_results run_id results events)
       \<le> rm_total_nodes (from_results run_id results events)
   \<and> 0 \<le> success_rate (from_results run_id results events) \<and> success_rate (from_results run_id results events) \<le> 1"
proof -
  let ?m = "from_results run_id results events"
  have "rm_succeeded ?m + rm_failed ?m \<le> rm_total_nodes ?m"
    using filters_disjoint [of "\<lambda>r. nr_state r = COMPLETED" "\<lambda>r. nr_state r \<in> failed_states" "final_results results"]
    by (auto simp: from_results_def failed_states_def Let_def)
  moreover have "rm_total_nodes ?m = card (nr_node_id ` set results)"
    by (simp add: from_results_def final_results_length Let_def)
  moreover have "success_rate ?m \<le> 1" if "rm_succeeded ?m \<le> rm_total_nodes ?m"
    using that by (auto simp: success_rate_def divide_le_eq_1)
  ultimately show ?thesis by (simp add: success_rate_def)
qed

end
