(* ===== verification/AdapterBase.thy ===== *)
theory AdapterBase
  imports Regex AuditFile
begin

text \<open>
  The shared helpers of \<^verbatim>\<open>keel/adapters/base.py\<close>: reading a \<^verbatim>\<open>.env\<close> file into the environment, and finding
  the JSON object in a model answer. The contents of the file are an argument, \<open>None\<close> when it cannot be
  read; the environment is a dictionary of strings.
\<close>

section \<open>The environment file\<close>

text \<open>\<open>key, _, value = entry.partition("=")\<close>\<close>

definition partition_on :: "char \<Rightarrow> string \<Rightarrow> string \<times> string" where
  "partition_on c s = (takeWhile (\<lambda>x. x \<noteq> c) s, drop 1 (dropWhile (\<lambda>x. x \<noteq> c) s))"

text \<open>\<open>value.split(sep, 1)[0]\<close>\<close>

fun before_str :: "string \<Rightarrow> string \<Rightarrow> string" where
  "before_str sep [] = []"
| "before_str sep (c # cs) = (if str_startswith (c # cs) sep then [] else c # before_str sep cs)"

definition env_value :: "string \<Rightarrow> string" where
  "env_value value =
     (if 2 \<le> length value \<and> hd value = last value \<and> hd value \<in> {CHR 0x27, CHR 0x22}
      then butlast (tl value)
      else str_rstrip (before_str '' #'' value))"

text \<open>What one line binds.\<close>

definition env_entry :: "string \<Rightarrow> (string \<times> string) option" where
  "env_entry line =
     (let entry = str_strip line
      in if entry = [] \<or> str_startswith entry ''#'' \<or> CHR ''='' \<notin> set entry then None
         else let entry = (if str_startswith entry ''export '' then str_lstrip (drop (length ''export '') entry) else entry);
                  kv = partition_on (CHR ''='') entry;
                  key = str_strip (fst kv)
              in if key = [] then None else Some (key, env_value (str_strip (snd kv))))"

text \<open>The loop keeps what was parsed and the environment.\<close>

definition env_line ::
  "string \<Rightarrow> (string, string) dict \<times> (string, string) dict \<Rightarrow> (string, string) dict \<times> (string, string) dict" where
  "env_line line st =
     (case env_entry line of
        None \<Rightarrow> st
      | Some (key, value) \<Rightarrow>
          (dset key value (fst st), if dget (snd st) key = None then dset key value (snd st) else snd st))"

definition load_env ::
  "string option \<Rightarrow> (string, string) dict \<Rightarrow> (string, string) dict \<times> (string, string) dict" where
  "load_env contents env =
     (case contents of
        None \<Rightarrow> ([], env)
      | Some raw \<Rightarrow> fold env_line (splitlines (universal_newlines raw)) ([], env))"

section \<open>Finding the JSON object of an answer\<close>

text \<open>The fenced blocks; the alternatives of the language tag are tried in this order.\<close>

definition fence_re :: re where
  "fence_re = seqs [lit ''```'', opt_re (alts [lit_ci ''json'', lit_ci ''jsonc'', lit_ci ''json5'']), spaces,
     Grp 1 (Lazy (Chr (\<lambda>_. True))), lit ''```'']"

definition fence_bodies :: "string \<Rightarrow> string list" where
  "fence_bodies s = map (\<lambda>m. str_strip (m_group s m 1)) (finditer fence_re s)"

text \<open>
  The number of characters up to the brace that closes the first one, from nesting depth \<open>d\<close>, inside a
  string or not, after a backslash or not.
\<close>

fun span_len :: "int \<Rightarrow> bool \<Rightarrow> bool \<Rightarrow> string \<Rightarrow> nat option" where
  "span_len d in_string escaped [] = None"
| "span_len d in_string escaped (c # cs) = map_option Suc
     (if in_string
      then (if escaped then span_len d True False cs
            else if c = CHR 0x5C then span_len d True True cs
            else if c = CHR 0x22 then span_len d False False cs
            else span_len d True False cs)
      else if c = CHR 0x22 then span_len d True escaped cs
      else if c = CHR 0x7B then span_len (d + 1) False escaped cs
      else if c = CHR 0x7D then (if d - 1 = 0 then Some 0 else span_len (d - 1) False escaped cs)
      else span_len d False escaped cs)"

definition first_object_span :: "string \<Rightarrow> string option" where
  "first_object_span s =
     (let rest = dropWhile (\<lambda>c. c \<noteq> CHR 0x7B) s
      in if rest = [] then None else map_option (\<lambda>n. take n rest) (span_len 0 False False rest))"

fun first_dict :: "string list \<Rightarrow> (string, json) dict option" where
  "first_dict [] = None"
| "first_dict (c # cs) =
     (if c = [] then first_dict cs
      else case loads c of Inr (JObj kvs) \<Rightarrow> Some kvs | _ \<Rightarrow> first_dict cs)"

definition extract_json :: "string option \<Rightarrow> (string, json) dict option" where
  "extract_json answer =
     (case answer of
        None \<Rightarrow> None
      | Some s \<Rightarrow>
          if s = [] then None
          else first_dict ([str_strip s] @ fence_bodies s
                 @ (case first_object_span s of None \<Rightarrow> [] | Some x \<Rightarrow> [x])))"

section \<open>What loading does to the environment\<close>

lemma env_line_env: "dget (snd (env_line l st)) k = (case dget (snd st) k of
    Some v \<Rightarrow> Some v
  | None \<Rightarrow> (case env_entry l of Some (k', v) \<Rightarrow> if k' = k then Some v else None | None \<Rightarrow> None))"
  by (auto simp: env_line_def split: option.splits)

lemma env_lines_env: "dget (snd (fold env_line ls st)) k = (case dget (snd st) k of
    Some v \<Rightarrow> Some v
  | None \<Rightarrow> map_of (List.map_filter env_entry ls) k)"
proof (induction ls arbitrary: st)
  case (Cons l ls)
  then show ?case
    by (cases "env_entry l") (auto simp: env_line_env map_filter_simps split: option.splits)
qed (auto simp: map_filter_simps split: option.splits)

lemma env_lines_parsed: "dget (fst (fold env_line ls st)) k = (case map_of (rev (List.map_filter env_entry ls)) k of
    Some v \<Rightarrow> Some v
  | None \<Rightarrow> dget (fst st) k)"
proof (induction ls arbitrary: st)
  case (Cons l ls)
  then show ?case
    by (cases "env_entry l") (auto simp: env_line_def map_filter_simps map_add_def split: option.splits)
qed (simp add: map_filter_simps)

text \<open>
  A variable that is set keeps its value; the file binds the others, by the first line that names them,
  while the result of the call reports the last one.
\<close>

theorem load_env_never_overrides:
  "dget (snd (load_env (Some raw) env)) k = (case dget env k of
     Some v \<Rightarrow> Some v
   | None \<Rightarrow> map_of (List.map_filter env_entry (splitlines (universal_newlines raw))) k)"
  "dget (fst (load_env (Some raw) env)) k =
     map_of (rev (List.map_filter env_entry (splitlines (universal_newlines raw)))) k"
  by (simp_all add: load_env_def env_lines_env env_lines_parsed split: option.splits)

lemma env_entry_example:
  "env_entry ''  export KEY = v # note '' = Some (''KEY'', ''v'')"
  "env_entry (''KEY='' @ [CHR 0x22] @ '' a # b'' @ [CHR 0x22]) = Some (''KEY'', '' a # b'')"
  "env_entry ''=v'' = None" "env_entry ''# KEY=v'' = None"
  by code_simp+

end
