(* ===== verification/Claude.thy ===== *)
theory Claude
  imports AdapterBase Dispatch
begin

text \<open>
  The live adapter of \<^verbatim>\<open>keel/adapters/claude.py\<close>: the request body, strict schemas, the bounded retry around
  the SDK call, and normalizing the message that comes back. The SDK client is an argument: a function
  from the number of earlier attempts and the parameters to an exception or a message.
\<close>

section \<open>The adapter\<close>

record claude_adapter =
  ca_deep_max_tokens :: int
  ca_fast_max_tokens :: int
  ca_max_retries :: nat
  ca_retry_base_delay :: real

definition stream_above_max_tokens :: int where
  "stream_above_max_tokens = 16000"

definition forbidden_params :: "string list" where
  "forbidden_params = [''temperature'', ''top_p'', ''top_k'']"

text \<open>\<open>value or default\<close> on an optional number\<close>

definition int_or :: "int option \<Rightarrow> int \<Rightarrow> int" where
  "int_or v dflt = (case v of None \<Rightarrow> dflt | Some i \<Rightarrow> if i = 0 then dflt else i)"

definition missing_api_key :: exn where
  "missing_api_key = (''MissingAPIKey'',
     ''Live mode needs an Anthropic API key. Either set ANTHROPIC_API_KEY in the environment, add it to the .env '' @
     ''file at the project root (see .env.example), or run in replay mode with KEEL_AGENT_MODE=replay, which '' @
     ''needs no key and costs nothing.'')"

definition claude_settings :: "int option \<Rightarrow> int option \<Rightarrow> int \<Rightarrow> real \<Rightarrow> claude_adapter" where
  "claude_settings deep fast retries delay =
     \<lparr>ca_deep_max_tokens = int_or deep 64000, ca_fast_max_tokens = int_or fast 8192,
      ca_max_retries = nat (max 0 retries), ca_retry_base_delay = max 0 delay\<rparr>"

text \<open>
  Without a client of its own the adapter loads the environment file and needs a key; the second
  component is the environment afterwards.
\<close>

definition new_claude ::
  "string option \<Rightarrow> bool \<Rightarrow> claude_adapter \<Rightarrow> string option \<Rightarrow> (string, string) dict
    \<Rightarrow> (exn + claude_adapter) \<times> (string, string) dict" where
  "new_claude api_key has_client settings env_file env =
     (if has_client then (Inr settings, env)
      else let env' = snd (load_env env_file env);
               key = (case api_key of Some k \<Rightarrow> k | None \<Rightarrow> []);
               resolved = (if key \<noteq> [] then key else case dget env' ''ANTHROPIC_API_KEY'' of Some k \<Rightarrow> k | None \<Rightarrow> [])
           in (if str_strip resolved = [] then Inl missing_api_key else Inr settings, env'))"

section \<open>The request body\<close>

definition unsupported_schema_keywords :: "string list" where
  "unsupported_schema_keywords =
     [''minimum'', ''maximum'', ''exclusiveMinimum'', ''exclusiveMaximum'', ''multipleOf'', ''minLength'', ''maxLength'',
      ''minItems'', ''maxItems'', ''uniqueItems'', ''minProperties'', ''maxProperties'']"

text \<open>\<open>_strict_schema\<close>; its first steps by name.\<close>

definition supported_part :: "(string, json) dict \<Rightarrow> (string, json) dict" where
  "supported_part schema = filter (\<lambda>kv. fst kv \<notin> set unsupported_schema_keywords) schema"

definition schema_type :: "(string, json) dict \<Rightarrow> json" where
  "schema_type s = (case dget s ''type'' of None \<Rightarrow> JStr ''object'' | Some t \<Rightarrow> t)"

definition close_object :: "(string, json) dict \<Rightarrow> (string, json) dict" where
  "close_object s = dset ''additionalProperties'' (JBool False) (dsetdefault ''type'' (JStr ''object'') s)"

lemma dget_close_object:
  "k \<noteq> ''additionalProperties'' \<Longrightarrow> k \<noteq> ''type'' \<Longrightarrow> dget (close_object s) k = dget s k"
  by (simp add: close_object_def)

lemma dget_supported: "dget (supported_part s) k = (if k \<in> set unsupported_schema_keywords then None else dget s k)"
  by (induction s) (auto simp: supported_part_def)

abbreviation fields_size :: "(string, json) dict \<Rightarrow> nat" where
  "fields_size \<equiv> size_list (size_prod (\<lambda>_. 0) size)"

lemma size_field: "(k, v) \<in> set s \<Longrightarrow> size v < fields_size s"
  by (induction s) auto

function strict_schema :: "(string, json) dict \<Rightarrow> (string, json) dict" where
  "strict_schema schema =
     (let s = supported_part schema
      in if schema_type s = JStr ''object''
         then let s' = close_object s
              in (case dget s' ''properties'' of
                    Some (JObj ps) \<Rightarrow>
                      dsetdefault ''required'' (JArr (map JStr (dkeys ps)))
                        (dset ''properties''
                          (JObj (map (\<lambda>(name, sub). (name, case sub of JObj t \<Rightarrow> JObj (strict_schema t) | v \<Rightarrow> v)) ps)) s')
                  | _ \<Rightarrow> s')
         else if schema_type s = JStr ''array''
         then (case dget s ''items'' of
                 Some (JObj t) \<Rightarrow> dset ''items'' (JObj (strict_schema t)) s
               | _ \<Rightarrow> s)
         else s)"
  by pat_completeness auto
termination
proof (relation "measure fields_size", goal_cases)
  case 1
  show ?case by simp
next
  case (2 schema x s' v ps z name sub t)
  then have "(''properties'', JObj ps) \<in> set schema"
    by (auto simp: dget_close_object dget_supported split: if_splits dest: map_of_SomeD)
  from size_field [OF this] 2 show ?case using size_field [of name "JObj t" ps] by auto
next
  case (3 schema x v t)
  then have "(''items'', JObj t) \<in> set schema"
    by (auto simp: dget_supported split: if_splits dest: map_of_SomeD)
  from size_field [OF this] show ?case by simp
qed

declare strict_schema.simps [simp del]

definition max_tokens_for :: "claude_adapter \<Rightarrow> model_tier \<Rightarrow> int" where
  "max_tokens_for a tier = (if tier = DEEP then ca_deep_max_tokens a else ca_fast_max_tokens a)"

definition output_config :: "adapter_request \<Rightarrow> (string, json) dict" where
  "output_config q =
     (if rq_tier q = DEEP then [(''effort'', JStr ''high'')] else [])
     @ (case rq_json_schema q of
          None \<Rightarrow> []
        | Some schema \<Rightarrow>
            [(''format'', JObj [(''type'', JStr ''json_schema''), (''schema'', JObj (strict_schema schema))])])"

definition build_params :: "(string \<Rightarrow> string option) \<Rightarrow> claude_adapter \<Rightarrow> adapter_request \<Rightarrow> (string, json) dict" where
  "build_params getenv a q =
     [(''model'', JStr (model_for_tier getenv (rq_tier q))),
      (''max_tokens'', JInt (max_tokens_for a (rq_tier q))),
      (''messages'', JArr [JObj [(''role'', JStr ''user''), (''content'', JStr (rq_prompt q))]])]
     @ (if rq_system q = [] then [] else [(''system'', JStr (rq_system q))])
     @ (if rq_tier q = DEEP then [(''thinking'', JObj [(''type'', JStr ''adaptive'')])] else [])
     @ (if output_config q = [] then [] else [(''output_config'', JObj (output_config q))])"

section \<open>The call\<close>

text \<open>The exceptions of the SDK: a rate limit, a status error with its code, and every other one.\<close>

datatype sdk_error = RateLimitError exn | APIStatusError "int option" exn | OtherError exn

fun sdk_exn :: "sdk_error \<Rightarrow> exn" where
  "sdk_exn (RateLimitError e) = e"
| "sdk_exn (APIStatusError code e) = e"
| "sdk_exn (OtherError e) = e"

fun is_retryable :: "sdk_error \<Rightarrow> bool" where
  "is_retryable (RateLimitError e) = True"
| "is_retryable (APIStatusError code e) = (500 \<le> int_or code 0)"
| "is_retryable (OtherError e) = False"

datatype block = TextBlock string | OtherBlock string

record usage =
  us_input_tokens :: "int option"
  us_output_tokens :: "int option"

record sdk_message =
  sm_stop_reason :: "string option"
  sm_content :: "block list"
  sm_usage :: "usage option"
  sm_model :: "string option"
  sm_category :: "string option"

text \<open>The client: the number of the attempt, whether the call streams, and the parameters.\<close>

type_synonym sdk_client = "nat \<Rightarrow> bool \<Rightarrow> (string, json) dict \<Rightarrow> sdk_error + sdk_message"

definition streams :: "(string, json) dict \<Rightarrow> bool" where
  "streams params = (case dget params ''max_tokens'' of Some (JInt n) \<Rightarrow> stream_above_max_tokens < n | _ \<Rightarrow> False)"

definition api_call :: "sdk_client \<Rightarrow> (string, json) dict \<Rightarrow> nat \<Rightarrow> sdk_error + sdk_message" where
  "api_call client params attempt = client attempt (streams params) params"

datatype retry_event = ApiCall | Sleep real

function retry_from ::
  "claude_adapter \<Rightarrow> (nat \<Rightarrow> sdk_error + sdk_message) \<Rightarrow> nat \<Rightarrow> (sdk_error + sdk_message) \<times> retry_event list" where
  "retry_from a call attempt =
     (case call attempt of
        Inr msg \<Rightarrow> (Inr msg, [ApiCall])
      | Inl e \<Rightarrow>
          if \<not> is_retryable e \<or> ca_max_retries a \<le> attempt then (Inl e, [ApiCall])
          else let delay = ca_retry_base_delay a * 2 ^ attempt
               in apsnd (\<lambda>es. ApiCall # (if 0 < delay then [Sleep delay] else []) @ es)
                    (retry_from a call (Suc attempt)))"
  by pat_completeness auto
termination by (relation "measure (\<lambda>(a, call, attempt). ca_max_retries a - attempt)") auto

declare retry_from.simps [simp del]

definition call_with_retry ::
  "claude_adapter \<Rightarrow> sdk_client \<Rightarrow> (string, json) dict \<Rightarrow> (sdk_error + sdk_message) \<times> retry_event list" where
  "call_with_retry a client params = retry_from a (api_call client params) 0"

section \<open>The response\<close>

fun block_text :: "block \<Rightarrow> string option" where
  "block_text (TextBlock s) = (if s = [] then None else Some s)"
| "block_text (OtherBlock t) = None"

definition collect_text :: "sdk_message \<Rightarrow> string" where
  "collect_text m = str_strip (str_join newline (List.map_filter block_text (sm_content m)))"

definition refusal_detail :: "sdk_message \<Rightarrow> string" where
  "refusal_detail m = (case sm_category m of None \<Rightarrow> [] | Some c \<Rightarrow> if c = [] then [] else '': category='' @ c)"

definition int_attr :: "usage option \<Rightarrow> (usage \<Rightarrow> int option) \<Rightarrow> int" where
  "int_attr u get = (case u of None \<Rightarrow> 0 | Some x \<Rightarrow> int_or (get x) 0)"

definition param_text :: "(string, json) dict \<Rightarrow> string \<Rightarrow> string" where
  "param_text params k =
     (case dget params k of Some (JStr s) \<Rightarrow> s | Some (JInt i) \<Rightarrow> str_int i | _ \<Rightarrow> [])"

definition to_response ::
  "adapter_request \<Rightarrow> (string, json) dict \<Rightarrow> sdk_message \<Rightarrow> real \<Rightarrow> exn + adapter_response" where
  "to_response q params m latency =
     (if sm_stop_reason m = Some ''refusal''
      then Inl (''ModelRefusal'', param_text params ''model'' @ '' refused node '' @ str_repr (rq_node_id q)
             @ '' (skill '' @ str_repr (rq_skill_id q) @ '')'' @ refusal_detail m)
      else let s = collect_text m
           in if sm_stop_reason m = Some ''max_tokens''
              then Inl (''ResponseTruncated'', param_text params ''model'' @ '' hit max_tokens (''
                     @ param_text params ''max_tokens'' @ '') on node '' @ str_repr (rq_node_id q) @ ''; produced ''
                     @ str_nat (length s) @ '' characters of text. Raise the tier budget or split the node.'')
              else Inr \<lparr>rs_text = s,
                     rs_parsed = (if rq_json_schema q = None then None else extract_json (Some s)),
                     rs_model = (case sm_model m of
                         None \<Rightarrow> param_text params ''model''
                       | Some n \<Rightarrow> if n = [] then param_text params ''model'' else n),
                     rs_input_tokens = int_attr (sm_usage m) us_input_tokens,
                     rs_output_tokens = int_attr (sm_usage m) us_output_tokens,
                     rs_latency_seconds = latency, rs_from_replay = False\<rparr>)"

text \<open>One model call; a callback that raises takes the response with it.\<close>

definition claude_invoke ::
  "(string \<Rightarrow> string option) \<Rightarrow> claude_adapter \<Rightarrow> sdk_client \<Rightarrow> (adapter_request \<Rightarrow> adapter_response \<Rightarrow> exn option) option
    \<Rightarrow> real \<Rightarrow> adapter_request \<Rightarrow> exn + adapter_response" where
  "claude_invoke getenv a client on_call latency q =
     (let params = build_params getenv a q
      in case fst (call_with_retry a client params) of
           Inl e \<Rightarrow> Inl (sdk_exn e)
         | Inr m \<Rightarrow>
             (case to_response q params m latency of
                Inl e \<Rightarrow> Inl e
              | Inr r \<Rightarrow>
                  (case on_call of
                     None \<Rightarrow> Inr r
                   | Some f \<Rightarrow> (case f q r of None \<Rightarrow> Inr r | Some e \<Rightarrow> Inl e))))"

end
