(* ===== verification/Schemas.thy ===== *)
theory Schemas
  imports Claude Agents Intake
begin

text \<open>
  The JSON schemas of \<^verbatim>\<open>keel/agents/definitions.py\<close>, one per stage, in the shape the requests carry them,
  and what it means for a value to conform to one. Descriptions are kept: they are part of what is sent
  and of the cassette key.
\<close>

section \<open>Fragments\<close>

definition file_item :: "string \<Rightarrow> json" where
  "file_item content_hint = JObj
     [(''type'', JStr ''object''),
      (''additionalProperties'', JBool False),
      (''required'', JArr [JStr ''path'', JStr ''content'']),
      (''properties'', JObj
       [(''path'', JObj
         [(''type'', JStr ''string''),
          (''description'', JStr (''Path relative to the workspace root, POSIX separators, no leading slash and no '' @
                 [CHR 0x27] @
                 ''..'' @
                 [CHR 0x27] @
                 '' segments.''))]),
        (''content'', JObj
         [(''type'', JStr ''string''),
          (''description'', JStr content_hint)])])]"

definition ambiguity_item :: json where
  "ambiguity_item = JObj
     [(''type'', JStr ''object''),
      (''additionalProperties'', JBool False),
      (''required'', JArr [JStr ''question'', JStr ''why_it_matters'', JStr ''blocking'', JStr ''options'']),
      (''properties'', JObj
       [(''question'', JObj
         [(''type'', JStr ''string''),
          (''description'', JStr (''One decision the requirement left open, phrased so a product owner could answer it '' @
                 ''in a sentence.''))]),
        (''why_it_matters'', JObj
         [(''type'', JStr ''string''),
          (''description'', JStr (''What is built differently depending on the answer. Name the concrete divergence, '' @
                 ''not the abstract risk.''))]),
        (''blocking'', JObj
         [(''type'', JStr ''boolean''),
          (''description'', JStr (''True when the two answers produce different code or a different contract. False '' @
                 ''only when the branches converge.''))]),
        (''options'', JObj
         [(''type'', JStr ''array''),
          (''items'', JObj
           [(''type'', JStr ''string'')]),
          (''description'', JStr ''The plausible answers, most likely first.'')])])]"

section \<open>The schemas of the stages\<close>

definition analyze_schema :: "(string, json) dict" where
  "analyze_schema =
    [(''type'', JStr ''object''),
     (''additionalProperties'', JBool False),
     (''required'', JArr [JStr ''intent'', JStr ''acceptance_criteria'', JStr ''constraints'', JStr ''ambiguities'',
          JStr ''scenario'', JStr ''confidence'', JStr ''notes'']),
     (''properties'', JObj
      [(''raw_requirement'', JObj
        [(''type'', JStr ''string''),
         (''description'', JStr (''Verbatim echo of the requirement as received. Optional; the orchestrator fills it '' @
                ''in when omitted. Present so a response deserializes straight into '' @
                ''EngineeringProblem.''))]),
       (''intent'', JObj
        [(''type'', JStr ''string''),
         (''description'', JStr (''One or two sentences: what the system must do and for whom. Behaviour only, no '' @
                ''technology choices.''))]),
       (''acceptance_criteria'', JObj
        [(''type'', JStr ''array''),
         (''items'', JObj
          [(''type'', JStr ''string'')]),
         (''description'', JStr (''Observable outcomes, each checkable by a single test. State the input, the '' @
                ''condition and the expected response or state.''))]),
       (''constraints'', JObj
        [(''type'', JStr ''array''),
         (''items'', JObj
          [(''type'', JStr ''string'')]),
         (''description'', JStr (''Limits imposed on any acceptable solution: runtime, framework, storage, latency, '' @
                ''compatibility, security.''))]),
       (''ambiguities'', JObj
        [(''type'', JStr ''array''),
         (''items'', ambiguity_item)]),
       (''scenario'', JObj
        [(''type'', JStr ''string''),
         (''enum'', JArr [JStr ''greenfield'', JStr ''brownfield'', JStr ''ambiguous''])]),
       (''confidence'', JObj
        [(''type'', JStr ''number''),
         (''minimum'', JFloat (Fin 0)),
         (''maximum'', JFloat (Fin 1)),
         (''description'', JStr (''Probability that an engineer could implement from this normalization without coming '' @
                ''back with a question.''))]),
       (''notes'', JObj
        [(''type'', JStr ''string''),
         (''description'', JStr (''Anything downstream stages need that the fields above do not carry. For brownfield '' @
                ''this carries the impact surface.''))])])]"

definition design_schema :: "(string, json) dict" where
  "design_schema =
    [(''type'', JStr ''object''),
     (''additionalProperties'', JBool False),
     (''required'', JArr [JStr ''overview'', JStr ''endpoints'', JStr ''data_model'', JStr ''configuration'',
          JStr ''decisions'', JStr ''redirect_status_code'', JStr ''short_code_strategy'',
          JStr ''open_questions'']),
     (''properties'', JObj
      [(''overview'', JObj
        [(''type'', JStr ''string''),
         (''description'', JStr ''Two or three sentences on the shape of the service.'')]),
       (''configuration'', JObj
        [(''type'', JStr ''array''),
         (''description'', JStr (''Every environment variable the service reads, with its exact name and default. '' @
                ''Implementation and test authoring run concurrently and both bind to this list, so a '' @
                ''name invented downstream instead of taken from here will not match.'')),
         (''items'', JObj
          [(''type'', JStr ''object''),
           (''additionalProperties'', JBool False),
           (''required'', JArr [JStr ''name'', JStr ''default'', JStr ''purpose'']),
           (''properties'', JObj
            [(''name'', JObj
              [(''type'', JStr ''string''),
               (''description'', JStr ''Exact variable name, for example DATABASE_PATH.'')]),
             (''default'', JObj
              [(''type'', JStr ''string''),
               (''description'', JStr ''Value used when the variable is unset.'')]),
             (''purpose'', JObj
              [(''type'', JStr ''string''),
               (''description'', JStr ''What it controls.'')])])])]),
       (''endpoints'', JObj
        [(''type'', JStr ''array''),
         (''items'', JObj
          [(''type'', JStr ''object''),
           (''additionalProperties'', JBool False),
           (''required'', JArr [JStr ''method'', JStr ''path'', JStr ''summary'', JStr ''request'', JStr ''response'',
                JStr ''status_codes'']),
           (''properties'', JObj
            [(''method'', JObj
              [(''type'', JStr ''string''),
               (''enum'', JArr [JStr ''GET'', JStr ''POST'', JStr ''PUT'', JStr ''PATCH'', JStr ''DELETE'', JStr ''HEAD''])]),
             (''path'', JObj
              [(''type'', JStr ''string''),
               (''description'', JStr ''Route with path parameters in braces.'')]),
             (''summary'', JObj
              [(''type'', JStr ''string'')]),
             (''request'', JObj
              [(''type'', JStr ''string''),
               (''description'', JStr (''Request body fields with types and validation rules, plus query and header '' @
                      ''parameters. Write '' @
                      [CHR 0x27] @
                      ''none'' @
                      [CHR 0x27] @
                      '' when the endpoint takes no input.''))]),
             (''response'', JObj
              [(''type'', JStr ''string''),
               (''description'', JStr ''Success response body with field names and types, and the error body shape.'')]),
             (''status_codes'', JObj
              [(''type'', JStr ''array''),
               (''items'', JObj
                [(''type'', JStr ''object''),
                 (''additionalProperties'', JBool False),
                 (''required'', JArr [JStr ''code'', JStr ''when'']),
                 (''properties'', JObj
                  [(''code'', JObj
                    [(''type'', JStr ''integer'')]),
                   (''when'', JObj
                    [(''type'', JStr ''string''),
                     (''description'', JStr ''The exact condition that produces it.'')])])]),
               (''description'', JStr ''Every code, including the failure ones.'')])])])]),
       (''data_model'', JObj
        [(''type'', JStr ''array''),
         (''items'', JObj
          [(''type'', JStr ''object''),
           (''additionalProperties'', JBool False),
           (''required'', JArr [JStr ''name'', JStr ''purpose'', JStr ''fields'', JStr ''indexes'']),
           (''properties'', JObj
            [(''name'', JObj
              [(''type'', JStr ''string'')]),
             (''purpose'', JObj
              [(''type'', JStr ''string'')]),
             (''fields'', JObj
              [(''type'', JStr ''array''),
               (''items'', JObj
                [(''type'', JStr ''object''),
                 (''additionalProperties'', JBool False),
                 (''required'', JArr [JStr ''name'', JStr ''type'', JStr ''constraints'']),
                 (''properties'', JObj
                  [(''name'', JObj
                    [(''type'', JStr ''string'')]),
                   (''type'', JObj
                    [(''type'', JStr ''string'')]),
                   (''constraints'', JObj
                    [(''type'', JStr ''string''),
                     (''description'', JStr ''Nullability, uniqueness, defaults, foreign keys, value ranges.'')])])])]),
             (''indexes'', JObj
              [(''type'', JStr ''array''),
               (''items'', JObj
                [(''type'', JStr ''string'')]),
               (''description'', JStr ''Each index and the query that needs it.'')])])])]),
       (''decisions'', JObj
        [(''type'', JStr ''array''),
         (''items'', JObj
          [(''type'', JStr ''object''),
           (''additionalProperties'', JBool False),
           (''required'', JArr [JStr ''decision'', JStr ''choice'', JStr ''rationale'', JStr ''rejected'']),
           (''properties'', JObj
            [(''decision'', JObj
              [(''type'', JStr ''string''),
               (''description'', JStr ''The question decided.'')]),
             (''choice'', JObj
              [(''type'', JStr ''string'')]),
             (''rationale'', JObj
              [(''type'', JStr ''string''),
               (''description'', JStr ''Why, in terms of a consequence a user would notice.'')]),
             (''rejected'', JObj
              [(''type'', JStr ''array''),
               (''items'', JObj
                [(''type'', JStr ''string'')]),
               (''description'', JStr ''Alternatives considered and what each costs.'')])])])]),
       (''redirect_status_code'', JObj
        [(''type'', JStr ''object''),
         (''additionalProperties'', JBool False),
         (''required'', JArr [JStr ''code'', JStr ''rationale'']),
         (''properties'', JObj
          [(''code'', JObj
            [(''type'', JStr ''integer'')]),
           (''rationale'', JObj
            [(''type'', JStr ''string''),
             (''description'', JStr (''Must address revocability and click counting, and say what a permanent redirect '' @
                    ''would cost.''))])])]),
       (''short_code_strategy'', JObj
        [(''type'', JStr ''object''),
         (''additionalProperties'', JBool False),
         (''required'', JArr [JStr ''alphabet'', JStr ''length'', JStr ''generation'', JStr ''uniqueness'',
              JStr ''collision_handling'']),
         (''properties'', JObj
          [(''alphabet'', JObj
            [(''type'', JStr ''string'')]),
           (''length'', JObj
            [(''type'', JStr ''integer'')]),
           (''generation'', JObj
            [(''type'', JStr ''string''),
             (''description'', JStr ''Source of randomness and why it is unguessable.'')]),
           (''uniqueness'', JObj
            [(''type'', JStr ''string''),
             (''description'', JStr ''Where uniqueness is actually enforced.'')]),
           (''collision_handling'', JObj
            [(''type'', JStr ''string''),
             (''description'', JStr ''Retry bound and what happens when it is exhausted.'')])])]),
       (''open_questions'', JObj
        [(''type'', JStr ''array''),
         (''items'', JObj
          [(''type'', JStr ''string'')]),
         (''description'', JStr ''Decisions deferred to implementation, with the safe default.'')])])]"

definition implement_schema :: "(string, json) dict" where
  "implement_schema =
    [(''type'', JStr ''object''),
     (''additionalProperties'', JBool False),
     (''required'', JArr [JStr ''files'', JStr ''notes'']),
     (''properties'', JObj
      [(''files'', JObj
        [(''type'', JStr ''array''),
         (''items'', file_item ''Complete file contents. Runnable as written, no placeholders.''),
         (''description'', JStr ''Every file the service needs, including requirements.txt.'')]),
       (''notes'', JObj
        [(''type'', JStr ''string''),
         (''description'', JStr ''Deviations from the design and why, plus anything the reviewer should look at first.'')])])]"

definition test_schema :: "(string, json) dict" where
  "test_schema =
    [(''type'', JStr ''object''),
     (''additionalProperties'', JBool False),
     (''required'', JArr [JStr ''files'', JStr ''coverage_notes'']),
     (''properties'', JObj
      [(''files'', JObj
        [(''type'', JStr ''array''),
         (''items'', file_item ''Complete pytest module. Imports resolve against the implementation files as written.'')]),
       (''coverage_notes'', JObj
        [(''type'', JStr ''string''),
         (''description'', JStr (''Which acceptance criterion each test file covers, and what is deliberately not '' @
                ''covered.''))])])]"

definition document_schema :: "(string, json) dict" where
  "document_schema =
    [(''type'', JStr ''object''),
     (''additionalProperties'', JBool False),
     (''required'', JArr [JStr ''files'']),
     (''properties'', JObj
      [(''files'', JObj
        [(''type'', JStr ''array''),
         (''items'', file_item ''Complete markdown document.''),
         (''description'', JStr ''Normally a single README.md.'')])])]"

definition review_schema :: "(string, json) dict" where
  "review_schema =
    [(''type'', JStr ''object''),
     (''additionalProperties'', JBool False),
     (''required'', JArr [JStr ''findings'', JStr ''verdict'', JStr ''summary'']),
     (''properties'', JObj
      [(''findings'', JObj
        [(''type'', JStr ''array''),
         (''items'', JObj
          [(''type'', JStr ''object''),
           (''additionalProperties'', JBool False),
           (''required'', JArr [JStr ''severity'', JStr ''confidence'', JStr ''category'', JStr ''file'', JStr ''line'',
                JStr ''summary'', JStr ''recommendation'']),
           (''properties'', JObj
            [(''severity'', JObj
              [(''type'', JStr ''string''),
               (''enum'', JArr [JStr ''info'', JStr ''low'', JStr ''medium'', JStr ''high'', JStr ''critical'']),
               (''description'', JStr ''Consequence if exploited or hit, not effort to fix.'')]),
             (''confidence'', JObj
              [(''type'', JStr ''number''),
               (''minimum'', JFloat (Fin 0)),
               (''maximum'', JFloat (Fin 1)),
               (''description'', JStr (''How sure you are the finding is real. Low confidence findings belong in the '' @
                      ''list.''))]),
             (''category'', JObj
              [(''type'', JStr ''string''),
               (''enum'', JArr [JStr ''security'', JStr ''correctness'', JStr ''reliability'', JStr ''performance'',
                    JStr ''maintainability'', JStr ''testing'', JStr ''documentation''])]),
             (''file'', JObj
              [(''type'', JStr ''string''),
               (''description'', JStr (''Path as given in the artifacts. Use the file the fix belongs in when '' @
                      ''something is missing.''))]),
             (''line'', JObj
              [(''type'', JStr ''integer''),
               (''description'', JStr (''1 based line number. 0 when the finding is about the file as a whole or about '' @
                      ''absent code.''))]),
             (''summary'', JObj
              [(''type'', JStr ''string''),
               (''description'', JStr ''The concrete failure and the path that reaches it.'')]),
             (''recommendation'', JObj
              [(''type'', JStr ''string''),
               (''description'', JStr ''The specific change, not a principle.'')])])])]),
       (''verdict'', JObj
        [(''type'', JStr ''string''),
         (''enum'', JArr [JStr ''approve'', JStr ''approve_with_findings'', JStr ''reject''])]),
       (''summary'', JObj
        [(''type'', JStr ''string''),
         (''description'', JStr ''Two or three sentences on the overall state of the code.'')])])]"

definition release_check_schema :: "(string, json) dict" where
  "release_check_schema =
    [(''type'', JStr ''object''),
     (''additionalProperties'', JBool False),
     (''required'', JArr [JStr ''ready'', JStr ''blockers'', JStr ''warnings'', JStr ''checklist'']),
     (''properties'', JObj
      [(''ready'', JObj
        [(''type'', JStr ''boolean''),
         (''description'', JStr ''True only when blockers is empty.'')]),
       (''blockers'', JObj
        [(''type'', JStr ''array''),
         (''items'', JObj
          [(''type'', JStr ''string'')]),
         (''description'', JStr ''Each names what is missing or broken and where.'')]),
       (''warnings'', JObj
        [(''type'', JStr ''array''),
         (''items'', JObj
          [(''type'', JStr ''string'')]),
         (''description'', JStr ''Should be fixed, does not stop the release.'')]),
       (''checklist'', JObj
        [(''type'', JStr ''array''),
         (''items'', JObj
          [(''type'', JStr ''object''),
           (''additionalProperties'', JBool False),
           (''required'', JArr [JStr ''item'', JStr ''passed'']),
           (''properties'', JObj
            [(''item'', JObj
              [(''type'', JStr ''string''),
               (''description'', JStr ''The thing checked, stated as a claim.'')]),
             (''passed'', JObj
              [(''type'', JStr ''boolean''),
               (''description'', JStr ''Your verdict on the evidence supplied, not on likelihood.'')])])])])])]"

fun stage_schema :: "stage_kind \<Rightarrow> (string, json) dict" where
  "stage_schema ANALYZE = analyze_schema"
| "stage_schema DESIGN_STAGE = design_schema"
| "stage_schema IMPLEMENT_STAGE = implement_schema"
| "stage_schema TEST_STAGE = test_schema"
| "stage_schema DOCUMENT_STAGE = document_schema"
| "stage_schema REVIEW_STAGE = review_schema"
| "stage_schema RELEASE_CHECK = release_check_schema"

section \<open>Conformance\<close>

text \<open>What JSON Schema says of the keywords the schemas use.\<close>

fun has_type :: "string \<Rightarrow> json \<Rightarrow> bool" where
  "has_type t (JObj kvs) = (t = ''object'')"
| "has_type t (JArr xs) = (t = ''array'')"
| "has_type t (JStr s) = (t = ''string'')"
| "has_type t (JBool b) = (t = ''boolean'')"
| "has_type t (JInt i) = (t = ''integer'' \<or> t = ''number'')"
| "has_type t (JFloat f) = (case f of
     Fin x \<Rightarrow> t = ''number'' \<or> (t = ''integer'' \<and> x = of_int \<lfloor>x\<rfloor>)
   | _ \<Rightarrow> False)"
| "has_type t JNull = (t = ''null'')"

definition typed :: "(string, json) dict \<Rightarrow> json \<Rightarrow> bool" where
  "typed s v = (case dget s ''type'' of Some (JStr t) \<Rightarrow> has_type t v | _ \<Rightarrow> True)"

definition listed :: "(string, json) dict \<Rightarrow> json \<Rightarrow> bool" where
  "listed s v = (case dget s ''enum'' of Some (JArr vs) \<Rightarrow> v \<in> set vs | _ \<Rightarrow> True)"

definition has_required :: "(string, json) dict \<Rightarrow> (string, json) dict \<Rightarrow> bool" where
  "has_required s kvs =
     (case dget s ''required'' of
        Some (JArr rs) \<Rightarrow> list_all (\<lambda>r. case r of JStr k \<Rightarrow> dget kvs k \<noteq> None | _ \<Rightarrow> True) rs
      | _ \<Rightarrow> True)"

definition closed_keys :: "(string, json) dict \<Rightarrow> (string, json) dict \<Rightarrow> (string, json) dict \<Rightarrow> bool" where
  "closed_keys s ps kvs =
     (if dget s ''additionalProperties'' = Some (JBool False)
      then list_all (\<lambda>k. k \<in> set (dkeys ps)) (dkeys kvs) else True)"

definition in_bounds :: "(string, json) dict \<Rightarrow> json \<Rightarrow> bool" where
  "in_bounds s v =
     (case (case v of JInt i \<Rightarrow> Some (real_of_int i) | JFloat (Fin x) \<Rightarrow> Some x | _ \<Rightarrow> None) of
        None \<Rightarrow> True
      | Some x \<Rightarrow> (case dget s ''minimum'' of Some (JFloat (Fin m)) \<Rightarrow> m \<le> x | _ \<Rightarrow> True)
          \<and> (case dget s ''maximum'' of Some (JFloat (Fin m)) \<Rightarrow> x \<le> m | _ \<Rightarrow> True))"

function conforms :: "(string, json) dict \<Rightarrow> json \<Rightarrow> bool" where
  "conforms s v \<longleftrightarrow> typed s v \<and> listed s v \<and> in_bounds s v
     \<and> (case v of
          JObj kvs \<Rightarrow> has_required s kvs
            \<and> (case dget s ''properties'' of
                 Some (JObj ps) \<Rightarrow> closed_keys s ps kvs
                   \<and> list_all (\<lambda>(k, sub). case sub of
                        JObj t \<Rightarrow> (case dget kvs k of None \<Rightarrow> True | Some x \<Rightarrow> conforms t x)
                      | _ \<Rightarrow> True) ps
               | _ \<Rightarrow> True)
        | JArr xs \<Rightarrow> (case dget s ''items'' of Some (JObj t) \<Rightarrow> list_all (conforms t) xs | _ \<Rightarrow> True)
        | _ \<Rightarrow> True)"
  by pat_completeness auto
termination
proof (relation "measure (\<lambda>(s, v). fields_size s)", goal_cases)
  case 1
  show ?case by simp
next
  case (2 s v xs x t y)
  from size_field [of "''items''" "JObj t" s] 2 show ?case by (auto dest: map_of_SomeD)
next
  case (3 s v kvs x ps z name sub t y)
  from size_field [of "''properties''" "JObj ps" s] size_field [of name "JObj t" ps] 3
  show ?case by (auto dest: map_of_SomeD)
qed

declare conforms.simps [simp del]

end
