(* ===== verification/ExtractProps.thy ===== *)
theory ExtractProps
  imports AdapterBase
begin

text \<open>
  The brace scan of \<^verbatim>\<open>_first_object_span\<close> passes over printed JSON, so \<open>extract_json\<close> finds the object a
  model wrapped in prose.
\<close>

section \<open>The characters of a number\<close>

definition num_char :: "char \<Rightarrow> bool" where
  "num_char c \<longleftrightarrow> is_digit c \<or> c \<in> set ''.eE+-''"

lemma digits_num: "list_all num_char (takeWhile is_digit s)"
  by (auto simp: list_all_iff num_char_def dest: set_takeWhileD)

lemma split_digits: "s = takeWhile is_digit s @ dropWhile is_digit s"
  by simp

lemma p_int_digits_chars:
  "p_int_digits s = Some (ds, r) \<Longrightarrow> \<exists>p. s = p @ r \<and> list_all num_char p"
proof (cases s)
  case (Cons c cs)
  assume a: "p_int_digits s = Some (ds, r)"
  show ?thesis
  proof (cases "c = CHR ''0''")
    case True
    with a Cons have "s = [c] @ r" by (simp add: p_int_digits_def)
    moreover have "list_all num_char [c]" using True by (simp add: num_char_def is_digit_def)
    ultimately show ?thesis by blast
  next
    case False
    with a Cons have "is_digit c" "r = dropWhile is_digit cs" by (auto simp: p_int_digits_def split: if_splits)
    with Cons digits_num [of cs] show ?thesis
      by (intro exI [of _ "c # takeWhile is_digit cs"]) (simp add: num_char_def)
  qed
qed (simp add: p_int_digits_def)

lemma p_fraction_chars: "p_fraction s = (fs, r) \<Longrightarrow> \<exists>p. s = p @ r \<and> list_all num_char p"
proof (cases "\<exists>cs. s = CHR ''.'' # cs \<and> takeWhile is_digit cs \<noteq> []")
  case True
  then obtain cs where cs: "s = CHR ''.'' # cs" "takeWhile is_digit cs \<noteq> []" by blast
  assume "p_fraction s = (fs, r)"
  with cs have "r = dropWhile is_digit cs" by (simp add: p_fraction_def Let_def)
  with cs(1) digits_num [of cs] show ?thesis
    by (intro exI [of _ "CHR ''.'' # takeWhile is_digit cs"]) (simp add: num_char_def)
next
  case False
  assume "p_fraction s = (fs, r)"
  with False have "r = s" by (auto simp: p_fraction_def Let_def split: list.splits char.splits bool.splits if_splits)
  then show ?thesis by (intro exI [of _ "[]"]) simp
qed

lemma p_exponent_chars: "p_exponent s = (e, r) \<Longrightarrow> \<exists>p. s = p @ r \<and> list_all num_char p"
proof (cases "e = None")
  case True
  assume "p_exponent s = (e, r)"
  with True have "r = s" by (auto simp: p_exponent_def Let_def split: list.splits if_splits)
  then show ?thesis by (intro exI [of _ "[]"]) simp
next
  case False
  assume a: "p_exponent s = (e, r)"
  from a False obtain c cs where s: "s = c # cs" and c: "c = CHR ''e'' \<or> c = CHR ''E''"
    by (cases s) (auto simp: p_exponent_def split: if_splits)
  let ?sg = "str_startswith cs ''-'' \<or> str_startswith cs ''+''"
  let ?ds = "if ?sg then tl cs else cs"
  have r: "r = dropWhile is_digit ?ds" using a False s c by (auto simp: p_exponent_def Let_def split: if_splits)
  have "\<exists>g. cs = g @ ?ds \<and> list_all num_char g"
  proof (cases ?sg)
    case True
    then show ?thesis by (cases cs) (auto simp: num_char_def intro!: exI [of _ "[hd cs]"])
  qed (simp add: exI [of _ "[]"])
  then obtain g where g: "cs = g @ ?ds" "list_all num_char g" by blast
  have "s = (c # g @ takeWhile is_digit ?ds) @ r" using s g(1) r by (metis Cons_eq_appendI append_assoc split_digits)
  moreover have "list_all num_char (c # g @ takeWhile is_digit ?ds)"
    using c g(2) digits_num [of ?ds] by (auto simp: num_char_def)
  ultimately show ?thesis by blast
qed

lemma p_number_chars:
  assumes "p_number s = Some (v, [])" shows "list_all num_char s"
proof -
  let ?t = "if str_startswith s ''-'' then tl s else s"
  from assms obtain ds r fs r1 e where
    p: "p_int_digits ?t = Some (ds, r)" "p_fraction r = (fs, r1)" "p_exponent r1 = (e, [])"
    by (auto simp: p_number_def Let_def split: option.splits prod.splits if_splits)
  from p_int_digits_chars [OF p(1)] p_fraction_chars [OF p(2)] p_exponent_chars [OF p(3)]
  have t: "list_all num_char ?t" by auto
  show ?thesis
  proof (cases "str_startswith s ''-''")
    case True
    then obtain cs where "s = CHR ''-'' # cs" by (cases s) auto
    with t show ?thesis by (simp add: num_char_def)
  next
    case False
    with t show ?thesis by simp
  qed
qed

section \<open>The scan over printed text\<close>

definition shift :: "nat \<Rightarrow> nat option \<Rightarrow> nat option" where
  "shift n x = map_option (\<lambda>m. n + m) x"

lemma shift_simps [simp]:
  "shift 0 x = x" "shift a (shift b x) = shift (a + b) x" "shift n (Some m) = Some (n + m)"
  by (cases x; simp add: shift_def)+

lemma map_Suc [simp]: "map_option Suc x = shift 1 x"
  by (simp add: shift_def)

definition passes :: "int \<Rightarrow> string \<Rightarrow> bool" where
  "passes d t \<longleftrightarrow>
     (\<forall>r. span_len d False False (t @ r) = shift (length t) (span_len d False False r))"

lemma passesD: "passes d t \<Longrightarrow> span_len d False False (t @ r) = shift (length t) (span_len d False False r)"
  by (simp add: passes_def)

lemma passes_Nil [simp]: "passes d []"
  by (simp add: passes_def)

lemma passes_append: "passes d a \<Longrightarrow> passes d b \<Longrightarrow> passes d (a @ b)"
  unfolding passes_def by simp

lemma passes_char: "c \<notin> {CHR 0x22, CHR 0x7B, CHR 0x7D} \<Longrightarrow> passes d [c]"
  by (simp add: passes_def)

lemma passes_plain: "list_all (\<lambda>c. c \<notin> {CHR 0x22, CHR 0x7B, CHR 0x7D}) t \<Longrightarrow> passes d t"
proof (induction t)
  case (Cons c t)
  then show ?case using passes_append [OF passes_char [of c d], of t] by simp
qed simp

lemma passes_join:
  assumes "passes d sep" and "\<And>x. x \<in> set xs \<Longrightarrow> passes d x"
  shows "passes d (str_join sep xs)"
  using assms(2)
proof (induction xs)
  case (Cons x xs)
  then show ?case using assms(1) by (cases xs) (auto intro!: passes_append)
qed simp

definition escape_ok :: "string \<Rightarrow> bool" where
  "escape_ok e = (case e of
      [] \<Rightarrow> False
    | b # u \<Rightarrow> if b = CHR 0x5C then u \<noteq> [] \<and> list_all (\<lambda>x. x \<noteq> CHR 0x22 \<and> x \<noteq> CHR 0x5C) (tl u)
              else b \<noteq> CHR 0x22 \<and> u = [])"

lemma hex2_plain: "list_all (\<lambda>x. x \<noteq> CHR 0x22 \<and> x \<noteq> CHR 0x5C) (hex2 c)"
proof -
  have "hex_digit n \<noteq> CHR 0x22 \<and> hex_digit n \<noteq> CHR 0x5C" if "n < 16" for n
  proof -
    have "list_all (\<lambda>n. hex_digit n \<noteq> CHR 0x22 \<and> hex_digit n \<noteq> CHR 0x5C) [0..<16]" by code_simp
    with that show ?thesis by (simp add: list_all_iff del: upt_Suc)
  qed
  moreover have "(of_char c :: nat) div 16 < 16" "(of_char c :: nat) mod 16 < 16"
    using nat_of_char_less_256 [of c] by (simp_all add: less_mult_imp_div_less)
  ultimately show ?thesis by (simp add: hex2_def Let_def)
qed

lemma escape_shapes: "escape_ok (raw_escape_char c)"
proof (cases "CHR '' '' \<le> c \<and> c \<noteq> CHR 0x22 \<and> c \<noteq> CHR 0x5C")
  case True
  then have "raw_escape_char c = [c]" by (simp add: raw_escape_char_def)
  with True show ?thesis by (simp add: escape_ok_def)
next
  case False
  then have r: "raw_escape_char c = json_escape_char c" by (simp only: raw_escape_char_def if_False)
  show ?thesis
  proof (cases "c \<in> {CHR 0x22, CHR 0x5C, CHR 0x0A, CHR 0x0D, CHR 0x09, CHR 0x0C, CHR 0x08}")
    case True
    then have "c \<in> set [CHR 0x22, CHR 0x5C, CHR 0x0A, CHR 0x0D, CHR 0x09, CHR 0x0C, CHR 0x08]" by (simp only: list.set)
    moreover have "list_all (\<lambda>c. escape_ok (json_escape_char c))
        [CHR 0x22, CHR 0x5C, CHR 0x0A, CHR 0x0D, CHR 0x09, CHR 0x0C, CHR 0x08]" by code_simp
    ultimately show ?thesis unfolding r list_all_iff by (rule bspec [rotated])
  next
    case special: False
    with False have "\<not> CHR '' '' \<le> c" by blast
    from json_escape_char_hex [OF special this] show ?thesis
      using hex2_plain [of c] by (simp add: r escape_ok_def)
  qed
qed

lemma in_string_plain:
  "list_all (\<lambda>x. x \<noteq> CHR 0x22 \<and> x \<noteq> CHR 0x5C) u \<Longrightarrow>
   span_len d True False (u @ r) = shift (length u) (span_len d True False r)"
  by (induction u) auto

lemma in_string_char:
  "span_len d True False (raw_escape_char c @ r) = shift (length (raw_escape_char c)) (span_len d True False r)"
proof -
  obtain b u where e: "raw_escape_char c = b # u" using escape_shapes [of c] by (cases "raw_escape_char c") (simp_all add: escape_ok_def)
  show ?thesis
  proof (cases "b = CHR 0x5C")
    case True
    with escape_shapes [of c] e obtain x v where u: "u = x # v" "list_all (\<lambda>x. x \<noteq> CHR 0x22 \<and> x \<noteq> CHR 0x5C) v"
      by (cases u) (simp_all add: escape_ok_def)
    from in_string_plain [OF u(2), of d r] True u(1) show ?thesis by (simp add: e)
  next
    case False
    with escape_shapes [of c] e show ?thesis by (simp add: escape_ok_def)
  qed
qed

lemma in_string:
  "span_len d True False (concat (map raw_escape_char s) @ r)
   = shift (length (concat (map raw_escape_char s))) (span_len d True False r)"
proof (induction s)
  case (Cons c s)
  then show ?case
    using in_string_char [of d c "concat (map raw_escape_char s) @ r"] by simp
qed simp

lemma passes_string: "passes d (raw_string s)"
  by (simp add: passes_def raw_string_def in_string)

lemma num_plain: "num_char c \<Longrightarrow> c \<notin> {CHR 0x22, CHR 0x7B, CHR 0x7D}"
  by (auto simp: num_char_def is_digit_def)

lemma passes_number: "p_number s = Some (v, []) \<Longrightarrow> passes d s"
  using p_number_chars [of s v] num_plain by (intro passes_plain) (auto simp: list_all_iff)

lemma passes_brackets: "0 < d \<Longrightarrow> passes (d + 1) t \<Longrightarrow> passes d (CHR 0x7B # t @ [CHR 0x7D])"
  by (simp add: passes_def)

lemma passes_member: "passes d t \<Longrightarrow> passes d (raw_string k @ '': '' @ t)"
proof -
  assume "passes d t"
  then have "passes d (raw_string k @ ([CHR '':''] @ [CHR '' ''] @ t))"
    by (intro passes_append passes_string passes_char) simp_all
  then show ?thesis by simp
qed

lemma passes_members:
  assumes "\<And>k v. (k, v) \<in> set kvs \<Longrightarrow> passes d (dump_line fr v)"
  shows "passes d (str_join '', '' (map (\<lambda>(k, v). raw_string k @ '': '' @ dump_line fr v) kvs))"
proof (rule passes_join)
  show "passes d '', ''" by (rule passes_plain) simp
  show "passes d x" if "x \<in> set (map (\<lambda>(k, v). raw_string k @ '': '' @ dump_line fr v) kvs)" for x
    using that assms by (auto simp del: append.simps intro: passes_member)
qed

lemma passes_value: "json_ok fr j \<Longrightarrow> 0 < d \<Longrightarrow> passes d (dump_line fr j)"
proof (induction j arbitrary: d)
  case (JFloat f)
  then show ?case by (cases f) (simp_all add: passes_number passes_plain)
next
  case (JArr xs)
  have "passes d (str_join '', '' (map (dump_line fr) xs))"
  proof (rule passes_join)
    show "passes d '', ''" by (rule passes_plain) simp
    show "passes d x" if "x \<in> set (map (dump_line fr) xs)" for x using that JArr by (auto simp: list_all_iff)
  qed
  then have "passes d ([CHR 0x5B] @ str_join '', '' (map (dump_line fr) xs) @ [CHR 0x5D])"
    by (intro passes_append passes_char) simp_all
  then show ?case by simp
next
  case (JObj kvs)
  have "passes (d + 1) (dump_line fr v)" if "(k, v) \<in> set kvs" for k v
    using JObj that by (fastforce simp: list_all_iff)
  from passes_brackets [OF JObj.prems(2) passes_members [of kvs "d + 1", OF this]] show ?case by simp
qed (simp_all add: passes_plain passes_string passes_number [OF p_number_int])

lemma span_of_object:
  assumes "json_ok fr (JObj kvs)"
  shows "span_len 0 False False (dump_line fr (JObj kvs) @ r) = Some (length (dump_line fr (JObj kvs)))"
proof -
  have "passes 1 (dump_line fr v)" if "(k, v) \<in> set kvs" for k v
    using assms that by (intro passes_value) (auto simp: list_all_iff)
  then have "passes 1 (str_join '', '' (map (\<lambda>(k, v). raw_string k @ '': '' @ dump_line fr v) kvs))"
    by (rule passes_members)
  from passesD [OF this, of "CHR 0x7D # r"] show ?thesis by simp
qed

section \<open>A printed object is read up to its closing brace\<close>

lemma p_value_object:
  assumes "json_ok fr (JObj kvs)" and "length (dump_line fr (JObj kvs)) < n"
  shows "p_value n (dump_line fr (JObj kvs) @ r) = Inr (JObj kvs, r)"
  by (rule p_value_members) (use assms dump_reads_back in \<open>fastforce simp: list_all_iff\<close>)+

lemma loads_object_rest:
  assumes "json_ok fr (JObj kvs)"
  shows "loads (dump_line fr (JObj kvs) @ r) = (if skip_ws r = [] then Inr (JObj kvs) else Inl (Msg ''Extra data''))"
proof -
  have "skip_ws (dump_line fr (JObj kvs) @ r) = dump_line fr (JObj kvs) @ r"
    by (rule starts_value_skip) (rule starts_value_append [OF dump_starts [OF assms]])
  then show ?thesis using p_value_object [OF assms, of "Suc (2 * length (dump_line fr (JObj kvs) @ r))" r]
    by (simp add: loads_def)
qed

text \<open>Only text that starts with a brace is read as an object.\<close>

definition no_object :: "json_error + json \<times> string \<Rightarrow> bool" where
  "no_object x = (case x of Inl _ \<Rightarrow> True | Inr (v, _) \<Rightarrow> (case v of JObj _ \<Rightarrow> False | _ \<Rightarrow> True))"

lemma no_object_if: "no_object (if b then x else y) = (if b then no_object x else no_object y)"
  by simp

lemma no_object_simps [simp]:
  "no_object (Inl e)" "no_object (Inr (JNull, r))" "no_object (Inr (JBool b, r))" "no_object (Inr (JInt i, r))"
  "no_object (Inr (JFloat f, r))" "no_object (Inr (JStr s, r))" "no_object (Inr (JArr xs, r))"
  "\<not> no_object (Inr (JObj kvs, r))"
  by (simp_all add: no_object_def)

lemma p_number_no_object: "no_object (case p_number s of None \<Rightarrow> Inl e | Some x \<Rightarrow> Inr x)"
  by (auto simp: p_number_def Let_def split: option.splits prod.splits)

lemma p_atom_no_object: "no_object (p_atom s)"
  unfolding p_atom_def by (simp only: no_object_if no_object_simps p_number_no_object if_cancel)

lemma p_value_no_object:
  assumes "c \<noteq> CHR 0x7B" shows "no_object (p_value n (c # cs))"
proof (cases n)
  case (Suc m)
  have "no_object (case p_chars cs of Inl msg \<Rightarrow> Inl (Msg msg) | Inr (x, r) \<Rightarrow> Inr (JStr x, r))"
    by (cases "p_chars cs") (simp_all add: case_prod_beta)
  moreover have "no_object (case p_items m (skip_ws cs) of Inl e \<Rightarrow> Inl e | Inr (xs, r) \<Rightarrow> Inr (JArr xs, r))"
    by (cases "p_items m (skip_ws cs)") (simp_all add: case_prod_beta)
  ultimately show ?thesis using assms
    by (simp only: Suc p_value.simps list.case no_object_if no_object_simps p_atom_no_object if_False if_cancel)
qed simp

text \<open>What a candidate contributes.\<close>

definition dict_of :: "string \<Rightarrow> (string, json) dict option" where
  "dict_of c = (if c = [] then None else case loads c of Inr (JObj kvs) \<Rightarrow> Some kvs | _ \<Rightarrow> None)"

lemma first_dict_Cons: "first_dict (c # cs) = (case dict_of c of None \<Rightarrow> first_dict cs | Some kvs \<Rightarrow> Some kvs)"
proof (cases "loads c")
  case (Inr v)
  then show ?thesis by (cases v) (simp_all add: dict_of_def)
qed (simp add: dict_of_def)

lemma dict_of_other:
  assumes "s = c # cs" and "\<not> is_space c" and "c \<noteq> CHR 0x7B"
  shows "dict_of s = None"
proof -
  have "\<not> json_space c" using assms(2) unfolding json_space_def is_space_def by blast
  then have sk: "skip_ws s = s" using assms(1) by simp
  have "no_object (p_value (Suc (2 * length s)) s)" using p_value_no_object assms(1,3) by blast
  then have "loads s \<noteq> Inr (JObj kvs)" for kvs unfolding loads_def sk
    by (cases "p_value (Suc (2 * length s)) s") (auto simp: case_prod_beta no_object_def)
  then show ?thesis by (cases "loads s") (simp_all add: dict_of_def split: json.splits)
qed

lemma dict_of_printed:
  assumes "json_ok fr (JObj kvs)"
  shows "dict_of (dump_line fr (JObj kvs) @ r) = (if skip_ws r = [] then Some kvs else None)"
  using loads_object_rest [OF assms, of r] by (simp add: dict_of_def del: dump_line.simps) (simp add: dump_line.simps)

lemma first_dict_candidates:
  assumes "list_all (\<lambda>c. dict_of c = None \<or> dict_of c = Some kvs) cs" and "c \<in> set cs" and "dict_of c = Some kvs"
  shows "first_dict cs = Some kvs"
  using assms(1,2)
proof (induction cs)
  case (Cons x cs)
  then show ?case using assms(3) by (auto simp: first_dict_Cons simp del: first_dict.simps)
qed simp

section \<open>Whole answers\<close>

lemma strip_parts: "str_strip s = str_rstrip (str_lstrip s)"
  by (simp add: str_strip_def)

lemma rstrip_after:
  "x \<noteq> [] \<Longrightarrow> \<not> is_space (last x) \<Longrightarrow> str_rstrip (x @ y) = x @ str_rstrip y"
  by (cases x rule: rev_cases) (auto simp: str_rstrip_def dropWhile_append)

lemma lstrip_shape: "str_lstrip s = [] \<or> (\<exists>c cs. str_lstrip s = c # cs \<and> \<not> is_space c \<and> c \<in> set s)"
proof (cases "str_lstrip s")
  case (Cons c cs)
  then have "\<not> is_space c" by (metis hd_dropWhile list.distinct(1) list.sel(1) str_lstrip_def)
  moreover have "c \<in> set s" using Cons by (metis list.set_intros(1) set_dropWhileD str_lstrip_def)
  ultimately show ?thesis using Cons by blast
qed simp

lemma object_text: "\<exists>u. dump_line fr (JObj kvs) = CHR 0x7B # u @ [CHR 0x7D]"
  by (intro exI) (simp add: dump_line.simps)

lemma stripped_candidate:
  assumes "json_ok fr (JObj kvs)" and "CHR 0x7B \<notin> set pre"
  shows "dict_of (str_strip (pre @ dump_line fr (JObj kvs) @ post)) \<in> {None, Some kvs}"
proof -
  let ?d = "dump_line fr (JObj kvs)"
  obtain u where d: "?d = CHR 0x7B # u @ [CHR 0x7D]" using object_text by blast
  have sp: "\<not> is_space (CHR 0x7B)" "\<not> is_space (CHR 0x7D)" by code_simp+
  show ?thesis
  proof (cases "str_lstrip pre")
    case Nil
    then have "str_lstrip (pre @ ?d @ post) = ?d @ post"
      using d sp by (simp add: str_lstrip_def dropWhile_append)
    moreover have "str_rstrip (?d @ post) = ?d @ str_rstrip post" by (rule rstrip_after) (simp_all add: d sp)
    ultimately show ?thesis using dict_of_printed [OF assms(1), of "str_rstrip post"] by (simp add: strip_parts)
  next
    case (Cons c cs)
    with lstrip_shape [of pre] have c: "\<not> is_space c" "c \<in> set pre" by auto
    from Cons have "str_lstrip (pre @ ?d @ post) = c # cs @ ?d @ post"
      by (simp add: str_lstrip_def dropWhile_append dropWhile_eq_Nil_conv [symmetric] del: dropWhile_eq_Nil_conv)
    then have "str_strip (pre @ ?d @ post) = c # str_rstrip (cs @ ?d @ post)"
      using rstrip_after [of "[c]"] c(1) by (simp add: strip_parts)
    from dict_of_other [OF this c(1)] show ?thesis using c(2) assms(2) by auto
  qed
qed

lemma span_candidate:
  assumes "json_ok fr (JObj kvs)" and "CHR 0x7B \<notin> set pre"
  shows "first_object_span (pre @ dump_line fr (JObj kvs) @ post) = Some (dump_line fr (JObj kvs))"
proof -
  let ?d = "dump_line fr (JObj kvs)"
  obtain u where d: "?d = CHR 0x7B # u @ [CHR 0x7D]" using object_text by blast
  have "dropWhile (\<lambda>c. c \<noteq> CHR 0x7B) (pre @ ?d @ post) = ?d @ post"
    using assms(2) d by (subst dropWhile_append2) auto
  then show ?thesis using span_of_object [OF assms(1), of post] d by (simp add: first_object_span_def Let_def)
qed

section \<open>Fenced blocks\<close>

lemma rmatch_Chr: "rmatch (Chr P) s (i, gs) = (case drop i s of [] \<Rightarrow> [] | c # _ \<Rightarrow> if P c then [(Suc i, gs)] else [])"
proof (cases "i < length s")
  case True
  then have "drop i s = s ! i # drop (Suc i) s" by (simp add: Cons_nth_drop_Suc)
  with True show ?thesis by simp
qed simp

lemma rmatch_seqs_Cons: "rmatch (seqs (r # rs)) s st = concat (map (rmatch (seqs rs) s) (rmatch r s st))"
proof (cases rs)
  case Nil
  have "rmatch Eps s = (\<lambda>st. [st])" by (rule ext) simp
  with Nil show ?thesis by simp
qed simp

lemma seqs_first:
  assumes "rmatch r s st = st1 # xs" and "rmatch (seqs rs) s st1 = st2 # ys"
  obtains zs where "rmatch (seqs (r # rs)) s st = st2 # zs"
  using assms by (simp add: rmatch_seqs_Cons)

lemma rmatch_word:
  "rmatch (seqs (map (\<lambda>c. Chr (R c)) w)) s (i, gs) =
     (if list_all2 R w (take (length w) (drop i s)) then [(i + length w, gs)] else [])"
proof (induction w arbitrary: i)
  case (Cons c w)
  show ?case
  proof (cases "drop i s")
    case Nil
    then show ?thesis unfolding list.map rmatch_seqs_Cons by (simp add: rmatch_Chr del: rmatch.simps)
  next
    case more: (Cons x xs)
    then have "drop (Suc i) s = xs" by (metis drop_Suc list.sel(3) tl_drop)
    with more Cons.IH [of "Suc i"] show ?thesis unfolding list.map rmatch_seqs_Cons
      by (simp add: rmatch_Chr del: rmatch.simps)
  qed
qed simp

lemma rmatch_lit:
  "rmatch (lit w) s (i, gs) = (if take (length w) (drop i s) = w then [(i + length w, gs)] else [])"
proof -
  have "list_all2 (\<lambda>c x. x = c) w t \<longleftrightarrow> t = w" for t
    by (metis (mono_tags, lifting) list.rel_eq list.rel_mono_strong)
  moreover have "lit w = seqs (map (\<lambda>c. Chr (\<lambda>x. x = c)) w)" by (simp add: lit_def chr_eq_def [abs_def])
  ultimately show ?thesis using rmatch_word [of "\<lambda>c x. x = c" w s i gs] by simp
qed

lemma rmatch_lit_ci:
  "rmatch (lit_ci w) s (i, gs) =
     (if list_all2 (\<lambda>c x. to_lower x = to_lower c) w (take (length w) (drop i s)) then [(i + length w, gs)] else [])"
  using rmatch_word [of "\<lambda>c x. to_lower x = to_lower c" w s i gs] by (simp add: lit_ci_def chr_ci_def [abs_def])

lemma star_first:
  assumes "length (takeWhile P (drop i s)) \<le> n"
  shows "\<exists>xs. rep_m n (rmatch (Chr P) s) 0 None (i, gs) = (i + length (takeWhile P (drop i s)), gs) # xs"
  using assms
proof (induction n arbitrary: i)
  case (Suc n)
  show ?case
  proof (cases "drop i s")
    case Nil
    then show ?thesis by (simp add: rmatch_Chr del: rmatch.simps)
  next
    case (Cons c cs)
    then have t: "drop (Suc i) s = cs" by (metis drop_Suc list.sel(3) tl_drop)
    show ?thesis using Suc.IH [of "Suc i"] Suc.prems Cons t by (auto simp: rmatch_Chr simp del: rmatch.simps)
  qed
qed simp

lemma lazy_any:
  "i + n = length s \<Longrightarrow> lazy_m n (rmatch (Chr (\<lambda>_. True)) s) (i, gs) = map (\<lambda>k. (i + k, gs)) [0..<Suc n]"
proof (induction n arbitrary: i)
  case (Suc n)
  then have "drop i s \<noteq> []" by simp
  then have "rmatch (Chr (\<lambda>_. True)) s (i, gs) = [(Suc i, gs)]"
    by (simp add: rmatch_Chr split: list.split del: rmatch.simps)
  moreover have "[0..<Suc (Suc n)] = 0 # map Suc [0..<Suc n]"
    using upt_conv_Cons [of 0 "Suc (Suc n)"] map_Suc_upt [of 0 "Suc n"] by (simp del: upt_Suc)
  ultimately show ?case using Suc by (simp add: comp_def del: rmatch.simps upt_Suc)
qed simp

lemma opt_first:
  assumes "rmatch r s (i, gs) = (j, gs') # xs" and "i < j" and "i < length s"
  shows "\<exists>ys. rmatch (opt_re r) s (i, gs) = (j, gs') # ys"
proof -
  obtain n where n: "length s - i = Suc n" using assms(3) by (metis Suc_diff_Suc)
  have "rep_m n (rmatch r s) 0 (Some 0) (j, gs') = [(j, gs')]" by (cases n) simp_all
  then show ?thesis using assms(1,2) n by (simp add: opt_re_def)
qed

lemma no_lit: "take 3 (drop i s) \<noteq> ''```'' \<Longrightarrow> rmatch (lit ''```'') s (i, gs) = []"
  by (simp add: rmatch_lit numeral_3_eq_3 del: rmatch.simps)

lemma contains_at: "take (length p) (drop i s) = p \<Longrightarrow> str_contains s p"
proof (induction s arbitrary: i)
  case (Cons c s)
  show ?case
  proof (cases i)
    case 0
    with Cons.prems have "c # s = p @ drop (length p) (c # s)" by (metis append_take_drop_id drop_0)
    then have "str_startswith (c # s) p" by (metis str_startswith_append)
    then show ?thesis by simp
  next
    case (Suc j)
    with Cons show ?thesis by simp
  qed
qed simp

lemma contains_fence: "take 3 (drop i s) = ''```'' \<Longrightarrow> str_contains s ''```''"
  by (rule contains_at [of _ i]) (simp add: numeral_3_eq_3)

text \<open>No fence starts in a text that has none and does not end in a backtick, whatever follows it.\<close>

lemma no_fence_inside:
  assumes "\<not> str_contains u ''```''" and "u = [] \<or> last u \<noteq> CHR 0x60" and "i < length u"
  shows "take 3 (drop i (u @ v)) \<noteq> ''```''"
proof
  assume f: "take 3 (drop i (u @ v)) = ''```''"
  show False
  proof (cases "i + 3 \<le> length u")
    case True
    then have "take 3 (drop i u) = ''```''" using f by simp
    with contains_fence assms(1) show False by blast
  next
    case False
    let ?k = "length u - 1 - i"
    have k: "?k < 3" "i + ?k = length u - 1" "length u - 1 < length (u @ v)" using False assms(3) by auto
    have "i \<le> length (u @ v)" using assms(3) by simp
    then have "take 3 (drop i (u @ v)) ! ?k = (u @ v) ! (length u - 1)"
      by (simp only: nth_take [OF k(1)] nth_drop k(2))
    also have "\<dots> = u ! (length u - 1)"
      by (rule nth_append_left) (use assms(3) in simp)
    also have "\<dots> = last u" using assms(3) by (cases u) (simp_all add: last_conv_nth)
    finally have "last u = ''```'' ! ?k" by (simp only: f)
    moreover have "?k \<in> {0, 1, 2}" using k(1) by auto
    ultimately show False using assms(2,3) by auto
  qed
qed

lemma contains_first: "str_contains s (c # p) \<Longrightarrow> c \<in> set s"
  by (induction s) auto

lemma not_contains_append: "\<not> str_contains (u @ v) p \<Longrightarrow> \<not> str_contains u p \<and> \<not> str_contains v p"
proof (induction u)
  case Nil
  then show ?case by (cases v; cases p) auto
next
  case (Cons c u)
  have "str_startswith (c # u @ v) p" if s: "str_startswith (c # u) p"
  proof -
    from s obtain w where "c # u = p @ w" unfolding str_startswith_iff by blast
    then have "c # u @ v = p @ w @ v" by (metis append_Cons append_assoc)
    then show ?thesis unfolding str_startswith_iff by blast
  qed
  with Cons show ?case by auto
qed

text \<open>The text up to the closing fence, when no fence starts before it.\<close>

lemma body_first:
  assumes d: "drop i s = body @ ''```'' @ post" and b: "\<And>k. k < length body \<Longrightarrow> take 3 (drop k (body @ ''```'' @ post)) \<noteq> ''```''"
  shows "\<exists>xs. rmatch (seqs [Grp 1 (Lazy (Chr (\<lambda>_. True))), lit ''```'']) s (i, [])
    = (i + length body + 3, [(1, i, i + length body)]) # xs"
proof -
  let ?f = "\<lambda>k. rmatch (lit ''```'') s (i + k, [(1, i, i + k)])"
  have "drop i s \<noteq> []" using d by simp
  then have len: "i + length (drop i s) = length s" by simp
  then obtain n where n: "length s - i = n" "i + n = length s" by simp
  have "length body < Suc n" using n d by (metis length_append length_drop less_Suc_eq_le le_add1)
  then have split: "[0..<Suc n] = [0..<length body] @ length body # [Suc (length body)..<Suc n]"
    by (metis le_add1 less_imp_add_positive upt_add_eq_append upt_conv_Cons add_0 le0)
  have "?f k = []" if "k < length body" for k
  proof -
    have "drop (i + k) s = drop k (body @ ''```'' @ post)" using d by (metis add.commute drop_drop)
    with b [OF that] have "take 3 (drop (i + k) s) \<noteq> ''```''" by (simp only:) simp
    then show ?thesis by (rule no_lit)
  qed
  moreover have "?f (length body) = [(i + length body + 3, [(1, i, i + length body)])]"
  proof -
    have "drop (i + length body) s = ''```'' @ post" using d by (metis add.commute append_eq_conv_conj drop_drop)
    then show ?thesis by (simp add: rmatch_lit del: rmatch.simps)
  qed
  ultimately have "concat (map ?f [0..<Suc n])
      = (i + length body + 3, [(1, i, i + length body)]) # concat (map ?f [Suc (length body)..<Suc n])"
    unfolding split by simp
  moreover have "rmatch (Lazy (Chr (\<lambda>_. True))) s (i, []) = map (\<lambda>k. (i + k, [])) [0..<Suc n]"
    using lazy_any [OF n(2), of "[]"] n(1) by (simp del: upt_Suc rmatch.simps(2))
  ultimately show ?thesis by (simp add: comp_def del: upt_Suc rmatch.simps(2))
qed

lemma fence_match:
  assumes t: "drop p s = ''```json'' @ newline @ body @ ''```'' @ post"
    and b: "\<And>k. k < length body \<Longrightarrow> take 3 (drop k (body @ ''```'' @ post)) \<noteq> ''```''"
    and c: "body = c # cs" "\<not> is_space c"
  shows "match_at fence_re s p =
     Some \<lparr>m_start = p, m_end = p + 8 + length body + 3, m_groups = [(1, p + 8, p + 8 + length body)]\<rparr>"
proof -
  let ?tag = "alts [lit_ci ''json'', lit_ci ''jsonc'', lit_ci ''json5'']"
  have d: "drop (p + 3) s = ''json'' @ newline @ body @ ''```'' @ post"
    "drop (p + 7) s = newline @ body @ ''```'' @ post" "drop (p + 8) s = body @ ''```'' @ post"
  proof -
    have "drop (p + n) s = drop n (drop p s)" for n by (simp add: add.commute)
    then show "drop (p + 3) s = ''json'' @ newline @ body @ ''```'' @ post"
      "drop (p + 7) s = newline @ body @ ''```'' @ post" "drop (p + 8) s = body @ ''```'' @ post"
      unfolding t by (simp_all add: newline_def)
  qed
  have "drop (p + 3) s \<noteq> []" by (simp add: d(1))
  then have lt: "p + 3 < length s" by simp
  have one: "rmatch (lit ''```'') s (p, []) = [(p + 3, [])]" using t by (simp add: rmatch_lit del: rmatch.simps)
  have "rmatch (lit_ci ''json'') s (p + 3, []) = [(p + 3 + 4, [])]" using d(1) by (simp add: rmatch_lit_ci del: rmatch.simps)
  then have "\<exists>xs. rmatch ?tag s (p + 3, []) = (p + 7, []) # xs" by simp
  then obtain xs where "rmatch ?tag s (p + 3, []) = (p + 7, []) # xs" by blast
  from opt_first [OF this _ lt] obtain two where two: "rmatch (opt_re ?tag) s (p + 3, []) = (p + 7, []) # two" by auto
  have "is_space (CHR 0x0A)" by code_simp
  then have w: "takeWhile is_space (drop (p + 7) s) = newline" using d(2) c by (simp add: newline_def)
  have "length newline \<le> length s - (p + 7)" using arg_cong [OF d(2), of length] by (simp add: newline_def)
  then have "\<exists>xs. rmatch spaces s (p + 7, []) = (p + 8, []) # xs"
    using star_first [of is_space "p + 7" s "length s - (p + 7)" "[]"] w by (simp add: spaces_def star_def newline_def add.commute)
  then obtain three where three: "rmatch spaces s (p + 7, []) = (p + 8, []) # three" by blast
  from body_first [OF d(3) b] obtain four where
    "rmatch (seqs [Grp 1 (Lazy (Chr (\<lambda>_. True))), lit ''```'']) s (p + 8, [])
      = (p + 8 + length body + 3, [(1, p + 8, p + 8 + length body)]) # four" by blast
  from seqs_first [OF three this] obtain five where
    "rmatch (seqs [spaces, Grp 1 (Lazy (Chr (\<lambda>_. True))), lit ''```'']) s (p + 7, [])
      = (p + 8 + length body + 3, [(1, p + 8, p + 8 + length body)]) # five" by blast
  from seqs_first [OF two this] obtain six where
    "rmatch (seqs [opt_re ?tag, spaces, Grp 1 (Lazy (Chr (\<lambda>_. True))), lit ''```'']) s (p + 3, [])
      = (p + 8 + length body + 3, [(1, p + 8, p + 8 + length body)]) # six" by blast
  from seqs_first [OF one this] obtain seven where
    "rmatch fence_re s (p, []) = (p + 8 + length body + 3, [(1, p + 8, p + 8 + length body)]) # seven"
    unfolding fence_re_def by blast
  then show ?thesis by (simp add: match_at_def)
qed

text \<open>Where there are no three backticks there is no fence.\<close>

lemma no_fence_at: "take 3 (drop i s) \<noteq> ''```'' \<Longrightarrow> match_at fence_re s i = None"
  using no_lit [of i s "[]"] by (simp add: match_at_def fence_re_def rmatch_seqs_Cons del: rmatch.simps seqs.simps)

lemma no_fence_after:
  assumes "\<not> str_contains (drop pos s) ''```''" shows "finditer_from fence_re s pos = []"
proof -
  have "match_at fence_re s i = None" if "pos \<le> i" for i
  proof (rule no_fence_at)
    have "drop i s = drop (i - pos) (drop pos s)" using that by simp
    with contains_fence [of "i - pos" "drop pos s"] assms show "take 3 (drop i s) \<noteq> ''```''" by metis
  qed
  then have "List.find (\<lambda>i. match_at fence_re s i \<noteq> None) [pos..<Suc (length s)] = None"
    by (auto simp: find_None_iff)
  then show ?thesis by (subst finditer_from.simps) (simp add: search_from_def)
qed

lemma one_fence:
  assumes t: "s = pre @ ''```json'' @ newline @ body @ ''```'' @ post"
    and b: "\<And>k. k < length body \<Longrightarrow> take 3 (drop k (body @ ''```'' @ post)) \<noteq> ''```''"
    and p: "\<not> str_contains pre ''```''" "pre = [] \<or> last pre \<noteq> CHR 0x60" and q: "\<not> str_contains post ''```''"
    and c: "body = c # cs" "\<not> is_space c"
  shows "fence_bodies s = [str_strip body]"
proof -
  let ?p = "length pre"
  let ?m = "\<lparr>m_start = ?p, m_end = ?p + 8 + length body + 3, m_groups = [(1, ?p + 8, ?p + 8 + length body)]\<rparr>"
  have "drop ?p s = ''```json'' @ newline @ body @ ''```'' @ post" by (simp add: t)
  from fence_match [OF this b c] have m: "match_at fence_re s ?p = Some ?m" by simp
  have before: "match_at fence_re s i = None" if "i < ?p" for i
    unfolding t by (rule no_fence_at, rule no_fence_inside [OF p that])
  have "List.find (\<lambda>i. match_at fence_re s i \<noteq> None) [0..<Suc (length s)] = Some ?p"
  proof -
    have "?p < length s" by (simp add: t)
    then show ?thesis unfolding find_Some_iff
      by (intro exI [of _ ?p]) (simp add: m before del: upt_Suc)
  qed
  then have first: "search_from fence_re s 0 = Some ?m" using m by (simp add: search_from_def)
  have "s = (pre @ ''```json'' @ newline @ body @ ''```'') @ post" by (simp add: t)
  moreover have "resume_at ?m = length (pre @ ''```json'' @ newline @ body @ ''```'')"
    by (simp add: resume_at_def newline_def)
  ultimately have "drop (resume_at ?m) s = post" by (metis append_eq_conv_conj)
  then have "finditer_from fence_re s (resume_at ?m) = []" using q by (intro no_fence_after) simp
  then have "finditer fence_re s = [?m]" unfolding finditer_def by (subst finditer_from.simps) (simp add: first)
  moreover have "m_group s ?m 1 = body" by (simp add: m_group_def substr_def t newline_def)
  ultimately show ?thesis by (simp add: fence_bodies_def)
qed

section \<open>The object of an answer is found\<close>

lemma printed_bare: "fence_bodies s = [] \<Longrightarrow> json_ok fr (JObj kvs) \<Longrightarrow> CHR 0x7B \<notin> set pre \<Longrightarrow>
    s = pre @ dump_line fr (JObj kvs) @ post \<Longrightarrow> extract_json (Some s) = Some kvs"
proof -
  assume f: "fence_bodies s = []" and ok: "json_ok fr (JObj kvs)" and pre: "CHR 0x7B \<notin> set pre"
    and s: "s = pre @ dump_line fr (JObj kvs) @ post"
  have "first_dict [str_strip s, dump_line fr (JObj kvs)] = Some kvs"
    by (rule first_dict_candidates [where c = "dump_line fr (JObj kvs)"])
      (use stripped_candidate [OF ok pre, of post] dict_of_printed [OF ok, of "[]"] s in \<open>auto simp del: dump_line.simps\<close>)
  moreover have "s \<noteq> []" using object_text [of fr kvs] s by auto
  ultimately show ?thesis
    using span_candidate [OF ok pre, of post] f by (simp add: extract_json_def s [symmetric] del: dump_line.simps first_dict.simps)
qed

lemma printed_no_fence: "\<not> str_contains s ''```'' \<Longrightarrow> fence_bodies s = []"
  using no_fence_after [of 0 s] by (simp add: fence_bodies_def finditer_def)

text \<open>
  C33: The object a model wraps in prose is found, bare or in a fenced block: it is extracted as the object
  that was printed, provided that it reads back at all (distinct keys, floats printed as literals of their
  value), that there is no opening brace before it and that nowhere in the prose or
  in the printed object three backticks stand in a row (and the prose before a fence does not end in one).
  Single backticks, and any braces after the object, do no harm.
\<close>

theorem extract_json_finds_printed_object:
  assumes "json_ok fr (JObj kvs)" and "CHR 0x7B \<notin> set pre" and "pre = [] \<or> last pre \<noteq> CHR 0x60"
    and "\<not> str_contains (pre @ dump_line fr (JObj kvs) @ post) ''```''"
  shows "extract_json (Some (pre @ dump_line fr (JObj kvs) @ post)) = Some kvs
    \<and> extract_json (Some (pre @ ''```json'' @ newline @ dump_line fr (JObj kvs) @ newline @ ''```'' @ post)) = Some kvs"
proof
  let ?d = "dump_line fr (JObj kvs)"
  from printed_bare [OF printed_no_fence [OF assms(4)] assms(1,2)] show "extract_json (Some (pre @ ?d @ post)) = Some kvs" by simp
  let ?s = "pre @ ''```json'' @ newline @ ?d @ newline @ ''```'' @ post"
  obtain u where d: "?d = CHR 0x7B # u @ [CHR 0x7D]" using object_text by blast
  have sp: "\<not> is_space (CHR 0x7B)" "\<not> is_space (CHR 0x7D)" "is_space (CHR 0x0A)" by code_simp+
  have free: "\<not> str_contains pre ''```''" "\<not> str_contains ?d ''```''" "\<not> str_contains post ''```''"
    using assms(4) not_contains_append by blast+
  have "fence_bodies ?s = [str_strip (?d @ newline)]"
  proof (rule one_fence [where pre = pre and post = post])
    fix k
    assume k: "k < length (?d @ newline)"
    show "take 3 (drop k ((?d @ newline) @ ''```'' @ post)) \<noteq> ''```''"
    proof (cases "k < length ?d")
      case True
      have "last ?d \<noteq> CHR 0x60" by (simp add: d)
      with no_fence_inside [OF free(2) _ True, of "newline @ ''```'' @ post"] show ?thesis by simp
    next
      case False
      with k have "k = length ?d" by (simp add: newline_def)
      then show ?thesis by (simp add: newline_def numeral_3_eq_3)
    qed
  qed (use assms(3) free(1,3) d sp in \<open>auto simp: newline_def\<close>)
  moreover have "str_strip (?d @ newline) = ?d"
    using d sp by (simp add: strip_parts str_lstrip_def newline_def str_rstrip_def)
  ultimately have f: "fence_bodies ?s = [?d]" by simp
  have pre: "CHR 0x7B \<notin> set (pre @ ''```json'' @ newline)" using assms(2) by (simp add: newline_def)
  have "str_strip ?s = str_strip ((pre @ ''```json'' @ newline) @ ?d @ newline @ ''```'' @ post)" by simp
  then have c: "dict_of (str_strip ?s) \<in> {None, Some kvs}" by (simp only: stripped_candidate [OF assms(1) pre])
  have "first_object_span ((pre @ ''```json'' @ newline) @ ?d @ newline @ ''```'' @ post) = Some ?d"
    by (rule span_candidate [OF assms(1) pre])
  then have sp: "first_object_span ?s = Some ?d" by simp
  have "first_dict [str_strip ?s, ?d, ?d] = Some kvs"
    by (rule first_dict_candidates [where c = ?d]) (use c dict_of_printed [OF assms(1), of "[]"] in \<open>auto simp del: dump_line.simps\<close>)
  then show "extract_json (Some ?s) = Some kvs"
    using f sp by (simp add: extract_json_def del: dump_line.simps first_dict.simps)
qed

theorem extract_json_finds_printed_object_witness:
  "extract_json (Some (''Use `f`: '' @ dump_line (\<lambda>_. []) (JObj [(''a'', JArr [JInt 1])]) @ ''.'')) = Some [(''a'', JArr [JInt 1])]"
proof -
  have "json_ok (\<lambda>_. []) (JObj [(''a'', JArr [JInt 1])])" by simp
  moreover have "CHR 0x7B \<notin> set ''Use `f`: ''" by simp
  moreover have "''Use `f`: '' = [] \<or> last ''Use `f`: '' \<noteq> CHR 0x60" by simp
  moreover have "\<not> str_contains (''Use `f`: '' @ dump_line (\<lambda>_. []) (JObj [(''a'', JArr [JInt 1])]) @ ''.'') ''```''" by code_simp
  ultimately show ?thesis by (rule extract_json_finds_printed_object [THEN conjunct1])
qed

text \<open>
  A fence inside the object is taken for one around it: a printed object with a fenced block in one of its
  texts, after a word of prose, is lost to what that block holds.
\<close>

theorem fence_in_content_wins:
  "extract_json (Some (''Ok '' @ dump_line (\<lambda>_. []) (JObj [(''c'', JStr (''```'' @ [CHR 0x7B, CHR 0x7D] @ ''```''))]))) = Some []"
  by code_simp

text \<open>The tag \<open>json\<close> is tried first and the lazy body takes any text, so a \<open>jsonc\<close> tag leaves its last letter in the body.\<close>

lemma jsonc_tag_stays_in_body:
  "fence_bodies (''```jsonc'' @ newline @ [CHR 0x7B, CHR 0x7D] @ newline @ ''```'') = [''c'' @ newline @ [CHR 0x7B, CHR 0x7D]]"
  by code_simp

end
