(* ===== verification/ClaudeProps.thy ===== *)
theory ClaudeProps
  imports Claude ExtractProps
begin

text \<open>
  What the live adapter promises: every request body obeys the rules of the API, schemas are sent in strict
  form, the transport retry is bounded and repeats nothing but rate limits and server errors, and a
  complete answer with an object in it becomes the stage's artifacts.
\<close>

section \<open>Strict schemas\<close>

text \<open>
  The form structured output demands of a schema: no unsupported keyword; an object is closed, typed, and
  lists what is required of its properties; and so are the schemas under it.
\<close>

function strict_form :: "(string, json) dict \<Rightarrow> bool" where
  "strict_form s \<longleftrightarrow>
     list_all (\<lambda>k. k \<notin> set unsupported_schema_keywords) (dkeys s)
     \<and> (if schema_type s = JStr ''object''
        then dget s ''type'' = Some (JStr ''object'') \<and> dget s ''additionalProperties'' = Some (JBool False)
          \<and> (case dget s ''properties'' of
               Some (JObj ps) \<Rightarrow> dget s ''required'' \<noteq> None
                 \<and> list_all (\<lambda>(name, sub). case sub of JObj t \<Rightarrow> strict_form t | _ \<Rightarrow> True) ps
             | _ \<Rightarrow> True)
        else if schema_type s = JStr ''array''
        then (case dget s ''items'' of Some (JObj t) \<Rightarrow> strict_form t | _ \<Rightarrow> True)
        else True)"
  by pat_completeness auto
termination
proof (relation "measure fields_size", goal_cases)
  case 1
  show ?case by simp
next
  case (2 s x ps z name sub t)
  from size_field [of "''properties''" "JObj ps" s] size_field [of name "JObj t" ps] 2
  show ?case by (auto dest: map_of_SomeD)
next
  case (3 s x t)
  from size_field [of "''items''" "JObj t" s] 3 show ?case by (auto dest: map_of_SomeD)
qed

declare strict_form.simps [simp del]

lemma supported_keys: "list_all (\<lambda>k. k \<notin> set unsupported_schema_keywords) (dkeys (supported_part s))"
  by (auto simp: supported_part_def list_all_iff)

lemma keys_kept:
  "list_all P (dkeys s) \<Longrightarrow> P k \<Longrightarrow> list_all P (dkeys (dset k v s))"
  "list_all P (dkeys s) \<Longrightarrow> P k \<Longrightarrow> list_all P (dkeys (dsetdefault k v s))"
  by (simp_all add: dkeys_dset) (simp add: dsetdefault_def split: option.splits)

lemma dset_same: "dget s k = Some v \<Longrightarrow> dset k v s = s"
  by (induction s) (auto split: if_splits)

lemma dsetdefault_same: "dget s k \<noteq> None \<Longrightarrow> dsetdefault k v s = s"
  by (auto simp: dsetdefault_def)

lemma supported_same: "list_all (\<lambda>k. k \<notin> set unsupported_schema_keywords) (dkeys s) \<Longrightarrow> supported_part s = s"
  by (auto simp: supported_part_def list_all_iff intro!: filter_True)

lemma supported_names [simp]:
  "''type'' \<notin> set unsupported_schema_keywords" "''additionalProperties'' \<notin> set unsupported_schema_keywords"
  "''required'' \<notin> set unsupported_schema_keywords" "''properties'' \<notin> set unsupported_schema_keywords"
  "''items'' \<notin> set unsupported_schema_keywords"
  by code_simp+

text \<open>A schema in strict form is sent as it is.\<close>

lemma strict_unchanged: "strict_form s \<Longrightarrow> strict_schema s = s"
proof (induction s rule: strict_schema.induct)
  case (1 s)
  note f = 1(3) [unfolded strict_form.simps [of s]]
  from f have sup: "supported_part s = s" by (intro supported_same) simp
  show ?case
  proof (cases "schema_type s = JStr ''object''")
    case True
    with f have "close_object s = s" by (simp add: close_object_def dset_same dsetdefault_same)
    show ?thesis
    proof (cases "\<exists>ps. dget s ''properties'' = Some (JObj ps)")
      case True': True
      then obtain ps where ps: "dget s ''properties'' = Some (JObj ps)" by blast
      have "(case sub of JObj t \<Rightarrow> JObj (strict_schema t) | v \<Rightarrow> v) = sub" if "(name, sub) \<in> set ps" for name sub
      proof (cases sub)
        case (JObj t)
        with f True ps that have "strict_form t" by (auto simp: list_all_iff)
        from 1(1) [OF refl _ refl _ _ that refl _ this] show ?thesis
          using sup \<open>close_object s = s\<close> True ps JObj that by simp
      qed simp_all
      then have "map (\<lambda>(name, sub). (name, case sub of JObj t \<Rightarrow> JObj (strict_schema t) | v \<Rightarrow> v)) ps = ps"
        by (intro map_idI) auto
      then show ?thesis
        using f True ps \<open>close_object s = s\<close> sup
        by (subst strict_schema.simps) (simp add: Let_def dset_same dsetdefault_same)
    next
      case False
      then show ?thesis using True \<open>close_object s = s\<close> sup
        by (subst strict_schema.simps) (auto simp: Let_def split: option.split json.split)
    qed
  next
    case other: False
    show ?thesis
    proof (cases "schema_type s = JStr ''array'' \<and> (\<exists>t. dget s ''items'' = Some (JObj t))")
      case True
      then obtain t where t: "dget s ''items'' = Some (JObj t)" by blast
      with f other True have "strict_form t" by simp
      with 1(2) [OF refl] sup other True t have "strict_schema t = t" by simp
      then show ?thesis using sup other True t
        by (subst strict_schema.simps) (simp add: Let_def dset_same)
    next
      case False
      then show ?thesis using sup other
        by (subst strict_schema.simps) (auto simp: Let_def split: option.split json.split)
    qed
  qed
qed

lemma schema_type_dset: "k \<noteq> ''type'' \<Longrightarrow> schema_type (dset k v s) = schema_type s"
  by (simp add: schema_type_def)

lemma schema_type_close: "schema_type s = JStr ''object'' \<Longrightarrow> dget (close_object s) ''type'' = Some (JStr ''object'')"
  by (auto simp: close_object_def schema_type_def split: option.splits)

lemma close_keys:
  "list_all (\<lambda>k. k \<notin> set unsupported_schema_keywords) (dkeys s) \<Longrightarrow>
   list_all (\<lambda>k. k \<notin> set unsupported_schema_keywords) (dkeys (close_object s))"
  unfolding close_object_def by (intro keys_kept) simp_all

theorem strict_schema_is_strict: "strict_form (strict_schema s)"
proof (induction s rule: strict_schema.induct)
  case (1 schema)
  let ?s = "supported_part schema"
  let ?sub = "\<lambda>v. case v of JObj t \<Rightarrow> JObj (strict_schema t) | v \<Rightarrow> v"
  note keys = supported_keys [of schema]
  show ?case
  proof (cases "schema_type ?s = JStr ''object''")
    case obj: True
    let ?c = "close_object ?s"
    note closed = schema_type_close [OF obj] close_keys [OF keys]
    have ap: "dget ?c ''additionalProperties'' = Some (JBool False)" by (simp add: close_object_def)
    show ?thesis
    proof (cases "\<exists>ps. dget ?c ''properties'' = Some (JObj ps)")
      case True
      then obtain ps where ps: "dget ?c ''properties'' = Some (JObj ps)" by blast
      let ?ps = "map (\<lambda>(name, sub). (name, ?sub sub)) ps"
      let ?r = "dsetdefault ''required'' (JArr (map JStr (dkeys ps))) (dset ''properties'' (JObj ?ps) ?c)"
      have r: "strict_schema schema = ?r"
        using obj ps by (subst strict_schema.simps) (simp add: Let_def)
      have "list_all (\<lambda>(name, sub). case sub of JObj t \<Rightarrow> strict_form t | _ \<Rightarrow> True) ?ps"
      proof -
        have "case ?sub sub of JObj t \<Rightarrow> strict_form t | _ \<Rightarrow> True" if "(name, sub) \<in> set ps" for name sub
          using 1(1) [OF refl obj refl ps refl that refl] by (cases sub) simp_all
        then show ?thesis by (auto simp: list_all_iff)
      qed
      moreover have "list_all (\<lambda>k. k \<notin> set unsupported_schema_keywords) (dkeys ?r)"
        by (intro keys_kept closed(2)) simp_all
      moreover have "dget ?r ''required'' \<noteq> None" by simp
      ultimately show ?thesis unfolding r
        by (subst strict_form.simps) (simp add: schema_type_def closed(1) ap)
    next
      case False
      then have r: "strict_schema schema = ?c"
        using obj by (subst strict_schema.simps) (auto simp: Let_def split: option.split json.split)
      show ?thesis unfolding r using False closed ap
        by (subst strict_form.simps) (auto simp: schema_type_def split: option.split json.split)
    qed
  next
    case other: False
    show ?thesis
    proof (cases "schema_type ?s = JStr ''array'' \<and> (\<exists>t. dget ?s ''items'' = Some (JObj t))")
      case True
      then obtain t where t: "dget ?s ''items'' = Some (JObj t)" by blast
      then have r: "strict_schema schema = dset ''items'' (JObj (strict_schema t)) ?s"
        using True by (subst strict_schema.simps) (simp add: Let_def)
      have "list_all (\<lambda>k. k \<notin> set unsupported_schema_keywords) (dkeys (dset ''items'' (JObj (strict_schema t)) ?s))"
        by (intro keys_kept keys) simp
      with 1(2) [OF refl other _ t refl] True show ?thesis unfolding r
        by (subst strict_form.simps) (simp add: schema_type_dset)
    next
      case False
      then have r: "strict_schema schema = ?s"
        using other by (subst strict_schema.simps) (auto simp: Let_def split: option.split json.split)
      show ?thesis unfolding r using False other keys
        by (subst strict_form.simps) (auto split: option.split json.split)
    qed
  qed
qed

lemma strict_schema_fixed: "(strict_schema s = s) = strict_form s"
  by (metis strict_schema_is_strict strict_unchanged)

lemma strict_schema_idem: "strict_schema (strict_schema s) = strict_schema s"
  by (rule strict_unchanged) (rule strict_schema_is_strict)

section \<open>Requests\<close>

text \<open>
  C34: Whatever is asked: none of the parameters the API rejects is sent, thinking and effort are asked for on the
  deep tier alone and never with a token budget, a schema goes out in strict form, and a call streams
  exactly when its budget is above the limit.
\<close>

theorem live_request_obeys_api_rules:
  "let params = build_params getenv a q in set (dkeys params) \<inter> set forbidden_params = {}
    \<and> dget params ''thinking'' = (if rq_tier q = DEEP then Some (JObj [(''type'', JStr ''adaptive'')]) else None)
    \<and> dget (output_config q) ''effort'' = (if rq_tier q = DEEP then Some (JStr ''high'') else None)
    \<and> dget params ''output_config'' = (if output_config q = [] then None else Some (JObj (output_config q)))
    \<and> (case rq_json_schema q of
         None \<Rightarrow> dget (output_config q) ''format'' = None
       | Some schema \<Rightarrow>
           dget (output_config q) ''format''
             = Some (JObj [(''type'', JStr ''json_schema''), (''schema'', JObj (strict_schema schema))])
           \<and> strict_form (strict_schema schema)
           \<and> (strict_schema schema = schema) = strict_form schema)
    \<and> streams params = (stream_above_max_tokens < max_tokens_for a (rq_tier q))"
proof -
  let ?params = "build_params getenv a q"
  have "set (dkeys ?params) \<inter> set forbidden_params = {}"
    by (auto simp: build_params_def forbidden_params_def)
  moreover have "dget ?params ''thinking'' = (if rq_tier q = DEEP then Some (JObj [(''type'', JStr ''adaptive'')]) else None)"
    "dget ?params ''output_config'' = (if output_config q = [] then None else Some (JObj (output_config q)))"
    by (simp_all add: build_params_def)
  moreover have "dget (output_config q) ''effort'' = (if rq_tier q = DEEP then Some (JStr ''high'') else None)"
    by (simp add: output_config_def split: option.split)
  moreover have "streams ?params = (stream_above_max_tokens < max_tokens_for a (rq_tier q))"
    by (simp add: streams_def build_params_def)
  moreover have "case rq_json_schema q of
         None \<Rightarrow> dget (output_config q) ''format'' = None
       | Some schema \<Rightarrow>
           dget (output_config q) ''format''
             = Some (JObj [(''type'', JStr ''json_schema''), (''schema'', JObj (strict_schema schema))])
           \<and> strict_form (strict_schema schema)
           \<and> (strict_schema schema = schema) = strict_form schema"
    using strict_schema_fixed by (simp add: output_config_def strict_schema_is_strict split: option.split)
  ultimately show ?thesis unfolding Let_def by blast
qed

section \<open>The bounded retry\<close>

definition failed_retryably :: "(nat \<Rightarrow> sdk_error + sdk_message) \<Rightarrow> nat \<Rightarrow> bool" where
  "failed_retryably call i = (case call i of Inl e \<Rightarrow> is_retryable e | Inr _ \<Rightarrow> False)"

definition retry_events :: "claude_adapter \<Rightarrow> nat \<Rightarrow> retry_event list" where
  "retry_events a i = ApiCall # (if 0 < ca_retry_base_delay a then [Sleep (ca_retry_base_delay a * 2 ^ i)] else [])"

lemma retry_from_spec:
  "\<exists>k. attempt \<le> k \<and> k \<le> max attempt (ca_max_retries a) \<and> list_all (failed_retryably call) [attempt..<k]
    \<and> retry_from a call attempt = (call k, concat (map (retry_events a) [attempt..<k]) @ [ApiCall])
    \<and> (failed_retryably call k \<longrightarrow> ca_max_retries a \<le> k)"
proof (induction a call attempt rule: retry_from.induct)
  case (1 a call attempt)
  show ?case
  proof (cases "failed_retryably call attempt \<and> attempt < ca_max_retries a")
    case True
    then obtain e where e: "call attempt = Inl e" "is_retryable e" "\<not> ca_max_retries a \<le> attempt"
      by (auto simp: failed_retryably_def split: sum.splits)
    from 1 [OF e(1) _ refl] e obtain k where k: "Suc attempt \<le> k" "k \<le> ca_max_retries a"
      "list_all (failed_retryably call) [Suc attempt..<k]"
      "retry_from a call (Suc attempt) = (call k, concat (map (retry_events a) [Suc attempt..<k]) @ [ApiCall])"
      "failed_retryably call k \<longrightarrow> ca_max_retries a \<le> k" by auto
    have "[attempt..<k] = attempt # [Suc attempt..<k]" using k(1) by (simp add: upt_conv_Cons)
    moreover have "retry_from a call attempt
        = (call k, concat (map (retry_events a) (attempt # [Suc attempt..<k])) @ [ApiCall])"
      using e k(4) by (subst retry_from.simps) (simp add: retry_events_def Let_def zero_less_mult_iff)
    ultimately show ?thesis using k True by (intro exI [of _ k]) auto
  next
    case False
    then have "retry_from a call attempt = (call attempt, [ApiCall])"
      by (subst retry_from.simps) (auto simp: failed_retryably_def split: sum.splits)
    with False show ?thesis by (intro exI [of _ attempt]) auto
  qed
qed

definition calls_made :: "retry_event list \<Rightarrow> nat" where
  "calls_made es = length (filter (\<lambda>e. e = ApiCall) es)"

definition waited :: "retry_event list \<Rightarrow> real" where
  "waited es = sum_list (map (\<lambda>e. case e of ApiCall \<Rightarrow> 0 | Sleep x \<Rightarrow> x) es)"

lemma calls_append: "calls_made (xs @ ys) = calls_made xs + calls_made ys"
  by (simp add: calls_made_def)

lemma waited_append: "waited (xs @ ys) = waited xs + waited ys"
  by (simp add: waited_def)

lemma events_count: "calls_made (concat (map (retry_events a) [0..<k])) = k"
  by (induction k) (simp_all add: calls_append, simp_all add: calls_made_def retry_events_def)

lemma events_waited: "waited (concat (map (retry_events a) [0..<k])) = max 0 (ca_retry_base_delay a) * (2 ^ k - 1)"
proof (induction k)
  case (Suc k)
  have "waited (retry_events a k) = max 0 (ca_retry_base_delay a) * 2 ^ k" by (simp add: waited_def retry_events_def)
  with Suc show ?case by (simp add: waited_append algebra_simps)
qed (simp add: waited_def)

text \<open>
  C35: A call makes one request more than it retries, retries only after a rate limit or a server error and
  never beyond its limit, waits the geometric series of its delays, and answers with the last answer of
  the client.
\<close>

theorem live_call_is_bounded:
  "let call = api_call client (build_params getenv a q);
       events = snd (call_with_retry a client (build_params getenv a q))
   in \<exists>k \<le> ca_max_retries a.
    list_all (failed_retryably call) [0..<k] \<and> \<not> (failed_retryably call k \<and> k < ca_max_retries a)
    \<and> calls_made events = Suc k \<and> waited events = max 0 (ca_retry_base_delay a) * (2 ^ k - 1)
    \<and> claude_invoke getenv a client None latency q
        = (case call k of Inl e \<Rightarrow> Inl (sdk_exn e) | Inr m \<Rightarrow> to_response q (build_params getenv a q) m latency)"
proof -
  let ?call = "api_call client (build_params getenv a q)"
  let ?events = "snd (call_with_retry a client (build_params getenv a q))"
  obtain k where k: "k \<le> ca_max_retries a" "list_all (failed_retryably ?call) [0..<k]"
    "retry_from a ?call 0 = (?call k, concat (map (retry_events a) [0..<k]) @ [ApiCall])"
    "failed_retryably ?call k \<longrightarrow> ca_max_retries a \<le> k"
    using retry_from_spec [of 0 a ?call] unfolding max_0L by blast
  then have e: "?events = concat (map (retry_events a) [0..<k]) @ [ApiCall]"
    and f: "fst (call_with_retry a client (build_params getenv a q)) = ?call k"
    by (simp_all add: call_with_retry_def)
  have "calls_made ?events = Suc k" unfolding e calls_append events_count by (simp add: calls_made_def)
  moreover have "waited ?events = max 0 (ca_retry_base_delay a) * (2 ^ k - 1)"
    unfolding e waited_append events_waited by (simp add: waited_def)
  moreover have "claude_invoke getenv a client None latency q
        = (case ?call k of Inl e \<Rightarrow> Inl (sdk_exn e) | Inr m \<Rightarrow> to_response q (build_params getenv a q) m latency)"
    by (simp add: claude_invoke_def f Let_def split: sum.split)
  moreover have "\<not> (failed_retryably ?call k \<and> k < ca_max_retries a)" using k(4) by linarith
  ultimately show ?thesis using k(1,2) unfolding Let_def by blast
qed

section \<open>A live stage\<close>

lemma lstrip_split: "s = takeWhile is_space s @ str_lstrip s"
  by (simp add: str_lstrip_def)

lemma rstrip_split: "\<exists>t. s = str_rstrip s @ t"
  unfolding str_rstrip_def by (metis rev_append rev_rev_ident takeWhile_dropWhile_id)

text \<open>
  When the client completes an answer whose text is a printed object in prose, after whatever thinking
  blocks, the dispatched stage completes with the artifacts of that object; a refusal or a truncated
  answer is an exception and leaves nothing.
\<close>

theorem live_stage_reads_its_answer:
  assumes d: "ld_adapter d = claude_invoke getenv a client None latency"
    and defn: "definition_for d (dr_skill_id r) = Inr defn" "sd_json_schema defn \<noteq> None"
    and prompt: "format_text None (dr_payload r) (sd_prompt_template defn) = Inr prompt"
    and m: "fst (call_with_retry a client (build_params getenv a
        \<lparr>rq_node_id = dr_node_id r, rq_skill_id = dr_skill_id r, rq_tier = dr_tier r,
         rq_system = sd_system_prompt defn, rq_prompt = prompt, rq_json_schema = sd_json_schema defn\<rparr>)) = Inr m"
    and content: "List.map_filter block_text (sm_content m) = [pre @ dump_line fr (JObj kvs) @ post]"
    and ok: "json_ok fr (JObj kvs)" "CHR 0x7B \<notin> set pre" "CHR 0x60 \<notin> set (pre @ dump_line fr (JObj kvs) @ post)"
  shows "case snd (local_dispatch d r) of
      Inl e \<Rightarrow> sm_stop_reason m \<in> {Some ''refusal'', Some ''max_tokens''}
    | Inr out \<Rightarrow> sm_stop_reason m \<notin> {Some ''refusal'', Some ''max_tokens''} \<and> so_state out = COMPLETED
        \<and> so_parsed out = Some kvs
        \<and> so_artifacts out = artifacts_from_parsed (ld_fr d) kvs (dr_node_id r) (dr_skill_id r @ ''.json'')"
proof -
  note dump_line.simps [simp del]
  let ?d = "dump_line fr (JObj kvs)"
  obtain u where u: "?d = CHR 0x7B # u @ [CHR 0x7D]" using object_text by blast
  have sp: "\<not> is_space (CHR 0x7B)" "\<not> is_space (CHR 0x7D)" by code_simp+
  have l: "str_lstrip (pre @ ?d @ post) = str_lstrip pre @ ?d @ post"
    using u sp by (cases "str_lstrip pre = []") (simp_all add: str_lstrip_def dropWhile_append)
  have "str_rstrip ((str_lstrip pre @ ?d) @ post) = (str_lstrip pre @ ?d) @ str_rstrip post"
    by (rule rstrip_after) (simp_all add: u sp)
  then have strip: "str_strip (pre @ ?d @ post) = str_lstrip pre @ ?d @ str_rstrip post"
    by (simp add: strip_parts l)
  have sub: "set (str_lstrip pre) \<subseteq> set pre" "set (str_rstrip post) \<subseteq> set post"
    using lstrip_split [of pre] rstrip_split [of post] by (metis Un_upper2 set_append, metis Un_upper1 set_append)
  have "extract_json (Some (str_lstrip pre @ ?d @ str_rstrip post)) = Some kvs"
    by (rule printed_bare [OF printed_no_fence ok(1)]) (use ok sub in \<open>auto dest!: contains_first\<close>)
  then have "extract_json (Some (collect_text m)) = Some kvs" using strip by (simp add: collect_text_def content)
  moreover obtain schema where schema: "sd_json_schema defn = Some schema" using defn(2) by blast
  ultimately show ?thesis using m [unfolded schema]
    by (simp add: local_dispatch_def defn(1) prompt d schema claude_invoke_def Let_def to_response_def outcome_of_response_def)
qed

end
