(* ===== verification/SchemaProps.thy ===== *)
theory SchemaProps
  imports Schemas ClaudeProps ExecutorRun
begin

text \<open>
  What the schemas promise the code that reads the answers: the value of a conforming answer under each
  key, the artifacts its files become, the problem an analysis becomes, and that no conforming analysis can
  ask for a plan revision.
\<close>

section \<open>Values that conform to what is sent\<close>

lemma type_sent: "dget s ''type'' = Some (JStr t) \<Longrightarrow> dget (strict_schema s) ''type'' = Some (JStr t)"
  by (subst strict_schema.simps) (simp add: Let_def schema_type_def close_object_def dget_supported split: option.split json.split)

lemma conforms_type:
  assumes "conforms (strict_schema s) v" and "dget s ''type'' = Some (JStr t)" shows "has_type t v"
  using assms(1) type_sent [OF assms(2)] by (subst (asm) conforms.simps) (simp add: typed_def)

lemma has_type_cases:
  "has_type ''object'' v \<Longrightarrow> \<exists>kvs. v = JObj kvs" "has_type ''array'' v \<Longrightarrow> \<exists>xs. v = JArr xs"
  "has_type ''string'' v \<Longrightarrow> \<exists>s. v = JStr s" "has_type ''boolean'' v \<Longrightarrow> \<exists>b. v = JBool b"
  "has_type ''number'' v \<Longrightarrow> (\<exists>i. v = JInt i) \<or> (\<exists>x. v = JFloat (Fin x))"
  by (cases v; auto split: pfloat.splits)+

lemma conforms_array:
  assumes "conforms (strict_schema s) v" and "dget s ''type'' = Some (JStr ''array'')"
    and "dget s ''items'' = Some (JObj t)"
  obtains xs where "v = JArr xs" and "\<And>x. x \<in> set xs \<Longrightarrow> conforms (strict_schema t) x"
proof -
  obtain xs where xs: "v = JArr xs" using conforms_type [OF assms(1,2)] has_type_cases(2) by blast
  have "strict_schema s = dset ''items'' (JObj (strict_schema t)) (supported_part s)"
    using assms(2,3) by (subst strict_schema.simps) (simp add: Let_def schema_type_def dget_supported)
  then have "dget (strict_schema s) ''items'' = Some (JObj (strict_schema t))" by simp
  then have "list_all (conforms (strict_schema t)) xs"
    using assms(1) xs by (subst (asm) conforms.simps) simp
  with xs that show ?thesis by (auto simp: list_all_iff)
qed

lemma conforms_object:
  assumes "conforms (strict_schema s) v" and "dget s ''type'' = Some (JStr ''object'')"
    and "dget s ''properties'' = Some (JObj ps)"
  obtains kvs where "v = JObj kvs" and "\<And>k. k \<in> set (dkeys kvs) \<Longrightarrow> k \<in> set (dkeys ps)"
    and "\<And>k t x. (k, JObj t) \<in> set ps \<Longrightarrow> dget kvs k = Some x \<Longrightarrow> conforms (strict_schema t) x"
    and "\<And>rs k. dget s ''required'' = Some (JArr rs) \<Longrightarrow> JStr k \<in> set rs \<Longrightarrow> \<exists>x. dget kvs k = Some x"
proof -
  obtain kvs where kvs: "v = JObj kvs" using conforms_type [OF assms(1,2)] has_type_cases(1) by blast
  let ?ps = "map (\<lambda>(name, sub). (name, case sub of JObj t \<Rightarrow> JObj (strict_schema t) | v \<Rightarrow> v)) ps"
  have sent: "strict_schema s = dsetdefault ''required'' (JArr (map JStr (dkeys ps)))
      (dset ''properties'' (JObj ?ps) (close_object (supported_part s)))"
    using assms(2,3) by (subst strict_schema.simps) (simp add: Let_def schema_type_def dget_supported dget_close_object)
  have g: "dget (strict_schema s) ''properties'' = Some (JObj ?ps)"
    "dget (strict_schema s) ''additionalProperties'' = Some (JBool False)"
    unfolding sent by (simp_all add: close_object_def)
  have c: "has_required (strict_schema s) kvs" "closed_keys (strict_schema s) ?ps kvs"
    "list_all (\<lambda>(k, sub). case sub of
        JObj t \<Rightarrow> (case dget kvs k of None \<Rightarrow> True | Some x \<Rightarrow> conforms t x) | _ \<Rightarrow> True) ?ps"
    using assms(1) g(1) kvs by (subst (asm) conforms.simps, simp)+
  have dk: "dkeys ?ps = dkeys ps" by (induction ps) auto
  have "k \<in> set (dkeys ps)" if "k \<in> set (dkeys kvs)" for k
    using c(2) that g(2) unfolding closed_keys_def dk by (auto simp: list_all_iff)
  moreover have "conforms (strict_schema t) x" if "(k, JObj t) \<in> set ps" "dget kvs k = Some x" for k t x
    using c(3) that by (fastforce simp: list_all_iff)
  moreover have "\<exists>x. dget kvs k = Some x" if "dget s ''required'' = Some (JArr rs)" "JStr k \<in> set rs" for rs k
  proof -
    have "dget (strict_schema s) ''required'' = Some (JArr rs)"
      unfolding sent using that(1) by (simp add: dget_close_object dget_supported)
    with c(1) that(2) show ?thesis by (force simp: has_required_def list_all_iff)
  qed
  ultimately show ?thesis by (rule that [OF kvs])
qed

section \<open>No conforming analysis revises a plan\<close>

lemma no_seam_evidence:
  assumes "conforms (strict_schema analyze_schema) (JObj evidence)"
  shows "revise_from_evidence fr p evidence = Inr None"
proof -
  obtain ps where ps: "dget analyze_schema ''properties'' = Some (JObj ps)"
    and k: "''missing_extension_point'' \<notin> set (dkeys ps)"
    by (simp add: analyze_schema_def)
  have ty: "dget analyze_schema ''type'' = Some (JStr ''object'')" by (simp add: analyze_schema_def)
  have "''missing_extension_point'' \<notin> set (dkeys evidence)"
  proof (rule conforms_object [OF assms ty ps])
    fix kvs
    assume e: "JObj evidence = JObj kvs" and sub: "\<And>k. k \<in> set (dkeys kvs) \<Longrightarrow> k \<in> set (dkeys ps)"
    from e have "evidence = kvs" by (rule json.inject(6) [THEN iffD1])
    with sub k show ?thesis by iprover
  qed
  then have none: "dget evidence ''missing_extension_point'' = None" by (rule dget_None_iff [THEN iffD2])
  show ?thesis unfolding revise_from_evidence_def evidence_get_def none Let_def by simp
qed

text \<open>
  With a model that keeps to the schema it is sent, a run never revises its plan: the impact analysis
  answers by the schema of the analysis, which closes its keys and has none for the missing extension
  point the planner asks for, so the executor finds nothing to revise whatever the analysis found.
\<close>

theorem conforming_analysis_never_replans:
  assumes "dget (w_outputs (st_world st)) ''impact-analysis'' = Some evidence"
    and "conforms (strict_schema (stage_schema ANALYZE)) (JObj evidence)"
  shows "maybe_replan env st = Inr st"
  using assms no_seam_evidence by (simp add: maybe_replan_def)

definition sample_analysis :: "(string, json) dict" where
  "sample_analysis =
     [(''intent'', JStr ''Shorten links''), (''acceptance_criteria'', JArr [JStr ''returns 201'']),
      (''constraints'', JArr []), (''ambiguities'', JArr []), (''scenario'', JStr ''brownfield''),
      (''confidence'', JInt 1), (''notes'', JStr ''Impacted modules: app/main.py'')]"

theorem conforming_analysis_never_replans_witness:
  "\<forall>env st. maybe_replan env (st\<lparr>st_world := (st_world st)\<lparr>w_outputs := [(''impact-analysis'', sample_analysis)]\<rparr>\<rparr>)
     = Inr (st\<lparr>st_world := (st_world st)\<lparr>w_outputs := [(''impact-analysis'', sample_analysis)]\<rparr>\<rparr>)"
proof (intro allI conforming_analysis_never_replans)
  show "conforms (strict_schema (stage_schema ANALYZE)) (JObj sample_analysis)" by code_simp
qed simp

section \<open>Files become artifacts\<close>

lemma conforming_file:
  assumes "conforms (strict_schema t) v" and "file_item hint = JObj t"
  shows "\<exists>kvs p c. v = JObj kvs \<and> dget kvs ''path'' = Some (JStr p) \<and> dget kvs ''content'' = Some (JStr c)"
proof -
  from assms(2) have t: "dget t ''type'' = Some (JStr ''object'')"
    "dget t ''required'' = Some (JArr [JStr ''path'', JStr ''content''])" by (auto simp: file_item_def)
  from assms(2) obtain ps pt ct where ps: "dget t ''properties'' = Some (JObj ps)"
    "(''path'', JObj pt) \<in> set ps" "dget pt ''type'' = Some (JStr ''string'')"
    "(''content'', JObj ct) \<in> set ps" "dget ct ''type'' = Some (JStr ''string'')" by (auto simp: file_item_def)
  from conforms_object [OF assms(1) t(1) ps(1)] obtain kvs where kvs: "v = JObj kvs"
    and sub: "\<And>k t x. (k, JObj t) \<in> set ps \<Longrightarrow> dget kvs k = Some x \<Longrightarrow> conforms (strict_schema t) x"
    and req: "\<And>rs k. dget t ''required'' = Some (JArr rs) \<Longrightarrow> JStr k \<in> set rs \<Longrightarrow> \<exists>x. dget kvs k = Some x"
    by metis
  from req [OF t(2)] obtain p c where pc: "dget kvs ''path'' = Some p" "dget kvs ''content'' = Some c" by fastforce
  from has_type_cases(3) [OF conforms_type [OF sub [OF ps(2) pc(1)] ps(3)]]
    has_type_cases(3) [OF conforms_type [OF sub [OF ps(4) pc(2)] ps(5)]] kvs pc
  show ?thesis by blast
qed

text \<open>The stages that write files, with the schema of their items.\<close>

lemma files_schema:
  assumes "k \<in> {IMPLEMENT_STAGE, TEST_STAGE, DOCUMENT_STAGE}"
  shows "\<exists>ps s hint t. dget (stage_schema k) ''type'' = Some (JStr ''object'')
    \<and> dget (stage_schema k) ''properties'' = Some (JObj ps) \<and> (''files'', JObj s) \<in> set ps
    \<and> (\<exists>rs. dget (stage_schema k) ''required'' = Some (JArr rs) \<and> JStr ''files'' \<in> set rs)
    \<and> dget s ''type'' = Some (JStr ''array'') \<and> dget s ''items'' = Some (JObj t) \<and> file_item hint = JObj t"
proof -
  have f: "\<exists>t. file_item h = JObj t" for h by (simp add: file_item_def)
  from assms consider "k = IMPLEMENT_STAGE" | "k = TEST_STAGE" | "k = DOCUMENT_STAGE" by blast
  then show ?thesis
  proof cases
    case 1
    with f [of "''Complete file contents. Runnable as written, no placeholders.''"] show ?thesis
      by (auto simp: implement_schema_def)
  next
    case 2
    with f [of "''Complete pytest module. Imports resolve against the implementation files as written.''"] show ?thesis
      by (auto simp: test_schema_def)
  next
    case 3
    with f [of "''Complete markdown document.''"] show ?thesis by (auto simp: document_schema_def)
  qed
qed

text \<open>The artifact a file becomes.\<close>

definition artifact_of_file :: "string \<Rightarrow> json \<Rightarrow> artifact" where
  "artifact_of_file node_id f =
     (let kvs = (case f of JObj kvs \<Rightarrow> kvs | _ \<Rightarrow> []);
          txt = (\<lambda>k. case dget kvs k of Some (JStr s) \<Rightarrow> s | _ \<Rightarrow> [])
      in \<lparr>art_name = txt ''path'', art_content = txt ''content'', art_produced_by = node_id,
          art_path = Some (txt ''path''),
          art_media_type = (if str_endswith (txt ''path'') ''.py'' then ''text/x-python'' else ''text/plain'')\<rparr>)"

text \<open>
  C32: A conforming answer of a stage that writes files has a list of them, and each becomes exactly one
  artifact, under its path and with its content, in order; only an answer with an empty list becomes
  the printed JSON instead, without a path.
\<close>

theorem conforming_files_become_artifacts:
  assumes "k \<in> {IMPLEMENT_STAGE, TEST_STAGE, DOCUMENT_STAGE}"
    and "conforms (strict_schema (stage_schema k)) (JObj parsed)"
  shows "\<exists>files. dget parsed ''files'' = Some (JArr files)
    \<and> artifacts_from_parsed fr parsed node_id fallback =
        (if files = [] then [\<lparr>art_name = fallback, art_content = dumps_indent fr 0 (JObj parsed),
           art_produced_by = node_id, art_path = None, art_media_type = ''application/json''\<rparr>]
         else map (artifact_of_file node_id) files)"
proof -
  from files_schema [OF assms(1)] obtain ps s hint t rs where sch: "dget (stage_schema k) ''type'' = Some (JStr ''object'')"
    "dget (stage_schema k) ''properties'' = Some (JObj ps)" "(''files'', JObj s) \<in> set ps"
    "dget (stage_schema k) ''required'' = Some (JArr rs)" "JStr ''files'' \<in> set rs"
    "dget s ''type'' = Some (JStr ''array'')" "dget s ''items'' = Some (JObj t)" "file_item hint = JObj t" by blast
  from conforms_object [OF assms(2) sch(1,2)] obtain x where x: "dget parsed ''files'' = Some x" "conforms (strict_schema s) x"
    using sch(3-5) by (metis json.inject(6))
  from conforms_array [OF x(2) sch(6,7)] obtain files where f: "x = JArr files"
    "\<And>y. y \<in> set files \<Longrightarrow> conforms (strict_schema t) y" by blast
  have "file_artifact fr node_id y = Some (artifact_of_file node_id y)" if "y \<in> set files" for y
    using conforming_file [OF f(2) [OF that] sch(8)] by (auto simp: file_artifact_def artifact_of_file_def)
  then have "List.map_filter (file_artifact fr node_id) files = map (artifact_of_file node_id) files"
    by (induction files) (simp_all add: map_filter_simps)
  then show ?thesis using x(1) f(1) by (intro exI [of _ files]) (simp add: artifacts_from_parsed_def)
qed

theorem conforming_files_become_artifacts_witness:
  "artifacts_from_parsed (\<lambda>_. []) [(''files'', JArr [JObj [(''path'', JStr ''README.md''), (''content'', JStr ''Hi'')]])] ''document'' ''x''
   = [\<lparr>art_name = ''README.md'', art_content = ''Hi'', art_produced_by = ''document'', art_path = Some ''README.md'',
       art_media_type = ''text/plain''\<rparr>]"
proof -
  let ?parsed = "[(''files'', JArr [JObj [(''path'', JStr ''README.md''), (''content'', JStr ''Hi'')]])]"
  have "DOCUMENT_STAGE \<in> {IMPLEMENT_STAGE, TEST_STAGE, DOCUMENT_STAGE}" by simp
  moreover have "conforms (strict_schema (stage_schema DOCUMENT_STAGE)) (JObj ?parsed)" by code_simp
  ultimately show ?thesis
    using conforming_files_become_artifacts [of DOCUMENT_STAGE ?parsed "\<lambda>_. []" "''document''" "''x''"]
    by (auto simp: artifact_of_file_def str_endswith_def)
qed

section \<open>An analysis becomes a problem\<close>

lemma conforming_strings:
  assumes "conforms (strict_schema s) v" and "dget s ''type'' = Some (JStr ''array'')"
    and "dget s ''items'' = Some (JObj [(''type'', JStr ''string'')])"
  shows "\<exists>xs. v = JArr (map JStr xs)"
proof -
  from conforms_array [OF assms] obtain vs where v: "v = JArr vs"
    "\<And>x. x \<in> set vs \<Longrightarrow> conforms (strict_schema [(''type'', JStr ''string'')]) x" by blast
  have "\<forall>x \<in> set vs. \<exists>t. x = JStr t" using v(2) conforms_type [of "[(''type'', JStr ''string'')]" _ "''string''"] has_type_cases(3) by auto
  then have "vs = map JStr (map (\<lambda>v. case v of JStr t \<Rightarrow> t | _ \<Rightarrow> []) vs)" by (auto intro!: map_idI [symmetric])
  with v(1) show ?thesis by blast
qed

lemma iter_strings: "dget d k = Some (JArr (map JStr xs)) \<Longrightarrow> iter_field d k = Inr (map JStr xs)"
  by (cases xs) (simp_all add: iter_field_def)

lemma py_str_strings [simp]: "map (py_str fr) (map JStr xs) = xs"
  by (simp add: comp_def)

lemma conforming_ambiguity:
  assumes "conforms (strict_schema t) v" and "ambiguity_item = JObj t"
  shows "\<exists>kvs a. v = JObj kvs \<and> to_ambiguity fr kvs = Inr a"
proof -
  from assms(2) have t: "dget t ''type'' = Some (JStr ''object'')"
    "dget t ''required'' = Some (JArr [JStr ''question'', JStr ''why_it_matters'', JStr ''blocking'', JStr ''options''])"
    by (auto simp: ambiguity_item_def)
  from assms(2) obtain ps os where ps: "dget t ''properties'' = Some (JObj ps)" "(''options'', JObj os) \<in> set ps"
    "dget os ''type'' = Some (JStr ''array'')" "dget os ''items'' = Some (JObj [(''type'', JStr ''string'')])"
    by (auto simp: ambiguity_item_def)
  from conforms_object [OF assms(1) t(1) ps(1)] obtain kvs where kvs: "v = JObj kvs"
    and sub: "\<And>k t x. (k, JObj t) \<in> set ps \<Longrightarrow> dget kvs k = Some x \<Longrightarrow> conforms (strict_schema t) x"
    and req: "\<And>rs k. dget t ''required'' = Some (JArr rs) \<Longrightarrow> JStr k \<in> set rs \<Longrightarrow> \<exists>x. dget kvs k = Some x"
    by metis
  from req [OF t(2), of "''options''"] obtain o' where o': "dget kvs ''options'' = Some o'" by auto
  from conforming_strings [OF sub [OF ps(2) o'] ps(3,4)] o' obtain xs where "dget kvs ''options'' = Some (JArr (map JStr xs))"
    by blast
  from iter_strings [OF this] kvs show ?thesis by (simp add: to_ambiguity_def)
qed

lemma add_conforming:
  "(\<And>v. v \<in> set vs \<Longrightarrow> \<exists>kvs a. v = JObj kvs \<and> to_ambiguity fr kvs = Inr a) \<Longrightarrow>
   \<exists>as. efold (add_ambiguity fr) vs acc = Inr as"
proof (induction vs arbitrary: acc)
  case (Cons v vs)
  from Cons.prems [of v] obtain kvs a where "v = JObj kvs" "to_ambiguity fr kvs = Inr a" by auto
  with Cons show ?case by (simp add: add_ambiguity_def)
qed simp

text \<open>
  A conforming analysis is read without an error and with nothing lost of its criteria and constraints;
  the one way out is a confidence too large for a float, which the schema as sent no longer bounds.
\<close>

theorem conforming_analysis_is_read:
  assumes "conforms (strict_schema (stage_schema ANALYZE)) (JObj parsed)"
  shows "case to_problem fr requirement parsed of
      Inl e \<Rightarrow> fst e = ''OverflowError'' \<and> (\<exists>i. dget parsed ''confidence'' = Some (JInt i) \<and> 2 ^ 1024 - 2 ^ 970 \<le> \<bar>i\<bar>)
    | Inr p \<Rightarrow> dget parsed ''acceptance_criteria'' = Some (JArr (map JStr (ep_acceptance_criteria p)))
        \<and> dget parsed ''constraints'' = Some (JArr (map JStr (ep_constraints p)))"
proof -
  let ?s = analyze_schema
  have a: "conforms (strict_schema ?s) (JObj parsed)" using assms by simp
  obtain ps cs ks am cf t where ps: "dget ?s ''properties'' = Some (JObj ps)"
    "(''acceptance_criteria'', JObj cs) \<in> set ps" "dget cs ''type'' = Some (JStr ''array'')"
    "dget cs ''items'' = Some (JObj [(''type'', JStr ''string'')])"
    "(''constraints'', JObj ks) \<in> set ps" "dget ks ''type'' = Some (JStr ''array'')"
    "dget ks ''items'' = Some (JObj [(''type'', JStr ''string'')])"
    "(''ambiguities'', JObj am) \<in> set ps" "dget am ''type'' = Some (JStr ''array'')"
    "dget am ''items'' = Some (JObj t)" "ambiguity_item = JObj t"
    "(''confidence'', JObj cf) \<in> set ps" "dget cf ''type'' = Some (JStr ''number'')"
    by (auto simp: analyze_schema_def ambiguity_item_def)
  have ty: "dget ?s ''type'' = Some (JStr ''object'')"
    and rq: "\<exists>rs. dget ?s ''required'' = Some (JArr rs)
      \<and> {JStr ''acceptance_criteria'', JStr ''constraints'', JStr ''ambiguities'', JStr ''confidence''} \<subseteq> set rs"
    by (simp_all add: analyze_schema_def)
  from conforms_object [OF a ty ps(1)]
  have sub: "\<And>k t x. (k, JObj t) \<in> set ps \<Longrightarrow> dget parsed k = Some x \<Longrightarrow> conforms (strict_schema t) x"
    and req: "\<And>rs k. dget ?s ''required'' = Some (JArr rs) \<Longrightarrow> JStr k \<in> set rs \<Longrightarrow> \<exists>x. dget parsed k = Some x"
    by (metis json.inject(6))+
  from rq req obtain c k m f where g: "dget parsed ''acceptance_criteria'' = Some c" "dget parsed ''constraints'' = Some k"
    "dget parsed ''ambiguities'' = Some m" "dget parsed ''confidence'' = Some f" by (metis insert_subset)
  from conforming_strings [OF sub [OF ps(2) g(1)] ps(3,4)] obtain c' where c: "c = JArr (map JStr c')" by blast
  from conforming_strings [OF sub [OF ps(5) g(2)] ps(6,7)] obtain k' where k: "k = JArr (map JStr k')" by blast
  from conforms_array [OF sub [OF ps(8) g(3)] ps(9,10)] obtain ms where m: "m = JArr ms"
    "\<And>x. x \<in> set ms \<Longrightarrow> conforms (strict_schema t) x" by blast
  from add_conforming [of ms fr "[]"] conforming_ambiguity [OF m(2) ps(11)]
  obtain as where as: "efold (add_ambiguity fr) ms [] = Inr as" by blast
  have im: "iter_field parsed ''ambiguities'' = Inr ms" using g(3) m(1) by (cases ms) (simp_all add: iter_field_def)
  note it = iter_strings [OF g(1) [unfolded c]] iter_strings [OF g(2) [unfolded k]]
  from has_type_cases(5) [OF conforms_type [OF sub [OF ps(12) g(4)] ps(13)]]
  consider i where "f = JInt i" | x where "f = JFloat (Fin x)" by blast
  then show ?thesis
  proof cases
    case (1 i)
    then show ?thesis using g c k by (simp add: to_problem_def im as it confidence_of_def)
  next
    case (2 x)
    then show ?thesis using g c k by (simp add: to_problem_def im as it confidence_of_def)
  qed
qed

end
