(* ===== verification/Live.thy ===== *)
theory Live
  imports Metrics GraphQueries
begin

text \<open>
  The live view of a run, \<open>ui/live.py\<close>: the state of the board, the hooks the executor drives it
  with, the plain lines it logs when the output is not a terminal, and the frame it paints on every
  refresh. \<open>rich\<close> only displays what it is given: a frame is the list of blocks handed to it, a text
  the list of its styled parts. The monotonic clock is the function \<open>clk\<close> from the number of readings
  taken so far to seconds. A lookup that could raise is a branch of the model, so the claim of the
  module's header, that the view never raises at its caller, is a theorem.

  A glyph is its code point, because the strings of the model stop at Latin-1.
\<close>

section \<open>How states are shown\<close>

fun STATE_STYLE :: "task_state \<Rightarrow> string" where
  "STATE_STYLE SUBMITTED = ''dim''"
| "STATE_STYLE WORKING = ''bold yellow''"
| "STATE_STYLE COMPLETED = ''bold green''"
| "STATE_STYLE FAILED = ''bold red''"
| "STATE_STYLE CANCELED = ''grey50''"
| "STATE_STYLE INPUT_REQUIRED = ''bold magenta''"
| "STATE_STYLE REJECTED = ''bold red''"
| "STATE_STYLE AUTH_REQUIRED = ''bold magenta''"

fun STATE_GLYPH :: "task_state \<Rightarrow> nat" where
  "STATE_GLYPH SUBMITTED = 0x25CB"
| "STATE_GLYPH WORKING = 0x25CF"
| "STATE_GLYPH COMPLETED = 0x2713"
| "STATE_GLYPH FAILED = 0x2717"
| "STATE_GLYPH CANCELED = 0x2298"
| "STATE_GLYPH INPUT_REQUIRED = 0x23F8"
| "STATE_GLYPH REJECTED = 0x2716"
| "STATE_GLYPH AUTH_REQUIRED = 0x26BF"

fun STATE_LABEL :: "task_state \<Rightarrow> string" where
  "STATE_LABEL SUBMITTED = ''pending''"
| "STATE_LABEL WORKING = ''working''"
| "STATE_LABEL COMPLETED = ''completed''"
| "STATE_LABEL FAILED = ''failed''"
| "STATE_LABEL CANCELED = ''canceled''"
| "STATE_LABEL INPUT_REQUIRED = ''input required''"
| "STATE_LABEL REJECTED = ''rejected''"
| "STATE_LABEL AUTH_REQUIRED = ''auth required''"

definition state_style :: "task_state \<Rightarrow> string" where
  "state_style s = STATE_STYLE s"

definition NODE_WIDTH_CAP :: nat where
  "NODE_WIDTH_CAP = 32"

definition STAGE_WIDTH :: nat where
  "STAGE_WIDTH = fold max (map (\<lambda>k. length (sk_value k)) all_stages) 0"

definition STATE_WIDTH :: nat where
  "STATE_WIDTH = fold max (map (\<lambda>s. length (STATE_LABEL s)) all_task_states) 0"

fun TIER_STYLE :: "model_tier \<Rightarrow> string" where
  "TIER_STYLE DEEP = ''bold cyan''"
| "TIER_STYLE FAST = ''dim cyan''"

fun SEVERITY_RANK :: "severity \<Rightarrow> nat" where
  "SEVERITY_RANK SEV_INFO = 0"
| "SEVERITY_RANK SEV_LOW = 1"
| "SEVERITY_RANK SEV_MEDIUM = 2"
| "SEVERITY_RANK SEV_HIGH = 3"
| "SEVERITY_RANK SEV_CRITICAL = 4"

text \<open>A plan the graph refuses is laid out as one flat level.\<close>

definition plan_levels :: "plan \<Rightarrow> node_spec list list" where
  "plan_levels p = (case build_graph p of Inl _ \<Rightarrow> [pl_nodes p] | Inr g \<Rightarrow> levels g)"

section \<open>The state of the board\<close>

record node_view =
  nv_spec :: node_spec
  nv_level :: nat
  nv_state :: task_state
  nv_attempts :: int
  nv_started_at :: "real option"
  nv_frozen :: "real option"

definition new_view :: "node_spec \<Rightarrow> nat \<Rightarrow> node_view" where
  "new_view spec depth = \<lparr>nv_spec = spec, nv_level = depth, nv_state = SUBMITTED, nv_attempts = 0,
     nv_started_at = None, nv_frozen = None\<rparr>"

definition nv_elapsed :: "node_view \<Rightarrow> real \<Rightarrow> real" where
  "nv_elapsed v now =
     (case nv_frozen v of
        Some e \<Rightarrow> e
      | None \<Rightarrow> (case nv_started_at v of None \<Rightarrow> 0 | Some s \<Rightarrow> max 0 (now - s)))"

text \<open>
  The fields of a \<open>LiveView\<close>; \<open>lv_live\<close> tells that a \<open>rich.Live\<close> is running, \<open>lv_out\<close> is what went to
  the plain stream, \<open>lv_printed\<close> the lines printed to the console, \<open>lv_reads\<close> the clock readings taken.
\<close>

record live_view =
  lv_plain :: bool
  lv_run_id :: string
  lv_views :: "(string, node_view) dict"
  lv_levels :: "string list list"
  lv_plan_version :: int
  lv_maxlen :: nat
  lv_notes :: "string list"
  lv_started_at :: "real option"
  lv_stopped_at :: "real option"
  lv_retries :: nat
  lv_rollbacks :: nat
  lv_fallbacks :: nat
  lv_gate_denials :: nat
  lv_approvals :: nat
  lv_cost_usd :: real
  lv_live :: bool
  lv_out :: string
  lv_printed :: "string list"
  lv_reads :: nat

text \<open>
  \<open>LiveView.__init__\<close>. \<open>tty\<close> is what \<open>console.is_terminal\<close> or \<open>isatty\<close> of the stream answers.
\<close>

definition new_live_view :: "string \<Rightarrow> bool option \<Rightarrow> bool \<Rightarrow> int \<Rightarrow> live_view" where
  "new_live_view run_id force_plain tty max_notes =
     \<lparr>lv_plain = (case force_plain of Some b \<Rightarrow> b | None \<Rightarrow> \<not> tty), lv_run_id = run_id, lv_views = [],
      lv_levels = [], lv_plan_version = 0, lv_maxlen = nat (max 1 max_notes), lv_notes = [],
      lv_started_at = None, lv_stopped_at = None, lv_retries = 0, lv_rollbacks = 0, lv_fallbacks = 0,
      lv_gate_denials = 0, lv_approvals = 0, lv_cost_usd = 0, lv_live = False, lv_out = [],
      lv_printed = [], lv_reads = 0\<rparr>"

text \<open>\<open>_is_tty\<close>: \<open>None\<close> is a stream without a callable \<open>isatty\<close>, \<open>Some None\<close> one that raises \<open>ValueError\<close>.\<close>

definition is_tty :: "bool option option \<Rightarrow> bool" where
  "is_tty answer = (case answer of Some (Some b) \<Rightarrow> b | _ \<Rightarrow> False)"

text \<open>\<open>time.monotonic()\<close>\<close>

definition monotonic :: "(nat \<Rightarrow> real) \<Rightarrow> live_view \<Rightarrow> real \<times> live_view" where
  "monotonic clk v = (clk (lv_reads v), v\<lparr>lv_reads := lv_reads v + 1\<rparr>)"

definition lv_elapsed :: "(nat \<Rightarrow> real) \<Rightarrow> live_view \<Rightarrow> real \<times> live_view" where
  "lv_elapsed clk v =
     (case lv_started_at v of
        None \<Rightarrow> (0, v)
      | Some s \<Rightarrow>
          (case lv_stopped_at v of
             Some e \<Rightarrow> (max 0 (e - s), v)
           | None \<Rightarrow> (case monotonic clk v of (now, v') \<Rightarrow> (max 0 (now - s), v'))))"

definition count_views :: "(task_state \<Rightarrow> bool) \<Rightarrow> live_view \<Rightarrow> nat" where
  "count_views P v = length (filter (\<lambda>nv. P (nv_state nv)) (dvals (lv_views v)))"

text \<open>\<open>_counts\<close>: completed, failed, all.\<close>

definition lv_counts :: "live_view \<Rightarrow> nat \<times> nat \<times> nat" where
  "lv_counts v = (count_views (\<lambda>s. s = COMPLETED) v, count_views (\<lambda>s. s \<in> {FAILED, REJECTED}) v,
     length (lv_views v))"

text \<open>The closing line; the counters a run did not need are left out.\<close>

definition summary_line :: "(nat \<Rightarrow> real) \<Rightarrow> live_view \<Rightarrow> string \<times> live_view" where
  "summary_line clk v =
     (case lv_counts v of (completed, failed, all_nodes) \<Rightarrow>
      case lv_elapsed clk v of (secs, v') \<Rightarrow>
        (str_join '', ''
           ([''completed '' @ str_nat completed @ ''/'' @ str_nat all_nodes, ''failed '' @ str_nat failed,
             ''retries '' @ str_nat (lv_retries v), ''rollbacks '' @ str_nat (lv_rollbacks v)]
            @ (if lv_fallbacks v \<noteq> 0 then [''fallbacks '' @ str_nat (lv_fallbacks v)] else [])
            @ (if lv_gate_denials v \<noteq> 0 then [''gate denials '' @ str_nat (lv_gate_denials v)] else [])
            @ (if lv_approvals v \<noteq> 0 then [''approvals '' @ str_nat (lv_approvals v)] else [])
            @ [''cost $'' @ fixed 4 (lv_cost_usd v), ''elapsed '' @ fixed 2 secs @ ''s'']), v'))"

section \<open>A frame\<close>

datatype view_error = Key_Error string | Index_Error

type_synonym styled = "string \<times> string"

record board_row =
  br_glyph :: "nat \<times> string"
  br_id :: styled
  br_stage :: styled
  br_state :: "styled option"
  br_attempts :: styled
  br_elapsed :: styled
  br_tier :: styled

text \<open>\<open>_table\<close>: heading, width and whether the column is set to the right.\<close>

type_synonym column = "string \<times> nat \<times> bool"

definition table_columns :: "nat \<Rightarrow> column list" where
  "table_columns node_width =
     [('' '', 3, False), (''NODE'', node_width, False), (''STAGE'', STAGE_WIDTH, False), (''STATE'', STATE_WIDTH, False),
      (''TRY'', 4, True), (''ELAPSED'', 8, True), (''TIER'', 4, False)]"

text \<open>
  The blocks of the panel: the header row, texts, the rows of a level, the rule above the feed, the
  cropped feed, and the rule above the footer.
\<close>

datatype board_block =
    Header_Row "column list"
  | Text_Block "styled list"
  | Level_Rows "column list" "board_row list"
  | Feed_Rule string
  | Feed string
  | Plain_Rule

record frame =
  fr_blocks :: "board_block list"
  fr_title :: string
  fr_subtitle :: string

definition middot :: string where
  "middot = [CHR '' '', CHR '' '', CHR 0xB7, CHR '' '', CHR '' '']"

definition widest_id :: "live_view \<Rightarrow> nat" where
  "widest_id v =
     (case dvals (lv_views v) of
        [] \<Rightarrow> length ''NODE''
      | nv # nvs \<Rightarrow> fold max (map (\<lambda>nv. length (ns_id (nv_spec nv))) nvs) (length (ns_id (nv_spec nv))))"

text \<open>\<open>self._views[nid]\<close> for every id of a level\<close>

fun views_at :: "(string, node_view) dict \<Rightarrow> string list \<Rightarrow> view_error + node_view list" where
  "views_at views [] = Inr []"
| "views_at views (nid # ids) =
     (case dget views nid of
        None \<Rightarrow> Inl (Key_Error nid)
      | Some nv \<Rightarrow> (case views_at views ids of Inl e \<Rightarrow> Inl e | Inr nvs \<Rightarrow> Inr (nv # nvs)))"

definition level_caption :: "live_view \<Rightarrow> nat \<Rightarrow> string list \<Rightarrow> view_error + styled list" where
  "level_caption v depth ids =
     (case views_at (lv_views v) ids of
        Inl e \<Rightarrow> Inl e
      | Inr nvs \<Rightarrow>
          (let running = length (filter (\<lambda>nv. nv_state nv = WORKING) nvs);
               finished = length (filter (\<lambda>nv. is_terminal (nv_state nv)) nvs);
               hint = (if length ids > 1 then str_nat (length ids) @ '' nodes may run in parallel'' else ''1 node'')
           in Inr ([(''level '' @ str_nat depth, ''bold cyan''), (middot, ''dim''), (hint, ''dim'')]
                @ (if running \<noteq> 0 then [(middot, ''dim''), (str_nat running @ '' running now'', ''yellow'')]
                   else if finished = length ids then [(middot, ''dim''), (''done'', ''green'')]
                   else []))))"

text \<open>A working row shows the shared spinner in place of its label.\<close>

definition node_row :: "node_view \<Rightarrow> real \<Rightarrow> board_row" where
  "node_row nv now =
     (let style = state_style (nv_state nv);
          working = nv_state nv = WORKING;
          attempts = nv_attempts nv;
          limit = rp_max_attempts (ns_retry (nv_spec nv));
          id_style = (if working then ''bold'' else if nv_state nv = SUBMITTED then ''dim'' else style)
      in \<lparr>br_glyph = (STATE_GLYPH (nv_state nv), style),
          br_id = (ns_id (nv_spec nv), id_style),
          br_stage = (sk_value (ns_kind (nv_spec nv)), ''dim''),
          br_state = (if working then None else Some (STATE_LABEL (nv_state nv), style)),
          br_attempts = (if attempts = 0 then ''-'' else str_int attempts @ ''/'' @ str_int limit,
             if attempts > 1 then ''yellow'' else ''dim''),
          br_elapsed = (fixed 1 (nv_elapsed nv now) @ ''s'', if working then ''yellow'' else ''dim''),
          br_tier = (mt_value (ns_model_tier (nv_spec nv)), TIER_STYLE (ns_model_tier (nv_spec nv)))\<rparr>)"

definition footer :: "(nat \<Rightarrow> real) \<Rightarrow> live_view \<Rightarrow> styled list \<times> live_view" where
  "footer clk v =
     (case lv_counts v of (completed, failed, all_nodes) \<Rightarrow>
      case lv_elapsed clk v of (secs, v') \<Rightarrow>
        ([(''completed '', ''dim''),
          (str_nat completed @ ''/'' @ str_nat all_nodes, if completed \<noteq> 0 then ''bold green'' else ''bold'')]
         @ (if failed \<noteq> 0 then [(middot, ''dim''), (''failed '', ''dim''), (str_nat failed, ''bold red'')] else [])
         @ [(middot, ''dim''), (''retries '', ''dim''),
            (str_nat (lv_retries v), if lv_retries v \<noteq> 0 then ''yellow'' else ''bold''),
            (middot, ''dim''), (''rollbacks '', ''dim''),
            (str_nat (lv_rollbacks v), if lv_rollbacks v \<noteq> 0 then ''yellow'' else ''bold''),
            (middot, ''dim''), (''elapsed '', ''dim''), (fixed 1 secs @ ''s'', ''bold''),
            (middot, ''dim''), (''cost '', ''dim''), (''$'' @ fixed 4 (lv_cost_usd v), ''bold'')], v'))"

text \<open>The blocks of the levels, one blank line between two of them.\<close>

fun level_blocks :: "live_view \<Rightarrow> real \<Rightarrow> nat \<Rightarrow> nat \<Rightarrow> string list list \<Rightarrow> view_error + board_block list" where
  "level_blocks v now width depth [] = Inr []"
| "level_blocks v now width depth (ids # rest) =
     (case level_caption v depth ids of
        Inl e \<Rightarrow> Inl e
      | Inr caption \<Rightarrow>
          (case views_at (lv_views v) ids of
             Inl e \<Rightarrow> Inl e
           | Inr nvs \<Rightarrow>
               (case level_blocks v now width (depth + 1) rest of
                  Inl e \<Rightarrow> Inl e
                | Inr blocks \<Rightarrow>
                    Inr ((if depth > 1 then [Text_Block []] else [])
                         @ [Text_Block caption, Level_Rows (table_columns width) (map (\<lambda>nv. node_row nv now) nvs)] @ blocks))))"

definition render_frame :: "(nat \<Rightarrow> real) \<Rightarrow> live_view \<Rightarrow> view_error + (frame \<times> live_view)" where
  "render_frame clk v0 =
     (case monotonic clk v0 of (now, v) \<Rightarrow>
        (let width = min (max (widest_id v) (length ''NODE'')) NODE_WIDTH_CAP in
         case level_blocks v now width 1 (lv_levels v) of
           Inl e \<Rightarrow> Inl e
         | Inr blocks \<Rightarrow>
             (case footer clk v of (foot, v') \<Rightarrow>
                (case lv_counts v of (completed, _, all_nodes) \<Rightarrow>
                   Inr (\<lparr>fr_blocks =
                            [Header_Row (table_columns width)]
                            @ (if lv_levels v = [] then [Text_Block [(''  no plan yet'', ''dim'')]] else [])
                            @ blocks
                            @ (if lv_notes v \<noteq> [] then [Feed_Rule '' recent '', Feed (str_join newline (lv_notes v))] else [])
                            @ [Plain_Rule, Text_Block foot],
                          fr_title = ''keel  '' @ (if lv_run_id v = [] then ''run'' else lv_run_id v),
                          fr_subtitle = ''plan v'' @ str_int (lv_plan_version v) @ [CHR '' '', CHR 0xB7, CHR '' '']
                            @ str_nat completed @ ''/'' @ str_nat all_nodes @ '' complete''\<rparr>, v')))))"

section \<open>Output\<close>

text \<open>A refresh of the running \<open>rich.Live\<close> builds the frame.\<close>

definition refresh :: "(nat \<Rightarrow> real) \<Rightarrow> live_view \<Rightarrow> view_error + live_view" where
  "refresh clk v =
     (if lv_live v then (case render_frame clk v of Inl e \<Rightarrow> Inl e | Inr (_, v') \<Rightarrow> Inr v') else Inr v)"

definition write_line :: "string \<Rightarrow> live_view \<Rightarrow> live_view" where
  "write_line line v = v\<lparr>lv_out := lv_out v @ line @ newline\<rparr>"

definition rjust :: "nat \<Rightarrow> string \<Rightarrow> string" where
  "rjust w s = replicate (w - length s) (CHR '' '') @ s"

text \<open>\<open>deque.append\<close> with \<open>maxlen\<close>\<close>

definition push_note :: "nat \<Rightarrow> string \<Rightarrow> string list \<Rightarrow> string list" where
  "push_note maxlen line notes = (let all = notes @ [line] in drop (length all - maxlen) all)"

definition begin_clock :: "(nat \<Rightarrow> real) \<Rightarrow> live_view \<Rightarrow> live_view" where
  "begin_clock clk v =
     (if lv_started_at v = None then (case monotonic clk v of (now, v') \<Rightarrow> v'\<lparr>lv_started_at := Some now\<rparr>) else v)"

definition view_event :: "(nat \<Rightarrow> real) \<Rightarrow> string \<Rightarrow> string \<Rightarrow> live_view \<Rightarrow> view_error + live_view" where
  "view_event clk kind detail v =
     (case lv_elapsed clk (begin_clock clk v) of (secs, v') \<Rightarrow>
        if lv_plain v' then Inr (write_line (rjust 8 (fixed 2 secs) @ ''s  '' @ ljust 9 kind @ detail) v')
        else refresh clk
               (v'\<lparr>lv_notes := push_note (lv_maxlen v')
                    (rjust 7 (fixed 2 secs) @ ''s  '' @ ljust 9 kind @ detail) (lv_notes v')\<rparr>))"

definition unknown :: "(nat \<Rightarrow> real) \<Rightarrow> string \<Rightarrow> string \<Rightarrow> live_view \<Rightarrow> view_error + live_view" where
  "unknown clk kind node_id v =
     view_event clk kind (node_id @ '' is not in the current plan, ignoring'') v"

definition first_line :: "string \<Rightarrow> view_error + string" where
  "first_line text =
     (let stripped = str_strip text in
      if stripped = [] then Inr []
      else (case splitlines stripped of
              [] \<Rightarrow> Inl Index_Error
            | line # _ \<Rightarrow> Inr (if length line \<le> 160 then line else take 157 line @ ''...'')))"

section \<open>Lifecycle\<close>

definition run_name :: "live_view \<Rightarrow> string" where
  "run_name v = (if lv_run_id v = [] then ''(unnamed)'' else lv_run_id v)"

definition view_start :: "(nat \<Rightarrow> real) \<Rightarrow> live_view \<Rightarrow> view_error + live_view" where
  "view_start clk v0 =
     (let v = (begin_clock clk v0)\<lparr>lv_stopped_at := None\<rparr> in
      if lv_plain v
      then Inr (write_line (''keel: run '' @ run_name v @ '' started, '' @ str_nat (length (lv_views v))
                 @ '' nodes, plain output because stdout is not a terminal'') v)
      else if lv_live v then Inr v
      else refresh clk (v\<lparr>lv_live := True\<rparr>))"

definition view_stop :: "(nat \<Rightarrow> real) \<Rightarrow> live_view \<Rightarrow> view_error + live_view" where
  "view_stop clk v0 =
     (let v1 = (if lv_stopped_at v0 = None
                then (case monotonic clk v0 of (now, v) \<Rightarrow> v\<lparr>lv_stopped_at := Some now\<rparr>) else v0)
      in case summary_line clk v1 of (text, v) \<Rightarrow>
        (let line = ''keel: run '' @ run_name v @ '' finished, '' @ text in
         if lv_plain v then Inr (write_line line v)
         else (case refresh clk v of
                 Inl e \<Rightarrow> Inl e
               | Inr v' \<Rightarrow> Inr (v'\<lparr>lv_live := False, lv_printed := lv_printed v' @ [line]\<rparr>))))"

section \<open>The executor's hooks\<close>

text \<open>A node that survives a re-plan keeps its state, attempts and times.\<close>

definition carry_over :: "(string, node_view) dict \<Rightarrow> nat \<Rightarrow> node_spec \<Rightarrow> node_view" where
  "carry_over previous depth spec =
     (case dget previous (ns_id spec) of
        None \<Rightarrow> new_view spec depth
      | Some old \<Rightarrow> (new_view spec depth)\<lparr>nv_state := nv_state old, nv_attempts := nv_attempts old,
          nv_started_at := nv_started_at old, nv_frozen := nv_frozen old\<rparr>)"

definition adopt_level ::
  "(string, node_view) dict \<Rightarrow> nat \<times> node_spec list \<Rightarrow> (string, node_view) dict \<times> string list list
     \<Rightarrow> (string, node_view) dict \<times> string list list"
where
  "adopt_level previous dl acc =
     (case dl of (depth, level) \<Rightarrow> case acc of (views, lvls) \<Rightarrow>
        (fold (\<lambda>spec. dset (ns_id spec) (carry_over previous depth spec)) level views,
         lvls @ [map ns_id level]))"

definition adopt_levels ::
  "(string, node_view) dict \<Rightarrow> node_spec list list \<Rightarrow> (string, node_view) dict \<times> string list list"
where
  "adopt_levels previous lvls = fold (adopt_level previous) (zip [1..<length lvls + 1] lvls) ([], [])"

definition set_plan :: "(nat \<Rightarrow> real) \<Rightarrow> plan \<Rightarrow> live_view \<Rightarrow> view_error + live_view" where
  "set_plan clk p v =
     (let previous = lv_views v in
      case adopt_levels previous (plan_levels p) of (views, lvls) \<Rightarrow>
        (let first_plan = (lv_plan_version v = 0);
             carried = length (filter (\<lambda>i. i \<in> set (dkeys views)) (dkeys previous));
             detail = ''v'' @ str_int (pl_version p) @ '': '' @ str_nat (length views) @ '' nodes in ''
                @ str_nat (length lvls) @ '' levels''
                @ (if first_plan then [] else '', '' @ str_nat carried @ '' carried over'')
         in view_event clk (if first_plan then ''plan'' else ''replan'') detail
              (v\<lparr>lv_views := views, lv_levels := lvls, lv_plan_version := pl_version p\<rparr>)))"

definition set_view :: "string \<Rightarrow> node_view \<Rightarrow> live_view \<Rightarrow> live_view" where
  "set_view i nv v = v\<lparr>lv_views := dset i nv (lv_views v)\<rparr>"

definition on_node_start :: "(nat \<Rightarrow> real) \<Rightarrow> string \<Rightarrow> live_view \<Rightarrow> view_error + live_view" where
  "on_node_start clk i v =
     (case dget (lv_views v) i of
        None \<Rightarrow> unknown clk ''start'' i v
      | Some nv \<Rightarrow>
          (case monotonic clk v of (now, v') \<Rightarrow>
             view_event clk ''start''
               (i @ '' ('' @ sk_value (ns_kind (nv_spec nv)) @ '', '' @ mt_value (ns_model_tier (nv_spec nv)) @ '')'')
               (set_view i (nv\<lparr>nv_state := WORKING, nv_attempts := max (nv_attempts nv) 1,
                  nv_started_at := Some now, nv_frozen := None\<rparr>) v')))"

text \<open>\<open>result.duration or view.elapsed(now)\<close>\<close>

definition or_elapsed :: "real \<Rightarrow> real \<Rightarrow> real" where
  "or_elapsed duration secs = (if duration \<noteq> 0 then duration else secs)"

definition end_detail :: "node_result \<Rightarrow> real \<Rightarrow> view_error + string" where
  "end_detail r duration =
     (let detail = nr_node_id r @ '' '' @ STATE_LABEL (nr_state r) @ '' in '' @ fixed 2 duration @ ''s after ''
            @ str_int (nr_attempts r) @ '' attempt'' @ (if nr_attempts r = 1 then [] else ''s'')
            @ (if nr_rolled_back r then '', rolled back'' else [])
            @ (if nr_used_fallback r then '', used fallback tier'' else [])
      in case nr_error r of
           None \<Rightarrow> Inr detail
         | Some err \<Rightarrow>
             if err = [] then Inr detail
             else map_sum id (\<lambda>line. detail @ '': '' @ line) (first_line err))"

definition add_result :: "node_result \<Rightarrow> live_view \<Rightarrow> live_view" where
  "add_result r v = v\<lparr>lv_cost_usd := lv_cost_usd v + nr_cost_usd r,
     lv_rollbacks := lv_rollbacks v + (if nr_rolled_back r then 1 else 0),
     lv_fallbacks := lv_fallbacks v + (if nr_used_fallback r then 1 else 0)\<rparr>"

definition on_node_end :: "(nat \<Rightarrow> real) \<Rightarrow> node_result \<Rightarrow> live_view \<Rightarrow> view_error + live_view" where
  "on_node_end clk r v0 =
     (case monotonic clk v0 of (now, v) \<Rightarrow>
        (let i = nr_node_id r;
             settled = (case dget (lv_views v) i of
                None \<Rightarrow> map_sum id (\<lambda>v'. (v', 0)) (unknown clk ''end'' i v)
              | Some nv \<Rightarrow>
                  (let nv' = nv\<lparr>nv_state := nr_state r, nv_attempts := max (nv_attempts nv) (nr_attempts r),
                              nv_frozen := Some (or_elapsed (nr_duration r) (nv_elapsed nv now))\<rparr>
                   in Inr (set_view i nv' v, nv_elapsed nv' now)))
         in case settled of
              Inl e \<Rightarrow> Inl e
            | Inr (v1, secs) \<Rightarrow>
                (case end_detail r (or_elapsed (nr_duration r) secs) of
                   Inl e \<Rightarrow> Inl e
                 | Inr detail \<Rightarrow> view_event clk ''end'' detail (add_result r v1))))"

definition on_retry :: "(nat \<Rightarrow> real) \<Rightarrow> string \<Rightarrow> int \<Rightarrow> live_view \<Rightarrow> view_error + live_view" where
  "on_retry clk i attempt v0 =
     (let v = v0\<lparr>lv_retries := lv_retries v0 + 1\<rparr>;
          settled = (case dget (lv_views v) i of
             None \<Rightarrow> unknown clk ''retry'' i v
           | Some nv \<Rightarrow>
               (case monotonic clk v of (now, v') \<Rightarrow>
                  Inr (set_view i (nv\<lparr>nv_state := WORKING, nv_attempts := max (nv_attempts nv) attempt,
                     nv_started_at := Some now, nv_frozen := None\<rparr>) v')))
      in case settled of
           Inl e \<Rightarrow> Inl e
         | Inr v1 \<Rightarrow> view_event clk ''retry'' (i @ '' attempt '' @ str_int attempt) v1)"

text \<open>\<open>max(violations, key=rank)\<close>: the first of the worst.\<close>

definition worst_of :: "policy_violation \<Rightarrow> policy_violation list \<Rightarrow> policy_violation" where
  "worst_of v vs =
     fold (\<lambda>b a. if SEVERITY_RANK (pv_severity a) < SEVERITY_RANK (pv_severity b) then b else a) vs v"

definition gate_detail :: "gate_decision \<Rightarrow> string" where
  "gate_detail d =
     gd_gate d @ '' '' @ gd_node_id d @ '' '' @ (if gd_allowed d then ''allow'' else ''DENY'') @ '': '' @ gd_reason d
     @ (case gd_violations d of
          [] \<Rightarrow> []
        | w # ws \<Rightarrow> '' ('' @ str_nat (length (w # ws)) @ '' violation'' @ (if ws = [] then [] else ''s'')
            @ '', worst '' @ sev_value (pv_severity (worst_of w ws)) @ '')'')"

definition on_gate :: "(nat \<Rightarrow> real) \<Rightarrow> gate_decision \<Rightarrow> live_view \<Rightarrow> view_error + live_view" where
  "on_gate clk d v =
     view_event clk ''gate'' (gate_detail d)
       (if gd_allowed d then v else v\<lparr>lv_gate_denials := lv_gate_denials v + 1\<rparr>)"

definition on_approval_request :: "(nat \<Rightarrow> real) \<Rightarrow> approval_request \<Rightarrow> live_view \<Rightarrow> view_error + live_view" where
  "on_approval_request clk req v0 =
     (let i = aq_node_id req;
          v = v0\<lparr>lv_approvals := lv_approvals v0 + 1\<rparr>;
          settled = (case dget (lv_views v) i of
             None \<Rightarrow> unknown clk ''approval'' i v
           | Some nv \<Rightarrow>
               (case monotonic clk v of (now, v') \<Rightarrow>
                  Inr (set_view i (nv\<lparr>nv_state := INPUT_REQUIRED, nv_frozen := Some (nv_elapsed nv now)\<rparr>) v')))
      in case settled of
           Inl e \<Rightarrow> Inl e
         | Inr v1 \<Rightarrow> view_event clk ''approval''
             (i @ '' needs '' @ impact_value (aq_impact req) @ '' impact sign off ['' @ aq_request_id req @ '']: ''
              @ aq_reason req) v1)"

definition view_note :: "(nat \<Rightarrow> real) \<Rightarrow> string \<Rightarrow> live_view \<Rightarrow> view_error + live_view" where
  "view_note clk msg v = view_event clk ''note'' msg v"

text \<open>What a caller can ask of the view, one call at a time.\<close>

datatype hook =
    Hook_Start
  | Hook_Stop
  | Hook_Set_Plan plan
  | Hook_Node_Start string
  | Hook_Node_End node_result
  | Hook_Retry string int
  | Hook_Gate gate_decision
  | Hook_Approval approval_request
  | Hook_Note string

fun run_hook :: "(nat \<Rightarrow> real) \<Rightarrow> hook \<Rightarrow> live_view \<Rightarrow> view_error + live_view" where
  "run_hook clk Hook_Start v = view_start clk v"
| "run_hook clk Hook_Stop v = view_stop clk v"
| "run_hook clk (Hook_Set_Plan p) v = set_plan clk p v"
| "run_hook clk (Hook_Node_Start i) v = on_node_start clk i v"
| "run_hook clk (Hook_Node_End r) v = on_node_end clk r v"
| "run_hook clk (Hook_Retry i attempt) v = on_retry clk i attempt v"
| "run_hook clk (Hook_Gate d) v = on_gate clk d v"
| "run_hook clk (Hook_Approval req) v = on_approval_request clk req v"
| "run_hook clk (Hook_Note msg) v = view_note clk msg v"

definition run_hooks :: "(nat \<Rightarrow> real) \<Rightarrow> hook list \<Rightarrow> live_view \<Rightarrow> view_error + live_view" where
  "run_hooks clk hooks v = efold (run_hook clk) hooks v"

end
