(* ===== verification/LiveProps.thy ===== *)
theory LiveProps
  imports Live
begin

text \<open>
  The live view keeps what it promises its caller: no hook raises, whatever the order of the calls
  and whatever they name, because every id a frame looks up is on the board; the totals count the
  hooks; a re-plan keeps the rows it does not drop. What it does not keep: a row that waited for an
  approval shows as waiting for the whole attempt that follows.
\<close>

section \<open>Painting a frame\<close>

definition board_ok :: "live_view \<Rightarrow> bool" where
  "board_ok v \<longleftrightarrow> (\<forall>ids \<in> set (lv_levels v). set ids \<subseteq> set (dkeys (lv_views v)))
     \<and> length (lv_notes v) \<le> lv_maxlen v"

text \<open>Taking a reading changes nothing else.\<close>

definition only_reads :: "live_view \<Rightarrow> live_view \<Rightarrow> bool" where
  "only_reads v v' \<longleftrightarrow> v' = v\<lparr>lv_reads := lv_reads v'\<rparr>"

lemma monotonic_only_reads: "monotonic clk v = (now, v') \<Longrightarrow> only_reads v v'"
  by (auto simp: monotonic_def only_reads_def)

lemma lv_elapsed_only_reads: "lv_elapsed clk v = (secs, v') \<Longrightarrow> only_reads v v'"
  by (auto simp: lv_elapsed_def monotonic_def only_reads_def split: option.splits)

lemma footer_only_reads: "footer clk v = (foot, v') \<Longrightarrow> only_reads v v'"
  using lv_elapsed_only_reads [of clk v] by (auto simp: footer_def lv_counts_def split: prod.splits)

lemma only_reads_trans: "only_reads u v \<Longrightarrow> only_reads v w \<Longrightarrow> only_reads u w"
  unfolding only_reads_def by (metis live_view.surjective live_view.update_convs(19))

lemma views_at_total: "set ids \<subseteq> set (dkeys views) \<Longrightarrow> \<exists>nvs. views_at views ids = Inr nvs"
proof (induction ids)
  case Nil
  then show ?case by simp
next
  case (Cons i ids)
  then obtain nvs where nvs: "views_at views ids = Inr nvs" by auto
  from Cons.prems have "i \<in> set (dkeys views)" by simp
  then obtain nv where "dget views i = Some nv" by (metis dget_Some_iff)
  with nvs show ?case by simp
qed

lemma level_caption_total:
  "set ids \<subseteq> set (dkeys (lv_views v)) \<Longrightarrow> \<exists>c. level_caption v depth ids = Inr c"
  using views_at_total [of ids "lv_views v"] by (auto simp: level_caption_def Let_def)

lemma level_blocks_total:
  "\<forall>ids \<in> set lvls. set ids \<subseteq> set (dkeys (lv_views v)) \<Longrightarrow> \<exists>bs. level_blocks v now width depth lvls = Inr bs"
proof (induction lvls arbitrary: depth)
  case Nil
  then show ?case by simp
next
  case (Cons ids rest)
  then obtain bs where "level_blocks v now width (depth + 1) rest = Inr bs" by force
  moreover from Cons.prems have "set ids \<subseteq> set (dkeys (lv_views v))" by simp
  ultimately show ?case
    using level_caption_total [of ids v depth] views_at_total [of ids "lv_views v"] by auto
qed

lemma render_total:
  assumes "board_ok v"
  shows "\<exists>f v'. render_frame clk v = Inr (f, v') \<and> only_reads v v'"
proof -
  obtain now v1 where m: "monotonic clk v = (now, v1)" by fastforce
  note r1 = monotonic_only_reads [OF m]
  then have "\<forall>ids \<in> set (lv_levels v1). set ids \<subseteq> set (dkeys (lv_views v1))"
    using assms unfolding board_ok_def only_reads_def by (metis live_view.ext_inject live_view.surjective live_view.update_convs(19))
  from level_blocks_total [OF this]
  obtain bs where bs: "level_blocks v1 now (min (max (widest_id v1) (length ''NODE'')) NODE_WIDTH_CAP) 1 (lv_levels v1) = Inr bs"
    by blast
  obtain foot v2 where f: "footer clk v1 = (foot, v2)" by fastforce
  have "only_reads v v2" using only_reads_trans [OF r1 footer_only_reads [OF f]] .
  with bs f show ?thesis by (simp add: render_frame_def m Let_def lv_counts_def)
qed

lemma refresh_total: "board_ok v \<Longrightarrow> \<exists>v'. refresh clk v = Inr v' \<and> only_reads v v'"
  using render_total [of v clk] by (auto simp: refresh_def only_reads_def)

section \<open>What an event changes\<close>

text \<open>The parts of the view only the hooks change.\<close>

definition board :: "live_view \<Rightarrow> _" where
  "board v = (lv_views v, lv_levels v, lv_plan_version v,
     (lv_retries v, lv_rollbacks v, lv_fallbacks v, lv_gate_denials v, lv_approvals v, lv_cost_usd v),
     lv_plain v, lv_maxlen v)"

lemma only_reads_board:
  assumes "only_reads v v'"
  shows "board v' = board v" and "lv_notes v' = lv_notes v" and "board_ok v' = board_ok v"
proof -
  obtain n where v': "v' = v\<lparr>lv_reads := n\<rparr>" using assms unfolding only_reads_def by blast
  show "board v' = board v" "lv_notes v' = lv_notes v" "board_ok v' = board_ok v"
    by (simp_all add: v' board_def board_ok_def)
qed

lemma begin_clock_board:
  "board (begin_clock clk v) = board v" "lv_notes (begin_clock clk v) = lv_notes v"
  "board_ok (begin_clock clk v) = board_ok v"
  by (simp_all add: begin_clock_def monotonic_def board_def board_ok_def)

lemma push_note_bound: "length (push_note n line notes) \<le> n"
  by (simp add: push_note_def Let_def)

lemma board_ok_write: "board_ok (write_line line v) = board_ok v" "board (write_line line v) = board v"
  by (simp_all add: board_ok_def board_def write_line_def)

lemma board_ok_note:
  "board_ok v \<Longrightarrow> board_ok (v\<lparr>lv_notes := push_note (lv_maxlen v) line (lv_notes v)\<rparr>)"
  by (simp add: board_ok_def push_note_bound)

lemma view_event_total:
  assumes "board_ok v"
  shows "\<exists>v'. view_event clk kind detail v = Inr v' \<and> board_ok v' \<and> board v' = board v"
proof -
  obtain secs v1 where e: "lv_elapsed clk (begin_clock clk v) = (secs, v1)" by fastforce
  note r = only_reads_board [OF lv_elapsed_only_reads [OF e]]
  from r assms have ok: "board_ok v1" and b: "board v1 = board v" by (simp_all add: begin_clock_board)
  show ?thesis
  proof (cases "lv_plain v1")
    case True
    with e ok b show ?thesis by (simp add: view_event_def board_ok_write)
  next
    case False
    define v2 where "v2 = v1\<lparr>lv_notes := push_note (lv_maxlen v1) (rjust 7 (fixed 2 secs) @ ''s  '' @ ljust 9 kind @ detail) (lv_notes v1)\<rparr>"
    from ok have ok2: "board_ok v2" by (simp add: v2_def board_ok_note)
    have b2: "board v2 = board v1" by (simp add: v2_def board_def)
    obtain v3 where v3: "refresh clk v2 = Inr v3" "only_reads v2 v3" using refresh_total [OF ok2] by blast
    have "view_event clk kind detail v = Inr v3" using e False v3(1) by (simp add: view_event_def v2_def)
    moreover have "board_ok v3" "board v3 = board v"
      using only_reads_board [OF v3(2)] ok2 b2 b by simp_all
    ultimately show ?thesis by blast
  qed
qed

lemma splitlines_acc_cur: "cur \<noteq> [] \<Longrightarrow> splitlines_acc cur s \<noteq> []"
  by (induction cur s rule: splitlines_acc.induct) auto

lemma splitlines_Nil_iff: "splitlines s = [] \<longleftrightarrow> s = []"
  by (cases s) (auto simp: splitlines_def splitlines_acc_cur)

lemma first_line_total: "\<exists>l. first_line s = Inr l"
  by (auto simp: first_line_def Let_def splitlines_Nil_iff split: list.splits)

lemma end_detail_total: "\<exists>d. end_detail r secs = Inr d"
  using first_line_total by (auto simp: end_detail_def Let_def map_sum_Inr split: option.splits)

section \<open>Every hook returns\<close>

lemma board_ok_board:
  "board v' = board v \<Longrightarrow> length (lv_notes v') \<le> lv_maxlen v' \<Longrightarrow> board_ok v \<Longrightarrow> board_ok v'"
  by (simp add: board_def board_ok_def)

text \<open>A hook that only moves counters and rows that exist leaves the board paintable.\<close>

lemma board_ok_set_view: "board_ok v \<Longrightarrow> board_ok (set_view i nv v)"
  by (auto simp: board_ok_def set_view_def)

lemma board_ok_counters:
  "board_ok (v\<lparr>lv_retries := n\<rparr>) = board_ok v" "board_ok (v\<lparr>lv_approvals := n\<rparr>) = board_ok v"
  "board_ok (v\<lparr>lv_gate_denials := n\<rparr>) = board_ok v" "board_ok (add_result r v) = board_ok v"
  "board_ok (v\<lparr>lv_started_at := t\<rparr>) = board_ok v" "board_ok (v\<lparr>lv_stopped_at := t\<rparr>) = board_ok v"
  "board_ok (v\<lparr>lv_live := b\<rparr>) = board_ok v" "board_ok (v\<lparr>lv_printed := ls\<rparr>) = board_ok v"
  "board_ok (v\<lparr>lv_reads := k\<rparr>) = board_ok v"
  by (simp_all add: board_ok_def add_result_def)

lemma monotonic_simp: "monotonic clk v = (clk (lv_reads v), v\<lparr>lv_reads := lv_reads v + 1\<rparr>)"
  by (simp add: monotonic_def)

lemma adopt_level_ok:
  assumes "adopt_level previous dl acc = (views', lvls')"
    and "\<forall>ids \<in> set (snd acc). set ids \<subseteq> set (dkeys (fst acc))"
  shows "\<forall>ids \<in> set lvls'. set ids \<subseteq> set (dkeys views')"
proof -
  obtain depth level views lvls where [simp]: "dl = (depth, level)" "acc = (views, lvls)" by fastforce
  have keys: "set (dkeys (fold (\<lambda>spec. dset (ns_id spec) (carry_over previous depth spec)) level vs))
      = set (dkeys vs) \<union> set (map ns_id level)" for vs
    by (induction level arbitrary: vs) auto
  show ?thesis using assms keys [of views] by (auto simp: adopt_level_def)
qed

lemma adopt_levels_ok:
  assumes "adopt_levels previous lvls = (views', lvls')"
  shows "\<forall>ids \<in> set lvls'. set ids \<subseteq> set (dkeys views')"
proof -
  have "\<forall>ids \<in> set (snd (fold (adopt_level previous) dls acc)). set ids \<subseteq> set (dkeys (fst (fold (adopt_level previous) dls acc)))"
    if "\<forall>ids \<in> set (snd acc). set ids \<subseteq> set (dkeys (fst acc))" for dls acc
    using that
  proof (induction dls arbitrary: acc)
    case Nil
    then show ?case by simp
  next
    case (Cons dl dls)
    have "\<forall>ids \<in> set (snd (adopt_level previous dl acc)). set ids \<subseteq> set (dkeys (fst (adopt_level previous dl acc)))"
      by (rule adopt_level_ok [OF _ Cons.prems]) simp
    from Cons.IH [OF this] show ?case by simp
  qed
  from this [of "([], [])" "zip [1..<length lvls + 1] lvls"] assms show ?thesis
    by (simp add: adopt_levels_def del: upt_Suc)
qed

section \<open>The board the hooks describe\<close>

text \<open>
  What the board says, without clock, output or layout: the state and attempts of each row, and the
  totals.
\<close>

record abs_board =
  ab_rows :: "string \<Rightarrow> (task_state \<times> int) option"
  ab_retries :: nat
  ab_rollbacks :: nat
  ab_fallbacks :: nat
  ab_denials :: nat
  ab_approvals :: nat
  ab_cost :: real

definition row_of :: "node_view \<Rightarrow> task_state \<times> int" where
  "row_of nv = (nv_state nv, nv_attempts nv)"

definition abs_view :: "live_view \<Rightarrow> abs_board" where
  "abs_view v = \<lparr>ab_rows = (\<lambda>i. map_option row_of (dget (lv_views v) i)), ab_retries = lv_retries v,
     ab_rollbacks = lv_rollbacks v, ab_fallbacks = lv_fallbacks v, ab_denials = lv_gate_denials v,
     ab_approvals = lv_approvals v, ab_cost = lv_cost_usd v\<rparr>"

definition abs_init :: abs_board where
  "abs_init = \<lparr>ab_rows = (\<lambda>i. None), ab_retries = 0, ab_rollbacks = 0, ab_fallbacks = 0, ab_denials = 0,
     ab_approvals = 0, ab_cost = 0\<rparr>"

text \<open>A hook for a row that is not on the board changes no row.\<close>

definition change_row :: "string \<Rightarrow> (task_state \<times> int \<Rightarrow> task_state \<times> int) \<Rightarrow> abs_board \<Rightarrow> abs_board" where
  "change_row i f b = b\<lparr>ab_rows := (ab_rows b)(i := map_option f (ab_rows b i))\<rparr>"

fun abs_step :: "hook \<Rightarrow> abs_board \<Rightarrow> abs_board" where
  "abs_step Hook_Start b = b"
| "abs_step Hook_Stop b = b"
| "abs_step (Hook_Note _) b = b"
| "abs_step (Hook_Set_Plan p) b = b\<lparr>ab_rows := (\<lambda>i.
     if i \<in> ns_id ` set (concat (plan_levels p))
     then (case ab_rows b i of None \<Rightarrow> Some (SUBMITTED, 0) | Some r \<Rightarrow> Some r) else None)\<rparr>"
| "abs_step (Hook_Node_Start i) b = change_row i (\<lambda>(s, n). (WORKING, max n 1)) b"
| "abs_step (Hook_Node_End r) b =
     change_row (nr_node_id r) (\<lambda>(s, n). (nr_state r, max n (nr_attempts r)))
       (b\<lparr>ab_cost := ab_cost b + nr_cost_usd r,
          ab_rollbacks := ab_rollbacks b + (if nr_rolled_back r then 1 else 0),
          ab_fallbacks := ab_fallbacks b + (if nr_used_fallback r then 1 else 0)\<rparr>)"
| "abs_step (Hook_Retry i attempt) b =
     change_row i (\<lambda>(s, n). (WORKING, max n attempt)) (b\<lparr>ab_retries := ab_retries b + 1\<rparr>)"
| "abs_step (Hook_Gate d) b = (if gd_allowed d then b else b\<lparr>ab_denials := ab_denials b + 1\<rparr>)"
| "abs_step (Hook_Approval req) b =
     change_row (aq_node_id req) (\<lambda>(s, n). (INPUT_REQUIRED, n)) (b\<lparr>ab_approvals := ab_approvals b + 1\<rparr>)"

lemma abs_view_board: "board v' = board v \<Longrightarrow> abs_view v' = abs_view v"
  by (simp add: board_def abs_view_def)

text \<open>A hook that moves the view to \<open>u\<close> and reports the event does what \<open>u\<close> shows.\<close>

lemma event_after:
  assumes "board_ok u" and "abs_view u = b"
  shows "\<exists>v'. view_event clk kind detail u = Inr v' \<and> board_ok v' \<and> abs_view v' = b"
  using view_event_total [OF assms(1), of clk kind detail] abs_view_board assms(2) by metis

lemma abs_view_set_view:
  "dget (lv_views v) i = Some nv \<Longrightarrow>
     abs_view (set_view i (nv\<lparr>nv_state := s, nv_attempts := g (nv_attempts nv), nv_started_at := t, nv_frozen := e\<rparr>) v)
     = change_row i (\<lambda>(s', n). (s, g n)) (abs_view v)"
  "dget (lv_views v) i = Some nv \<Longrightarrow>
     abs_view (set_view i (nv\<lparr>nv_state := s, nv_attempts := g (nv_attempts nv), nv_frozen := e\<rparr>) v)
     = change_row i (\<lambda>(s', n). (s, g n)) (abs_view v)"
  "dget (lv_views v) i = Some nv \<Longrightarrow>
     abs_view (set_view i (nv\<lparr>nv_state := s, nv_frozen := e\<rparr>) v)
     = change_row i (\<lambda>(s', n). (s, n)) (abs_view v)"
  by (auto simp: abs_view_def set_view_def change_row_def row_of_def fun_eq_iff)

lemma change_row_absent: "dget (lv_views v) i = None \<Longrightarrow> change_row i f (abs_view v) = abs_view v"
  by (auto simp: abs_view_def change_row_def fun_eq_iff)

lemma abs_view_counters:
  "abs_view (v\<lparr>lv_reads := k\<rparr>) = abs_view v"
  "abs_view (v\<lparr>lv_retries := n\<rparr>) = (abs_view v)\<lparr>ab_retries := n\<rparr>"
  "abs_view (v\<lparr>lv_approvals := n\<rparr>) = (abs_view v)\<lparr>ab_approvals := n\<rparr>"
  "abs_view (v\<lparr>lv_gate_denials := n\<rparr>) = (abs_view v)\<lparr>ab_denials := n\<rparr>"
  "abs_view (add_result r v) = (abs_view v)\<lparr>ab_cost := ab_cost (abs_view v) + nr_cost_usd r,
     ab_rollbacks := ab_rollbacks (abs_view v) + (if nr_rolled_back r then 1 else 0),
     ab_fallbacks := ab_fallbacks (abs_view v) + (if nr_used_fallback r then 1 else 0)\<rparr>"
  by (simp_all add: abs_view_def add_result_def)

lemma change_row_counters:
  "change_row i f (b\<lparr>ab_retries := n\<rparr>) = (change_row i f b)\<lparr>ab_retries := n\<rparr>"
  "change_row i f (b\<lparr>ab_approvals := n\<rparr>) = (change_row i f b)\<lparr>ab_approvals := n\<rparr>"
  by (simp_all add: change_row_def)

definition step_ok :: "hook \<Rightarrow> live_view \<Rightarrow> view_error + live_view \<Rightarrow> bool" where
  "step_ok h v out \<longleftrightarrow> (\<exists>v'. out = Inr v' \<and> board_ok v' \<and> abs_view v' = abs_step h (abs_view v))"

lemma step_okI: "board_ok u \<Longrightarrow> abs_view u = abs_step h (abs_view v) \<Longrightarrow> step_ok h v (view_event clk kind detail u)"
  unfolding step_ok_def by (rule event_after)

lemma node_start_step: "board_ok v \<Longrightarrow> step_ok (Hook_Node_Start i) v (on_node_start clk i v)"
  using abs_view_set_view(1) [where v = "v\<lparr>lv_reads := lv_reads v + 1\<rparr>" and i = i and s = WORKING and g = "\<lambda>n. max n 1"]
  by (cases "dget (lv_views v) i")
    (auto simp: on_node_start_def unknown_def monotonic_simp change_row_absent board_ok_set_view
      board_ok_counters abs_view_counters intro!: step_okI)

lemma unknown_step:
  assumes "board_ok u"
  obtains v' where "unknown clk kind i u = Inr v'" "board_ok v'" "abs_view v' = abs_view u"
    "board v' = board u"
  using view_event_total [OF assms] abs_view_board unfolding unknown_def by metis

lemma retry_step: assumes "board_ok v" shows "step_ok (Hook_Retry i attempt) v (on_retry clk i attempt v)"
proof (cases "dget (lv_views v) i")
  case None
  from assms obtain v' where v': "unknown clk ''retry'' i (v\<lparr>lv_retries := lv_retries v + 1\<rparr>) = Inr v'" "board_ok v'"
    "abs_view v' = abs_view (v\<lparr>lv_retries := lv_retries v + 1\<rparr>)"
    using unknown_step board_ok_counters(1) by metis
  have "abs_view v' = abs_step (Hook_Retry i attempt) (abs_view v)"
    using None by (simp add: v'(3) abs_view_counters change_row_counters change_row_absent)
      (simp add: abs_view_def)
  with v'(1,2) None show ?thesis by (auto simp: on_retry_def Let_def intro: step_okI)
next
  case (Some nv)
  let ?u = "v\<lparr>lv_retries := lv_retries v + 1, lv_reads := lv_reads v + 1\<rparr>"
  have "abs_view (set_view i (nv\<lparr>nv_state := WORKING, nv_attempts := max (nv_attempts nv) attempt,
      nv_started_at := Some (clk (lv_reads v)), nv_frozen := None\<rparr>) ?u)
    = abs_step (Hook_Retry i attempt) (abs_view v)"
    using abs_view_set_view(1) [where v = ?u and i = i and nv = nv and s = WORKING and g = "\<lambda>n. max n attempt"] Some
    by (simp add: abs_view_counters) (simp add: abs_view_def)
  with Some assms show ?thesis
    by (auto simp: on_retry_def Let_def monotonic_simp board_ok_set_view board_ok_counters intro!: step_okI)
qed

lemma approval_step: assumes "board_ok v" shows "step_ok (Hook_Approval req) v (on_approval_request clk req v)"
proof (cases "dget (lv_views v) (aq_node_id req)")
  case None
  from assms obtain v' where v': "unknown clk ''approval'' (aq_node_id req) (v\<lparr>lv_approvals := lv_approvals v + 1\<rparr>) = Inr v'"
    "board_ok v'" "abs_view v' = abs_view (v\<lparr>lv_approvals := lv_approvals v + 1\<rparr>)"
    using unknown_step board_ok_counters(2) by metis
  have "abs_view v' = abs_step (Hook_Approval req) (abs_view v)"
    using None by (simp add: v'(3) abs_view_counters change_row_counters change_row_absent)
      (simp add: abs_view_def)
  with v'(1,2) None show ?thesis by (auto simp: on_approval_request_def Let_def intro: step_okI)
next
  case (Some nv)
  let ?u = "v\<lparr>lv_approvals := lv_approvals v + 1, lv_reads := lv_reads v + 1\<rparr>"
  have "abs_view (set_view (aq_node_id req) (nv\<lparr>nv_state := INPUT_REQUIRED, nv_frozen := Some (nv_elapsed nv (clk (lv_reads v)))\<rparr>) ?u)
    = abs_step (Hook_Approval req) (abs_view v)"
    using abs_view_set_view(3) [where v = ?u and i = "aq_node_id req" and nv = nv and s = INPUT_REQUIRED] Some
    by (simp add: abs_view_counters) (simp add: abs_view_def)
  with Some assms show ?thesis
    by (auto simp: on_approval_request_def Let_def monotonic_simp board_ok_set_view board_ok_counters intro!: step_okI)
qed

lemma abs_view_parts:
  "abs_view (v\<lparr>lv_started_at := t\<rparr>) = abs_view v" "abs_view (v\<lparr>lv_stopped_at := t\<rparr>) = abs_view v"
  "abs_view (v\<lparr>lv_live := b\<rparr>) = abs_view v" "abs_view (v\<lparr>lv_printed := ls\<rparr>) = abs_view v"
  "abs_view (write_line line v) = abs_view v" "abs_view (begin_clock clk v) = abs_view v"
  by (simp_all add: abs_view_def write_line_def begin_clock_def monotonic_def)

lemma refresh_step:
  assumes "board_ok u"
  obtains v' where "refresh clk u = Inr v'" "board_ok v'" "abs_view v' = abs_view u"
  using refresh_total [OF assms, of clk] only_reads_board abs_view_board assms by metis

lemma start_step: assumes "board_ok v" shows "step_ok Hook_Start v (view_start clk v)"
proof -
  let ?v = "(begin_clock clk v)\<lparr>lv_stopped_at := None\<rparr>"
  have ok: "board_ok ?v" "abs_view ?v = abs_view v"
    using assms by (simp_all add: board_ok_counters begin_clock_board abs_view_parts)
  then have "board_ok (?v\<lparr>lv_live := True\<rparr>)" by (simp add: board_ok_counters)
  from refresh_step [OF this] obtain v' where "refresh clk (?v\<lparr>lv_live := True\<rparr>) = Inr v'" "board_ok v'"
    "abs_view v' = abs_view v" using ok(2) by (metis abs_view_parts(3))
  with ok show ?thesis by (auto simp: step_ok_def view_start_def Let_def board_ok_write abs_view_parts)
qed

lemma stop_step: assumes "board_ok v0" shows "step_ok Hook_Stop v0 (view_stop clk v0)"
proof -
  define v1 where "v1 = (if lv_stopped_at v0 = None
    then (case monotonic clk v0 of (now, v) \<Rightarrow> v\<lparr>lv_stopped_at := Some now\<rparr>) else v0)"
  obtain line v where s: "summary_line clk v1 = (line, v)" by fastforce
  have "only_reads v1 v"
    using s lv_elapsed_only_reads [of clk v1] by (auto simp: summary_line_def lv_counts_def split: prod.splits)
  moreover have "board_ok v1" "abs_view v1 = abs_view v0"
    using assms by (simp_all add: v1_def monotonic_simp board_ok_counters abs_view_parts abs_view_counters)
  ultimately have ok: "board_ok v" "abs_view v = abs_view v0"
    using only_reads_board [of v1 v] abs_view_board [of v v1] by simp_all
  obtain v' where v': "refresh clk v = Inr v'" "board_ok v'" "abs_view v' = abs_view v"
    using refresh_step [OF ok(1)] .
  show ?thesis unfolding step_ok_def view_stop_def Let_def v1_def [symmetric] s
    using ok v' by (simp add: board_ok_write board_ok_counters abs_view_parts)
qed

lemma gate_step: "board_ok v \<Longrightarrow> step_ok (Hook_Gate d) v (on_gate clk d v)"
  unfolding on_gate_def
  by (rule step_okI) (simp_all add: board_ok_counters abs_view_counters, simp add: abs_view_def)

lemma note_step: "board_ok v \<Longrightarrow> step_ok (Hook_Note msg) v (view_note clk msg v)"
  unfolding view_note_def by (rule step_okI) simp_all

lemma dget_carry_fold:
  "map_option row_of (dget (fold (\<lambda>spec. dset (ns_id spec) (carry_over previous depth spec)) level views) i)
   = (if i \<in> ns_id ` set level
      then Some (case map_option row_of (dget previous i) of None \<Rightarrow> (SUBMITTED, 0) | Some r \<Rightarrow> r)
      else map_option row_of (dget views i))"
proof (induction level arbitrary: views)
  case Nil
  then show ?case by simp
next
  case (Cons n level)
  have "row_of (carry_over previous depth n)
      = (case map_option row_of (dget previous (ns_id n)) of None \<Rightarrow> (SUBMITTED, 0) | Some r \<Rightarrow> r)"
    by (simp add: carry_over_def new_view_def row_of_def split: option.splits)
  then show ?case by (simp add: Cons.IH)
qed

lemma dget_adopt_fold:
  "length ds = length lvls \<Longrightarrow>
   map_option row_of (dget (fst (fold (adopt_level previous) (zip ds lvls) acc)) i)
   = (if i \<in> ns_id ` set (concat lvls)
      then Some (case map_option row_of (dget previous i) of None \<Rightarrow> (SUBMITTED, 0) | Some r \<Rightarrow> r)
      else map_option row_of (dget (fst acc) i))"
proof (induction ds lvls arbitrary: acc rule: list_induct2)
  case Nil
  then show ?case by simp
next
  case (Cons d ds level lvls)
  obtain views ls where acc: "acc = (views, ls)" by fastforce
  have "map_option row_of (dget (fst (adopt_level previous (d, level) acc)) i)
      = (if i \<in> ns_id ` set level
         then Some (case map_option row_of (dget previous i) of None \<Rightarrow> (SUBMITTED, 0) | Some r \<Rightarrow> r)
         else map_option row_of (dget views i))"
    by (simp add: adopt_level_def acc dget_carry_fold)
  then show ?case by (simp add: Cons.IH acc image_Un)
qed

lemma set_plan_step: assumes "board_ok v" shows "step_ok (Hook_Set_Plan p) v (set_plan clk p v)"
proof -
  obtain views lvls where a: "adopt_levels (lv_views v) (plan_levels p) = (views, lvls)" by fastforce
  let ?u = "v\<lparr>lv_views := views, lv_levels := lvls, lv_plan_version := pl_version p\<rparr>"
  from assms have ok: "board_ok ?u" using adopt_levels_ok [OF a] by (simp add: board_ok_def)
  have rows: "map_option row_of (dget views i) = (if i \<in> ns_id ` set (concat (plan_levels p))
      then Some (case map_option row_of (dget (lv_views v) i) of None \<Rightarrow> (SUBMITTED, 0) | Some r \<Rightarrow> r) else None)" for i
    using dget_adopt_fold [of "[1..<length (plan_levels p) + 1]" "plan_levels p" "lv_views v" "([], [])" i] a
    by (simp add: adopt_levels_def del: upt_Suc)
  have "abs_view ?u = abs_step (Hook_Set_Plan p) (abs_view v)"
    by (auto simp: abs_view_def fun_eq_iff rows split: option.splits)
  with ok show ?thesis by (simp add: set_plan_def Let_def a step_okI)
qed

lemma node_end_step: assumes "board_ok v0" shows "step_ok (Hook_Node_End r) v0 (on_node_end clk r v0)"
proof -
  let ?i = "nr_node_id r" and ?now = "clk (lv_reads v0)" and ?v = "v0\<lparr>lv_reads := lv_reads v0 + 1\<rparr>"
  have ok: "board_ok ?v" "abs_view ?v = abs_view v0"
    using assms by (simp_all add: board_ok_counters abs_view_counters)
  have totals: "abs_step (Hook_Node_End r) b = change_row ?i (\<lambda>(s, n). (nr_state r, max n (nr_attempts r))) (b
      \<lparr>ab_cost := ab_cost b + nr_cost_usd r, ab_rollbacks := ab_rollbacks b + (if nr_rolled_back r then 1 else 0),
       ab_fallbacks := ab_fallbacks b + (if nr_used_fallback r then 1 else 0)\<rparr>)" for b by simp
  show ?thesis
  proof (cases "dget (lv_views v0) ?i")
    case None
    obtain v1 where v1: "unknown clk ''end'' ?i ?v = Inr v1" "board_ok v1" "abs_view v1 = abs_view v0"
      using unknown_step [OF ok(1)] ok(2) by metis
    obtain d where d: "end_detail r (or_elapsed (nr_duration r) 0) = Inr d" using end_detail_total by blast
    have "abs_view (add_result r v1) = abs_step (Hook_Node_End r) (abs_view v0)"
      using None by (simp add: abs_view_counters v1(3)) (simp add: change_row_def abs_view_def fun_eq_iff)
    with v1 d None show ?thesis
      by (simp add: on_node_end_def monotonic_simp Let_def step_okI board_ok_counters)
  next
    case (Some nv)
    define nv' where "nv' = nv\<lparr>nv_state := nr_state r, nv_attempts := max (nv_attempts nv) (nr_attempts r),
       nv_frozen := Some (or_elapsed (nr_duration r) (nv_elapsed nv ?now))\<rparr>"
    obtain d where d: "end_detail r (or_elapsed (nr_duration r) (nv_elapsed nv' ?now)) = Inr d"
      using end_detail_total by blast
    have "abs_view (set_view ?i nv' ?v) = change_row ?i (\<lambda>(s, n). (nr_state r, max n (nr_attempts r))) (abs_view v0)"
      unfolding nv'_def using abs_view_set_view(2) [where v = ?v and i = ?i and nv = nv and s = "nr_state r"
        and g = "\<lambda>n. max n (nr_attempts r)"] Some by (simp add: abs_view_counters)
    then have "abs_view (add_result r (set_view ?i nv' ?v)) = abs_step (Hook_Node_End r) (abs_view v0)"
      by (simp add: abs_view_counters) (simp add: change_row_def)
    with d Some ok show ?thesis
      by (simp add: on_node_end_def monotonic_simp Let_def nv'_def step_okI board_ok_counters board_ok_set_view)
  qed
qed

lemma hook_step: "board_ok v \<Longrightarrow> step_ok h v (run_hook clk h v)"
  by (cases h) (simp_all add: start_step stop_step set_plan_step node_start_step node_end_step retry_step
    gate_step approval_step note_step)

lemma hooks_step:
  "board_ok v \<Longrightarrow> \<exists>v'. run_hooks clk hooks v = Inr v' \<and> board_ok v' \<and> abs_view v' = fold abs_step hooks (abs_view v)"
proof (induction hooks arbitrary: v)
  case Nil
  then show ?case by (simp add: run_hooks_def)
next
  case (Cons h hooks)
  from hook_step [OF Cons.prems] obtain v1 where "run_hook clk h v = Inr v1" "board_ok v1"
    "abs_view v1 = abs_step h (abs_view v)" unfolding step_ok_def by blast
  with Cons.IH [of v1] show ?case by (simp add: run_hooks_def)
qed

lemma new_live_view_ok: "board_ok (new_live_view run_id force_plain tty max_notes)"
  "abs_view (new_live_view run_id force_plain tty max_notes) = abs_init"
  by (simp_all add: board_ok_def new_live_view_def abs_view_def abs_init_def)

section \<open>Properties\<close>

text \<open>
  C36: No sequence of calls makes the live view raise, whatever the calls name and in whatever order
  they come, before \<open>start\<close> included; afterwards a frame can be painted, and the rows and totals
  on the board are those the calls describe: they depend neither on the clock nor on the output mode.
\<close>

theorem live_view_never_raises:
  "\<exists>v. run_hooks clk hooks (new_live_view run_id force_plain tty max_notes) = Inr v
     \<and> (\<exists>f v'. render_frame clk v = Inr (f, v'))
     \<and> abs_view v = fold abs_step hooks abs_init"
proof -
  obtain v where v: "run_hooks clk hooks (new_live_view run_id force_plain tty max_notes) = Inr v"
    "board_ok v" "abs_view v = fold abs_step hooks abs_init"
    using hooks_step [OF new_live_view_ok(1)] by (metis new_live_view_ok(2))
  moreover from render_total [OF v(2)] have "\<exists>f v'. render_frame clk v = Inr (f, v')" by blast
  ultimately show ?thesis by blast
qed

text \<open>The calls that neither settle nor restart a row, nor replace the plan.\<close>

fun leaves_row :: "string \<Rightarrow> hook \<Rightarrow> bool" where
  "leaves_row i (Hook_Set_Plan _) = False"
| "leaves_row i (Hook_Node_Start j) = (j \<noteq> i)"
| "leaves_row i (Hook_Node_End r) = (nr_node_id r \<noteq> i)"
| "leaves_row i (Hook_Retry j _) = (j \<noteq> i)"
| "leaves_row i _ = True"

lemma waiting_row_stays:
  assumes "list_all (leaves_row i) hooks" and "ab_rows b i = Some (INPUT_REQUIRED, n)"
  shows "ab_rows (fold abs_step hooks b) i = Some (INPUT_REQUIRED, n)"
  using assms
proof (induction hooks arbitrary: b)
  case Nil
  then show ?case by simp
next
  case (Cons h hooks)
  from Cons.prems have "ab_rows (abs_step h b) i = Some (INPUT_REQUIRED, n)"
    by (cases h) (auto simp: change_row_def)
  with Cons show ?case by simp
qed

text \<open>
  The row of a node that asked for approval says \<open>input required\<close> until the node retries or ends: no
  hook reports the decision, and the gates and events of the work itself do not touch the row. So the
  whole first attempt of an approved node is shown as waiting for a human, with its clock stopped.
\<close>

theorem approved_work_shown_as_waiting:
  assumes "run_hooks clk before (new_live_view run_id force_plain tty max_notes) = Inr v"
    and "aq_node_id req \<in> dom (ab_rows (abs_view v))"
    and "list_all (leaves_row (aq_node_id req)) work"
  shows "\<exists>v' nv. run_hooks clk (Hook_Approval req # work) v = Inr v'
     \<and> dget (lv_views v') (aq_node_id req) = Some nv \<and> nv_state nv = INPUT_REQUIRED"
proof -
  let ?i = "aq_node_id req"
  have ok: "board_ok v"
    using hooks_step [OF new_live_view_ok(1), of clk before run_id force_plain tty max_notes] assms(1) by simp
  from assms(2) obtain s n where row: "ab_rows (abs_view v) ?i = Some (s, n)" by fastforce
  obtain v' where v': "run_hooks clk (Hook_Approval req # work) v = Inr v'"
    "abs_view v' = fold abs_step work (abs_step (Hook_Approval req) (abs_view v))"
    using hooks_step [OF ok, of clk "Hook_Approval req # work"] by auto
  have "ab_rows (abs_step (Hook_Approval req) (abs_view v)) ?i = Some (INPUT_REQUIRED, n)"
    using row by (simp add: change_row_def)
  from waiting_row_stays [OF assms(3) this] have "ab_rows (abs_view v') ?i = Some (INPUT_REQUIRED, n)"
    by (simp add: v'(2))
  with v'(1) show ?thesis by (auto simp: abs_view_def row_of_def)
qed

text \<open>A plain line carries its text as it is: a line break or an escape character in it reaches the stream.\<close>

theorem plain_line_is_verbatim:
  assumes "lv_plain v"
  shows "\<exists>v' stamp. view_note clk msg v = Inr v' \<and> lv_out v' = lv_out v @ stamp @ msg @ newline"
proof -
  obtain secs v1 where e: "lv_elapsed clk (begin_clock clk v) = (secs, v1)" by fastforce
  then obtain k where v1: "v1 = (begin_clock clk v)\<lparr>lv_reads := k\<rparr>"
    using lv_elapsed_only_reads only_reads_def by blast
  have "lv_plain v1" "lv_out v1 = lv_out v" using assms by (simp_all add: v1 begin_clock_def monotonic_def)
  with e show ?thesis
    by (auto simp: view_note_def view_event_def write_line_def intro!: exI [of _ "rjust 8 (fixed 2 secs) @ ''s  '' @ ljust 9 ''note''"])
qed

end
