(* ===== verification/Report.thy ===== *)
theory Report
  imports Live
begin

text \<open>
  The HTML report of a run, \<open>ui/report.py\<close>: one document built from the plan, the results, the
  metrics and the audit events. Markup is written with \<open>elem\<close> and \<open>attr\<close>, which spell out the
  literals of the source; everything dynamic passes through \<open>esc\<close>, as it does there.

  \<open>local_time\<close> stands for \<open>time.strftime\<close> of \<open>time.localtime\<close>, \<open>sha\<close> for the hash of an artifact and
  \<open>fr\<close> for the text of a float.
\<close>

section \<open>Escaping\<close>

text \<open>\<open>html.escape(s, quote=True)\<close>: it replaces \<open>&\<close> first, so it maps character by character.\<close>

definition esc_char :: "char \<Rightarrow> string" where
  "esc_char c =
     (if c = CHR ''&'' then ''&amp;''
      else if c = CHR ''<'' then ''&lt;''
      else if c = CHR ''>'' then ''&gt;''
      else if c = CHR 0x22 then ''&quot;''
      else if c = CHR 0x27 then ''&#x27;''
      else [c])"

definition esc :: "string \<Rightarrow> string" where
  "esc s = concat (map esc_char s)"

text \<open>\<open>_esc\<close> of a payload value: \<open>None\<close> is the empty text, anything else its \<open>str\<close>.\<close>

definition esc_value :: "(real \<Rightarrow> string) \<Rightarrow> json \<Rightarrow> string" where
  "esc_value fr v = (if v = JNull then [] else esc (py_str fr v))"

definition esc_join :: "string list \<Rightarrow> string" where
  "esc_join values = (if values \<noteq> [] then str_join '', '' (map esc values) else ''-'')"

section \<open>Formatting\<close>

definition seconds :: "real \<Rightarrow> string" where
  "seconds x = fixed 2 x @ ''s''"

definition usd :: "real \<Rightarrow> string" where
  "usd x = CHR ''$'' # fixed 4 x"

definition pct :: "real \<Rightarrow> string" where
  "pct x = fixed 1 (x * 100) @ ''%''"

definition per_node :: "int \<Rightarrow> nat \<Rightarrow> string" where
  "per_node count n = (if n \<noteq> 0 then fixed 2 (of_int count / real n) else ''0.00'')"

definition counted :: "int \<Rightarrow> string \<Rightarrow> string option \<Rightarrow> string" where
  "counted n singular plural =
     (if n = 1 then str_int n @ '' '' @ singular
      else str_int n @ '' '' @ (case plural of Some p \<Rightarrow> if p = [] then singular @ ''s'' else p | None \<Rightarrow> singular @ ''s''))"

definition clock_text :: "(real \<Rightarrow> string) \<Rightarrow> real \<Rightarrow> string" where
  "clock_text local_time t = (if t \<noteq> 0 then local_time t else ''unknown'')"

definition rel_time :: "real \<Rightarrow> real \<Rightarrow> string" where
  "rel_time t origin = (if t = 0 then ''-'' else ''+'' @ fixed 2 (max 0 (t - origin)) @ ''s'')"

section \<open>Markup\<close>

definition attr :: "string \<Rightarrow> string \<Rightarrow> string" where
  "attr name value = CHR '' '' # name @ ''='' @ [CHR 0x22] @ value @ [CHR 0x22]"

definition elem :: "string \<Rightarrow> string \<Rightarrow> string \<Rightarrow> string" where
  "elem tag attrs body = ''<'' @ tag @ attrs @ ''>'' @ body @ ''</'' @ tag @ ''>''"

abbreviation classed :: "string \<Rightarrow> string \<Rightarrow> string \<Rightarrow> string" where
  "classed tag c body \<equiv> elem tag (attr ''class'' c) body"

definition chip :: "string \<Rightarrow> string \<Rightarrow> string" where
  "chip text css = classed ''span'' (''chip '' @ css) (esc text)"

definition dashed :: "string \<Rightarrow> string" where
  "dashed s = map (\<lambda>c. if c = CHR ''_'' then CHR ''-'' else c) s"

definition state_chip :: "task_state \<Rightarrow> string" where
  "state_chip s = chip (STATE_LABEL s) (''s-'' @ dashed (ts_value s))"

definition all_severities :: "severity list" where
  "all_severities = [SEV_INFO, SEV_LOW, SEV_MEDIUM, SEV_HIGH, SEV_CRITICAL]"

definition sev_of_value :: "string \<Rightarrow> severity option" where
  "sev_of_value v = find (\<lambda>s. sev_value s = v) all_severities"

text \<open>The chip of a value that may or may not name a severity.\<close>

definition severity_chip :: "string \<Rightarrow> string" where
  "severity_chip text =
     (case sev_of_value text of
        None \<Rightarrow> chip text ''sev-unknown''
      | Some s \<Rightarrow> chip (sev_value s) (''sev-'' @ sev_value s))"

definition html_table :: "string list \<Rightarrow> string list list \<Rightarrow> string \<Rightarrow> string" where
  "html_table headers rows none_text =
     (if rows = [] then classed ''p'' ''empty'' (esc none_text)
      else
        (let head = concat (map (\<lambda>h. elem ''th'' [] (esc h)) headers);
             body = concat (map (\<lambda>r. elem ''tr'' [] (concat (map (elem ''td'' []) r))) rows)
         in classed ''div'' ''scroll''
              (elem ''table'' [] (elem ''thead'' [] (elem ''tr'' [] head) @ elem ''tbody'' [] body))))"

definition card_box :: "string \<Rightarrow> string \<Rightarrow> string \<Rightarrow> string" where
  "card_box label value sub =
     classed ''div'' ''card''
       (classed ''div'' ''card-label'' (esc label) @ classed ''div'' ''card-value'' (esc value)
        @ classed ''div'' ''card-sub'' (esc sub))"

section \<open>Style\<close>

definition STYLE_LINES :: "string list" where
  "STYLE_LINES = [
     [],
     ''*,*::before,*::after{box-sizing:border-box}'',
     '':root{'',
     ''  color-scheme:light dark;'',
     ''  --bg:#fbfbfd;--panel:#ffffff;--ink:#141a21;--muted:#5b6672;--line:#e2e6ec;--grid:#f4f6f9;'',
     ''  --ok:#136c37;--bad:#a81b0f;--warn:#8a5300;--info:#1b4fc4;--accent:#4b34c9;--bar:#4b34c9;'',
     ''}'',
     ''@media (prefers-color-scheme:dark){'',
     ''  :root{'',
     ''    --bg:#0d1117;--panel:#151b23;--ink:#e6ecf3;--muted:#9aa7b4;--line:#242e3a;--grid:#1a212a;'',
     ''    --ok:#4cd07d;--bad:#ff7b72;--warn:#e3b341;--info:#7aa7ff;--accent:#a99bff;--bar:#7c6bff;'',
     ''  }'',
     ''}'',
     ''html{-webkit-text-size-adjust:100%}'',
     ''body{'',
     ''  margin:0;background:var(--bg);color:var(--ink);'',
     ''  font:16px/1.55 -apple-system,BlinkMacSystemFont,'' @ [CHR 0x22] @ ''Segoe UI'' @ [CHR 0x22] @ '',Roboto,'' @ [CHR 0x22] @ ''Helvetica Neue'' @ [CHR 0x22] @ '',Arial,sans-serif;'',
     ''  font-variant-numeric:tabular-nums;'',
     ''}'',
     ''main{max-width:1180px;margin:0 auto;padding:40px 24px 80px}'',
     ''code,pre,.mono{font-family:ui-monospace,SFMono-Regular,Menlo,Consolas,'' @ [CHR 0x22] @ ''Liberation Mono'' @ [CHR 0x22] @ '',monospace}'',
     ''.eyebrow{letter-spacing:.14em;text-transform:uppercase;font-size:12px;color:var(--muted);font-weight:700}'',
     ''h1{font-size:30px;line-height:1.2;margin:6px 0 8px;font-family:ui-monospace,SFMono-Regular,Menlo,Consolas,monospace}'',
     ''h2{font-size:19px;margin:0 0 4px}'',
     ''.meta{color:var(--muted);font-size:14px;margin:0}'',
     ''section{background:var(--panel);border:1px solid var(--line);border-radius:12px;padding:20px 22px;margin:22px 0}'',
     ''.lede{color:var(--muted);font-size:14px;margin:0 0 14px}'',
     ''.cards{display:grid;grid-template-columns:repeat(auto-fit,minmax(190px,1fr));gap:12px;margin-top:14px}'',
     ''.card{border:1px solid var(--line);border-radius:10px;padding:14px;background:var(--grid)}'',
     ''.card-label{font-size:12px;letter-spacing:.08em;text-transform:uppercase;color:var(--muted);font-weight:700}'',
     ''.card-value{font-size:27px;font-weight:700;margin:6px 0 2px;font-family:ui-monospace,SFMono-Regular,Menlo,Consolas,monospace}'',
     ''.card-sub{font-size:13px;color:var(--muted)}'',
     ''.scroll{overflow-x:auto}'',
     ''table{border-collapse:collapse;width:100%;font-size:14px}'',
     ''th,td{text-align:left;padding:8px 12px;border-bottom:1px solid var(--line);vertical-align:top}'',
     ''th{font-size:11px;letter-spacing:.09em;text-transform:uppercase;color:var(--muted);white-space:nowrap}'',
     ''tbody tr:nth-child(odd){background:var(--grid)}'',
     ''td.num{text-align:right;white-space:nowrap;font-family:ui-monospace,SFMono-Regular,Menlo,Consolas,monospace}'',
     ''td.id{font-family:ui-monospace,SFMono-Regular,Menlo,Consolas,monospace;font-weight:600;white-space:nowrap}'',
     ''.chip{display:inline-block;padding:2px 9px;border-radius:999px;font-size:12px;font-weight:700;'',
     ''  border:1px solid currentColor;white-space:nowrap}'',
     ''.s-completed{color:var(--ok)}'',
     ''.s-working{color:var(--warn)}'',
     ''.s-submitted,.s-canceled,.s-unknown{color:var(--muted)}'',
     ''.s-failed,.s-rejected{color:var(--bad)}'',
     ''.s-input-required,.s-auth-required{color:var(--accent)}'',
     ''.sev-info{color:var(--info)}'',
     ''.sev-low{color:var(--muted)}'',
     ''.sev-medium{color:var(--warn)}'',
     ''.sev-high,.sev-critical{color:var(--bad)}'',
     ''.sev-unknown{color:var(--muted)}'',
     ''.allow{color:var(--ok)}'',
     ''.deny{color:var(--bad)}'',
     ''.bar{position:relative;height:10px;min-width:150px;background:var(--grid);'',
     ''  border:1px solid var(--line);border-radius:5px;overflow:hidden}'',
     ''.bar>span{display:block;height:100%;background:var(--bar);border-radius:5px}'',
     ''pre.mermaid{margin:0;padding:14px;background:var(--grid);border:1px solid var(--line);'',
     ''  border-radius:10px;overflow-x:auto;font-size:13px;line-height:1.45}'',
     ''.err{color:var(--bad);font-size:13px;white-space:pre-wrap;word-break:break-word;max-width:44ch}'',
     ''.wrap{white-space:pre-wrap;word-break:break-word}'',
     ''.empty{color:var(--muted);font-size:14px;font-style:italic;margin:4px 0 0}'',
     ''details{border:1px solid var(--line);border-radius:10px;padding:10px 14px;background:var(--grid)}'',
     ''summary{cursor:pointer;font-weight:700}'',
     ''footer{color:var(--muted);font-size:13px;margin-top:26px;text-align:center}'',
     ''@media print{'',
     ''  body{background:#fff}'',
     ''  section{break-inside:avoid;border-color:#ccc}'',
     ''}'',
     []]"

definition STYLE :: string where
  "STYLE = str_join newline STYLE_LINES"

section \<open>Summary and plan\<close>

definition dot_sep :: string where
  "dot_sep = [CHR '' '', CHR 0xB7, CHR '' '']"

definition summary_section :: "run_metrics \<Rightarrow> string" where
  "summary_section m =
     (let cards =
        [card_box ''success rate'' (pct (success_rate m))
           (str_nat (rm_succeeded m) @ '' of '' @ str_nat (rm_total_nodes m) @ '' nodes completed, ''
            @ str_nat (rm_failed m) @ '' failed''),
         card_box ''retry frequency'' (per_node (rm_retries m) (rm_total_nodes m) @ '' per node'')
           (counted (rm_retries m) ''retry'' (Some ''retries'') @ '', ''
            @ counted (int (rm_fallbacks m)) ''tier fallback'' None),
         card_box ''rollback frequency'' (per_node (int (rm_rollbacks m)) (rm_total_nodes m) @ '' per node'')
           (counted (int (rm_rollbacks m)) ''workspace rollback'' None),
         card_box ''mttr'' (case rm_mttr_seconds m of Some x \<Rightarrow> seconds x | None \<Rightarrow> ''n/a'')
           (case rm_mttr_seconds m of Some _ \<Rightarrow> ''mean time from failure to recovery''
            | None \<Rightarrow> ''nothing failed and recovered''),
         card_box ''end to end latency'' (seconds (rm_e2e_latency_seconds m))
           ''first node start to last node finish'',
         card_box ''cost'' (usd (rm_cost_usd m))
           (with_commas (rm_input_tokens m) @ '' in / '' @ with_commas (rm_output_tokens m) @ '' out tokens'')];
       extra = str_join dot_sep
         [counted (int (rm_approvals_requested m)) ''approval requested'' (Some ''approvals requested''),
          counted (int (rm_plan_revisions m)) ''plan revision'' None,
          counted (int (rm_total_nodes m)) ''node in the plan'' (Some ''nodes in the plan'')]
      in elem ''section'' []
           (elem ''h2'' [] ''Run summary''
            @ classed ''p'' ''lede'' ''Reliability and cost for this run.''
            @ classed ''div'' ''cards'' (concat cards)
            @ elem ''p'' (attr ''class'' ''lede'' @ attr ''style'' ''margin:16px 0 0'') (esc extra)))"

definition impact_class :: "string \<Rightarrow> string" where
  "impact_class value = (if value \<in> {''low'', ''medium'', ''high''} then value else ''unknown'')"

text \<open>\<open>level_of\<close>: the level a node id is shown at, the last one when an id appears twice.\<close>

definition level_of :: "node_spec list list \<Rightarrow> (string, nat) dict" where
  "level_of lvls =
     fold (\<lambda>(depth, level) d. fold (\<lambda>n. dset (ns_id n) depth) level d) (zip [1..<length lvls + 1] lvls) []"

definition dag_row :: "(string, nat) dict \<Rightarrow> nat \<Rightarrow> node_spec \<Rightarrow> string list" where
  "dag_row lvl_of depth n =
     [classed ''span'' ''mono'' (esc (str_nat depth)),
      classed ''span'' ''id'' (esc (ns_id n)),
      esc (sk_value (ns_kind n)),
      esc (mt_value (ns_model_tier n)),
      chip (impact_value (ns_impact n)) (''sev-'' @ impact_class (impact_value (ns_impact n))),
      esc_join (map (\<lambda>d. d @ '' (L'' @ (case dget lvl_of d of Some k \<Rightarrow> str_nat k | None \<Rightarrow> ''?'') @ '')'') (ns_depends_on n)),
      esc_join (ns_produces n),
      esc (ns_description n)]"

definition dag_section :: "plan \<Rightarrow> string option \<Rightarrow> string" where
  "dag_section p mermaid =
     (let lvls = plan_levels p;
          rows = concat (map (\<lambda>(depth, level). map (dag_row (level_of lvls) depth) level) (zip [1..<length lvls + 1] lvls));
          table = html_table [''level'', ''node'', ''stage'', ''tier'', ''impact'', ''depends on'', ''produces'', ''description'']
             rows ''the plan has no nodes'';
          source = (case mermaid of Some s \<Rightarrow> s | None \<Rightarrow> []);
          diagram = (if source \<noteq> [] then classed ''pre'' ''mermaid'' (esc source)
             else classed ''p'' ''empty'' ''no mermaid source was supplied for this run'');
          note = (if source \<noteq> []
             then ''The diagram source is printed rather than drawn. This report loads no ''
               @ ''scripts and makes no network requests, so it renders identically offline; ''
               @ ''paste the block below into any mermaid renderer for the picture, or read ''
               @ ''the table, which carries the same graph.''
             else ''No diagram source was supplied. The table below carries the full graph.'')
      in elem ''section'' []
           (elem ''h2'' [] ''Plan DAG''
            @ classed ''p'' ''lede'' (esc note)
            @ diagram
            @ elem ''p'' (attr ''class'' ''lede'' @ attr ''style'' ''margin-top:16px'')
                (''Nodes grouped by topological level. Every node in a level may run in parallel, because ''
                 @ ''its dependencies were satisfied by an earlier level.'')
            @ table))"

section \<open>Timeline\<close>

text \<open>The run's window as origin and length.\<close>

definition window :: "node_result list \<Rightarrow> audit_event list \<Rightarrow> real \<times> real" where
  "window results events =
     (let stamps = filter (\<lambda>t. t \<noteq> 0) (map nr_started_at results) @ filter (\<lambda>t. t \<noteq> 0) (map ae_at events);
          ends = filter (\<lambda>t. t \<noteq> 0) (map nr_ended_at results) @ filter (\<lambda>t. t \<noteq> 0) (map ae_at events)
      in case stamps of
           [] \<Rightarrow> (0, 0)
         | s # ss \<Rightarrow>
             (let origin = fold1 min s ss;
                  total_length = (case ends of [] \<Rightarrow> origin | e # es \<Rightarrow> fold1 max e es) - origin
              in (origin, max 0 total_length)))"

text \<open>Offset and width of a bar in percent of the window.\<close>

definition bar_left :: "node_result \<Rightarrow> real \<Rightarrow> real \<Rightarrow> real" where
  "bar_left r origin len = max 0 (min 100 ((nr_started_at r - origin) / len * 100))"

definition bar_width :: "node_result \<Rightarrow> real \<Rightarrow> real \<Rightarrow> real" where
  "bar_width r origin len = max (8 / 10) (min (100 - bar_left r origin len) (nr_duration r / len * 100))"

definition timeline_bar :: "node_result \<Rightarrow> real \<Rightarrow> real \<Rightarrow> string" where
  "timeline_bar r origin len =
     (if nr_started_at r = 0 \<or> len \<le> 0 then classed ''span'' ''empty'' ''not timed''
      else elem ''div'' (attr ''class'' ''bar'' @ attr ''title'' (esc (seconds (nr_duration r))))
        (elem ''span'' (attr ''style'' (''margin-left:'' @ fixed 3 (bar_left r origin len) @ ''%;width:''
            @ fixed 3 (bar_width r origin len) @ ''%'')) []))"

definition timeline_row :: "(string \<Rightarrow> string) \<Rightarrow> real \<Rightarrow> real \<Rightarrow> node_result \<Rightarrow> string list" where
  "timeline_row sha origin len r =
     [classed ''span'' ''id'' (esc (nr_node_id r)),
      state_chip (nr_state r),
      classed ''span'' ''mono'' (esc (str_int (nr_attempts r))),
      esc (rel_time (nr_started_at r) origin),
      esc (seconds (nr_duration r)),
      timeline_bar r origin len,
      esc (with_commas (nr_input_tokens r) @ '' / '' @ with_commas (nr_output_tokens r)),
      esc (usd (nr_cost_usd r)),
      esc (if nr_rolled_back r then ''yes'' else ''no''),
      esc_join (map (\<lambda>a. art_name a @ '' ('' @ art_sha sha a @ '')'') (nr_artifacts r)),
      (case nr_error r of
         Some e \<Rightarrow> if e = [] then ''-'' else classed ''div'' ''err'' (esc e)
       | None \<Rightarrow> ''-'')]"

definition timeline_order :: "node_result list \<Rightarrow> node_result list" where
  "timeline_order results = sort_key (\<lambda>r. (nr_started_at r, nr_node_id r)) results"

definition timeline_section :: "(string \<Rightarrow> string) \<Rightarrow> node_result list \<Rightarrow> real \<Rightarrow> real \<Rightarrow> string" where
  "timeline_section sha results origin len =
     elem ''section'' []
       (elem ''h2'' [] ''Node timeline''
        @ classed ''p'' ''lede'' (''Offsets are relative to the first node start. Bars that overlap ''
            @ ''ran at the same time.'')
        @ html_table [''node'', ''state'', ''attempts'', ''start'', ''duration'', ''span'', ''tokens in / out'', ''cost'',
             ''rolled back'', ''artifacts'', ''error'']
            (map (timeline_row sha origin len) (timeline_order results)) ''no nodes executed'')"

section \<open>Gates\<close>

text \<open>\<open>str(payload.get(k, default))\<close> and \<open>str(payload.get(k) or rest)\<close>\<close>

definition get_str :: "(real \<Rightarrow> string) \<Rightarrow> (string, json) dict \<Rightarrow> string \<Rightarrow> string \<Rightarrow> string" where
  "get_str fr p k dflt = (case dget p k of Some v \<Rightarrow> py_str fr v | None \<Rightarrow> dflt)"

definition get_or :: "(real \<Rightarrow> string) \<Rightarrow> (string, json) dict \<Rightarrow> string \<Rightarrow> string \<Rightarrow> string" where
  "get_or fr p k rest = (case dget p k of Some v \<Rightarrow> if truthy v then py_str fr v else rest | None \<Rightarrow> rest)"

definition node_or :: "audit_event \<Rightarrow> string \<Rightarrow> string" where
  "node_or e rest = (case ae_node_id e of Some i \<Rightarrow> if i = [] then rest else i | None \<Rightarrow> rest)"

type_synonym gate_key = "string \<times> string \<times> bool \<times> string"

definition gate_key :: "gate_decision \<Rightarrow> gate_key" where
  "gate_key d = (gd_gate d, gd_node_id d, gd_allowed d, gd_reason d)"

definition gate_of_event :: "(real \<Rightarrow> string) \<Rightarrow> audit_event \<Rightarrow> gate_decision" where
  "gate_of_event fr e =
     (let p = ae_payload e in
      \<lparr>gd_gate = get_str fr p ''gate'' [], gd_node_id = get_or fr p ''node_id'' (node_or e []),
       gd_allowed = (case dget p ''allowed'' of Some v \<Rightarrow> truthy v | None \<Rightarrow> False),
       gd_reason = get_str fr p ''reason'' [], gd_violations = []\<rparr>)"

fun add_logged_gates ::
  "(real \<Rightarrow> string) \<Rightarrow> audit_event list \<Rightarrow> gate_key set \<Rightarrow> gate_decision list \<Rightarrow> gate_decision list" where
  "add_logged_gates fr [] seen collected = collected"
| "add_logged_gates fr (e # es) seen collected =
     (if ae_event_type e \<noteq> GATE_DECISION then add_logged_gates fr es seen collected
      else
        (let d = gate_of_event fr e in
         if gate_key d \<in> seen then add_logged_gates fr es seen collected
         else add_logged_gates fr es (insert (gate_key d) seen) (collected @ [d])))"

definition collect_gates :: "(real \<Rightarrow> string) \<Rightarrow> node_result list \<Rightarrow> audit_event list \<Rightarrow> gate_decision list" where
  "collect_gates fr results events =
     (let typed = concat (map nr_gate_decisions results)
      in add_logged_gates fr events (set (map gate_key typed)) typed)"

definition gate_row :: "gate_decision \<Rightarrow> string list" where
  "gate_row d =
     [esc (gd_gate d),
      classed ''span'' ''id'' (esc (gd_node_id d)),
      (if gd_allowed d then classed ''strong'' ''allow'' ''allow'' else classed ''strong'' ''deny'' ''deny''),
      esc (gd_reason d),
      classed ''span'' ''mono'' (esc (str_nat (length (gd_violations d))))]"

definition gates_section :: "gate_decision list \<Rightarrow> string" where
  "gates_section gates =
     elem ''section'' []
       (elem ''h2'' [] ''Gate decisions''
        @ classed ''p'' ''lede'' (''Every entry and exit gate, with the reason it gave. A gate ''
            @ ''never records a bare boolean.'')
        @ html_table [''gate'', ''node'', ''decision'', ''reason'', ''violations''] (map gate_row gates)
            ''no gates were evaluated'')"

section \<open>Violations\<close>

type_synonym found_violation = "string \<times> policy_violation option \<times> (string, json) dict"

definition typed_violations :: "gate_decision list \<Rightarrow> found_violation list" where
  "typed_violations gates = concat (map (\<lambda>d. map (\<lambda>v. (gd_node_id d, Some v, [])) (gd_violations d)) gates)"

definition violation_key :: "string \<Rightarrow> policy_violation \<Rightarrow> string \<times> string \<times> string" where
  "violation_key node_id v = (node_id, pv_rule_id v, pv_message v)"

definition logged_key :: "(real \<Rightarrow> string) \<Rightarrow> audit_event \<Rightarrow> string \<times> string \<times> string" where
  "logged_key fr e =
     (let p = ae_payload e
      in (get_or fr p ''node_id'' (node_or e []), get_str fr p ''rule_id'' [], get_str fr p ''message'' []))"

fun add_logged_violations ::
  "(real \<Rightarrow> string) \<Rightarrow> audit_event list \<Rightarrow> (string \<times> string \<times> string) set \<Rightarrow> found_violation list
     \<Rightarrow> found_violation list" where
  "add_logged_violations fr [] seen found = found"
| "add_logged_violations fr (e # es) seen found =
     (if ae_event_type e \<noteq> POLICY_VIOLATION then add_logged_violations fr es seen found
      else
        (let key = logged_key fr e in
         if key \<in> seen then add_logged_violations fr es seen found
         else add_logged_violations fr es (insert key seen) (found @ [(fst key, None, ae_payload e)])))"

definition collect_violations ::
  "(real \<Rightarrow> string) \<Rightarrow> gate_decision list \<Rightarrow> audit_event list \<Rightarrow> found_violation list" where
  "collect_violations fr gates events =
     add_logged_violations fr events
       (set (concat (map (\<lambda>d. map (violation_key (gd_node_id d)) (gd_violations d)) gates)))
       (typed_violations gates)"

definition blocks_text :: "(real \<Rightarrow> string) \<Rightarrow> (string, json) dict \<Rightarrow> string" where
  "blocks_text fr p =
     (case dget p ''blocks'' of
        Some v \<Rightarrow> if truthy v then ''yes'' else ''no''
      | None \<Rightarrow>
          (case sev_of_value (get_str fr p ''severity'' []) of
             Some s \<Rightarrow> if sev_blocks s then ''yes'' else ''no''
           | None \<Rightarrow> ''-''))"

definition get_esc :: "(real \<Rightarrow> string) \<Rightarrow> (string, json) dict \<Rightarrow> string \<Rightarrow> string \<Rightarrow> string" where
  "get_esc fr p k dflt = (case dget p k of Some v \<Rightarrow> esc_value fr v | None \<Rightarrow> esc dflt)"

definition violation_row :: "(real \<Rightarrow> string) \<Rightarrow> found_violation \<Rightarrow> string list" where
  "violation_row fr f =
     (case f of
        (node_id, Some v, p) \<Rightarrow>
          [severity_chip (sev_value (pv_severity v)),
           esc (pv_rule_id v),
           classed ''span'' ''id'' (esc node_id),
           classed ''span'' ''wrap'' (esc (pv_message v)),
           esc (case pv_location v of Some l \<Rightarrow> if l = [] then ''-'' else l | None \<Rightarrow> ''-''),
           esc (if pv_blocks v then ''yes'' else ''no'')]
      | (node_id, None, p) \<Rightarrow>
          [severity_chip (get_str fr p ''severity'' []),
           get_esc fr p ''rule_id'' [],
           classed ''span'' ''id'' (esc node_id),
           classed ''span'' ''wrap'' (get_esc fr p ''message'' []),
           esc (get_or fr p ''location'' ''-''),
           esc (blocks_text fr p)])"

definition violations_section :: "(real \<Rightarrow> string) \<Rightarrow> found_violation list \<Rightarrow> string" where
  "violations_section fr found =
     elem ''section'' []
       (elem ''h2'' [] ''Policy violations''
        @ classed ''p'' ''lede'' (''Severity is the colour. High and critical are the two that ''
            @ ''block a gate.'')
        @ html_table [''severity'', ''rule'', ''node'', ''message'', ''location'', ''blocking'']
            (map (violation_row fr) found) ''no policy violations were raised'')"

section \<open>Approvals and the trail\<close>

text \<open>The row of an event, when it is one of the two kinds the log of approvals shows.\<close>

definition approval_row :: "(real \<Rightarrow> string) \<Rightarrow> real \<Rightarrow> audit_event \<Rightarrow> string list option" where
  "approval_row fr origin e =
     (let p = ae_payload e;
          row = (\<lambda>label outcome detail.
            [esc (rel_time (ae_at e) origin),
             esc label,
             classed ''span'' ''id'' (esc (get_or fr p ''node_id'' (node_or e ''-''))),
             classed ''span'' ''mono'' (get_esc fr p ''request_id'' ''-''),
             outcome,
             classed ''span'' ''wrap'' (esc detail),
             get_esc fr p ''decided_by'' ''-''])
      in if ae_event_type e = APPROVAL_DECIDED
         then Some (row ''decided''
                (if case dget p ''approved'' of Some v \<Rightarrow> truthy v | None \<Rightarrow> False
                 then classed ''strong'' ''allow'' ''approved'' else classed ''strong'' ''deny'' ''rejected'')
                (get_or fr p ''note'' (get_or fr p ''reason'' [])))
         else if ae_event_type e = APPROVAL_REQUESTED
         then Some (row ''requested'' (chip (get_str fr p ''impact'' ''impact unknown'') ''sev-medium'')
                (get_or fr p ''reason'' (get_or fr p ''details'' [])))
         else None)"

definition approvals_section :: "(real \<Rightarrow> string) \<Rightarrow> audit_event list \<Rightarrow> real \<Rightarrow> string" where
  "approvals_section fr events origin =
     elem ''section'' []
       (elem ''h2'' [] ''Approval log''
        @ classed ''p'' ''lede'' ''Every point where the run stopped and asked a human.''
        @ html_table [''time'', ''event'', ''node'', ''request'', ''outcome'', ''detail'', ''decided by'']
            (List.map_filter (approval_row fr origin) (ordered events)) ''no approvals were requested'')"

text \<open>\<open>json.dumps(payload, sort_keys=True, ensure_ascii=False)\<close>; a payload of JSON values never fails to print.\<close>

fun payload_json :: "(real \<Rightarrow> string) \<Rightarrow> json \<Rightarrow> string" where
  "payload_json fr (JArr xs) = ''['' @ str_join '', '' (map (payload_json fr) xs) @ '']''"
| "payload_json fr (JObj kvs) =
     CHR 0x7B # str_join '', ''
       (map snd (sort_items (map (\<lambda>(k, v). (k, raw_string k @ '': '' @ payload_json fr v)) kvs)))
     @ [CHR 0x7D]"
| "payload_json fr v = dump_line fr v"

definition audit_row :: "(real \<Rightarrow> string) \<Rightarrow> real \<Rightarrow> audit_event \<Rightarrow> string list" where
  "audit_row fr origin e =
     [classed ''span'' ''mono'' (esc (str_int (ae_seq e))),
      esc (rel_time (ae_at e) origin),
      esc (et_value (ae_event_type e)),
      classed ''span'' ''id'' (esc (node_or e ''-'')),
      classed ''code'' ''wrap'' (esc (payload_json fr (JObj (ae_payload e))))]"

definition audit_section :: "(real \<Rightarrow> string) \<Rightarrow> audit_event list \<Rightarrow> real \<Rightarrow> string" where
  "audit_section fr events origin =
     (let rows = map (audit_row fr origin) (ordered events)
      in elem ''section'' []
           (elem ''h2'' [] ''Audit trail''
            @ classed ''p'' ''lede'' (''Append only, in sequence order. The model call events double ''
                @ ''as replay cassettes, so this is also what makes the run reproducible.'')
            @ elem ''details'' []
                (elem ''summary'' [] (esc (counted (int (length rows)) ''event'' None))
                 @ elem ''div'' (attr ''style'' ''margin-top:12px'')
                     (html_table [''seq'', ''time'', ''event'', ''node'', ''payload''] rows ''no audit events were recorded''))))"

section \<open>The document\<close>

record report_input =
  rpt_run_id :: string
  rpt_plan :: plan
  rpt_results :: "node_result list"
  rpt_metrics :: run_metrics
  rpt_events :: "audit_event list"
  rpt_mermaid :: "string option"

definition html_head :: "string \<Rightarrow> string" where
  "html_head title =
     ''<!doctype html>'' @ newline @ ''<html'' @ attr ''lang'' ''en'' @ ''>'' @ newline @ ''<head>'' @ newline
     @ ''<meta'' @ attr ''charset'' ''utf-8'' @ ''>'' @ newline
     @ ''<meta'' @ attr ''name'' ''viewport'' @ attr ''content'' ''width=device-width, initial-scale=1'' @ ''>'' @ newline
     @ elem ''title'' [] (esc title) @ newline
     @ elem ''style'' [] STYLE @ newline
     @ ''</head>'' @ newline"

definition build_report ::
  "(real \<Rightarrow> string) \<Rightarrow> (string \<Rightarrow> string) \<Rightarrow> (real \<Rightarrow> string) \<Rightarrow> real \<Rightarrow> report_input \<Rightarrow> real option \<Rightarrow> string"
where
  "build_report fr sha local_time now inp generated_at =
     (let generated = (case generated_at of Some t \<Rightarrow> t | None \<Rightarrow> now);
          p = rpt_plan inp; events = rpt_events inp;
          win = window (rpt_results inp) events; origin = fst win; len = snd win;
          gates = collect_gates fr (rpt_results inp) events;
          violations = collect_violations fr gates events;
          title = ''keel run report '' @ rpt_run_id inp;
          header_meta = str_join dot_sep
            [''plan v'' @ str_int (pl_version p), str_nat (length (pl_nodes p)) @ '' nodes'',
             str_nat (length (plan_levels p)) @ '' levels'', ''started '' @ clock_text local_time origin,
             ''generated '' @ clock_text local_time generated];
          rationale = (if pl_rationale p \<noteq> [] then classed ''p'' ''lede'' (esc (pl_rationale p)) else [])
      in html_head title
         @ ''<body>'' @ newline @ ''<main>'' @ newline
         @ elem ''header'' []
             (classed ''div'' ''eyebrow'' ''keel run report''
              @ elem ''h1'' [] (esc (rpt_run_id inp))
              @ classed ''p'' ''meta'' (esc header_meta)
              @ rationale) @ newline
         @ summary_section (rpt_metrics inp) @ newline
         @ dag_section p (rpt_mermaid inp) @ newline
         @ timeline_section sha (rpt_results inp) origin len @ newline
         @ gates_section gates @ newline
         @ violations_section fr violations @ newline
         @ approvals_section fr events origin @ newline
         @ audit_section fr events origin @ newline
         @ elem ''footer'' [] (''Generated by keel. This file is self contained: no scripts, no ''
             @ ''external styles, no network requests.'') @ newline
         @ ''</main>'' @ newline @ ''</body>'' @ newline @ ''</html>'' @ newline)"

text \<open>\<open>write_report\<close>: the document becomes the content of the file, whatever was there.\<close>

definition write_report ::
  "(real \<Rightarrow> string) \<Rightarrow> (string \<Rightarrow> string) \<Rightarrow> (real \<Rightarrow> string) \<Rightarrow> real \<Rightarrow> string \<Rightarrow> report_input \<Rightarrow> real option
     \<Rightarrow> (string, string) dict \<Rightarrow> string \<times> (string, string) dict"
where
  "write_report fr sha local_time now path inp generated_at files =
     (path, dset path (build_report fr sha local_time now inp generated_at) files)"

end
