(* ===== verification/ReportProps.thy ===== *)
theory ReportProps
  imports Report JsonParse
begin

text \<open>
  The report is inert: whatever a run put into its plan, results and log, the document is balanced
  markup of a fixed set of elements and attributes, none of which runs or fetches anything. Its gate
  table loses no decision of the results or the log, and its bars stay in the window.
\<close>

section \<open>Escaped text\<close>

lemma esc_char_plain: "CHR ''<'' \<notin> set (esc_char c) \<and> CHR ''>'' \<notin> set (esc_char c) \<and> CHR 0x22 \<notin> set (esc_char c)"
  by (simp add: esc_char_def)

lemma esc_plain [simp]: "CHR ''<'' \<notin> set (esc s)" "CHR ''>'' \<notin> set (esc s)" "CHR 0x22 \<notin> set (esc s)"
  using esc_char_plain by (auto simp: esc_def)

lemma esc_value_plain [simp]: "CHR ''<'' \<notin> set (esc_value fr v)"
  by (simp add: esc_value_def)

lemma get_esc_plain [simp]: "CHR ''<'' \<notin> set (get_esc fr p k d)"
  by (simp add: get_esc_def split: option.splits)

lemma str_join_plain: "c \<notin> set sep \<Longrightarrow> \<forall>x \<in> set xs. c \<notin> set x \<Longrightarrow> c \<notin> set (str_join sep xs)"
  by (induction sep xs rule: str_join.induct) auto

lemma esc_join_plain [simp]: "CHR ''<'' \<notin> set (esc_join xs)"
  by (simp add: esc_join_def str_join_plain)

text \<open>What a reader's decoder does to the five entities.\<close>

fun unesc :: "string \<Rightarrow> string" where
  "unesc [] = []"
| "unesc (c # cs) =
     (if str_startswith (c # cs) ''&amp;'' then CHR ''&'' # unesc (drop 4 cs)
      else if str_startswith (c # cs) ''&lt;'' then CHR ''<'' # unesc (drop 3 cs)
      else if str_startswith (c # cs) ''&gt;'' then CHR ''>'' # unesc (drop 3 cs)
      else if str_startswith (c # cs) ''&quot;'' then CHR 0x22 # unesc (drop 5 cs)
      else if str_startswith (c # cs) ''&#x27;'' then CHR 0x27 # unesc (drop 5 cs)
      else c # unesc cs)"

lemma unesc_esc_char: "unesc (esc_char c @ s) = c # unesc s"
proof -
  have "c \<noteq> CHR ''&'' \<Longrightarrow> unesc (c # s) = c # unesc s" by simp
  then show ?thesis by (simp add: esc_char_def del: unesc.simps) (simp add: numeral_eq_Suc)
qed

lemma unesc_esc [simp]: "unesc (esc s) = s"
  by (induction s) (simp_all add: esc_def unesc_esc_char del: unesc.simps(2))

section \<open>Well-formed markup\<close>

definition element_names :: "string list" where
  "element_names = [''html'', ''head'', ''title'', ''style'', ''body'', ''main'', ''header'', ''footer'', ''section'',
     ''details'', ''summary'', ''h1'', ''h2'', ''p'', ''div'', ''span'', ''strong'', ''code'', ''pre'', ''table'', ''thead'',
     ''tbody'', ''tr'', ''th'', ''td'']"

text \<open>Attributes none of which names a resource or a handler.\<close>

definition attribute_names :: "string list" where
  "attribute_names = [''class'', ''style'', ''title'', ''lang'', ''charset'', ''name'', ''content'']"

definition value_ok :: "string \<Rightarrow> bool" where
  "value_ok v \<longleftrightarrow> CHR 0x22 \<notin> set v \<and> CHR ''<'' \<notin> set v \<and> CHR ''>'' \<notin> set v"

inductive attrs_ok :: "string \<Rightarrow> bool" where
  no_attrs: "attrs_ok []"
| one_attr: "k \<in> set attribute_names \<Longrightarrow> value_ok v \<Longrightarrow> attrs_ok (attr k v)"
| more_attrs: "attrs_ok a \<Longrightarrow> attrs_ok b \<Longrightarrow> attrs_ok (a @ b)"

text \<open>Text without an opening bracket, sequences, balanced elements and \<open>meta\<close>.\<close>

inductive markup :: "string \<Rightarrow> bool" where
  text_ok: "CHR ''<'' \<notin> set s \<Longrightarrow> markup s"
| append_ok: "markup s \<Longrightarrow> markup t \<Longrightarrow> markup (s @ t)"
| elem_ok: "tag \<in> set element_names \<Longrightarrow> attrs_ok attrs \<Longrightarrow> markup body \<Longrightarrow> markup (elem tag attrs body)"
| meta_ok: "attrs_ok attrs \<Longrightarrow> attrs \<noteq> [] \<Longrightarrow> markup (''<meta'' @ attrs @ ''>'')"

inductive_cases attrs_okE: "attrs_ok a"
inductive_cases markupE: "markup s"

lemma markup_concat: "\<forall>x \<in> set xs. markup x \<Longrightarrow> markup (concat xs)"
  by (induction xs) (auto intro: markup.intros)

lemma markup_classed: "tag \<in> set element_names \<Longrightarrow> value_ok c \<Longrightarrow> markup body \<Longrightarrow> markup (classed tag c body)"
  by (intro elem_ok one_attr) (simp_all add: attribute_names_def)

lemma markup_bare: "tag \<in> set element_names \<Longrightarrow> markup body \<Longrightarrow> markup (elem tag [] body)"
  by (intro elem_ok no_attrs)

lemma markup_if: "(b \<Longrightarrow> markup s) \<Longrightarrow> (\<not> b \<Longrightarrow> markup t) \<Longrightarrow> markup (if b then s else t)"
  by simp

lemma value_ok_append: "value_ok (a @ b) \<longleftrightarrow> value_ok a \<and> value_ok b"
  by (auto simp: value_ok_def)

lemma value_ok_values [simp]:
  "value_ok (ts_value s)" "value_ok (dashed (ts_value s))" "value_ok (sev_value v)" "value_ok (impact_value i)"
proof -
  show "value_ok (ts_value s)" "value_ok (dashed (ts_value s))"
    by (cases s; simp add: value_ok_def dashed_def)+
  show "value_ok (sev_value v)" by (cases v) (simp_all add: value_ok_def)
  show "value_ok (impact_value i)" by (cases i) (simp_all add: value_ok_def)
qed

lemma value_ok_simps [simp]:
  "value_ok []" "value_ok (c # v) \<longleftrightarrow> c \<noteq> CHR 0x22 \<and> c \<noteq> CHR ''<'' \<and> c \<noteq> CHR ''>'' \<and> value_ok v"
  by (auto simp: value_ok_def)

named_theorems markup_parts \<open>the pieces of the report that are markup\<close>

lemma esc_markup [markup_parts]: "markup (esc s)" "markup (esc_value fr v)" "markup (esc_join xs)" "markup (get_esc fr p k d)"
  by (rule text_ok, simp)+

lemma chip_markup [markup_parts]: "value_ok css \<Longrightarrow> markup (chip text css)"
  unfolding chip_def
  by (rule markup_classed) (simp_all add: element_names_def value_ok_append esc_markup)

lemma table_markup [markup_parts]:
  assumes "\<forall>row \<in> set rows. \<forall>cell \<in> set row. markup cell"
  shows "markup (html_table headers rows none_text)"
proof (cases "rows = []")
  case True
  then show ?thesis
    by (simp add: html_table_def markup_classed element_names_def value_ok_def esc_markup)
next
  case False
  have head: "markup (concat (map (\<lambda>h. elem ''th'' [] (esc h)) headers))"
    by (rule markup_concat) (auto intro!: markup_bare esc_markup simp: element_names_def)
  have cells: "markup (concat (map (elem ''td'' []) row))" if "row \<in> set rows" for row
    by (rule markup_concat) (use that assms in \<open>auto intro!: markup_bare simp: element_names_def\<close>)
  have body: "markup (concat (map (\<lambda>r. elem ''tr'' [] (concat (map (elem ''td'' []) r))) rows))"
    by (rule markup_concat) (auto intro!: markup_bare cells simp: element_names_def)
  from False show ?thesis
    unfolding html_table_def Let_def
    by (simp only: if_False) (intro markup_classed markup_bare append_ok head body; simp add: element_names_def value_ok_def)
qed

lemma card_markup [markup_parts]: "markup (card_box label value sub)"
  unfolding card_box_def
  by (intro markup_classed append_ok esc_markup; simp add: element_names_def value_ok_def)

lemma severity_chip_markup [markup_parts]: "markup (severity_chip s)"
  by (auto simp: severity_chip_def value_ok_append intro!: chip_markup split: option.splits)

lemma state_chip_markup [markup_parts]: "markup (state_chip s)"
  by (auto simp: state_chip_def value_ok_append intro!: chip_markup)

lemma gate_row_markup: "\<forall>cell \<in> set (gate_row d). markup cell"
  by (auto simp: gate_row_def esc_markup intro!: markup_classed) (simp_all add: element_names_def value_ok_def text_ok)

lemma violation_row_markup: "\<forall>cell \<in> set (violation_row fr f). markup cell"
  by (cases f; cases "fst (snd f)")
    (auto simp: violation_row_def esc_markup severity_chip_markup element_names_def value_ok_def intro!: markup_classed)

lemma approval_row_markup: "approval_row fr origin e = Some row \<Longrightarrow> \<forall>cell \<in> set row. markup cell"
  by (auto simp: approval_row_def Let_def esc_markup chip_markup element_names_def value_ok_def
      intro!: markup_classed split: if_splits) (simp_all add: text_ok)

lemma audit_row_markup: "\<forall>cell \<in> set (audit_row fr origin e). markup cell"
  by (auto simp: audit_row_def esc_markup element_names_def value_ok_def intro!: markup_classed)

lemma dag_row_markup: "\<forall>cell \<in> set (dag_row lvl depth n). markup cell"
  by (auto simp: dag_row_def esc_markup element_names_def value_ok_append impact_class_def intro!: markup_classed chip_markup)

section \<open>The sections\<close>

text \<open>A section is a heading, a lede and what follows.\<close>

lemma section_markup:
  assumes "markup rest" and "CHR ''<'' \<notin> set heading" and "CHR ''<'' \<notin> set lede"
  shows "markup (elem ''section'' [] (elem ''h2'' [] heading @ classed ''p'' ''lede'' lede @ rest))"
proof -
  have "markup (elem ''h2'' [] heading)" "markup (classed ''p'' ''lede'' lede)"
    by (rule markup_bare, simp add: element_names_def, rule text_ok, rule assms)
      (rule markup_classed, simp add: element_names_def, simp, rule text_ok, rule assms)
  from append_ok [OF this(1) append_ok [OF this(2) assms(1)]] show ?thesis
    by (rule markup_bare [rotated]) (simp add: element_names_def)
qed

lemma styled_markup:
  assumes "tag \<in> set element_names" and "value_ok c" and "value_ok st" and "markup body"
  shows "markup (elem tag (attr ''class'' c @ attr ''style'' st) body)"
  using assms by (intro elem_ok more_attrs one_attr; simp add: attribute_names_def)

lemma summary_section_markup [markup_parts]: "markup (summary_section m)"
proof -
  have extra: "markup (elem ''p'' (attr ''class'' ''lede'' @ attr ''style'' ''margin:16px 0 0'') (esc e))" for e
    by (rule styled_markup) (simp_all add: element_names_def value_ok_def esc_markup)
  have cards: "markup (classed ''div'' ''cards'' (concat cs))" if "\<forall>c \<in> set cs. markup c" for cs
    by (rule markup_classed) (simp_all add: element_names_def value_ok_def that markup_concat)
  show ?thesis
    unfolding summary_section_def Let_def
    by (rule section_markup) (rule append_ok, rule cards, simp add: card_markup, rule extra, simp_all)
qed

lemma gates_section_markup [markup_parts]: "markup (gates_section gates)"
  unfolding gates_section_def
  by (rule section_markup, rule table_markup) (use gate_row_markup in auto)

lemma violations_section_markup [markup_parts]: "markup (violations_section fr found)"
  unfolding violations_section_def
  by (rule section_markup, rule table_markup) (use violation_row_markup in auto)

lemma approvals_section_markup [markup_parts]: "markup (approvals_section fr events origin)"
  unfolding approvals_section_def
  by (rule section_markup, rule table_markup) (auto simp: map_filter_def dest: approval_row_markup [THEN bspec])

lemma audit_section_markup [markup_parts]: "markup (audit_section fr events origin)"
proof -
  have table: "markup (html_table hs (map (audit_row fr origin) es) s)" for hs es s
    by (rule table_markup) (use audit_row_markup in auto)
  have div: "markup (elem ''div'' (attr ''style'' ''margin-top:12px'') b)" if "markup b" for b
    by (rule elem_ok [OF _ one_attr that]) (simp_all add: element_names_def attribute_names_def value_ok_def)
  show ?thesis
    unfolding audit_section_def Let_def
    by (rule section_markup; (intro markup_bare append_ok esc_markup div table)?; simp add: element_names_def)
qed

lemma dag_section_markup [markup_parts]: "markup (dag_section p mermaid)"
proof -
  have rows: "\<forall>row \<in> set (concat (map (\<lambda>(depth, level). map (dag_row lvl depth) level) dls)). \<forall>cell \<in> set row. markup cell"
    for lvl dls using dag_row_markup by fastforce
  have diagram: "markup (if src \<noteq> [] then classed ''pre'' ''mermaid'' (esc src)
      else classed ''p'' ''empty'' ''no mermaid source was supplied for this run'')" for src
    by (rule markup_if; rule markup_classed; simp add: element_names_def value_ok_def esc_markup text_ok)
  have para: "markup (elem ''p'' (attr ''class'' ''lede'' @ attr ''style'' ''margin-top:16px'') s)" if "CHR ''<'' \<notin> set s" for s
    by (rule styled_markup) (simp_all add: element_names_def value_ok_def text_ok that)
  show ?thesis
    unfolding dag_section_def Let_def
    by (rule section_markup; (intro append_ok diagram para table_markup rows)?; simp)
qed

text \<open>A number is digits, a sign and a point.\<close>

lemma value_ok_iff: "value_ok v \<longleftrightarrow> list_all (\<lambda>c. value_ok [c]) v"
  by (induction v) simp_all

lemma value_ok_digit: "is_digit c \<Longrightarrow> value_ok [c]"
  by (auto simp: is_digit_def)

lemma value_ok_str_nat [simp]: "value_ok (str_nat n)"
  using str_nat_digits [of n] by (auto simp: value_ok_iff [of "str_nat n"] list_all_iff value_ok_digit simp del: value_ok_simps)

lemma value_ok_fixed [simp]: "value_ok (fixed d x)"
proof -
  have "value_ok (replicate k (CHR ''0''))" for k by (induction k) simp_all
  then show ?thesis by (simp add: fixed_def Let_def value_ok_append zero_pad_def)
qed

lemma value_ok_esc [simp]: "value_ok (esc s)"
  by (simp add: value_ok_def)

lemma timeline_bar_markup [markup_parts]: "markup (timeline_bar r origin len)"
proof -
  have "markup (elem ''span'' (attr ''style'' (''margin-left:'' @ fixed 3 a @ ''%;width:'' @ fixed 3 b @ ''%'')) [])" for a b
    by (intro elem_ok one_attr text_ok) (simp_all add: element_names_def attribute_names_def value_ok_append)
  moreover have "attrs_ok (attr ''class'' ''bar'' @ attr ''title'' (esc s))" for s
    by (intro more_attrs one_attr) (simp_all add: attribute_names_def)
  ultimately have "markup (elem ''div'' (attr ''class'' ''bar'' @ attr ''title'' (esc s))
      (elem ''span'' (attr ''style'' (''margin-left:'' @ fixed 3 a @ ''%;width:'' @ fixed 3 b @ ''%'')) []))" for s a b
    by (intro elem_ok [where tag = "''div''"]) (simp add: element_names_def)
  moreover have "markup (classed ''span'' ''empty'' ''not timed'')"
    by (rule markup_classed) (simp_all add: element_names_def text_ok)
  ultimately show ?thesis by (simp add: timeline_bar_def)
qed

lemma timeline_row_markup: "\<forall>cell \<in> set (timeline_row sha origin len r). markup cell"
  by (auto simp: timeline_row_def esc_markup state_chip_markup timeline_bar_markup element_names_def text_ok
      intro!: markup_classed split: option.splits)

lemma timeline_section_markup [markup_parts]: "markup (timeline_section sha results origin len)"
  unfolding timeline_section_def
  by (rule section_markup, rule table_markup) (use timeline_row_markup in auto)

lemma style_lines_plain: "list_all (\<lambda>l. CHR ''<'' \<notin> set l) STYLE_LINES"
  by (simp add: STYLE_LINES_def)

lemma STYLE_plain: "CHR ''<'' \<notin> set STYLE"
  using style_lines_plain by (simp add: STYLE_def list_all_iff newline_def str_join_plain)

section \<open>Every opening bracket is one of the report's own\<close>

definition openers :: "string list" where
  "openers = ''meta '' # concat (map (\<lambda>n. [n @ '' '', n @ ''>'', ''/'' @ n @ ''>'']) element_names)"

fun opens_known :: "string \<Rightarrow> bool" where
  "opens_known [] = True"
| "opens_known (c # cs) = ((c = CHR ''<'' \<longrightarrow> list_ex (str_startswith cs) openers) \<and> opens_known cs)"

lemma startswith_extend: "str_startswith s p \<Longrightarrow> str_startswith (s @ t) p"
  by (auto simp: str_startswith_iff)

lemma opens_known_append: "opens_known s \<Longrightarrow> opens_known t \<Longrightarrow> opens_known (s @ t)"
  by (induction s) (auto simp: list_ex_iff intro: startswith_extend)

lemma opens_known_text: "CHR ''<'' \<notin> set s \<Longrightarrow> opens_known s"
  by (induction s) auto

lemma opens_known_tag: "list_ex (str_startswith s) openers \<Longrightarrow> CHR ''<'' \<notin> set s \<Longrightarrow> opens_known (CHR ''<'' # s)"
  by (simp add: opens_known_text)

lemma attrs_ok_shape: "attrs_ok a \<Longrightarrow> CHR ''<'' \<notin> set a \<and> (a = [] \<or> (\<exists>b. a = CHR '' '' # b))"
proof (induction rule: attrs_ok.induct)
  case (one_attr k v)
  then show ?case by (auto simp: attr_def attribute_names_def value_ok_def)
qed auto

lemma element_names_plain: "list_all (\<lambda>n. CHR ''<'' \<notin> set n) element_names"
  by (simp add: element_names_def)

lemma opener_of:
  assumes "tag \<in> set element_names" and "attrs_ok attrs"
  shows "list_ex (str_startswith (tag @ attrs @ ''>'')) openers" and "list_ex (str_startswith (''/'' @ tag @ ''>'')) openers"
proof -
  have "str_startswith (tag @ attrs @ ''>'') (tag @ '' '') \<or> str_startswith (tag @ attrs @ ''>'') (tag @ ''>'')"
    using attrs_ok_shape [OF assms(2)] by (auto simp: str_startswith_iff)
  then show "list_ex (str_startswith (tag @ attrs @ ''>'')) openers"
    using assms(1) by (auto simp: openers_def list_ex_iff)
  have "str_startswith (''/'' @ tag @ ''>'') (''/'' @ tag @ ''>'')"
    using str_startswith_append [of "''/'' @ tag @ ''>''" "[]"] by simp
  then show "list_ex (str_startswith (''/'' @ tag @ ''>'')) openers"
    using assms(1) by (auto simp: openers_def list_ex_iff)
qed

lemma markup_opens_known: "markup s \<Longrightarrow> opens_known s"
proof (induction rule: markup.induct)
  case (text_ok s)
  then show ?case by (rule opens_known_text)
next
  case (append_ok s t)
  then show ?case by (simp add: opens_known_append)
next
  case (elem_ok tag attrs body)
  have plain: "CHR ''<'' \<notin> set tag" "CHR ''<'' \<notin> set attrs"
    using elem_ok.hyps(1) element_names_plain attrs_ok_shape [OF elem_ok.hyps(2)] by (auto simp: list_all_iff)
  have "opens_known (CHR ''<'' # (tag @ attrs @ ''>''))"
    by (rule opens_known_tag [OF opener_of(1) [OF elem_ok.hyps(1,2)]]) (simp add: plain)
  moreover have "opens_known (CHR ''<'' # (''/'' @ tag @ ''>''))"
    by (rule opens_known_tag [OF opener_of(2) [OF elem_ok.hyps(1,2)]]) (simp add: plain)
  ultimately have "opens_known ((CHR ''<'' # (tag @ attrs @ ''>'')) @ body @ (CHR ''<'' # (''/'' @ tag @ ''>'')))"
    using elem_ok.IH opens_known_append by blast
  then show ?case by (simp add: elem_def)
next
  case (meta_ok attrs)
  then obtain b where b: "attrs = CHR '' '' # b" "CHR ''<'' \<notin> set b" using attrs_ok_shape by fastforce
  have "opens_known (CHR ''<'' # (''meta '' @ b @ ''>''))"
    by (rule opens_known_tag) (simp_all add: openers_def b(2))
  then show ?case by (simp add: b(1))
qed

lemma opens_known_no_script: "opens_known s \<Longrightarrow> \<not> str_contains s ''<script''"
proof (induction s)
  case Nil
  then show ?case by simp
next
  case (Cons c cs)
  have "\<not> list_ex (str_startswith (''script'' @ u)) openers" for u
    by (simp add: openers_def element_names_def)
  then have "\<not> str_startswith (c # cs) ''<script''"
    using Cons.prems by (auto simp: str_startswith_iff)
  with Cons show ?case by simp
qed

section \<open>The document is inert\<close>

lemma newline_markup [markup_parts]: "markup newline"
  by (rule text_ok) (simp add: newline_def)

lemma title_markup [markup_parts]: "markup (elem ''title'' [] (esc s))" "markup (elem ''style'' [] STYLE)"
  by (rule markup_bare; simp add: element_names_def esc_markup text_ok STYLE_plain)+

lemma meta_markup [markup_parts]:
  "markup (''<meta'' @ attr ''charset'' ''utf-8'' @ ''>'')"
  "markup (''<meta'' @ (attr ''name'' ''viewport'' @ attr ''content'' ''width=device-width, initial-scale=1'') @ ''>'')"
proof -
  show "markup (''<meta'' @ attr ''charset'' ''utf-8'' @ ''>'')"
    by (rule meta_ok [OF one_attr]) (simp_all add: attribute_names_def attr_def)
  show "markup (''<meta'' @ (attr ''name'' ''viewport'' @ attr ''content'' ''width=device-width, initial-scale=1'') @ ''>'')"
    by (rule meta_ok [OF more_attrs [OF one_attr one_attr]]) (simp_all add: attribute_names_def attr_def)
qed

lemma header_markup [markup_parts]:
  "markup (elem ''header'' [] (classed ''div'' ''eyebrow'' ''keel run report'' @ elem ''h1'' [] (esc i)
     @ classed ''p'' ''meta'' (esc m) @ (if r \<noteq> [] then classed ''p'' ''lede'' (esc r) else [])))"
  by (intro markup_bare append_ok markup_classed markup_if esc_markup text_ok; simp add: element_names_def)

lemma footer_markup [markup_parts]: "CHR ''<'' \<notin> set s \<Longrightarrow> markup (elem ''footer'' [] s)"
  by (rule markup_bare) (simp_all add: element_names_def text_ok)

text \<open>The bracket structure of the whole page.\<close>

definition page :: "string \<Rightarrow> string \<Rightarrow> string" where
  "page title content =
     elem ''html'' (attr ''lang'' ''en'')
       (newline @ elem ''head'' []
          (newline @ (''<meta'' @ attr ''charset'' ''utf-8'' @ ''>'') @ newline
           @ (''<meta'' @ (attr ''name'' ''viewport'' @ attr ''content'' ''width=device-width, initial-scale=1'') @ ''>'')
           @ newline @ elem ''title'' [] (esc title) @ newline @ elem ''style'' [] STYLE @ newline) @ newline
        @ elem ''body'' [] (newline @ elem ''main'' [] (newline @ content) @ newline) @ newline) @ newline"

lemma page_markup: "markup content \<Longrightarrow> markup (page title content)"
  unfolding page_def
  by (intro append_ok elem_ok [where tag = "''html''"] elem_ok [where tag = "''head''"] elem_ok [where tag = "''body''"]
      elem_ok [where tag = "''main''"] no_attrs one_attr newline_markup title_markup meta_markup)
    (simp_all add: element_names_def attribute_names_def)

lemma build_report_page:
  "\<exists>title content. build_report fr sha local_time now inp generated_at = ''<!doctype html>'' @ newline @ page title content
     \<and> markup content"
proof -
  let ?ev = "rpt_events inp" and ?p = "rpt_plan inp"
  define origin len where "origin = fst (window (rpt_results inp) ?ev)" and "len = snd (window (rpt_results inp) ?ev)"
  define gates where "gates = collect_gates fr (rpt_results inp) ?ev"
  define violations where "violations = collect_violations fr gates ?ev"
  define title where "title = ''keel run report '' @ rpt_run_id inp"
  define meta where "meta = str_join dot_sep
            [''plan v'' @ str_int (pl_version ?p), str_nat (length (pl_nodes ?p)) @ '' nodes'',
             str_nat (length (plan_levels ?p)) @ '' levels'', ''started '' @ clock_text local_time origin,
             ''generated '' @ clock_text local_time (case generated_at of Some t \<Rightarrow> t | None \<Rightarrow> now)]"
  define hd_part where "hd_part = elem ''header'' [] (classed ''div'' ''eyebrow'' ''keel run report'' @ elem ''h1'' [] (esc (rpt_run_id inp))
     @ classed ''p'' ''meta'' (esc meta) @ (if pl_rationale ?p \<noteq> [] then classed ''p'' ''lede'' (esc (pl_rationale ?p)) else []))"
  define foot where "foot = elem ''footer'' [] (''Generated by keel. This file is self contained: no scripts, no ''
             @ ''external styles, no network requests.'')"
  define content where "content = hd_part @ newline @ summary_section (rpt_metrics inp) @ newline
     @ dag_section ?p (rpt_mermaid inp) @ newline @ timeline_section sha (rpt_results inp) origin len @ newline
     @ gates_section gates @ newline @ violations_section fr violations @ newline
     @ approvals_section fr ?ev origin @ newline @ audit_section fr ?ev origin @ newline @ foot @ newline"
  have "markup hd_part" unfolding hd_part_def by (rule header_markup)
  moreover have "markup foot" unfolding foot_def by (rule footer_markup) simp
  ultimately have "markup content"
    unfolding content_def by (intro append_ok markup_parts) simp_all
  moreover have "build_report fr sha local_time now inp generated_at = ''<!doctype html>'' @ newline @ page title content"
    unfolding build_report_def Let_def html_head_def page_def origin_def [symmetric] len_def [symmetric]
      gates_def [symmetric] violations_def [symmetric] title_def [symmetric] meta_def [symmetric] hd_part_def [symmetric]
      foot_def [symmetric] content_def
    by (simp add: elem_def [where tag = "''html''"] elem_def [where tag = "''head''"] elem_def [where tag = "''body''"]
        elem_def [where tag = "''main''"])
  ultimately show ?thesis by blast
qed

text \<open>
  C37: Whatever a run put into its plan, results, events and diagram, the report is a document type
  followed by balanced markup of the report's own elements, whose attributes are among seven that
  neither name a resource nor a handler; in particular no \<open>script\<close> element opens anywhere in it.
\<close>

theorem report_is_inert:
  "\<exists>body. build_report fr sha local_time now inp generated_at = ''<!doctype html>'' @ newline @ body
     \<and> markup body
     \<and> \<not> str_contains (build_report fr sha local_time now inp generated_at) ''<script''"
proof -
  obtain title content where c: "build_report fr sha local_time now inp generated_at
      = ''<!doctype html>'' @ newline @ page title content" "markup content"
    using build_report_page by blast
  note m = page_markup [OF c(2), of title]
  have "opens_known (''!doctype html>'' @ newline @ page title content)"
    using markup_opens_known [OF append_ok [OF newline_markup m]] by simp
  then have "\<not> str_contains (''!doctype html>'' @ newline @ page title content) ''<script''"
    by (rule opens_known_no_script)
  then have "\<not> str_contains (''<!doctype html>'' @ newline @ page title content) ''<script''" by simp
  with c(1) m show ?thesis by auto
qed

section \<open>What the tables collect\<close>

text \<open>Both collectors keep the first entry of each key not seen before.\<close>

fun fresh_by :: "('a \<Rightarrow> 'k) \<Rightarrow> 'k set \<Rightarrow> 'a list \<Rightarrow> 'a list" where
  "fresh_by key seen [] = []"
| "fresh_by key seen (x # xs) =
     (if key x \<in> seen then fresh_by key seen xs else x # fresh_by key (insert (key x) seen) xs)"

lemma set_fresh_by: "set (fresh_by key seen xs) \<subseteq> set xs"
proof (induction xs arbitrary: seen)
  case (Cons x xs)
  then show ?case by (simp add: subset_insertI2 insert_mono)
qed simp

lemma keys_fresh_by: "key ` set (fresh_by key seen xs) = key ` set xs - seen"
proof (induction xs arbitrary: seen)
  case (Cons x xs)
  show ?case by (simp add: Cons.IH) blast
qed simp

lemma distinct_fresh_by: "distinct (map key (fresh_by key seen xs))"
proof (induction xs arbitrary: seen)
  case (Cons x xs)
  have "key x \<notin> key ` set (fresh_by key (insert (key x) seen) xs)" by (simp add: keys_fresh_by)
  with Cons.IH show ?case by simp
qed simp

definition logged_gates :: "(real \<Rightarrow> string) \<Rightarrow> audit_event list \<Rightarrow> gate_decision list" where
  "logged_gates fr events = map (gate_of_event fr) (filter (\<lambda>e. ae_event_type e = GATE_DECISION) events)"

lemma logged_gates_simps [simp]:
  "logged_gates fr [] = []"
  "logged_gates fr (e # es) =
     (if ae_event_type e = GATE_DECISION then gate_of_event fr e # logged_gates fr es else logged_gates fr es)"
  by (simp_all add: logged_gates_def)

lemma add_logged_gates_fresh:
  "add_logged_gates fr events seen collected = collected @ fresh_by gate_key seen (logged_gates fr events)"
proof (induction events arbitrary: seen collected)
  case (Cons e es)
  show ?case by (simp add: Cons.IH Let_def)
qed simp

text \<open>
  C38: The gate table shows every decision the results carry, in their order, and after them
  decisions of the log alone. The added rows are, by gate, node, verdict and reason, exactly the logged
  decisions that no result carries, each of them once: no gate that stopped a run is left out, none is
  made up, and none of a result is listed again.
\<close>

theorem gate_table_is_complete:
  "\<exists>rest. collect_gates fr results events = concat (map nr_gate_decisions results) @ rest
     \<and> set rest \<subseteq> set (logged_gates fr events) \<and> distinct (map gate_key rest)
     \<and> gate_key ` set rest
         = gate_key ` set (logged_gates fr events) - gate_key ` set (concat (map nr_gate_decisions results))"
proof -
  let ?typed = "concat (map nr_gate_decisions results)"
  define rest where "rest = fresh_by gate_key (set (map gate_key ?typed)) (logged_gates fr events)"
  have c: "collect_gates fr results events = ?typed @ rest"
    by (simp add: collect_gates_def add_logged_gates_fresh rest_def Let_def)
  have "gate_key ` set rest = gate_key ` set (logged_gates fr events) - gate_key ` set ?typed"
    unfolding rest_def keys_fresh_by by (simp only: set_map)
  moreover have "set rest \<subseteq> set (logged_gates fr events)" "distinct (map gate_key rest)"
    unfolding rest_def by (rule set_fresh_by, rule distinct_fresh_by)
  ultimately show ?thesis using c by metis
qed

definition logged_violations :: "(real \<Rightarrow> string) \<Rightarrow> audit_event list \<Rightarrow> ((string \<times> string \<times> string) \<times> (string, json) dict) list" where
  "logged_violations fr events =
     map (\<lambda>e. (logged_key fr e, ae_payload e)) (filter (\<lambda>e. ae_event_type e = POLICY_VIOLATION) events)"

lemma logged_violations_simps [simp]:
  "logged_violations fr [] = []"
  "logged_violations fr (e # es) =
     (if ae_event_type e = POLICY_VIOLATION then (logged_key fr e, ae_payload e) # logged_violations fr es
      else logged_violations fr es)"
  by (simp_all add: logged_violations_def)

lemma add_logged_violations_fresh:
  "add_logged_violations fr events seen found =
     found @ map (\<lambda>(k, p). (fst k, None, p)) (fresh_by fst seen (logged_violations fr events))"
proof (induction events arbitrary: seen found)
  case (Cons e es)
  show ?case by (simp add: Cons.IH Let_def)
qed simp

definition typed_keys :: "gate_decision list \<Rightarrow> (string \<times> string \<times> string) set" where
  "typed_keys gates = set (concat (map (\<lambda>d. map (violation_key (gd_node_id d)) (gd_violations d)) gates))"

lemma collect_violations_fresh:
  "collect_violations fr gates events = typed_violations gates
     @ map (\<lambda>(k, p). (fst k, None, p)) (fresh_by fst (typed_keys gates) (logged_violations fr events))"
  by (simp add: collect_violations_def add_logged_violations_fresh typed_keys_def)

text \<open>A logged violation no typed one has the key of is listed.\<close>

lemma logged_violation_listed:
  assumes "e \<in> set events" and "ae_event_type e = POLICY_VIOLATION" and "logged_key fr e \<notin> typed_keys gates"
  obtains e' where "e' \<in> set events" "ae_event_type e' = POLICY_VIOLATION" "logged_key fr e' = logged_key fr e"
    "(fst (logged_key fr e), None, ae_payload e') \<in> set (collect_violations fr gates events)"
proof -
  let ?fresh = "fresh_by fst (typed_keys gates) (logged_violations fr events)"
  have "logged_key fr e \<in> fst ` set (logged_violations fr events)"
    using assms(1,2) by (force simp: logged_violations_def)
  then have "logged_key fr e \<in> fst ` set ?fresh" using assms(3) by (simp add: keys_fresh_by)
  then obtain p where p: "(logged_key fr e, p) \<in> set ?fresh" by auto
  then have "(logged_key fr e, p) \<in> set (logged_violations fr events)" using set_fresh_by by fast
  then obtain e' where e': "e' \<in> set events" "ae_event_type e' = POLICY_VIOLATION" "logged_key fr e' = logged_key fr e" "ae_payload e' = p"
    by (auto simp: logged_violations_def)
  have "(fst (logged_key fr e), None, p) \<in> set (map (\<lambda>(k, p). (fst k, None, p)) ?fresh)" using p by force
  then have "(fst (logged_key fr e), None, ae_payload e') \<in> set (collect_violations fr gates events)"
    unfolding collect_violations_fresh set_append e'(4) by blast
  with e'(1-3) show thesis by (rule that)
qed

section \<open>The timeline\<close>

lemma fold1_min_le: "x \<in> set (y # ys) \<Longrightarrow> fold1 min y ys \<le> (x :: real)"
proof (induction ys arbitrary: y x)
  case (Cons z zs)
  from Cons.prems consider "x = y" | "x = z" | "x \<in> set zs" by auto
  then show ?case
  proof cases
    case 3
    then have "x \<in> set (min y z # zs)" by simp
    from Cons.IH [OF this] show ?thesis by simp
  qed (use Cons.IH [of "min y z" "min y z"] in auto)
qed simp

lemma fold1_max_ge: "x \<in> set (y # ys) \<Longrightarrow> (x :: real) \<le> fold1 max y ys"
proof (induction ys arbitrary: y x)
  case (Cons z zs)
  from Cons.prems consider "x = y" | "x = z" | "x \<in> set zs" by auto
  then show ?case
  proof cases
    case 3
    then have "x \<in> set (max y z # zs)" by simp
    from Cons.IH [OF this] show ?thesis by simp
  qed (use Cons.IH [of "max y z" "max y z"] in auto)
qed simp

lemma percent: "a + b \<le> (1 :: real) \<Longrightarrow> a * 100 + b * 100 \<le> 100"
  by linarith

text \<open>Every timed result starts and ends inside the window.\<close>

lemma window_covers:
  assumes "r \<in> set results" and "nr_started_at r \<noteq> 0" and "nr_ended_at r \<noteq> 0"
  shows "fst (window results events) \<le> nr_started_at r"
    and "nr_ended_at r \<le> fst (window results events) + snd (window results events)"
proof -
  let ?stamps = "filter (\<lambda>t. t \<noteq> 0) (map nr_started_at results) @ filter (\<lambda>t. t \<noteq> 0) (map ae_at events)"
  let ?ends = "filter (\<lambda>t. t \<noteq> 0) (map nr_ended_at results) @ filter (\<lambda>t. t \<noteq> 0) (map ae_at events)"
  have "nr_started_at r \<in> set ?stamps" "nr_ended_at r \<in> set ?ends" using assms by auto
  then obtain s ss e es where lists: "?stamps = s # ss" "?ends = e # es"
    by (metis list.exhaust list.distinct(1) list.set(1) empty_iff)
  have m: "nr_started_at r \<in> set (s # ss)" "nr_ended_at r \<in> set (e # es)"
    using \<open>nr_started_at r \<in> set ?stamps\<close> \<open>nr_ended_at r \<in> set ?ends\<close> unfolding lists by simp_all
  have w: "window results events = (fold1 min s ss, max 0 (fold1 max e es - fold1 min s ss))"
    unfolding window_def lists by (simp add: Let_def)
  show "fst (window results events) \<le> nr_started_at r" unfolding w using fold1_min_le [OF m(1)] by simp
  show "nr_ended_at r \<le> fst (window results events) + snd (window results events)"
    unfolding w using fold1_max_ge [OF m(2)] by simp
qed

text \<open>
  A bar of the timeline is drawn to scale: for a result that started and ended, neither bound
  of the clamp cuts it, its left edge is the exact share of the window that passed before its start
  and it ends inside the window; only a bar below 0.8 percent is widened, so that it can be seen.
\<close>

theorem bars_are_to_scale:
  assumes "r \<in> set results" and "nr_started_at r \<noteq> 0" and "nr_started_at r \<le> nr_ended_at r" and "nr_ended_at r \<noteq> 0"
    and "window results events = (origin, len)" and "0 < len"
  shows "bar_left r origin len = (nr_started_at r - origin) / len * 100
    \<and> 0 \<le> bar_left r origin len
    \<and> bar_left r origin len + (nr_ended_at r - nr_started_at r) / len * 100 \<le> 100
    \<and> bar_width r origin len = max (8 / 10) ((nr_ended_at r - nr_started_at r) / len * 100)"
proof -
  have lo: "origin \<le> nr_started_at r" and hi: "nr_ended_at r \<le> origin + len"
    using window_covers [OF assms(1,2,4), of events] assms(5) by simp_all
  have start: "0 \<le> (nr_started_at r - origin) / len * 100" using lo assms(6) by simp
  have "(nr_started_at r - origin) + (nr_ended_at r - nr_started_at r) \<le> len" using hi by simp
  then have "((nr_started_at r - origin) + (nr_ended_at r - nr_started_at r)) / len \<le> 1"
    using assms(6) by (simp add: divide_le_eq)
  then have total: "(nr_started_at r - origin) / len * 100 + (nr_ended_at r - nr_started_at r) / len * 100 \<le> 100"
    unfolding add_divide_distrib by (rule percent)
  have dur: "0 \<le> (nr_ended_at r - nr_started_at r) / len * 100" using assms(3,6) by simp
  have left: "bar_left r origin len = (nr_started_at r - origin) / len * 100"
    unfolding bar_left_def using start total dur by simp
  have "nr_duration r = nr_ended_at r - nr_started_at r" using assms(3) by (simp add: nr_duration_def)
  then have "bar_width r origin len = max (8 / 10) ((nr_ended_at r - nr_started_at r) / len * 100)"
    unfolding bar_width_def left using total by simp
  with left start total show ?thesis by simp
qed

definition timed_result :: "string \<Rightarrow> real \<Rightarrow> real \<Rightarrow> node_result" where
  "timed_result i s e = (nr_new i COMPLETED)\<lparr>nr_started_at := s, nr_ended_at := e\<rparr>"

lemma sample_window: "window [timed_result ''design'' 10 30, timed_result ''implement'' 30 50] [] = (10, 40)"
  by (simp add: window_def timed_result_def nr_new_def)

theorem bars_are_to_scale_witness:
  "bar_left (timed_result ''implement'' 30 50) 10 40 = 50 \<and> bar_width (timed_result ''implement'' 30 50) 10 40 = 50"
  using bars_are_to_scale [of "timed_result ''implement'' 30 50"
      "[timed_result ''design'' 10 30, timed_result ''implement'' 30 50]" "[]" 10 40] sample_window
  by (simp add: timed_result_def nr_new_def)

end
