(* ===== verification/Scenarios.thy ===== *)
theory Scenarios
  imports Models
begin

text \<open>
  The three scenarios of \<^verbatim>\<open>keel/scenarios.py\<close>, their texts verbatim, and looking one up.
\<close>

record scenario =
  sco_key :: string
  sco_title :: string
  sco_requirement :: string
  sco_expects :: scenario_kind
  sco_demonstrates :: "string list"
  sco_answers :: "(string, string) dict"
  sco_approvals :: "(string, bool) dict"
  sco_seed_from :: "string option"

definition greenfield_scenario :: scenario where
  "greenfield_scenario =
    \<lparr>sco_key = ''greenfield'',
     sco_title = ''Build a URL shortener from nothing'',
     sco_requirement = (''Build a URL shortener service as a JSON HTTP API using FastAPI and SQLite.'' @
     newline @
     newline @
     ''Endpoints: POST /api/links creates a short link from a long URL and returns the short code. '' @
     ''GET /{code} redirects a visitor to the original URL. GET /api/links/{code}/stats returns click '' @
     ''analytics for that link. GET /health returns service health.'' @
     newline @
     newline @
     ''Access: link creation is unauthenticated for this release. There is no user or API-key '' @
     ''subsystem and analytics are public. Abuse is handled by per-IP rate limiting on creation, not '' @
     ''by authentication.'' @
     newline @
     newline @
     ''Open redirect protection is a denylist, not an allowlist. Any public http or https destination '' @
     ''is permitted. Reject any other scheme, and reject any destination resolving to a loopback, '' @
     ''private or link-local address, including the cloud metadata address. The service must never '' @
     ''fetch the destination itself.'' @
     newline @
     newline @
     ''Expiry: a caller may pass an expiry; when omitted the link expires 30 days after creation. '' @
     ''Requests for an expired link return 410 Gone.'' @
     newline @
     newline @
     ''Analytics: total click count plus timestamp, referrer and user agent per click. Do not store '' @
     ''visitor IP addresses.'' @
     newline @
     newline @
     ''Short codes are randomly generated, not sequential, so that links cannot be enumerated.''),
     sco_expects = GREENFIELD,
     sco_demonstrates = [''decomposition of a clear requirement into a dependency graph'',
     ''parallel execution of implementation, test authoring and documentation'',
     ''a real pytest run as the verification gate, not a claimed one''],
     sco_answers = [],
     sco_approvals = [],
     sco_seed_from = None\<rparr>"

definition brownfield_scenario :: scenario where
  "brownfield_scenario =
    \<lparr>sco_key = ''brownfield'',
     sco_title = ''Add rate limiting to the existing shortener'',
     sco_requirement = (''Add per-API-key rate limiting to the existing URL shortener.'' @
     newline @
     newline @
     ''Keys come from the environment, not from the database. The variable SHORTENER_API_KEYS holds a '' @
     ''comma-separated list of key:quota pairs, so a key named alpha with a quota of 100 and a key '' @
     ''named beta with a quota of 20 are written as two such pairs. The quota is requests per minute '' @
     ''for link creation. There is no admin surface and no schema change; an unknown key is treated '' @
     ''as no key.'' @
     newline @
     newline @
     ''A caller presents its key in an X-API-Key header. A request carrying a known key is limited '' @
     ''against that key'' @
     [CHR 0x27] @
     ''s quota. A request with no key, or an unknown one, keeps the existing per-IP limit exactly as '' @
     ''it behaves today, so existing clients continue to work unchanged.'' @
     newline @
     newline @
     ''A caller over its quota receives HTTP 429 with a Retry-After header giving whole seconds until '' @
     ''the window resets.'' @
     newline @
     newline @
     ''This change is additive. The existing per-IP throttle on redirects stays exactly as it is; do '' @
     ''not remove or weaken it. Per-key limiting applies only to link creation, and redirects are '' @
     ''never limited by key.''),
     sco_expects = BROWNFIELD,
     sco_demonstrates = [''codebase reasoning: impacted modules, routes and data flows'',
     ''change control: modifying a public surface requires human approval'',
     ''dynamic re-planning when analysis contradicts the original plan''],
     sco_answers = [],
     sco_approvals = [(''implement'', True),
     (''refactor-seam'', True)],
     sco_seed_from = Some ''greenfield''\<rparr>"

definition ambiguous_scenario :: scenario where
  "ambiguous_scenario =
    \<lparr>sco_key = ''ambiguous'',
     sco_title = ''An underspecified requirement'',
     sco_requirement = ''Make the links more secure.'',
     sco_expects = AMBIGUOUS,
     sco_demonstrates = [''detecting that a requirement cannot be planned'',
     ''parking in the A2A input_required state instead of guessing'',
     ''writing zero code until a human answers'',
     ''resuming from the park rather than starting over''],
     sco_answers = [(''What kind of links are these'', (''Short redirect links. This is a URL shortener, not magic-link authentication and not document '' @
     ''sharing.'')),
     (''Who may use a link'', (''Anyone holding it. The link is a bearer capability, with no per-recipient identity check at '' @
     ''resolution.'')),
     (''Do already-issued links have to keep working'', ''No. There is no predecessor system; this is the service being built.''),
     (''What does secure mean here'', (''Stop the service being usable for phishing. Reject javascript:, data: and file: schemes, and '' @
     ''reject any destination resolving to a loopback, private or link-local address, including the '' @
     ''cloud metadata endpoint. Never fetch the destination.'')),
     (''Should creating a link require authentication'', ''No. Creation stays open, with per-IP rate limiting for abuse.''),
     (''Do links expire'', ''Yes. Default 30 days, and the caller may override.''),
     (''Is scanning destinations against a threat feed in scope'', ''No.'')],
     sco_approvals = [],
     sco_seed_from = None\<rparr>"

definition all_scenarios :: "scenario list" where
  "all_scenarios = [greenfield_scenario, brownfield_scenario, ambiguous_scenario]"

text \<open>The left side is the message of the \<open>SystemExit\<close>.\<close>

definition get_scenario :: "string \<Rightarrow> string + scenario" where
  "get_scenario key =
     (case List.find (\<lambda>s. sco_key s = key) all_scenarios of
        None \<Rightarrow> Inl (''unknown scenario '' @ str_repr key @ ''. choose one of: '' @ str_join '', '' (map sco_key all_scenarios))
      | Some s \<Rightarrow> Inr s)"

end
