(* ===== verification/Cli.thy ===== *)
theory Cli
  imports Scenarios Intake ExecutorRun Metrics
begin

text \<open>
  The command line of \<^verbatim>\<open>keel/cli.py\<close>: choosing the adapter and the broker, seeding a workspace from an earlier
  run, and \<open>keel run\<close> as the composition of intake, planner, executor and metrics, with the summary it
  writes. What it prints and the
  other commands are in \<open>CliOutput\<close>. The dispatchers over the chosen
  adapter, the earlier runs, the clock and the file system are arguments.
\<close>

section \<open>Adapter and broker\<close>

datatype adapter_choice = ClaudeLive | ReplayOf string

definition choose_adapter :: "run_mode \<Rightarrow> string option \<Rightarrow> string + adapter_choice" where
  "choose_adapter mode replay_from =
     (if mode = LIVE then Inr ClaudeLive
      else case replay_from of
        Some r \<Rightarrow> if r \<noteq> [] then Inr (ReplayOf r)
                  else Inl (''replay mode needs --replay-from <run_id>, or a committed run in runs/.'' @ newline
                     @ ''Record one first with: keel run --scenario greenfield --mode live'')
      | None \<Rightarrow> Inl (''replay mode needs --replay-from <run_id>, or a committed run in runs/.'' @ newline
                     @ ''Record one first with: keel run --scenario greenfield --mode live''))"

definition choose_broker :: "string \<Rightarrow> read_event list \<Rightarrow> scenario \<Rightarrow> broker" where
  "choose_broker kind terminal s =
     new_broker (if kind = ''interactive'' then InteractiveApproval terminal
                 else if kind = ''auto'' then AutoApproval True
                 else ScriptedApproval (sco_approvals s))"

section \<open>Earlier runs\<close>

text \<open>
  A directory under \<^verbatim>\<open>runs/\<close>: its name, whether its workspace is a directory with something in it and when
  that changed, and the text of its summary, if there is one.
\<close>

record run_dir =
  rd_id :: string
  rd_nonempty :: bool
  rd_mtime :: real
  rd_summary :: "string option"

text \<open>A summary that is no JSON is passed over; one that is no object raises.\<close>

definition add_match :: "string \<Rightarrow> run_dir \<Rightarrow> (real \<times> string) list \<Rightarrow> exn + (real \<times> string) list" where
  "add_match key d found =
     (case (rd_nonempty d, rd_summary d) of
        (True, Some t) \<Rightarrow>
          (case loads t of
             Inl _ \<Rightarrow> Inr found
           | Inr (JObj kvs) \<Rightarrow>
               Inr (if dget kvs ''scenario'' = Some (JStr key) then found @ [(rd_mtime d, rd_id d)] else found)
           | Inr v \<Rightarrow> Inl (''AttributeError'', ''object has no attribute get''))
      | _ \<Rightarrow> Inr found)"

definition later_run :: "real \<times> string \<Rightarrow> real \<times> string \<Rightarrow> bool" where
  "later_run a b \<longleftrightarrow> fst b < fst a \<or> (fst a = fst b \<and> snd b < snd a)"

definition latest_workspace :: "string \<Rightarrow> run_dir list \<Rightarrow> exn + string option" where
  "latest_workspace key dirs =
     (case efold (add_match key) dirs [] of
        Inl e \<Rightarrow> Inl e
      | Inr [] \<Rightarrow> Inr None
      | Inr (m # ms) \<Rightarrow> Inr (Some (snd (fold (\<lambda>x best. if later_run x best then x else best) ms m))))"

section \<open>Seeding\<close>

definition bytecode_name :: "string \<Rightarrow> bool" where
  "bytecode_name n \<longleftrightarrow> n = ''__pycache__'' \<or> str_endswith n ''.pyc'' \<or> n = ''.pytest_cache''"

text \<open>
  \<open>shutil.copytree\<close> into a directory that may exist. A symbolic link in the seed is outside the model and
  an error here.
\<close>

definition copy_entry :: "fpath \<Rightarrow> fpath \<Rightarrow> fpath \<times> entry \<Rightarrow> fs \<Rightarrow> ws_error + fs" where
  "copy_entry seed dest pe fs =
     (let rel = drop (length seed) (fst pe); target = dest @ rel
      in if \<not> is_under seed (fst pe) \<or> rel = [] \<or> list_ex bytecode_name rel then Inr fs
         else case snd pe of
           LinkE a t \<Rightarrow> Inl (OSErr ''a link in the seed is beyond the model'')
         | DirE \<Rightarrow> (case dget fs target of
               None \<Rightarrow> Inr (dset target DirE fs)
             | Some DirE \<Rightarrow> Inr fs
             | Some _ \<Rightarrow> Inl (OSErr ''not a directory''))
         | e \<Rightarrow> (case dget fs target of
               Some DirE \<Rightarrow> Inl (OSErr ''is a directory'')
             | _ \<Rightarrow> Inr (dset target e fs)))"

definition copytree :: "fpath \<Rightarrow> fpath \<Rightarrow> fs \<Rightarrow> ws_error + fs" where
  "copytree seed dest fs = efold (copy_entry seed dest) fs fs"

definition cli_existing_code :: "workspace \<Rightarrow> ws_error + string option" where
  "cli_existing_code ws =
     (let files = list_files ws
      in if files = [] then Inr None
         else map_sum id (\<lambda>chunks. Some (str_join (newline @ newline) chunks))
           (efold (\<lambda>p acc. map_sum id (\<lambda>c. acc @ [''--- '' @ p @ '' ---'' @ newline @ c]) (ws_read ws p))
              (take 40 files) []))"

section \<open>The summary\<close>

text \<open>\<open>json.dumps(v, indent=2)\<close>: keys in the order of the dictionary.\<close>

fun dumps_pretty :: "(real \<Rightarrow> string) \<Rightarrow> nat \<Rightarrow> json \<Rightarrow> string" where
  "dumps_pretty fr n (JArr xs) =
     (if xs = [] then ''[]''
      else ''['' @ indent_to (n + 2)
        @ str_join (CHR '','' # indent_to (n + 2)) (map (dumps_pretty fr (n + 2)) xs)
        @ indent_to n @ '']'')"
| "dumps_pretty fr n (JObj kvs) =
     (if kvs = [] then [CHR 0x7B, CHR 0x7D]
      else CHR 0x7B # indent_to (n + 2)
        @ str_join (CHR '','' # indent_to (n + 2))
            (map (\<lambda>(k, v). json_string k @ '': '' @ dumps_pretty fr (n + 2) v) kvs)
        @ indent_to n @ [CHR 0x7D])"
| "dumps_pretty fr n v = dumps fr v"

definition summary_intake :: "intake_result \<Rightarrow> json" where
  "summary_intake ir = JObj
     [(''state'', JStr (ts_value (ir_state ir))), (''confidence'', JFloat (ep_confidence (ir_problem ir))),
      (''scenario_detected'', JStr (sc_value (ep_scenario (ir_problem ir)))),
      (''ambiguities'', JArr (map (\<lambda>a. JObj [(''question'', JStr (amb_question a)), (''why'', JStr (amb_why a)),
         (''blocking'', JBool (amb_blocking a))]) (ep_ambiguities (ir_problem ir))))]"

definition summary_node :: "node_result \<Rightarrow> json" where
  "summary_node r = JObj
     [(''state'', JStr (ts_value (nr_state r))), (''attempts'', JInt (nr_attempts r)),
      (''rolled_back'', JBool (nr_rolled_back r)), (''used_fallback'', JBool (nr_used_fallback r)),
      (''duration'', JFloat (Fin (py_round (nr_duration r) 3)))]"

definition summary_run :: "run_state \<Rightarrow> json" where
  "summary_run st = JObj
     [(''state'', JStr (ts_value (st_state st))), (''stopped_reason'', JStr (st_stopped st)),
      (''plan_version'', JInt (pl_version (pg_plan (st_graph st)))), (''plan_revisions'', JInt (st_revisions st)),
      (''nodes'', JObj (map (\<lambda>(nid, r). (nid, summary_node r)) (st_results st)))]"

definition summary ::
  "string \<Rightarrow> scenario \<Rightarrow> intake_result \<Rightarrow> run_state option \<Rightarrow> json option \<Rightarrow> (string, json) dict" where
  "summary run_id s ir result metrics =
     [(''run_id'', JStr run_id), (''scenario'', JStr (sco_key s)), (''requirement'', JStr (sco_requirement s)),
      (''demonstrates'', JArr (map JStr (sco_demonstrates s))), (''intake'', summary_intake ir)]
     @ (case result of None \<Rightarrow> [] | Some st \<Rightarrow> [(''run'', summary_run st)])
     @ (case metrics of None \<Rightarrow> [] | Some m \<Rightarrow> [(''metrics'', m)])"

definition summary_text ::
  "(real \<Rightarrow> string) \<Rightarrow> string \<Rightarrow> scenario \<Rightarrow> intake_result \<Rightarrow> run_state option \<Rightarrow> json option \<Rightarrow> string" where
  "summary_text fr run_id s ir result metrics = dumps_pretty fr 0 (JObj (summary run_id s ir result metrics))"

section \<open>\<open>keel run\<close>\<close>

record cli_args =
  cl_scenario :: string
  cl_mode :: run_mode
  cl_replay_from :: "string option"
  cl_run_id :: "string option"
  cl_approvals :: string
  cl_answer_ambiguities :: bool

text \<open>
  What the command reads: the environment of the executor without its dispatcher, the dispatchers built on
  the chosen adapter (of the intake and of the run), a fresh run id, the clock of its own two events, the
  earlier runs, the directory of runs, the file system and the person at the terminal. The run id is one
  that no earlier run has, so the log starts empty.
\<close>

record cli_env =
  ce_env :: env
  ce_dispatchers :: "adapter_choice \<Rightarrow>
    exn + (dispatch_request \<Rightarrow> dispatch_reply) \<times> (nat \<Rightarrow> dispatch_request \<Rightarrow> dispatch_reply)"
  ce_fresh_id :: string
  ce_clock :: "nat \<Rightarrow> real"
  ce_fmt2 :: "pfloat \<Rightarrow> string"
  ce_runs :: "run_dir list"
  ce_runs_path :: fpath
  ce_fs :: fs
  ce_terminal :: "read_event list"

datatype cli_end =
    Refused exn
  | RaisedAfter exn audit_log workspace
  | ParkedRun intake_result audit_log workspace string
  | EndedRun intake_result run_state string int
  | OutOfRounds

definition run_id_of :: "cli_env \<Rightarrow> cli_args \<Rightarrow> string" where
  "run_id_of ce args =
     (case cl_run_id args of None \<Rightarrow> ce_fresh_id ce | Some i \<Rightarrow> if i = [] then ce_fresh_id ce else i)"

definition workspace_of :: "cli_env \<Rightarrow> string \<Rightarrow> fpath" where
  "workspace_of ce run_id = ce_runs_path ce @ [run_id, ''workspace'']"

text \<open>The workspace of a run, seeded from the latest run of another scenario where that is asked for.\<close>

definition seeded_workspace :: "cli_env \<Rightarrow> string \<Rightarrow> scenario \<Rightarrow> exn + workspace" where
  "seeded_workspace ce run_id s =
     (let dest = workspace_of ce run_id; fs0 = dset dest DirE (ce_fs ce)
      in case sco_seed_from s of
           None \<Rightarrow> Inr \<lparr>ws_root = dest, ws_fs = fs0\<rparr>
         | Some key \<Rightarrow>
             (case latest_workspace key (ce_runs ce) of
                Inl e \<Rightarrow> Inl e
              | Inr None \<Rightarrow> Inl (''SystemExit'', ''scenario '' @ str_repr (sco_key s) @ '' needs the '' @ str_repr key
                    @ '' run first.'' @ newline @ ''run: keel run --scenario '' @ key)
              | Inr (Some seed) \<Rightarrow>
                  (case copytree (workspace_of ce seed) dest fs0 of
                     Inl e \<Rightarrow> Inl (en_ws_exn (ce_env ce) e)
                   | Inr fs1 \<Rightarrow> Inr \<lparr>ws_root = dest, ws_fs = fs1\<rparr>)))"

definition log_emission :: "cli_env \<Rightarrow> emission \<Rightarrow> audit_log \<Rightarrow> audit_log" where
  "log_emission ce e l =
     (case e of (et, kvs, nid) \<Rightarrow> emit (en_fr (ce_env ce)) (ce_clock ce (nat (al_seq l))) et kvs nid l)"

definition intake_event :: "intake_result \<Rightarrow> emission" where
  "intake_event ir =
     (INTAKE, [(''confidence'', JFloat (ep_confidence (ir_problem ir))),
        (''scenario'', JStr (sc_value (ep_scenario (ir_problem ir)))),
        (''ambiguities'', JArr (map (JStr \<circ> amb_question) (ep_ambiguities (ir_problem ir)))),
        (''state'', JStr (ts_value (ir_state ir)))], None)"

text \<open>From the intake on, with the workspace, the services and the dispatchers in place.\<close>

definition execute_plan ::
  "nat \<Rightarrow> cli_env \<Rightarrow> (nat \<Rightarrow> dispatch_request \<Rightarrow> dispatch_reply) \<Rightarrow> string \<Rightarrow> scenario \<Rightarrow> services \<Rightarrow> intake_result \<Rightarrow> cli_end"
where
  "execute_plan fuel ce dispatch run_id s su ir =
     (let env = (ce_env ce)\<lparr>en_dispatch := dispatch\<rparr>; p = build None (ce_fmt2 ce) (ir_problem ir)
      in case run fuel env su (ir_problem ir) p of
           Inl e \<Rightarrow> RaisedAfter (en_graph_exn env e) (su_audit su) (su_ws su)
         | Inr None \<Rightarrow> OutOfRounds
         | Inr (Some (Broken e st)) \<Rightarrow> RaisedAfter e (w_audit (st_world st)) (w_ws (st_world st))
         | Inr (Some (Finished st)) \<Rightarrow>
             (let m = from_results run_id (dvals (st_results st)) (al_events (w_audit (st_world st)))
              in case loads (metrics_to_json (en_fr env) m) of
                   Inl e \<Rightarrow> RaisedAfter (''JSONDecodeError'', []) (w_audit (st_world st)) (w_ws (st_world st))
                 | Inr v \<Rightarrow>
                     EndedRun ir st (summary_text (en_fr env) run_id s ir (Some st) (Some v))
                       (if run_ok st then 0 else 1)))"

definition after_intake ::
  "nat \<Rightarrow> cli_env \<Rightarrow> (nat \<Rightarrow> dispatch_request \<Rightarrow> dispatch_reply) \<Rightarrow> string \<Rightarrow> scenario \<Rightarrow> services \<Rightarrow> intake_result \<Rightarrow> cli_end"
where
  "after_intake fuel ce dispatch run_id s su ir =
     (let su1 = su\<lparr>su_audit := log_emission ce (intake_event ir) (su_audit su)\<rparr>
      in if parked ir
         then ParkedRun ir
                (log_emission ce (RUN_FINISHED, [(''state'', JStr (ts_value INPUT_REQUIRED))], None) (su_audit su1))
                (su_ws su) (summary_text (en_fr (ce_env ce)) run_id s ir None None)
         else execute_plan fuel ce dispatch run_id s su1 ir)"

definition cli_run :: "nat \<Rightarrow> cli_env \<Rightarrow> cli_args \<Rightarrow> cli_end" where
  "cli_run fuel ce args =
     (case get_scenario (cl_scenario args) of
        Inl msg \<Rightarrow> Refused (''SystemExit'', msg)
      | Inr s \<Rightarrow>
     (case seeded_workspace ce (run_id_of ce args) s of
        Inl e \<Rightarrow> Refused e
      | Inr ws \<Rightarrow>
     (case choose_adapter (cl_mode args) (cl_replay_from args) of
        Inl msg \<Rightarrow> Refused (''SystemExit'', msg)
      | Inr choice \<Rightarrow>
     (case ce_dispatchers ce choice of
        Inl e \<Rightarrow> Refused e
      | Inr (ask, dispatch) \<Rightarrow>
     (case cli_existing_code ws of
        Inl e \<Rightarrow> Refused (en_ws_exn (ce_env ce) e)
      | Inr code \<Rightarrow>
          (let answers = (if cl_answer_ambiguities args then Some (sco_answers s) else None);
               reply = analyze (en_fr (ce_env ce)) ask default_confidence_threshold (sco_requirement s) code answers;
               log = fold (log_emission ce) (fst reply) (new_log (run_id_of ce args));
               su = \<lparr>su_ws = ws, su_audit = log, su_policy = default_engine {}, su_lineage = new_store,
                     su_broker = choose_broker (cl_approvals args) (ce_terminal ce) s\<rparr>
           in case snd reply of
                Inl e \<Rightarrow> RaisedAfter e log ws
              | Inr ir \<Rightarrow> after_intake fuel ce dispatch (run_id_of ce args) s su ir))))))"

section \<open>\<open>keel report\<close>\<close>

text \<open>The problems of the log, and the metrics of the events alone: no results are handed over.\<close>

definition report_metrics :: "string \<Rightarrow> audit_event list \<Rightarrow> run_metrics" where
  "report_metrics run_id events = from_results run_id [] events"

text \<open>The run directory, if it is there, and its log; the events are what the log loads to.\<close>

definition cli_report ::
  "(real \<Rightarrow> string) \<Rightarrow> bool \<Rightarrow> string \<Rightarrow> string \<Rightarrow> string \<Rightarrow> string option \<Rightarrow> audit_event list \<Rightarrow> exn + string list \<times> run_metrics"
where
  "cli_report fr dir_exists dir path run_id contents events =
     (if \<not> dir_exists then Inl (''SystemExit'', ''no such run: '' @ dir)
      else if contents = None then Inl (''FileNotFoundError'', ''no audit log at '' @ path)
      else map_sum id (\<lambda>problems. (problems, report_metrics run_id events)) (verify_integrity fr path run_id contents))"

end
