(* ===== verification/CliProps.thy ===== *)
theory CliProps
  imports Cli ExecutorTrail
begin

text \<open>
  What \<open>keel run\<close> keeps: nothing is written before the intake is on record, a parked run writes nothing,
  brownfield is seeded from the latest run of the scenario it names, and an intake that failed is executed
  all the same.
\<close>

section \<open>Seeding\<close>

definition ran_scenario :: "string \<Rightarrow> run_dir \<Rightarrow> bool" where
  "ran_scenario key d \<longleftrightarrow> rd_nonempty d
     \<and> (case rd_summary d of
          None \<Rightarrow> False
        | Some t \<Rightarrow> (case loads t of Inr (JObj kvs) \<Rightarrow> dget kvs ''scenario'' = Some (JStr key) | _ \<Rightarrow> False))"

lemma add_match_Inr:
  "add_match key d found = Inr found' \<Longrightarrow>
   found' = (if ran_scenario key d then found @ [(rd_mtime d, rd_id d)] else found)"
  by (auto simp: add_match_def ran_scenario_def split: bool.splits option.splits sum.splits json.splits if_splits)

lemma matches_found:
  "efold (add_match key) dirs found = Inr ms \<Longrightarrow>
   ms = found @ map (\<lambda>d. (rd_mtime d, rd_id d)) (filter (ran_scenario key) dirs)"
proof (induction dirs arbitrary: found)
  case (Cons d dirs)
  then obtain f1 where f: "add_match key d found = Inr f1" "efold (add_match key) dirs f1 = Inr ms"
    by (auto split: sum.splits)
  from Cons.IH [OF f(2)] add_match_Inr [OF f(1)] show ?case by simp
qed simp

lemma not_later_trans: "\<not> later_run a b \<Longrightarrow> \<not> later_run b c \<Longrightarrow> \<not> later_run a c"
  unfolding later_run_def by (metis less_linear less_trans)

lemma later_asym: "later_run a b \<Longrightarrow> \<not> later_run b a"
  by (auto simp: later_run_def)

lemma later_irrefl: "\<not> later_run a a"
  by (simp add: later_run_def)

lemma fold_latest:
  "let b = fold (\<lambda>x best. if later_run x best then x else best) ms m
   in b \<in> set (m # ms) \<and> list_all (\<lambda>x. \<not> later_run x b) (m # ms)"
proof (induction ms arbitrary: m)
  case Nil
  show ?case by (simp add: later_run_def)
next
  case (Cons x ms)
  let ?m = "if later_run x m then x else m"
  let ?b = "fold (\<lambda>x best. if later_run x best then x else best) ms ?m"
  have b: "?b \<in> set (?m # ms)" "\<not> later_run ?m ?b" "list_all (\<lambda>x. \<not> later_run x ?b) ms"
    using Cons [of ?m] unfolding Let_def list.pred_inject by blast+
  have "\<not> later_run x ?m \<and> \<not> later_run m ?m"
    using later_asym [of x m] later_irrefl by (cases "later_run x m") simp_all
  then have "\<not> later_run x ?m" "\<not> later_run m ?m" by simp_all
  with b(2) have "\<not> later_run x ?b" "\<not> later_run m ?b" using not_later_trans by blast+
  moreover have "?b \<in> set (m # x # ms)" using b(1) by (auto split: if_splits)
  ultimately show ?case using b(3) by (simp only: fold.simps comp_apply Let_def list.pred_inject simp_thms)
qed

text \<open>
  The seed is a non-empty workspace whose own summary names the scenario, and none of those is later; there
  is none exactly when no run of the scenario left one.
\<close>

theorem seed_is_latest_of_scenario:
  assumes "latest_workspace key dirs = Inr found"
  shows "case found of
      None \<Rightarrow> filter (ran_scenario key) dirs = []
    | Some i \<Rightarrow> \<exists>d \<in> set dirs. rd_id d = i \<and> ran_scenario key d
        \<and> list_all (\<lambda>d'. \<not> later_run (rd_mtime d', rd_id d') (rd_mtime d, rd_id d)) (filter (ran_scenario key) dirs)"
proof -
  from assms obtain ms where ms: "efold (add_match key) dirs [] = Inr ms"
    by (auto simp: latest_workspace_def split: sum.splits)
  from matches_found [OF this] have m: "ms = map (\<lambda>d. (rd_mtime d, rd_id d)) (filter (ran_scenario key) dirs)" by simp
  show ?thesis
  proof (cases ms)
    case Nil
    with assms ms m show ?thesis by (auto simp: latest_workspace_def)
  next
    case (Cons x xs)
    let ?b = "fold (\<lambda>x best. if later_run x best then x else best) xs x"
    from fold_latest [of xs x] have b: "?b \<in> set ms" "list_all (\<lambda>x. \<not> later_run x ?b) ms" by (simp_all add: Let_def Cons)
    from b(1) m obtain d where d: "d \<in> set dirs" "ran_scenario key d" "?b = (rd_mtime d, rd_id d)" by auto
    have "found = Some (rd_id d)" using assms ms Cons d(3) by (simp add: latest_workspace_def)
    moreover have "list_all (\<lambda>d'. \<not> later_run (rd_mtime d', rd_id d') (rd_mtime d, rd_id d)) (filter (ran_scenario key) dirs)"
      using b(2) unfolding m d(3) by (simp add: list_all_iff)
    ultimately show ?thesis using d by auto
  qed
qed

section \<open>The log of the command\<close>

definition intake_before_writes :: "audit_event list \<Rightarrow> bool" where
  "intake_before_writes es \<longleftrightarrow>
     (\<forall>k < length es. ae_event_type (es ! k) = ARTIFACT_WRITTEN \<longrightarrow> (\<exists>j < k. ae_event_type (es ! j) = INTAKE))"

lemma no_writes_before:
  "list_all (\<lambda>e. ae_event_type e \<noteq> ARTIFACT_WRITTEN) es \<Longrightarrow> intake_before_writes es"
  by (auto simp: intake_before_writes_def list_all_length)

lemma writes_after_intake:
  assumes "list_all (\<lambda>e. ae_event_type e \<noteq> ARTIFACT_WRITTEN) es" and "ae_event_type i = INTAKE"
  shows "intake_before_writes ((es @ [i]) @ new)"
  unfolding intake_before_writes_def
proof (intro allI impI)
  fix k assume k: "k < length ((es @ [i]) @ new)" "ae_event_type (((es @ [i]) @ new) ! k) = ARTIFACT_WRITTEN"
  have "length es < k"
  proof (rule ccontr)
    assume "\<not> length es < k"
    then have "((es @ [i]) @ new) ! k = (if k < length es then es ! k else i)" by (auto simp: nth_append)
    with k(2) assms \<open>\<not> length es < k\<close> show False by (auto simp: list_all_length split: if_splits)
  qed
  then show "\<exists>j < k. ae_event_type (((es @ [i]) @ new) ! j) = INTAKE"
    using assms(2) by (intro exI [of _ "length es"]) (simp add: nth_append)
qed

lemma emission_events [simp]:
  "map ae_event_type (al_events (log_emission ce e l)) = map ae_event_type (al_events l) @ [fst e]"
  by (cases e) (simp add: log_emission_def)

lemma emissions_events:
  "map ae_event_type (al_events (fold (log_emission ce) es l)) = map ae_event_type (al_events l) @ map fst es"
  by (induction es arbitrary: l) simp_all

lemma emission_append: "\<exists>e'. al_events (log_emission ce e l) = al_events l @ [e'] \<and> ae_event_type e' = fst e"
  by (cases e) (simp add: log_emission_def)

lemma local_dispatch_emits: "set (map fst (fst (local_dispatch d r))) \<subseteq> {MODEL_CALL}"
  by (auto simp: local_dispatch_def Let_def split: sum.splits)

lemma analyze_emits: "fst (analyze fr ask th req code answers) = fst (ask (intake_request req code answers))"
  by (simp add: analyze_def split: prod.split sum.split)

text \<open>A run only adds to the log it is given.\<close>

lemma run_extends_log:
  assumes "run fuel env su problem p = Inr (Some r)"
  shows "\<exists>new. al_events (w_audit (st_world (end_state r))) = al_events (su_audit su) @ new"
proof -
  have "log_grown (en_fr env) (su_audit su) (w_audit (st_world (end_state r)))"
    by (rule trail.loop.run_world [OF assms]) (simp add: initial_world_def)
  then show ?thesis by (auto simp: log_grown_def)
qed

definition cli_log :: "cli_end \<Rightarrow> audit_event list" where
  "cli_log r = (case r of
      RaisedAfter e l ws \<Rightarrow> al_events l
    | ParkedRun ir l ws t \<Rightarrow> al_events l
    | EndedRun ir st t c \<Rightarrow> al_events (w_audit (st_world st))
    | _ \<Rightarrow> [])"

lemma execute_plan_log:
  assumes "al_events (su_audit su) = es @ [i]" and "list_all (\<lambda>e. ae_event_type e \<noteq> ARTIFACT_WRITTEN) es"
    and "ae_event_type i = INTAKE"
  shows "intake_before_writes (cli_log (execute_plan fuel ce dispatch rid s su ir))"
proof -
  let ?env = "(ce_env ce)\<lparr>en_dispatch := dispatch\<rparr>"
  let ?p = "build None (ce_fmt2 ce) (ir_problem ir)"
  have after: "intake_before_writes (al_events (w_audit (st_world (end_state r))))"
    if "run fuel ?env su (ir_problem ir) ?p = Inr (Some r)" for r
    using run_extends_log [OF that] writes_after_intake [OF assms(2,3)] assms(1) by auto
  have "intake_before_writes (al_events (su_audit su))" using writes_after_intake [OF assms(2,3), of "[]"] assms(1) by simp
  moreover have "intake_before_writes []" by (simp add: intake_before_writes_def)
  ultimately show ?thesis using after
    by (fastforce simp: execute_plan_def cli_log_def Let_def split: sum.split option.split run_end.split)
qed

lemma only_calls: "set (map ae_event_type es) \<subseteq> {MODEL_CALL} \<Longrightarrow> list_all (\<lambda>e. ae_event_type e \<noteq> ARTIFACT_WRITTEN) es"
  by (auto simp: list_all_iff)

text \<open>What is shown of the end of a command.\<close>

definition sound_end :: "workspace \<Rightarrow> cli_end \<Rightarrow> bool" where
  "sound_end seeded r = (case r of
      ParkedRun ir l ws txt \<Rightarrow> ws = seeded \<and> ir_state ir = INPUT_REQUIRED
        \<and> set (map ae_event_type (al_events l)) \<subseteq> {MODEL_CALL, INTAKE, RUN_FINISHED}
        \<and> ae_event_type (last (al_events l)) = RUN_FINISHED
    | EndedRun ir st txt code \<Rightarrow>
        intake_before_writes (al_events (w_audit (st_world st))) \<and> \<not> parked ir \<and> (code = 0) = (st_state st = COMPLETED)
    | RaisedAfter e l ws \<Rightarrow> intake_before_writes (al_events l)
    | _ \<Rightarrow> True)"

lemma sound_after_intake:
  assumes calls: "set (map ae_event_type (al_events (su_audit su))) \<subseteq> {MODEL_CALL}"
  shows "sound_end (su_ws su) (after_intake fuel ce dispatch rid s su ir)"
proof (cases "parked ir")
  case True
  obtain i where i: "al_events (log_emission ce (intake_event ir) (su_audit su)) = al_events (su_audit su) @ [i]"
    "ae_event_type i = INTAKE"
    using emission_append [of ce "intake_event ir" "su_audit su"] by (auto simp: intake_event_def)
  obtain f where f: "al_events (log_emission ce (RUN_FINISHED, [(''state'', JStr (ts_value INPUT_REQUIRED))], None)
      (log_emission ce (intake_event ir) (su_audit su))) = (al_events (su_audit su) @ [i]) @ [f]" "ae_event_type f = RUN_FINISHED"
    using emission_append [of ce "(RUN_FINISHED, [(''state'', JStr (ts_value INPUT_REQUIRED))], None)"] i(1) by (metis fst_conv)
  show ?thesis using True calls i(2) f by (auto simp: after_intake_def sound_end_def parked_def Let_def)
next
  case False
  let ?su1 = "su\<lparr>su_audit := log_emission ce (intake_event ir) (su_audit su)\<rparr>"
  have r: "after_intake fuel ce dispatch rid s su ir = execute_plan fuel ce dispatch rid s ?su1 ir"
    by (simp add: after_intake_def False)
  obtain i where i: "al_events (su_audit ?su1) = al_events (su_audit su) @ [i]" "ae_event_type i = INTAKE"
    using emission_append [of ce "intake_event ir" "su_audit su"] by (auto simp: intake_event_def)
  have "intake_before_writes (cli_log (after_intake fuel ce dispatch rid s su ir))"
    unfolding r by (rule execute_plan_log [OF i(1) only_calls [OF calls] i(2)])
  moreover have "case after_intake fuel ce dispatch rid s su ir of
      EndedRun ir' st txt code \<Rightarrow> ir' = ir \<and> (code = 0) = (st_state st = COMPLETED) | ParkedRun _ _ _ _ \<Rightarrow> False | _ \<Rightarrow> True"
    unfolding r by (simp add: execute_plan_def Let_def run_ok_def split: sum.split option.split run_end.split)
  ultimately show ?thesis using False
    by (cases "after_intake fuel ce dispatch rid s su ir") (simp_all add: sound_end_def cli_log_def)
qed

text \<open>
  C4: No code before the intake. However a run from the command line ends, in its log every artifact that
  was written comes after the intake event; a run that parks has asked its blocking questions, has written
  nothing, leaves the workspace as it was seeded and ends its log with the end of the run; and a run that
  goes through is not parked and exits with zero exactly when it completed.
\<close>

theorem no_code_before_intake:
  assumes "\<forall>choice ask dispatch. ce_dispatchers ce choice = Inr (ask, dispatch) \<longrightarrow> (\<exists>d. ask = local_dispatch d)"
  shows "case cli_run fuel ce args of
      Refused e \<Rightarrow> True
    | OutOfRounds \<Rightarrow> True
    | r \<Rightarrow> \<exists>s ws. get_scenario (cl_scenario args) = Inr s \<and> seeded_workspace ce (run_id_of ce args) s = Inr ws \<and> sound_end ws r"
proof -
  have "\<exists>s ws. get_scenario (cl_scenario args) = Inr s \<and> seeded_workspace ce (run_id_of ce args) s = Inr ws
      \<and> sound_end ws (cli_run fuel ce args)" if not_refused: "\<And>e. cli_run fuel ce args \<noteq> Refused e"
  proof -
    obtain s where s: "get_scenario (cl_scenario args) = Inr s"
      using not_refused by (cases "get_scenario (cl_scenario args)") (auto simp: cli_run_def)
    obtain ws where ws: "seeded_workspace ce (run_id_of ce args) s = Inr ws"
      using not_refused s by (cases "seeded_workspace ce (run_id_of ce args) s") (auto simp: cli_run_def)
    obtain choice where ch: "choose_adapter (cl_mode args) (cl_replay_from args) = Inr choice"
      using not_refused s ws by (cases "choose_adapter (cl_mode args) (cl_replay_from args)") (auto simp: cli_run_def)
    obtain ask dispatch where ds: "ce_dispatchers ce choice = Inr (ask, dispatch)"
      using not_refused s ws ch by (cases "ce_dispatchers ce choice") (auto simp: cli_run_def)
    have "cli_existing_code ws \<noteq> Inl e" for e
      using not_refused [of "en_ws_exn (ce_env ce) e"] s ws ch ds by (auto simp: cli_run_def)
    then obtain code where code: "cli_existing_code ws = Inr code" by (cases "cli_existing_code ws") auto
    from assms ds obtain d where d: "ask = local_dispatch d" by blast
    define answers where "answers = (if cl_answer_ambiguities args then Some (sco_answers s) else None)"
    define reply where "reply = analyze (en_fr (ce_env ce)) ask default_confidence_threshold (sco_requirement s) code answers"
    define log0 where "log0 = fold (log_emission ce) (fst reply) (new_log (run_id_of ce args))"
    define su where "su = \<lparr>su_ws = ws, su_audit = log0, su_policy = default_engine {}, su_lineage = new_store,
            su_broker = choose_broker (cl_approvals args) (ce_terminal ce) s\<rparr>"
    have run: "cli_run fuel ce args = (case snd reply of Inl e \<Rightarrow> RaisedAfter e log0 ws
        | Inr ir \<Rightarrow> after_intake fuel ce dispatch (run_id_of ce args) s su ir)"
      by (simp only: cli_run_def s ws ch ds code Let_def sum.case prod.case su_def log0_def reply_def answers_def)
    have "set (map fst (fst reply)) \<subseteq> {MODEL_CALL}" unfolding reply_def analyze_emits d by (rule local_dispatch_emits)
    then have calls: "set (map ae_event_type (al_events log0)) \<subseteq> {MODEL_CALL}"
      unfolding log0_def emissions_events by (simp add: new_log_def)
    have "sound_end ws (cli_run fuel ce args)"
    proof (cases "snd reply")
      case (Inl e)
      with run no_writes_before [OF only_calls [OF calls]] show ?thesis by (simp add: sound_end_def)
    next
      case (Inr ir)
      have "su_audit su = log0" "su_ws su = ws" by (simp_all add: su_def)
      with run Inr sound_after_intake [of su fuel ce dispatch "run_id_of ce args" s ir] calls show ?thesis by simp
    qed
    with s ws show ?thesis by blast
  qed
  then show ?thesis by (cases "cli_run fuel ce args") simp_all
qed

text \<open>A sample: the analyst asks one blocking question about the ambiguous requirement.\<close>

definition sample_dispatcher :: local_dispatcher where
  "sample_dispatcher = \<lparr>ld_sha = id, ld_fr = (\<lambda>_. ''0.5''),
     ld_adapter = (\<lambda>q. Inr \<lparr>rs_text = [], rs_parsed = Some [(''ambiguities'', JArr [JObj [(''question'', JStr ''Which links?'')]]),
         (''confidence'', JFloat (Fin (1 / 2)))], rs_model = ''m'', rs_input_tokens = 0, rs_output_tokens = 0,
       rs_latency_seconds = 0, rs_from_replay = True\<rparr>),
     ld_definitions = [\<lparr>sd_skill_id = ''analyze'', sd_system_prompt = [], sd_prompt_template = ''Analyze'', sd_json_schema = None\<rparr>],
     ld_on_call = False\<rparr>"

definition sample_cli :: "env \<Rightarrow> cli_env" where
  "sample_cli env = \<lparr>ce_env = env, ce_dispatchers = (\<lambda>_. Inr (local_dispatch sample_dispatcher, \<lambda>k. local_dispatch sample_dispatcher)),
     ce_fresh_id = ''run-1'', ce_clock = real, ce_fmt2 = (\<lambda>_. ''0.50''), ce_runs = [], ce_runs_path = [''runs''], ce_fs = [],
     ce_terminal = []\<rparr>"

definition sample_args :: cli_args where
  "sample_args = \<lparr>cl_scenario = ''ambiguous'', cl_mode = LIVE, cl_replay_from = None, cl_run_id = None,
     cl_approvals = ''scripted'', cl_answer_ambiguities = False\<rparr>"

lemma sample_parks: "\<exists>ir l ws txt. cli_run fuel (sample_cli env) sample_args = ParkedRun ir l ws txt"
proof -
  have "get_scenario ''ambiguous'' = Inr ambiguous_scenario"
    by (simp add: get_scenario_def all_scenarios_def greenfield_scenario_def brownfield_scenario_def ambiguous_scenario_def)
  moreover have "seeded_workspace (sample_cli env) ''run-1'' ambiguous_scenario
      = Inr \<lparr>ws_root = [''runs'', ''run-1'', ''workspace''], ws_fs = [([''runs'', ''run-1'', ''workspace''], DirE)]\<rparr>"
    by (simp add: seeded_workspace_def ambiguous_scenario_def workspace_of_def sample_cli_def Let_def)
  moreover have "cli_existing_code \<lparr>ws_root = [''runs'', ''run-1'', ''workspace''], ws_fs = [([''runs'', ''run-1'', ''workspace''], DirE)]\<rparr>
      = Inr None"
    by (simp add: cli_existing_code_def list_files_def file_paths_def below_root_def)
  moreover have "\<exists>ir. snd (analyze fr (local_dispatch sample_dispatcher) default_confidence_threshold req code None) = Inr ir \<and> parked ir" for fr req code
    by (simp add: analyze_def intake_request_def local_dispatch_def sample_dispatcher_def definition_for_def outcome_of_response_def
      conclude_def to_problem_def iter_field_def add_ambiguity_def to_ambiguity_def str_field_def confidence_of_def apply_answers_def
      intake_of_def parked_def is_plannable_def default_confidence_threshold_def blocking_ambiguities_def
      clamp_unit_def py_max_def py_min_def amb_resolved_def)
  moreover obtain ir where "snd (analyze (en_fr env) (local_dispatch sample_dispatcher) default_confidence_threshold
      (sco_requirement ambiguous_scenario) None None) = Inr ir" "parked ir"
    using \<open>\<And>fr req code. \<exists>ir. snd (analyze fr (local_dispatch sample_dispatcher) default_confidence_threshold req code None) = Inr ir \<and> parked ir\<close>
    by blast
  moreover have "ce_env (sample_cli env) = env" "ce_dispatchers (sample_cli env) ClaudeLive
      = Inr (local_dispatch sample_dispatcher, \<lambda>k. local_dispatch sample_dispatcher)" "run_id_of (sample_cli env) sample_args = ''run-1''"
    by (simp_all add: sample_cli_def run_id_of_def sample_args_def)
  moreover have "cl_scenario sample_args = ''ambiguous''" "cl_mode sample_args = LIVE" "\<not> cl_answer_ambiguities sample_args"
    by (simp_all add: sample_args_def)
  ultimately show ?thesis by (simp add: cli_run_def choose_adapter_def after_intake_def Let_def)
qed

theorem no_code_before_intake_witness:
  "\<forall>fuel env. \<exists>ir l ws txt. cli_run fuel (sample_cli env) sample_args = ParkedRun ir l ws txt
     \<and> set (map ae_event_type (al_events l)) \<subseteq> {MODEL_CALL, INTAKE, RUN_FINISHED}
     \<and> ae_event_type (last (al_events l)) = RUN_FINISHED"
proof (intro allI)
  fix fuel env
  have "\<forall>choice ask dispatch. ce_dispatchers (sample_cli env) choice = Inr (ask, dispatch) \<longrightarrow> (\<exists>d. ask = local_dispatch d)"
    by (auto simp: sample_cli_def)
  from no_code_before_intake [OF this, where fuel = fuel and args = sample_args] sample_parks [of fuel env]
  show "\<exists>ir l ws txt. cli_run fuel (sample_cli env) sample_args = ParkedRun ir l ws txt
     \<and> set (map ae_event_type (al_events l)) \<subseteq> {MODEL_CALL, INTAKE, RUN_FINISHED}
     \<and> ae_event_type (last (al_events l)) = RUN_FINISHED"
    by (auto simp: sound_end_def)
qed

section \<open>A failed intake\<close>

text \<open>
  The command looks at the parked state alone: an intake that got no structured output has failed, with no
  criterion and no confidence, and its empty problem is planned and executed.
\<close>

theorem failed_intake_is_executed:
  assumes "ask (intake_request (sco_requirement s) code answers) = (es, Inr out)" and "so_parsed out = None"
  shows "\<exists>ir. snd (analyze fr ask th (sco_requirement s) code answers) = Inr ir \<and> ir_state ir = FAILED
    \<and> ep_confidence (ir_problem ir) = Fin 0 \<and> ep_acceptance_criteria (ir_problem ir) = []
    \<and> after_intake fuel ce dispatch rid s su ir
        = execute_plan fuel ce dispatch rid s (su\<lparr>su_audit := log_emission ce (intake_event ir) (su_audit su)\<rparr>) ir"
  using assms by (simp add: analyze_def conclude_def intake_of_def unread_problem_def after_intake_def parked_def
      split: bool.split)

section \<open>A rebuilt report\<close>

text \<open>The metrics of a rebuilt report count no node, whatever the log says: they are given no results.\<close>

theorem rebuilt_report_counts_no_node:
  "rm_total_nodes (report_metrics run_id events) = 0 \<and> rm_succeeded (report_metrics run_id events) = 0
   \<and> rm_failed (report_metrics run_id events) = 0 \<and> rm_cost_usd (report_metrics run_id events) = 0
   \<and> rm_input_tokens (report_metrics run_id events) = 0 \<and> rm_output_tokens (report_metrics run_id events) = 0"
  by (simp add: report_metrics_def from_results_def final_results_def Let_def)

end
