(* ===== verification/ReportLog.thy ===== *)
theory ReportLog
  imports ReportProps CliProps ExecutorOutcome
begin

text \<open>
  The report of a run beside the log the executor writes: the calls of the command line that build
  it, and what its tables make of the events. Two of the tables read keys of the payloads that the
  executor does not write.
\<close>

section \<open>The two callers\<close>

text \<open>The end of \<open>keel run\<close>, and \<open>keel report\<close>, which knows neither plan nor results.\<close>

definition run_report_input :: "string \<Rightarrow> plan \<Rightarrow> node_result list \<Rightarrow> audit_event list \<Rightarrow> string \<Rightarrow> report_input" where
  "run_report_input run_id p results events mermaid =
     \<lparr>rpt_run_id = run_id, rpt_plan = p, rpt_results = results,
      rpt_metrics = from_results run_id results events, rpt_events = events, rpt_mermaid = Some mermaid\<rparr>"

definition rebuilt_input :: "string \<Rightarrow> audit_event list \<Rightarrow> report_input" where
  "rebuilt_input run_id events =
     \<lparr>rpt_run_id = run_id, rpt_plan = \<lparr>pl_nodes = [], pl_version = 1, pl_rationale = [], pl_supersedes = None\<rparr>,
      rpt_results = [], rpt_metrics = report_metrics run_id events, rpt_events = events, rpt_mermaid = None\<rparr>"

text \<open>The file a run that ended leaves; a run that was parked or that raised writes none.\<close>

definition run_report ::
  "(real \<Rightarrow> string) \<Rightarrow> (string \<Rightarrow> string) \<Rightarrow> (real \<Rightarrow> string) \<Rightarrow> real \<Rightarrow> string \<Rightarrow> string \<Rightarrow> cli_end \<Rightarrow> (string, string) dict
     \<Rightarrow> graph_error + (string, string) dict"
where
  "run_report fr sha local_time now path run_id e files =
     (case e of
        EndedRun ir st txt code \<Rightarrow>
          (let p = pg_plan (st_graph st)
           in case build_graph p of
                Inl err \<Rightarrow> Inl err
              | Inr g \<Rightarrow>
                  Inr (snd (write_report fr sha local_time now path
                    (run_report_input run_id p (dvals (st_results st)) (al_events (w_audit (st_world st))) (to_mermaid g))
                    None files)))
      | _ \<Rightarrow> Inr files)"

definition rebuilt_report ::
  "(real \<Rightarrow> string) \<Rightarrow> (string \<Rightarrow> string) \<Rightarrow> (real \<Rightarrow> string) \<Rightarrow> real \<Rightarrow> string \<Rightarrow> string \<Rightarrow> audit_event list
     \<Rightarrow> (string, string) dict \<Rightarrow> string \<times> (string, string) dict"
where
  "rebuilt_report fr sha local_time now path run_id events files =
     write_report fr sha local_time now path (rebuilt_input run_id events) None files"

text \<open>The plan a run ended with is accepted again, so the report of the run is always written.\<close>

theorem ended_run_writes_its_report:
  assumes "run fuel env su problem p = Inr (Some (Finished st))"
  shows "\<exists>diagram. run_report fr sha local_time now path run_id (EndedRun ir st txt code) files
    = Inr (dset path (build_report fr sha local_time now
        (run_report_input run_id (pg_plan (st_graph st)) (dvals (st_results st)) (al_events (w_audit (st_world st))) diagram)
        None) files)"
proof -
  have "wf_graph (st_graph st)" using run_consistent [OF assms] by (simp add: consistent_def)
  then obtain g where "build_graph (pg_plan (st_graph st)) = Inr g" using build_graph_ok by (auto simp: wf_graph_def)
  then show ?thesis by (auto simp: run_report_def write_report_def Let_def)
qed

section \<open>The events the executor logs\<close>

definition last_event :: "world \<Rightarrow> audit_event" where
  "last_event w = last (al_events (w_audit w))"

lemma last_event_log:
  "last_event (log_event env et p i w) = make_event (en_time env (w_tick w)) et p i (w_audit w)"
  "last_event (log_event env et p i w) \<in> set (al_events (w_audit (log_event env et p i w)))"
  by (simp_all add: last_event_def log_event_def emit_def ticked_def Let_def)

lemma dget_redacted: "dget (redact_payload p) k = map_option (redact (Some k)) (dget p k)"
  by (induction p) (auto simp: redact_payload_def)

lemma make_event_simps [simp]:
  "ae_event_type (make_event t et p i l) = et" "ae_node_id (make_event t et p i l) = i"
  "ae_payload (make_event t et p i l) = redact_payload p"
  by (simp_all add: make_event_def)

lemma get_str_redacted: "dget p k = None \<Longrightarrow> get_str fr (redact_payload p) k d = d"
  "dget p k = None \<Longrightarrow> get_or fr (redact_payload p) k d = d"
  "dget p k = None \<Longrightarrow> get_esc fr (redact_payload p) k d = esc d"
  by (simp_all add: get_str_def get_or_def get_esc_def dget_redacted)

lemma node_or_some [simp]: "node_or (make_event t et p (Some i) l) [] = i"
  by (simp add: node_or_def)

section \<open>Violations are listed twice\<close>

text \<open>
  The executor logs a violation under \<open>rule\<close>, the report looks for \<open>rule_id\<close>: the logged event never
  has the key of the typed violation it repeats, so the table lists every violation of a result
  a second time, with an empty rule.
\<close>

theorem violation_is_listed_twice:
  assumes "d \<in> set gs" and "gd_node_id d = ns_id n" and "v \<in> set (gd_violations d)"
    and "list_all (\<lambda>d. list_all (\<lambda>u. pv_rule_id u \<noteq> []) (gd_violations d)) gs"
    and "last_event (log_violation env n v w) \<in> set events"
  shows "(ns_id n, Some v, []) \<in> set (collect_violations fr gs events)
    \<and> (\<exists>p. (ns_id n, None, p) \<in> set (collect_violations fr gs events) \<and> get_str fr p ''rule_id'' [] = [])"
proof -
  let ?e = "last_event (log_violation env n v w)"
  have e: "ae_event_type ?e = POLICY_VIOLATION" "fst (logged_key fr ?e) = ns_id n" "fst (snd (logged_key fr ?e)) = []"
    by (simp_all add: log_violation_def last_event_log(1) logged_key_def Let_def get_str_redacted)
  have "fst (snd k) \<noteq> []" if "k \<in> typed_keys gs" for k
    using that assms(4) by (auto simp: typed_keys_def violation_key_def list_all_iff)
  with e(3) have fresh: "logged_key fr ?e \<notin> typed_keys gs" by blast
  obtain e' where e': "logged_key fr e' = logged_key fr ?e"
    "(fst (logged_key fr ?e), None, ae_payload e') \<in> set (collect_violations fr gs events)"
    by (rule logged_violation_listed [OF assms(5) e(1) fresh])
  have "get_str fr (ae_payload e') ''rule_id'' [] = fst (snd (logged_key fr e'))"
    by (simp add: logged_key_def Let_def)
  then have "get_str fr (ae_payload e') ''rule_id'' [] = []" by (simp add: e'(1) e(3))
  moreover have "(ns_id n, Some v, []) \<in> set (typed_violations gs)"
    using assms(1-3) by (force simp: typed_violations_def)
  then have "(ns_id n, Some v, []) \<in> set (collect_violations fr gs events)" by (simp add: collect_violations_fresh)
  ultimately show ?thesis using e'(2) e(2) by metis
qed

section \<open>Nobody decided\<close>

text \<open>
  The executor logs who decided under \<open>by\<close> and logs no request id, the report looks for \<open>decided_by\<close>
  and \<open>request_id\<close>: both columns of a decision read \<open>-\<close>, whoever decided.
\<close>

definition decision_payload :: "approval_decision \<Rightarrow> (string, json) dict" where
  "decision_payload d = [(''approved'', JBool (ad_approved d)), (''by'', JStr (ad_decided_by d)), (''note'', JStr (ad_note d))]"

theorem approval_row_names_nobody:
  assumes "approval_row fr origin (last_event (log_event env APPROVAL_DECIDED (decision_payload d) (Some i) w)) = Some row"
  shows "row ! 3 = classed ''span'' ''mono'' ''-'' \<and> row ! 6 = ''-''"
proof -
  have "esc ''-'' = ''-''" by (simp add: esc_def esc_char_def)
  with assms show ?thesis
    by (auto simp: approval_row_def Let_def last_event_log(1) get_str_redacted decision_payload_def)
qed

text \<open>The decision \<open>_approve\<close> logs is that event.\<close>

lemma approve_logs_decision:
  assumes "request req (w_broker w1) = Inr (d, b)"
    and "req = \<lparr>aq_node_id = ns_id n, aq_reason = sk_value (ns_kind n) @ '' stage modifies an existing public surface'',
       aq_impact = ns_impact n, aq_details = ns_description n, aq_request_id = en_uuid env (w_tick w)\<rparr>"
    and "w1 = log_event env APPROVAL_REQUESTED [(''impact'', JStr (impact_value (ns_impact n))), (''reason'', JStr (aq_reason req))]
       (Some (ns_id n)) (ticked w)"
  shows "\<exists>w2. approve env n w = Inr (ad_approved d, w2)
     \<and> w_audit w2 = w_audit (log_event env APPROVAL_DECIDED (decision_payload d) (Some (ns_id n)) (w1\<lparr>w_broker := b\<rparr>))"
  using assms by (simp add: approve_def Let_def decision_payload_def)

section \<open>The rebuilt report\<close>

text \<open>A report rebuilt from the log shows each distinct logged gate decision once and no others.\<close>

theorem rebuilt_gates_are_the_logged:
  "\<exists>gs. collect_gates fr (rpt_results (rebuilt_input run_id events)) events = gs
     \<and> distinct (map gate_key gs) \<and> gate_key ` set gs = gate_key ` set (logged_gates fr events)"
  by (simp add: rebuilt_input_def collect_gates_def add_logged_gates_fresh distinct_fresh_by keys_fresh_by Let_def)

end
