(* ===== verification/CliOutput.thy ===== *)
theory CliOutput
  imports Cli AdapterBase
begin

text \<open>
  The rest of \<^verbatim>\<open>keel/cli.py\<close>: the options of a run and their defaults, what the commands print, and the
  exit code. What the argument parser splits a command line into is an argument: the value of each option
  that is given, and the flags. A printed line is a string without its final line break.
\<close>

section \<open>Options\<close>

datatype command = RunCommand cli_args bool | ReportCommand string | DoctorCommand

fun mode_value :: "run_mode \<Rightarrow> string" where
  "mode_value LIVE = ''live''"
| "mode_value REPLAY = ''replay''"

definition mode_of :: "string \<Rightarrow> run_mode option" where
  "mode_of v = find (\<lambda>m. mode_value m = v) [LIVE, REPLAY]"

definition approval_kinds :: "string list" where
  "approval_kinds = [''scripted'', ''auto'', ''interactive'']"

text \<open>The left side is the option the parser complains about, before it exits with status 2.\<close>

definition parse_run :: "(string, string) dict \<Rightarrow> string list \<Rightarrow> string + command" where
  "parse_run options flags =
     (let mode = (case dget options ''mode'' of Some v \<Rightarrow> v | None \<Rightarrow> ''replay'');
          approvals = (case dget options ''approvals'' of Some v \<Rightarrow> v | None \<Rightarrow> ''scripted'')
      in case dget options ''scenario'' of
           None \<Rightarrow> Inl ''--scenario''
         | Some key \<Rightarrow>
             if key \<notin> set (map sco_key all_scenarios) then Inl ''--scenario''
             else (case mode_of mode of
                     None \<Rightarrow> Inl ''--mode''
                   | Some m \<Rightarrow>
                       if approvals \<notin> set approval_kinds then Inl ''--approvals''
                       else Inr (RunCommand
                         \<lparr>cl_scenario = key, cl_mode = m, cl_replay_from = dget options ''replay-from'',
                          cl_run_id = dget options ''run-id'', cl_approvals = approvals,
                          cl_answer_ambiguities = (''answer-ambiguities'' \<in> set flags)\<rparr> (''no-live'' \<in> set flags))))"

section \<open>What a run prints\<close>

definition opening_lines :: "string option \<Rightarrow> string \<Rightarrow> scenario \<Rightarrow> run_mode \<Rightarrow> string list" where
  "opening_lines seed run_id s mode =
     (case seed of Some path \<Rightarrow> [''seeded workspace from '' @ path] | None \<Rightarrow> [])
     @ [newline @ ''run '' @ run_id @ ''  scenario='' @ sco_key s @ ''  mode='' @ mode_value mode,
        ''requirement: '' @ sco_requirement s @ newline]"

definition question_lines :: "nat \<times> ambiguity \<Rightarrow> string list" where
  "question_lines entry =
     (case entry of (i, q) \<Rightarrow>
        [''  '' @ str_nat i @ ''. '' @ amb_question q, ''     why it matters: '' @ amb_why q])"

definition parked_lines :: "scenario \<Rightarrow> intake_result \<Rightarrow> string list" where
  "parked_lines s ir =
     [''PARKED in input_required. No code was written.'' @ newline,
      ''The requirement cannot be planned until these are answered:'' @ newline]
     @ concat (map question_lines (enumerate 1 (ir_questions ir)))
     @ [newline @ ''Resume with: keel run --scenario '' @ sco_key s @ '' --answer-ambiguities'']"

definition plan_line :: "plan \<Rightarrow> string" where
  "plan_line p =
     ''plan v'' @ str_int (pl_version p) @ '': '' @ str_join '' -> '' (map ns_id (pl_nodes p)) @ newline"

definition drift_lines :: "string list \<Rightarrow> string list" where
  "drift_lines drifted =
     (if drifted = [] then []
      else [newline @ ''note: '' @ str_nat (length drifted)
        @ '' replayed response(s) were matched by node rather than ''
        @ ''by exact prompt, because the prompts have changed since recording (''
        @ str_join '', '' (sort (remdups drifted)) @ ''). The responses are real recorded ''
        @ ''model output; re-record with --mode live for an exact replay.''])"

definition closing_lines :: "string \<Rightarrow> run_state \<Rightarrow> string list" where
  "closing_lines dir st =
     [newline @ ''state: '' @ ts_value (st_state st)]
     @ (if st_stopped st = [] then [] else [''reason: '' @ st_stopped st])
     @ [''evidence: '' @ dir]"

text \<open>The exit code of the command; \<open>None\<close> when an exception leaves it.\<close>

definition exit_code :: "cli_end \<Rightarrow> int option" where
  "exit_code e = (case e of ParkedRun _ _ _ _ \<Rightarrow> Some 0 | EndedRun _ _ _ code \<Rightarrow> Some code | _ \<Rightarrow> None)"

section \<open>\<open>keel report\<close> and \<open>keel doctor\<close>\<close>

definition report_lines :: "string list \<Rightarrow> string \<Rightarrow> string list" where
  "report_lines problems out =
     (if problems = [] then [] else ''audit integrity problems found:'' # map (\<lambda>p. ''  - '' @ p) problems)
     @ [''wrote '' @ out]"

text \<open>The environment after the \<^verbatim>\<open>.env\<close> file was read; the runs are the names of the directories found.\<close>

definition doctor_lines :: "string \<Rightarrow> string option \<Rightarrow> (string, string) dict \<Rightarrow> string list \<Rightarrow> string list" where
  "doctor_lines version env_file env runs =
     (let vars = snd (load_env env_file env)
      in [''python           '' @ version,
          ''ANTHROPIC_API_KEY ''
            @ (case dget vars ''ANTHROPIC_API_KEY'' of
                 Some k \<Rightarrow> if k \<noteq> [] then ''set'' else ''NOT SET (replay mode only)''
               | None \<Rightarrow> ''NOT SET (replay mode only)''),
          ''KEEL_AGENT_MODE   '' @ (case dget vars ''KEEL_AGENT_MODE'' of Some m \<Rightarrow> m | None \<Rightarrow> ''replay''),
          ''recorded runs     '' @ (if runs = [] then ''(none)'' else str_join '', '' (sort runs))])"

section \<open>What the options and the output keep\<close>

lemma mode_of_value [simp]: "mode_of (mode_value m) = Some m"
  by (cases m) (simp_all add: mode_of_def)

lemma find_scenario: "key \<in> set (map sco_key ss) \<Longrightarrow> \<exists>s. List.find (\<lambda>s. sco_key s = key) ss = Some s"
  by (induction ss) auto

text \<open>A run the parser lets through names a scenario that exists and one of the three brokers.\<close>

theorem parsed_run_has_a_scenario:
  assumes "parse_run options flags = Inr (RunCommand args no_live)"
  shows "(\<exists>s. get_scenario (cl_scenario args) = Inr s) \<and> cl_approvals args \<in> set approval_kinds"
proof -
  from assms have k: "cl_scenario args \<in> set (map sco_key all_scenarios)" and a: "cl_approvals args \<in> set approval_kinds"
    by (auto simp: parse_run_def Let_def split: option.splits if_splits)
  from find_scenario [OF k] a show ?thesis by (auto simp: get_scenario_def)
qed

text \<open>
  The command line the README opens with, a scenario and nothing else, replays no recorded run: it is
  refused, since the default mode is replay and no run to replay from is chosen.
\<close>

definition bare_args :: "bool \<Rightarrow> cli_args" where
  "bare_args answer =
     \<lparr>cl_scenario = ''greenfield'', cl_mode = REPLAY, cl_replay_from = None, cl_run_id = None,
      cl_approvals = ''scripted'', cl_answer_ambiguities = answer\<rparr>"

lemma bare_command:
  "parse_run [(''scenario'', ''greenfield'')] flags
     = Inr (RunCommand (bare_args (''answer-ambiguities'' \<in> set flags)) (''no-live'' \<in> set flags))"
proof -
  have "''greenfield'' \<in> set (map sco_key all_scenarios)" by code_simp
  moreover have "mode_of ''replay'' = Some REPLAY" using mode_of_value [of REPLAY] by simp
  moreover have "''scripted'' \<in> set approval_kinds" by (simp add: approval_kinds_def)
  ultimately show ?thesis
    unfolding parse_run_def Let_def bare_args_def by (simp del: set_map)
qed

lemma greenfield_found: "\<exists>s. get_scenario ''greenfield'' = Inr s \<and> sco_seed_from s = None"
proof -
  have "List.find (\<lambda>s. sco_key s = ''greenfield'') all_scenarios = Some greenfield_scenario"
    by (simp add: all_scenarios_def greenfield_scenario_def)
  moreover have "sco_seed_from greenfield_scenario = None" by (simp add: greenfield_scenario_def)
  ultimately show ?thesis by (simp add: get_scenario_def)
qed

theorem documented_run_is_refused:
  "\<exists>args no_live msg. parse_run [(''scenario'', ''greenfield'')] flags = Inr (RunCommand args no_live)
     \<and> cli_run fuel ce args = Refused (''SystemExit'', msg)"
proof -
  obtain s where s: "get_scenario ''greenfield'' = Inr s" "sco_seed_from s = None" using greenfield_found by blast
  have "\<exists>msg. cli_run fuel ce (bare_args answer) = Refused (''SystemExit'', msg)" for answer
    by (simp add: cli_run_def bare_args_def s seeded_workspace_def Let_def choose_adapter_def)
  then show ?thesis using bare_command by blast
qed

text \<open>What the doctor prints of a key is whether there is one.\<close>

theorem doctor_hides_the_key:
  assumes "k1 \<noteq> []" and "k2 \<noteq> []"
  shows "doctor_lines version None (dset ''ANTHROPIC_API_KEY'' k1 env) runs
    = doctor_lines version None (dset ''ANTHROPIC_API_KEY'' k2 env) runs"
  using assms by (simp add: doctor_lines_def load_env_def)

end
