(* ===== verification/RateLimit.thy ===== *)
theory RateLimit
  imports Json "HOL-Library.Product_Lexorder"
begin

text \<open>
  A service that a recorded run of the program delivered: the sliding-window rate limiter of
  \<^verbatim>\<open>runs/demo-brownfield/workspace/app/ratelimit.py\<close>, from the classification of a request to the
  middleware's refusal. Bytes are characters; a header value that is valid UTF-8 is kept as its bytes, which
  is what the salted digest \<open>h\<close> hashes again. The clock is an argument. The lock only makes the operations
  atomic, as they are here.
\<close>

section \<open>Constants\<close>

definition MAX_TRACKED_KEYS :: nat where
  "MAX_TRACKED_KEYS = 10000"

definition KEY_BUCKET_PREFIX :: string where
  "KEY_BUCKET_PREFIX = ''post:key:''"

definition IP_CREATE_BUCKET_PREFIX :: string where
  "IP_CREATE_BUCKET_PREFIX = ''post:ip:''"

definition IP_READ_BUCKET_PREFIX :: string where
  "IP_READ_BUCKET_PREFIX = ''get:ip:''"

definition MAX_API_KEY_HEADER_BYTES :: nat where
  "MAX_API_KEY_HEADER_BYTES = 512"

definition API_KEY_HEADER :: string where
  "API_KEY_HEADER = ''x-api-key''"

datatype category = CATEGORY_CREATE | CATEGORY_READ

definition unlimited_get_segments :: "string list" where
  "unlimited_get_segments = [''health'', ''docs'', ''redoc'', ''openapi.json'', ''favicon.ico'']"

definition rate_limited_body :: string where
  "rate_limited_body =
     CHR 0x7B # json_string ''error'' @ '':'' @ CHR 0x7B # json_string ''code'' @ '':'' @ json_string ''rate_limited''
       @ '','' @ json_string ''message'' @ '':'' @ json_string ''Rate limit exceeded. Please retry later.''
       @ [CHR 0x7D, CHR 0x7D]"

record decision =
  dc_allowed :: bool
  dc_retry_after :: int

record bucket =
  rb_hits :: "real list"
  rb_allowance :: int
  rb_last_seen :: real

section \<open>Reading a request\<close>

definition strip_slashes :: "string \<Rightarrow> string" where
  "strip_slashes s = rev (dropWhile (\<lambda>c. c = CHR ''/'') (rev s))"

definition path_segments :: "string \<Rightarrow> string list" where
  "path_segments s = filter (\<lambda>w. w \<noteq> []) (split_on (CHR ''/'') s)"

definition classify_request :: "string \<Rightarrow> string \<Rightarrow> category option" where
  "classify_request method path =
     (let normalized = (if strip_slashes path = [] then ''/'' else strip_slashes path);
          segments = path_segments normalized
      in if method = ''POST'' then (if normalized = ''/api/links'' then Some CATEGORY_CREATE else None)
         else if method \<noteq> ''GET'' then None
         else (case segments of
                 [s] \<Rightarrow> if s \<notin> set unlimited_get_segments then Some CATEGORY_READ else None
               | [a, l, _, st] \<Rightarrow> if a = ''api'' \<and> l = ''links'' \<and> st = ''stats'' then Some CATEGORY_READ else None
               | _ \<Rightarrow> None))"

text \<open>\<open>bytes.decode('utf-8')\<close> succeeds: no stray or missing continuation, overlong form or surrogate.\<close>

definition between :: "nat \<Rightarrow> nat \<Rightarrow> char \<Rightarrow> bool" where
  "between lo hi c \<longleftrightarrow> lo \<le> of_char c \<and> of_char c \<le> hi"

abbreviation cont :: "char \<Rightarrow> bool" where
  "cont \<equiv> between 0x80 0xBF"

fun valid_utf8 :: "string \<Rightarrow> bool" where
  "valid_utf8 [] = True"
| "valid_utf8 (a # s) =
     (if between 0 0x7F a then valid_utf8 s
      else if between 0xC2 0xDF a then (case s of b # r \<Rightarrow> cont b \<and> valid_utf8 r | _ \<Rightarrow> False)
      else if between 0xE0 0xEF a then
        (case s of
           b # c # r \<Rightarrow>
             between (if a = CHR 0xE0 then 0xA0 else 0x80) (if a = CHR 0xED then 0x9F else 0xBF) b \<and> cont c \<and> valid_utf8 r
         | _ \<Rightarrow> False)
      else if between 0xF0 0xF4 a then
        (case s of
           b # c # d # r \<Rightarrow>
             between (if a = CHR 0xF0 then 0x90 else 0x80) (if a = CHR 0xF4 then 0x8F else 0xBF) b
             \<and> cont c \<and> cont d \<and> valid_utf8 r
         | _ \<Rightarrow> False)
      else False)"

text \<open>The first header of that name decides.\<close>

fun extract_api_key :: "(string \<times> string) list \<Rightarrow> string option" where
  "extract_api_key [] = None"
| "extract_api_key ((name, value) # headers) =
     (if map to_lower name \<noteq> API_KEY_HEADER then extract_api_key headers
      else if value = [] \<or> length value > MAX_API_KEY_HEADER_BYTES then None
      else if valid_utf8 value then Some value else None)"

text \<open>What the limiter reads of an ASGI scope; a missing entry is \<open>None\<close>.\<close>

record scope =
  sc_type :: "string option"
  sc_method :: "string option"
  sc_path :: "string option"
  sc_headers :: "(string \<times> string) list option"
  sc_client :: "string list option"

definition client_host_of :: "scope \<Rightarrow> string" where
  "client_host_of sc =
     (case sc_client sc of
        Some (host # _) \<Rightarrow> if host \<noteq> [] then host else ''unknown''
      | _ \<Rightarrow> ''unknown'')"

section \<open>The limiter\<close>

record limiter =
  rl_enabled :: bool
  rl_window :: real
  rl_create_max :: int
  rl_read_max :: int
  rl_buckets :: "(string, bucket) dict"
  rl_key_quotas :: "(string, int) dict"

definition add_quota :: "(string \<Rightarrow> string) \<Rightarrow> string \<times> int \<Rightarrow> (string, int) dict \<Rightarrow> (string, int) dict" where
  "add_quota h entry quotas =
     (case entry of (name, quota) \<Rightarrow> if quota < 1 then quotas else dset (h name) quota quotas)"

definition new_limiter ::
  "(string \<Rightarrow> string) \<Rightarrow> bool \<Rightarrow> int \<Rightarrow> int \<Rightarrow> int \<Rightarrow> (string \<times> int) list \<Rightarrow> limiter"
where
  "new_limiter h enabled window_seconds create_max redirect_multiplier entries =
     \<lparr>rl_enabled = enabled, rl_window = of_int (max 1 window_seconds), rl_create_max = max 1 create_max,
      rl_read_max = max 1 (create_max * max 1 redirect_multiplier), rl_buckets = [],
      rl_key_quotas = fold (add_quota h) entries []\<rparr>"

definition resolve_key :: "(string \<Rightarrow> string) \<Rightarrow> limiter \<Rightarrow> string option \<Rightarrow> (string \<times> int) option" where
  "resolve_key h l presented =
     (case presented of
        None \<Rightarrow> None
      | Some key \<Rightarrow>
          if rl_key_quotas l = [] then None
          else map_option (\<lambda>quota. (h key, quota)) (dget (rl_key_quotas l) (h key)))"

definition bucket_ids :: "limiter \<Rightarrow> string list" where
  "bucket_ids l = dkeys (rl_buckets l)"

definition bucket_count :: "limiter \<Rightarrow> nat" where
  "bucket_count l = length (rl_buckets l)"

definition reset_limiter :: "limiter \<Rightarrow> limiter" where
  "reset_limiter l = l\<lparr>rl_buckets := []\<rparr>"

text \<open>Every bucket but a key's may be evicted, the least recently seen first.\<close>

definition evictable :: "(string, bucket) dict \<Rightarrow> (real \<times> string) list" where
  "evictable buckets =
     sort (map (\<lambda>(i, b). (rb_last_seen b, i)) (filter (\<lambda>(i, b). \<not> str_startswith i KEY_BUCKET_PREFIX) buckets))"

definition evict :: "(string, bucket) dict \<Rightarrow> (string, bucket) dict" where
  "evict buckets =
     (if length buckets < MAX_TRACKED_KEYS then buckets
      else fold (\<lambda>(_, i). dpop i) (take (length buckets - MAX_TRACKED_KEYS + 1) (evictable buckets)) buckets)"

text \<open>The hits that are still in the window when \<open>now\<close> is read.\<close>

definition prune_hits :: "real \<Rightarrow> real list \<Rightarrow> real list" where
  "prune_hits cutoff hits = dropWhile (\<lambda>t. t \<le> cutoff) hits"

definition retry_delay :: "real \<Rightarrow> real \<Rightarrow> real \<Rightarrow> int" where
  "retry_delay win oldest now =
     (let remaining = (oldest + win) - now;
          retry_after = (if remaining > 0 then \<lceil>remaining\<rceil> else 1)
      in max 1 (min retry_after \<lceil>win\<rceil>))"

definition consume :: "real \<Rightarrow> string \<Rightarrow> int \<Rightarrow> limiter \<Rightarrow> decision \<times> limiter" where
  "consume now i allowance l =
     (let effective = max 1 allowance;
          cutoff = now - rl_window l;
          buckets = (case dget (rl_buckets l) i of Some _ \<Rightarrow> rl_buckets l | None \<Rightarrow> evict (rl_buckets l));
          found = (case dget (rl_buckets l) i of Some b \<Rightarrow> rb_hits b | None \<Rightarrow> []);
          hits = prune_hits cutoff found;
          store = (\<lambda>hs. l\<lparr>rl_buckets := dset i \<lparr>rb_hits = hs, rb_allowance = effective, rb_last_seen = now\<rparr> buckets\<rparr>)
      in case hits of
           [] \<Rightarrow> (\<lparr>dc_allowed = True, dc_retry_after = 0\<rparr>, store [now])
         | oldest # _ \<Rightarrow>
             if int (length hits) \<ge> effective
             then (\<lparr>dc_allowed = False, dc_retry_after = retry_delay (rl_window l) oldest now\<rparr>, store hits)
             else (\<lparr>dc_allowed = True, dc_retry_after = 0\<rparr>, store (hits @ [now])))"

definition allowed :: decision where
  "allowed = \<lparr>dc_allowed = True, dc_retry_after = 0\<rparr>"

definition check_request :: "(string \<Rightarrow> string) \<Rightarrow> real \<Rightarrow> scope \<Rightarrow> limiter \<Rightarrow> decision \<times> limiter" where
  "check_request h now sc l =
     (if \<not> rl_enabled l then (allowed, l)
      else
        (let method = (case sc_method sc of Some m \<Rightarrow> m | None \<Rightarrow> []);
             path = (case sc_path sc of Some p \<Rightarrow> p | None \<Rightarrow> ''/'')
         in case classify_request method path of
              None \<Rightarrow> (allowed, l)
            | Some CATEGORY_CREATE \<Rightarrow>
                (let headers = (case sc_headers sc of Some hs \<Rightarrow> hs | None \<Rightarrow> [])
                 in case resolve_key h l (extract_api_key headers) of
                      Some (key_hash, quota) \<Rightarrow> consume now (KEY_BUCKET_PREFIX @ key_hash) quota l
                    | None \<Rightarrow> consume now (IP_CREATE_BUCKET_PREFIX @ h (client_host_of sc)) (rl_create_max l) l)
            | Some CATEGORY_READ \<Rightarrow>
                consume now (IP_READ_BUCKET_PREFIX @ h (client_host_of sc)) (rl_read_max l) l))"

section \<open>The middleware\<close>

record response =
  rsp_status :: nat
  rsp_headers :: "(string \<times> string) list"
  rsp_body :: string

definition rate_limited_response :: "int \<Rightarrow> response" where
  "rate_limited_response retry_after =
     \<lparr>rsp_status = 429,
      rsp_headers = [(''content-type'', ''application/json''), (''content-length'', str_nat (length rate_limited_body)),
        (''retry-after'', str_int (max 1 retry_after)), (''cache-control'', ''no-store'')],
      rsp_body = rate_limited_body\<rparr>"

text \<open>The wrapped application is called, or the refusal is sent in its place.\<close>

datatype verdict = Call_App | Refuse response

definition middleware :: "(string \<Rightarrow> string) \<Rightarrow> real \<Rightarrow> scope \<Rightarrow> limiter \<Rightarrow> verdict \<times> limiter" where
  "middleware h now sc l =
     (if sc_type sc \<noteq> Some ''http'' \<or> \<not> rl_enabled l then (Call_App, l)
      else (case check_request h now sc l of (d, l') \<Rightarrow>
              (if \<not> dc_allowed d then Refuse (rate_limited_response (dc_retry_after d)) else Call_App, l')))"

text \<open>A sequence of requests, each with the time the limiter reads.\<close>

fun serve :: "(string \<Rightarrow> string) \<Rightarrow> (real \<times> scope) list \<Rightarrow> limiter \<Rightarrow> (real \<times> scope) list \<times> limiter" where
  "serve h [] l = ([], l)"
| "serve h ((now, sc) # reqs) l =
     (case middleware h now sc l of (v, l') \<Rightarrow>
      case serve h reqs l' of (admitted, l'') \<Rightarrow> ((if v = Call_App then [(now, sc)] else []) @ admitted, l''))"

end
