(* ===== verification/RateLimitProps.thy ===== *)
theory RateLimitProps
  imports RateLimit
begin

text \<open>
  The limiter keeps the quota of an API key in every window of time, whatever else is requested and
  evicted in between, and a client that waits as long as it was told to is let through.
\<close>

section \<open>The hits of a bucket\<close>

lemma dropWhile_sorted: "sorted xs \<Longrightarrow> dropWhile (\<lambda>t. t \<le> c) xs = filter (\<lambda>t. c < t) (xs :: real list)"
proof (induction xs)
  case (Cons x xs)
  show ?case
  proof (cases "x \<le> c")
    case False
    with Cons.prems have "filter (\<lambda>t. c < t) xs = xs" by (auto intro!: filter_True)
    with False show ?thesis by simp
  qed (use Cons in simp)
qed simp

definition in_window :: "real \<Rightarrow> real \<Rightarrow> real \<Rightarrow> bool" where
  "in_window win T t \<longleftrightarrow> T - win < t \<and> t \<le> T"

definition window_count :: "real \<Rightarrow> real \<Rightarrow> real list \<Rightarrow> nat" where
  "window_count win T ts = length (filter (in_window win T) ts)"

text \<open>
  The bucket holds the admitted times \<open>ts\<close> of its id that were in the window when it was last seen, and
  no window holds more than the quota of them.
\<close>

definition tracks :: "int \<Rightarrow> string \<Rightarrow> real \<Rightarrow> real list \<Rightarrow> limiter \<Rightarrow> bool" where
  "tracks q i now ts l \<longleftrightarrow>
     sorted ts \<and> (\<forall>T. int (window_count (rl_window l) T ts) \<le> q)
     \<and> (case dget (rl_buckets l) i of
          None \<Rightarrow> ts = []
        | Some b \<Rightarrow> rb_last_seen b \<le> now \<and> (\<forall>t \<in> set ts. t \<le> rb_last_seen b)
            \<and> rb_hits b = filter (\<lambda>t. rb_last_seen b - rl_window l < t) ts)"

lemma consume_keeps [simp]:
  "rl_window (snd (consume now i a l)) = rl_window l"
  "rl_key_quotas (snd (consume now i a l)) = rl_key_quotas l"
  "rl_enabled (snd (consume now i a l)) = rl_enabled l"
  by (simp_all add: consume_def Let_def split: list.splits)

text \<open>What is in the window at \<open>now\<close>, of the times admitted so far.\<close>

definition live_hits :: "real \<Rightarrow> real list \<Rightarrow> limiter \<Rightarrow> real list" where
  "live_hits now ts l = filter (\<lambda>t. now - rl_window l < t) ts"

lemma tracks_hits:
  assumes "tracks q i now0 ts l" and "now0 \<le> now"
  shows "prune_hits (now - rl_window l) (case dget (rl_buckets l) i of Some b \<Rightarrow> rb_hits b | None \<Rightarrow> []) = live_hits now ts l"
proof (cases "dget (rl_buckets l) i")
  case None
  with assms show ?thesis by (simp add: tracks_def prune_hits_def live_hits_def)
next
  case (Some b)
  with assms have b: "rb_last_seen b \<le> now" "rb_hits b = filter (\<lambda>t. rb_last_seen b - rl_window l < t) ts" "sorted ts"
    by (auto simp: tracks_def)
  have "prune_hits (now - rl_window l) (rb_hits b) = filter (\<lambda>t. now - rl_window l < t) (rb_hits b)"
    unfolding prune_hits_def b(2) by (rule dropWhile_sorted) (use b(3) in \<open>simp add: sorted_wrt_filter\<close>)
  also have "\<dots> = live_hits now ts l"
    unfolding b(2) live_hits_def filter_filter by (rule filter_cong) (use b(1) in auto)
  finally show ?thesis by (simp add: Some)
qed

lemma tracks_before: "tracks q i now0 ts l \<Longrightarrow> now0 \<le> now \<Longrightarrow> t \<in> set ts \<Longrightarrow> t \<le> now"
  by (force simp: tracks_def split: option.splits)

lemma live_hits_count: "tracks q i now0 ts l \<Longrightarrow> now0 \<le> now \<Longrightarrow> length (live_hits now ts l) = window_count (rl_window l) now ts"
  unfolding live_hits_def window_count_def in_window_def
  by (rule arg_cong [where f = length], rule filter_cong) (auto dest: tracks_before)

lemma dget_consume: "dget (rl_buckets (snd (consume now i a l))) i =
   Some \<lparr>rb_hits = (let hits = prune_hits (now - rl_window l) (case dget (rl_buckets l) i of Some b \<Rightarrow> rb_hits b | None \<Rightarrow> [])
            in if hits \<noteq> [] \<and> int (length hits) \<ge> max 1 a then hits else hits @ [now]),
         rb_allowance = max 1 a, rb_last_seen = now\<rparr>"
  by (auto simp: consume_def Let_def split: list.splits)

lemma consume_allowed: "dc_allowed (fst (consume now i a l)) \<longleftrightarrow>
   int (length (prune_hits (now - rl_window l) (case dget (rl_buckets l) i of Some b \<Rightarrow> rb_hits b | None \<Rightarrow> []))) < max 1 a"
  by (auto simp: consume_def Let_def split: list.splits)

lemma window_count_snoc:
  assumes "0 < win" and "\<forall>t \<in> set ts. t \<le> now" and "\<forall>T. int (window_count win T ts) \<le> q"
    and "int (window_count win now ts) < q"
  shows "int (window_count win T (ts @ [now])) \<le> q"
proof (cases "now \<le> T")
  case False
  then show ?thesis using assms(3) by (simp add: window_count_def in_window_def)
next
  case True
  have "length (filter (in_window win T) ts) \<le> length (filter (in_window win now) ts)"
    by (rule length_filter_mono) (use assms(2) True in \<open>auto simp: in_window_def\<close>)
  then have "window_count win T ts \<le> window_count win now ts" by (simp add: window_count_def)
  then show ?thesis using assms(4) by (simp add: window_count_def)
qed

lemma consume_own:
  assumes tr: "tracks q i now0 ts l" and now: "now0 \<le> now" and q: "1 \<le> q" and win: "0 < rl_window l"
  shows "tracks q i now (if dc_allowed (fst (consume now i q l)) then ts @ [now] else ts) (snd (consume now i q l))"
proof -
  note hits = tracks_hits [OF tr now]
  have cnt: "int (length (live_hits now ts l)) \<le> q" "int (window_count (rl_window l) now ts) = int (length (live_hits now ts l))"
    using tr live_hits_count [OF tr now] by (auto simp: tracks_def)
  have s: "sorted ts" "\<forall>T. int (window_count (rl_window l) T ts) \<le> q" using tr by (auto simp: tracks_def)
  have before: "\<forall>t \<in> set ts. t \<le> now" using tracks_before [OF tr now] by blast
  show ?thesis
  proof (cases "int (length (live_hits now ts l)) < q")
    case True
    then have ok: "dc_allowed (fst (consume now i q l))" using q by (simp add: consume_allowed hits)
    have "rb_hits (the (dget (rl_buckets (snd (consume now i q l))) i)) = live_hits now (ts @ [now]) l"
      using True q win by (auto simp: dget_consume hits live_hits_def Let_def)
    moreover have "\<forall>T. int (window_count (rl_window l) T (ts @ [now])) \<le> q"
      using window_count_snoc [OF win before s(2)] True cnt(2) by simp
    ultimately show ?thesis
      using ok s(1) before by (simp add: tracks_def dget_consume live_hits_def sorted_append)
  next
    case False
    then have no: "\<not> dc_allowed (fst (consume now i q l))" using q by (simp add: consume_allowed hits)
    have "rb_hits (the (dget (rl_buckets (snd (consume now i q l))) i)) = live_hits now ts l"
      using False q by (auto simp: dget_consume hits Let_def)
    then show ?thesis using no s before by (simp add: tracks_def dget_consume live_hits_def)
  qed
qed

section \<open>Other buckets\<close>

lemma dget_fold_dpop: "i \<notin> snd ` set es \<Longrightarrow> dget (fold (\<lambda>(_, j). dpop j) es d) i = dget d i"
  by (induction es arbitrary: d) (auto simp: case_prod_beta)

lemma dget_evict: "str_startswith i KEY_BUCKET_PREFIX \<Longrightarrow> dget (evict d) i = dget d i"
  unfolding evict_def
  by (auto intro!: dget_fold_dpop simp: evictable_def dest!: in_set_takeD)

lemma consume_other:
  assumes "tracks q i now0 ts l" and "now0 \<le> now" and "j \<noteq> i" and "str_startswith i KEY_BUCKET_PREFIX"
  shows "tracks q i now ts (snd (consume now j a l))"
proof -
  have "dget (rl_buckets (snd (consume now j a l))) i = dget (rl_buckets l) i"
    using assms(3,4) by (auto simp: consume_def Let_def dget_evict split: list.splits option.splits)
  with assms(1,2) show ?thesis by (auto simp: tracks_def split: option.splits)
qed

lemma tracks_later: "tracks q i now0 ts l \<Longrightarrow> now0 \<le> now \<Longrightarrow> tracks q i now ts l"
  by (auto simp: tracks_def split: option.splits)

section \<open>Requests\<close>

text \<open>The recognised key a request creates a link with, and its quota.\<close>

definition key_request :: "(string \<Rightarrow> string) \<Rightarrow> limiter \<Rightarrow> scope \<Rightarrow> (string \<times> int) option" where
  "key_request h l sc =
     (if sc_type sc = Some ''http''
         \<and> classify_request (case sc_method sc of Some m \<Rightarrow> m | None \<Rightarrow> []) (case sc_path sc of Some p \<Rightarrow> p | None \<Rightarrow> ''/'')
             = Some CATEGORY_CREATE
      then resolve_key h l (extract_api_key (case sc_headers sc of Some hs \<Rightarrow> hs | None \<Rightarrow> []))
      else None)"

lemma key_request_cong: "rl_key_quotas l' = rl_key_quotas l \<Longrightarrow> key_request h l' sc = key_request h l sc"
  by (simp add: key_request_def resolve_key_def split: option.split)

lemma middleware_key:
  assumes "rl_enabled l" and "key_request h l sc = Some (kh, q)"
  shows "middleware h now sc l =
     (case consume now (KEY_BUCKET_PREFIX @ kh) q l of (d, l') \<Rightarrow>
        (if \<not> dc_allowed d then Refuse (rate_limited_response (dc_retry_after d)) else Call_App, l'))"
  using assms by (auto simp: middleware_def check_request_def key_request_def Let_def split: if_splits)

lemma ip_prefixes: "IP_CREATE_BUCKET_PREFIX @ a \<noteq> KEY_BUCKET_PREFIX @ b" "IP_READ_BUCKET_PREFIX @ a \<noteq> KEY_BUCKET_PREFIX @ b"
  by (simp_all add: IP_CREATE_BUCKET_PREFIX_def IP_READ_BUCKET_PREFIX_def KEY_BUCKET_PREFIX_def)

lemma cat_cases:
  obtains "cat = None" | "cat = Some CATEGORY_CREATE" "key = None"
    | kh q where "cat = Some CATEGORY_CREATE" "key = Some (kh, q)" | "cat = Some CATEGORY_READ"
proof (cases cat)
  case (Some c)
  with that show thesis by (cases c; cases key) auto
qed (rule that(1))

text \<open>Any other request leaves the limiter alone or takes from another bucket.\<close>

lemma middleware_other:
  assumes "\<And>q. key_request h l sc \<noteq> Some (kh, q)"
  shows "snd (middleware h now sc l) = l
    \<or> (\<exists>j a. snd (middleware h now sc l) = snd (consume now j a l) \<and> j \<noteq> KEY_BUCKET_PREFIX @ kh)"
proof (cases "rl_enabled l \<and> sc_type sc = Some ''http''")
  case True
  then have m: "snd (middleware h now sc l) = snd (check_request h now sc l)"
    by (auto simp: middleware_def split: prod.splits)
  let ?cat = "classify_request (case sc_method sc of Some m \<Rightarrow> m | None \<Rightarrow> []) (case sc_path sc of Some p \<Rightarrow> p | None \<Rightarrow> ''/'')"
  let ?key = "resolve_key h l (extract_api_key (case sc_headers sc of Some hs \<Rightarrow> hs | None \<Rightarrow> []))"
  show ?thesis
  proof (cases rule: cat_cases [where cat = ?cat and key = ?key])
    case 1
    with True show ?thesis unfolding m by (simp add: check_request_def Let_def)
  next
    case 2
    with True have "snd (check_request h now sc l) = snd (consume now (IP_CREATE_BUCKET_PREFIX @ h (client_host_of sc)) (rl_create_max l) l)"
      by (simp add: check_request_def Let_def)
    then show ?thesis unfolding m using ip_prefixes(1) by blast
  next
    case (3 kh' q')
    with True have "key_request h l sc = Some (kh', q')" by (simp add: key_request_def)
    with assms have "kh' \<noteq> kh" by auto
    moreover have "snd (check_request h now sc l) = snd (consume now (KEY_BUCKET_PREFIX @ kh') q' l)"
      using 3 True by (simp add: check_request_def Let_def)
    ultimately show ?thesis unfolding m by blast
  next
    case 4
    with True have "snd (check_request h now sc l) = snd (consume now (IP_READ_BUCKET_PREFIX @ h (client_host_of sc)) (rl_read_max l) l)"
      by (simp add: check_request_def Let_def)
    then show ?thesis unfolding m using ip_prefixes(2) by blast
  qed
qed (auto simp: middleware_def)

lemma check_request_cases: "snd (check_request h now sc l) = l \<or> (\<exists>j a. snd (check_request h now sc l) = snd (consume now j a l))"
proof (cases "rl_enabled l")
  case True
  let ?cat = "classify_request (case sc_method sc of Some m \<Rightarrow> m | None \<Rightarrow> []) (case sc_path sc of Some p \<Rightarrow> p | None \<Rightarrow> ''/'')"
  let ?key = "resolve_key h l (extract_api_key (case sc_headers sc of Some hs \<Rightarrow> hs | None \<Rightarrow> []))"
  show ?thesis
    by (cases rule: cat_cases [where cat = ?cat and key = ?key]) (simp_all add: check_request_def Let_def True, blast+)
qed (simp add: check_request_def)

lemma middleware_keeps:
  "rl_window (snd (middleware h now sc l)) = rl_window l"
  "rl_key_quotas (snd (middleware h now sc l)) = rl_key_quotas l"
  "rl_enabled (snd (middleware h now sc l)) = rl_enabled l"
proof -
  have "snd (middleware h now sc l) = l \<or> snd (middleware h now sc l) = snd (check_request h now sc l)"
    by (simp add: middleware_def split: prod.split)
  then have "snd (middleware h now sc l) = l \<or> (\<exists>j a. snd (middleware h now sc l) = snd (consume now j a l))"
    using check_request_cases [of h now sc l] by metis
  then show "rl_window (snd (middleware h now sc l)) = rl_window l"
    "rl_key_quotas (snd (middleware h now sc l)) = rl_key_quotas l"
    "rl_enabled (snd (middleware h now sc l)) = rl_enabled l" by auto
qed

section \<open>Quotas\<close>

lemma quotas_positive: "dget (rl_key_quotas (new_limiter h e w c r entries)) kh = Some q \<Longrightarrow> 1 \<le> q"
proof -
  have "\<forall>k v. dget (fold (add_quota h) es d) k = Some v \<longrightarrow> 1 \<le> v" if "\<forall>k v. dget d k = Some v \<longrightarrow> 1 \<le> v" for es d
    using that
  proof (induction es arbitrary: d)
    case (Cons x es)
    have "\<forall>k v. dget (add_quota h x d) k = Some v \<longrightarrow> 1 \<le> v"
      using Cons.prems by (cases x) (auto simp: add_quota_def)
    from Cons.IH [OF this] show ?case by simp
  qed simp
  from this [of "[]" entries] show "dget (rl_key_quotas (new_limiter h e w c r entries)) kh = Some q \<Longrightarrow> 1 \<le> q"
    by (auto simp: new_limiter_def)
qed

lemma key_request_quota: "key_request h l sc = Some (kh, q) \<Longrightarrow> dget (rl_key_quotas l) kh = Some q"
  by (auto simp: key_request_def resolve_key_def split: if_splits option.splits)

text \<open>The times of the admitted requests with the key.\<close>

definition key_times :: "(string \<Rightarrow> string) \<Rightarrow> limiter \<Rightarrow> string \<Rightarrow> (real \<times> scope) list \<Rightarrow> real list" where
  "key_times h l kh reqs = map fst (filter (\<lambda>(t, sc). \<exists>q. key_request h l sc = Some (kh, q)) reqs)"

lemma prefixed: "str_startswith (KEY_BUCKET_PREFIX @ kh) KEY_BUCKET_PREFIX"
  by (rule str_startswith_append)

lemma request_tracks:
  assumes tr: "tracks q (KEY_BUCKET_PREFIX @ kh) now0 ts l" and now: "now0 \<le> now" and en: "rl_enabled l" and win: "0 < rl_window l"
    and quota: "dget (rl_key_quotas l) kh = Some q" and pos: "1 \<le> q"
  shows "tracks q (KEY_BUCKET_PREFIX @ kh) now
    (ts @ key_times h l kh (if fst (middleware h now sc l) = Call_App then [(now, sc)] else [])) (snd (middleware h now sc l))"
proof (cases "\<exists>q'. key_request h l sc = Some (kh, q')")
  case True
  with key_request_quota quota have kr: "key_request h l sc = Some (kh, q)" by fastforce
  have "fst (middleware h now sc l) = Call_App \<longleftrightarrow> dc_allowed (fst (consume now (KEY_BUCKET_PREFIX @ kh) q l))"
    and s: "snd (middleware h now sc l) = snd (consume now (KEY_BUCKET_PREFIX @ kh) q l)"
    by (simp_all add: middleware_key [OF en kr] split: prod.splits)
  with consume_own [OF tr now pos win] kr show ?thesis
    by (cases "dc_allowed (fst (consume now (KEY_BUCKET_PREFIX @ kh) q l))") (simp_all add: key_times_def)
next
  case False
  then have "ts @ key_times h l kh (if fst (middleware h now sc l) = Call_App then [(now, sc)] else []) = ts"
    by (simp add: key_times_def)
  moreover from False have "\<And>q'. key_request h l sc \<noteq> Some (kh, q')" by blast
  from middleware_other [of h l sc kh now, OF this]
  have "tracks q (KEY_BUCKET_PREFIX @ kh) now ts (snd (middleware h now sc l))"
    using tracks_later [OF tr now] consume_other [OF tr now _ prefixed] by auto
  ultimately show ?thesis by simp
qed

lemma serve_tracks:
  assumes "tracks q (KEY_BUCKET_PREFIX @ kh) now0 ts l" and "sorted (map fst reqs)" and "\<forall>t \<in> fst ` set reqs. now0 \<le> t"
    and "rl_enabled l" and "0 < rl_window l" and "dget (rl_key_quotas l) kh = Some q" and "1 \<le> q"
  shows "\<exists>now. tracks q (KEY_BUCKET_PREFIX @ kh) now (ts @ key_times h l kh (fst (serve h reqs l))) (snd (serve h reqs l))
    \<and> (now = now0 \<or> now \<in> fst ` set reqs)
    \<and> rl_enabled (snd (serve h reqs l)) \<and> rl_window (snd (serve h reqs l)) = rl_window l
    \<and> rl_key_quotas (snd (serve h reqs l)) = rl_key_quotas l"
  using assms
proof (induction reqs arbitrary: l ts now0)
  case Nil
  then show ?case by (auto simp: key_times_def)
next
  case (Cons req reqs)
  obtain now sc where req: "req = (now, sc)" by fastforce
  let ?r = "middleware h now sc l"
  let ?new = "if fst ?r = Call_App then [(now, sc)] else []"
  have now: "now0 \<le> now" using Cons.prems(3) req by simp
  note keeps = middleware_keeps [of h now sc l]
  have step: "tracks q (KEY_BUCKET_PREFIX @ kh) now (ts @ key_times h l kh ?new) (snd ?r)"
    by (rule request_tracks [OF Cons.prems(1) now Cons.prems(4-7)])
  let ?out = "serve h reqs (snd ?r)"
  obtain now' where out: "tracks q (KEY_BUCKET_PREFIX @ kh) now' ((ts @ key_times h l kh ?new) @ key_times h (snd ?r) kh (fst ?out)) (snd ?out)"
      "now' = now \<or> now' \<in> fst ` set reqs" "rl_enabled (snd ?out)" "rl_window (snd ?out) = rl_window (snd ?r)"
      "rl_key_quotas (snd ?out) = rl_key_quotas (snd ?r)"
    using Cons.IH [OF step] Cons.prems(2,4-7) req keeps by auto
  have same: "key_times h (snd ?r) kh rs = key_times h l kh rs" for rs
    using key_request_cong [OF keeps(2), of h] by (simp add: key_times_def)
  have served: "serve h (req # reqs) l = (?new @ fst ?out, snd ?out)"
    by (simp add: req split: prod.splits)
  have "key_times h l kh (fst (serve h (req # reqs) l)) = key_times h l kh ?new @ key_times h l kh (fst ?out)"
    unfolding served by (simp add: key_times_def)
  with out show ?case unfolding served same by (intro exI [of _ now']) (simp add: keeps req; blast)
qed

lemma fresh_tracks: "1 \<le> q \<Longrightarrow> tracks q i now [] (new_limiter h e w c r entries)"
  by (simp add: tracks_def window_count_def new_limiter_def)

lemma new_limiter_sel [simp]:
  "rl_enabled (new_limiter h e w c r entries) = e" "0 < rl_window (new_limiter h e w c r entries)"
  by (simp_all add: new_limiter_def)

text \<open>
  C39: However requests with and without keys are mixed and whatever the limiter evicts, in no stretch
  of the configured window are more requests of an API key admitted than its quota.
\<close>

theorem key_quota_holds:
  assumes "l = new_limiter h True window_seconds create_max redirect_multiplier entries"
    and "dget (rl_key_quotas l) kh = Some q" and "sorted (map fst reqs)"
  shows "int (window_count (rl_window l) T (key_times h l kh (fst (serve h reqs l)))) \<le> q"
proof -
  have q: "1 \<le> q" using quotas_positive assms(1,2) by blast
  let ?now0 = "case reqs of [] \<Rightarrow> 0 | r # _ \<Rightarrow> fst r"
  have "\<forall>t \<in> fst ` set reqs. ?now0 \<le> t" using assms(3) by (cases reqs) auto
  from serve_tracks [OF fresh_tracks [OF q] assms(3) this, of h True window_seconds create_max redirect_multiplier entries kh]
  have "\<exists>now. tracks q (KEY_BUCKET_PREFIX @ kh) now (key_times h l kh (fst (serve h reqs l))) (snd (serve h reqs l))
      \<and> rl_window (snd (serve h reqs l)) = rl_window l"
    using assms(1,2) q by auto
  then show ?thesis by (auto simp: tracks_def)
qed

definition sample_scope :: "string \<Rightarrow> scope" where
  "sample_scope key = \<lparr>sc_type = Some ''http'', sc_method = Some ''POST'', sc_path = Some ''/api/links/'',
     sc_headers = Some [(''X-API-Key'', key)], sc_client = Some [''10.0.0.1'']\<rparr>"

abbreviation sample_limiter :: limiter where
  "sample_limiter \<equiv> new_limiter (\<lambda>s. s) True 60 5 10 [(''k'', 1), (''off'', 0)]"

lemma sample_quota: "dget (rl_key_quotas sample_limiter) ''k'' = Some 1"
  by (simp add: new_limiter_def add_quota_def)

lemma sample_key: "key_request (\<lambda>s. s) sample_limiter (sample_scope ''k'') = Some (''k'', 1)"
proof -
  have "classify_request ''POST'' ''/api/links/'' = Some CATEGORY_CREATE" by code_simp
  moreover have "extract_api_key [(''X-API-Key'', ''k'')] = Some ''k''" by code_simp
  ultimately show ?thesis
    by (simp add: key_request_def sample_scope_def resolve_key_def sample_quota) (simp add: new_limiter_def add_quota_def)
qed

theorem key_quota_holds_witness:
  "int (window_count 60 70 (key_times (\<lambda>s. s) sample_limiter ''k''
     (fst (serve (\<lambda>s. s) [(0, sample_scope ''k''), (30, sample_scope ''k''), (61, sample_scope ''k'')] sample_limiter)))) \<le> 1"
  using key_quota_holds [OF refl sample_quota, of "[(0, sample_scope ''k''), (30, sample_scope ''k''), (61, sample_scope ''k'')]" 70]
  by (simp add: new_limiter_def)

section \<open>Waiting as told\<close>

lemma retry_delay_covers:
  assumes "oldest \<le> now" and "0 < win"
  shows "oldest + win - now \<le> of_int (retry_delay win oldest now)"
proof -
  have "\<lceil>oldest + win - now\<rceil> \<le> \<lceil>win\<rceil>" using assms(1) by (intro ceiling_mono) simp
  then show ?thesis
    using le_of_int_ceiling [of "oldest + win - now"] by (auto simp: retry_delay_def Let_def max_def min_def)
qed

lemma refused_delay:
  assumes "consume now i a l = (d, l')" and "\<not> dc_allowed d"
  shows "\<exists>oldest rest. prune_hits (now - rl_window l) (case dget (rl_buckets l) i of Some b \<Rightarrow> rb_hits b | None \<Rightarrow> []) = oldest # rest
    \<and> dc_retry_after d = retry_delay (rl_window l) oldest now"
  using assms by (auto simp: consume_def Let_def split: list.splits if_splits)

text \<open>
  A refused request of an API key that is repeated once the time named in \<open>Retry-After\<close> is over is
  admitted, after any history of requests.
\<close>

theorem waiting_as_told_suffices:
  assumes "l = new_limiter h True window_seconds create_max redirect_multiplier entries"
    and "sorted (map fst (reqs @ [(now, sc)]))" and "key_request h l sc = Some (kh, q)"
    and "check_request h now sc (snd (serve h reqs l)) = (d, l')" and "\<not> dc_allowed d"
    and "now + of_int (dc_retry_after d) \<le> later"
  shows "dc_allowed (fst (check_request h later sc l'))"
proof -
  let ?l = "snd (serve h reqs l)" and ?i = "KEY_BUCKET_PREFIX @ kh" and ?ts = "key_times h l kh (fst (serve h reqs l))"
  have quota: "dget (rl_key_quotas l) kh = Some q" by (rule key_request_quota [OF assms(3)])
  have q: "1 \<le> q" using quotas_positive assms(1) quota by blast
  let ?now0 = "case reqs of [] \<Rightarrow> now | r # _ \<Rightarrow> fst r"
  have s: "sorted (map fst reqs)" "\<forall>t \<in> fst ` set reqs. t \<le> now" using assms(2) by (auto simp: sorted_append)
  have first: "\<forall>t \<in> fst ` set reqs. ?now0 \<le> t" "?now0 \<le> now" using s by (cases reqs; auto)+
  obtain t0 where t0: "tracks q ?i t0 ?ts ?l" "t0 = ?now0 \<or> t0 \<in> fst ` set reqs" "rl_enabled ?l"
    "rl_window ?l = rl_window l" "rl_key_quotas ?l = rl_key_quotas l"
    using serve_tracks [OF fresh_tracks [OF q] s(1) first(1), of h True window_seconds create_max redirect_multiplier entries kh]
      assms(1) quota q by auto
  have now: "t0 \<le> now" using t0(2) s(2) first(2) by auto
  have win: "0 < rl_window ?l" using t0(4) assms(1) by simp
  have check: "check_request h t sc m = consume t ?i q m"
    if "rl_enabled m" "rl_key_quotas m = rl_key_quotas l" for t m
  proof -
    have "key_request h m sc = Some (kh, q)" using key_request_cong [OF that(2)] assms(3) by simp
    with that(1) show ?thesis by (auto simp: check_request_def key_request_def Let_def split: if_splits)
  qed
  have c: "consume now ?i q ?l = (d, l')" using assms(4) check [OF t0(3,5)] by simp
  note hits = tracks_hits [OF t0(1) now]
  obtain oldest rest where old: "live_hits now ?ts ?l = oldest # rest" "dc_retry_after d = retry_delay (rl_window ?l) oldest now"
    using refused_delay [OF c assms(5)] hits by metis
  have "oldest \<in> set ?ts" using old(1) by (metis filter_is_subset list.set_intros(1) live_hits_def subsetD)
  then have "oldest \<le> now" using tracks_before [OF t0(1) now] by blast
  from retry_delay_covers [OF this win] old(2) assms(6) have gone: "oldest \<le> later - rl_window ?l" by simp
  have tr': "tracks q ?i now ?ts l'" using consume_own [OF t0(1) now q win] c assms(5) by simp
  have keeps: "rl_enabled l'" "rl_window l' = rl_window ?l" "rl_key_quotas l' = rl_key_quotas l"
    using consume_keeps [of now ?i q ?l] c t0(3,5) by simp_all
  have "now \<le> later" using assms(6) old(2) by (simp add: retry_delay_def Let_def)
  note hits' = tracks_hits [OF tr' this]
  have "live_hits later ?ts l' = filter (\<lambda>t. later - rl_window ?l < t) (live_hits now ?ts ?l)"
    unfolding live_hits_def filter_filter keeps(2) by (rule filter_cong) (use \<open>now \<le> later\<close> in auto)
  then have "length (live_hits later ?ts l') \<le> length rest" using gone by (simp add: old(1))
  moreover have "int (length (oldest # rest)) \<le> q"
    using t0(1) live_hits_count [OF t0(1) now] old(1) by (metis tracks_def)
  ultimately have "int (length (live_hits later ?ts l')) < max 1 q" by simp
  then show ?thesis unfolding check [OF keeps(1,3)] consume_allowed hits' by simp
qed

definition sample_bucket :: "(string, bucket) dict" where
  "sample_bucket = [(''post:key:k'', \<lparr>rb_hits = [0], rb_allowance = 1, rb_last_seen = 0\<rparr>)]"

lemma sample_served: "snd (serve (\<lambda>s. s) [(0, sample_scope ''k'')] sample_limiter) = sample_limiter\<lparr>rl_buckets := sample_bucket\<rparr>"
  by (simp add: middleware_key [OF _ sample_key] case_prod_beta)
    (simp add: consume_def prune_hits_def new_limiter_def evict_def MAX_TRACKED_KEYS_def KEY_BUCKET_PREFIX_def sample_bucket_def)

lemma sample_check: "rl_enabled l \<Longrightarrow> rl_key_quotas l = rl_key_quotas sample_limiter \<Longrightarrow>
   check_request (\<lambda>s. s) now (sample_scope ''k'') l = consume now ''post:key:k'' 1 l"
  using sample_key key_request_cong [of l sample_limiter "\<lambda>s. s" "sample_scope ''k''"]
  by (auto simp: check_request_def key_request_def Let_def KEY_BUCKET_PREFIX_def split: if_splits)

lemma sample_refused: "fst (check_request (\<lambda>s. s) 30 (sample_scope ''k'') (sample_limiter\<lparr>rl_buckets := sample_bucket\<rparr>))
   = \<lparr>dc_allowed = False, dc_retry_after = 30\<rparr>"
  by (simp add: sample_check) (simp add: consume_def prune_hits_def new_limiter_def sample_bucket_def retry_delay_def)

theorem waiting_as_told_suffices_witness:
  "dc_allowed (fst (check_request (\<lambda>s. s) 60 (sample_scope ''k'')
     (snd (check_request (\<lambda>s. s) 30 (sample_scope ''k'') (sample_limiter\<lparr>rl_buckets := sample_bucket\<rparr>)))))"
proof -
  obtain d l' where c: "check_request (\<lambda>s. s) 30 (sample_scope ''k'') (snd (serve (\<lambda>s. s) [(0, sample_scope ''k'')] sample_limiter)) = (d, l')"
    by fastforce
  then have d: "d = \<lparr>dc_allowed = False, dc_retry_after = 30\<rparr>" using sample_refused by (simp only: sample_served) (metis fst_conv)
  from waiting_as_told_suffices [OF refl _ sample_key c, of 60] d
  have "dc_allowed (fst (check_request (\<lambda>s. s) 60 (sample_scope ''k'') l'))" by simp
  with c show ?thesis by (simp only: sample_served) simp
qed

end
