(* ===== verification/Addresses.thy ===== *)
theory Addresses
  imports Json "HOL-Library.Word"
begin

text \<open>
  Which addresses a recorded service refuses to link to,
  \<^verbatim>\<open>runs/demo-brownfield/workspace/app/validation.py\<close>: the literals it recognises, every spelling of an
  IPv4 address included, and the denied ranges. An IPv4 address is a 32-bit word, an IPv6 address a 128-bit
  word. Of Python's \<open>ipaddress\<close> the parsing of literals and the classification are those of release 3.13,
  which the program requires.
\<close>

unbundle bit_operations_syntax

section \<open>Addresses and networks\<close>

datatype ip = IPv4 "32 word" | IPv6 "128 word"

datatype network = Net4 "32 word" nat | Net6 "128 word" nat

definition quad :: "nat list \<Rightarrow> 32 word" where
  "quad octets = of_nat (foldl (\<lambda>n b. 256 * n + b) 0 octets)"

text \<open>The leading hextets; the others are zero.\<close>

definition hextets :: "nat list \<Rightarrow> 128 word" where
  "hextets hs = push_bit (16 * (8 - length hs)) (of_nat (foldl (\<lambda>n h. 65536 * n + h) 0 hs))"

definition in_network :: "ip \<Rightarrow> network \<Rightarrow> bool" where
  "in_network a net =
     (case (a, net) of
        (IPv4 w, Net4 base n) \<Rightarrow> drop_bit (32 - n) w = drop_bit (32 - n) base
      | (IPv6 w, Net6 base n) \<Rightarrow> drop_bit (128 - n) w = drop_bit (128 - n) base
      | _ \<Rightarrow> False)"

definition CLOUD_METADATA_ADDRESSES :: "ip list" where
  "CLOUD_METADATA_ADDRESSES = [IPv4 (quad [169, 254, 169, 254]), IPv6 (hextets [0xFD00, 0xEC2, 0, 0, 0, 0, 0, 0x254])]"

definition BLOCKED_NETWORKS :: "network list" where
  "BLOCKED_NETWORKS =
     [Net4 (quad [0, 0, 0, 0]) 8, Net4 (quad [10, 0, 0, 0]) 8, Net4 (quad [100, 64, 0, 0]) 10,
      Net4 (quad [127, 0, 0, 0]) 8, Net4 (quad [169, 254, 0, 0]) 16, Net4 (quad [172, 16, 0, 0]) 12,
      Net4 (quad [192, 0, 0, 0]) 24, Net4 (quad [192, 0, 2, 0]) 24, Net4 (quad [192, 168, 0, 0]) 16,
      Net4 (quad [198, 18, 0, 0]) 15, Net4 (quad [198, 51, 100, 0]) 24, Net4 (quad [203, 0, 113, 0]) 24,
      Net4 (quad [224, 0, 0, 0]) 4, Net4 (quad [240, 0, 0, 0]) 4, Net4 (quad [255, 255, 255, 255]) 32,
      Net6 0 128, Net6 1 128, Net6 (hextets [0x64, 0xFF9B, 1]) 48, Net6 (hextets [0x100]) 64,
      Net6 (hextets [0x2001, 0xDB8]) 32, Net6 (hextets [0xFC00]) 7, Net6 (hextets [0xFE80]) 10,
      Net6 (hextets [0xFF00]) 8]"

section \<open>The classification of \<open>ipaddress\<close>\<close>

definition private4 :: "network list" where
  "private4 =
     [Net4 (quad [0, 0, 0, 0]) 8, Net4 (quad [10, 0, 0, 0]) 8, Net4 (quad [127, 0, 0, 0]) 8,
      Net4 (quad [169, 254, 0, 0]) 16, Net4 (quad [172, 16, 0, 0]) 12, Net4 (quad [192, 0, 0, 0]) 24,
      Net4 (quad [192, 0, 0, 170]) 31, Net4 (quad [192, 0, 2, 0]) 24, Net4 (quad [192, 168, 0, 0]) 16,
      Net4 (quad [198, 18, 0, 0]) 15, Net4 (quad [198, 51, 100, 0]) 24, Net4 (quad [203, 0, 113, 0]) 24,
      Net4 (quad [240, 0, 0, 0]) 4, Net4 (quad [255, 255, 255, 255]) 32]"

definition private4_exceptions :: "network list" where
  "private4_exceptions = [Net4 (quad [192, 0, 0, 9]) 32, Net4 (quad [192, 0, 0, 10]) 32]"

definition private6 :: "network list" where
  "private6 =
     [Net6 1 128, Net6 0 128, Net6 (hextets [0, 0, 0, 0, 0, 0xFFFF]) 96, Net6 (hextets [0x64, 0xFF9B, 1]) 48,
      Net6 (hextets [0x100]) 64, Net6 (hextets [0x2001]) 23, Net6 (hextets [0x2001, 0xDB8]) 32,
      Net6 (hextets [0x2002]) 16, Net6 (hextets [0xFC00]) 7, Net6 (hextets [0xFE80]) 10]"

definition private6_exceptions :: "network list" where
  "private6_exceptions =
     [Net6 (hextets [0x2001, 1, 0, 0, 0, 0, 0, 1]) 128, Net6 (hextets [0x2001, 1, 0, 0, 0, 0, 0, 2]) 128,
      Net6 (hextets [0x2001, 3]) 32, Net6 (hextets [0x2001, 4, 0x112]) 48, Net6 (hextets [0x2001, 0x20]) 28,
      Net6 (hextets [0x2001, 0x30]) 28]"

definition reserved6 :: "network list" where
  "reserved6 =
     [Net6 0 8, Net6 (hextets [0x100]) 8, Net6 (hextets [0x200]) 7, Net6 (hextets [0x400]) 6,
      Net6 (hextets [0x800]) 5, Net6 (hextets [0x1000]) 4, Net6 (hextets [0x4000]) 3, Net6 (hextets [0x6000]) 3,
      Net6 (hextets [0x8000]) 3, Net6 (hextets [0xA000]) 3, Net6 (hextets [0xC000]) 3, Net6 (hextets [0xE000]) 4,
      Net6 (hextets [0xF000]) 5, Net6 (hextets [0xF800]) 6, Net6 (hextets [0xFE00]) 9]"

definition in_any :: "ip \<Rightarrow> network list \<Rightarrow> bool" where
  "in_any a nets = list_ex (in_network a) nets"

text \<open>
  An IPv4-mapped address is classified as the address it maps. \<open>is_global\<close> is the negation of \<open>is_private\<close>
  outside the shared range 100.64.0.0/10, where both are false.
\<close>

definition ipv4_mapped :: "128 word \<Rightarrow> 32 word option" where
  "ipv4_mapped w = (if drop_bit 32 w = 0xFFFF then Some (ucast w) else None)"

definition unmapped :: "ip \<Rightarrow> ip" where
  "unmapped a = (case a of IPv4 w \<Rightarrow> a | IPv6 w \<Rightarrow> (case ipv4_mapped w of Some v \<Rightarrow> IPv4 v | None \<Rightarrow> a))"

definition is_private :: "ip \<Rightarrow> bool" where
  "is_private a =
     (case unmapped a of
        IPv4 w \<Rightarrow> in_any (IPv4 w) private4 \<and> \<not> in_any (IPv4 w) private4_exceptions
      | IPv6 w \<Rightarrow> in_any (IPv6 w) private6 \<and> \<not> in_any (IPv6 w) private6_exceptions)"

definition is_global :: "ip \<Rightarrow> bool" where
  "is_global a \<longleftrightarrow> \<not> in_network (unmapped a) (Net4 (quad [100, 64, 0, 0]) 10) \<and> \<not> is_private a"

definition is_loopback :: "ip \<Rightarrow> bool" where
  "is_loopback a = (case unmapped a of IPv4 w \<Rightarrow> in_network (IPv4 w) (Net4 (quad [127, 0, 0, 0]) 8) | IPv6 w \<Rightarrow> w = 1)"

definition is_link_local :: "ip \<Rightarrow> bool" where
  "is_link_local a = in_any (unmapped a) [Net4 (quad [169, 254, 0, 0]) 16, Net6 (hextets [0xFE80]) 10]"

definition is_multicast :: "ip \<Rightarrow> bool" where
  "is_multicast a = in_any (unmapped a) [Net4 (quad [224, 0, 0, 0]) 4, Net6 (hextets [0xFF00]) 8]"

definition is_unspecified :: "ip \<Rightarrow> bool" where
  "is_unspecified a = (case unmapped a of IPv4 w \<Rightarrow> w = 0 | IPv6 w \<Rightarrow> w = 0)"

definition is_reserved :: "ip \<Rightarrow> bool" where
  "is_reserved a = in_any (unmapped a) (Net4 (quad [240, 0, 0, 0]) 4 # reserved6)"

section \<open>Denied addresses\<close>

definition embedded_addresses :: "ip \<Rightarrow> ip list" where
  "embedded_addresses a =
     (case a of
        IPv4 _ \<Rightarrow> []
      | IPv6 w \<Rightarrow>
          (case ipv4_mapped w of Some v \<Rightarrow> [IPv4 v] | None \<Rightarrow> [])
          @ (if drop_bit 112 w = 0x2002 then [IPv4 (ucast (drop_bit 80 w))] else [])
          @ (if drop_bit 96 w = 0x20010000 then [IPv4 (ucast (drop_bit 64 w)), IPv4 (ucast (NOT w))] else [])
          @ (if drop_bit 32 w = 0 \<and> w > 1 then [IPv4 (ucast w)] else []))"

definition single_address_blocked :: "ip \<Rightarrow> bool" where
  "single_address_blocked a =
     (if a \<in> set CLOUD_METADATA_ADDRESSES then True
      else if is_loopback a \<or> is_private a \<or> is_link_local a \<or> is_multicast a \<or> is_unspecified a \<or> is_reserved a
      then True
      else if \<not> is_global a then True
      else in_any a BLOCKED_NETWORKS)"

definition is_blocked_address :: "ip \<Rightarrow> bool" where
  "is_blocked_address a \<longleftrightarrow> single_address_blocked a \<or> list_ex single_address_blocked (embedded_addresses a)"

section \<open>Literals\<close>

definition is_hex :: "char \<Rightarrow> bool" where
  "is_hex c \<longleftrightarrow> is_digit c \<or> (CHR ''a'' \<le> c \<and> c \<le> CHR ''f'') \<or> (CHR ''A'' \<le> c \<and> c \<le> CHR ''F'')"

definition hex_digit_value :: "char \<Rightarrow> nat" where
  "hex_digit_value c = (if is_digit c then of_char c - 48 else if c \<le> CHR ''F'' then of_char c - 55 else of_char c - 87)"

definition digits_value :: "nat \<Rightarrow> string \<Rightarrow> nat" where
  "digits_value b s = foldl (\<lambda>n c. b * n + hex_digit_value c) 0 s"

definition in_range :: "nat \<Rightarrow> nat option" where
  "in_range n = (if n > 0xFFFFFFFF then None else Some n)"

text \<open>
  A character that \<open>isdigit\<close> accepts and \<open>int\<close> does not ends in the same \<open>None\<close>, and so does a number
  with more digits than \<open>int\<close> reads.
\<close>

definition parse_int_token :: "string \<Rightarrow> nat option" where
  "parse_int_token token =
     (let lowered = str_lower token
      in if token = [] then None
         else if str_startswith lowered ''0x''
         then (let digits = drop 2 lowered
               in if digits = [] \<or> \<not> list_all (\<lambda>c. c \<in> set ''0123456789abcdef'') digits then None
                  else in_range (digits_value 16 digits))
         else if length lowered > 1 \<and> str_startswith lowered ''0''
         then (let digits = drop 1 lowered
               in if \<not> list_all (\<lambda>c. c \<in> set ''01234567'') digits then None else in_range (digits_value 8 digits))
         else if \<not> list_all is_digit lowered then None
         else in_range (digits_value 10 lowered))"

fun parse_all :: "('a \<Rightarrow> 'b option) \<Rightarrow> 'a list \<Rightarrow> 'b list option" where
  "parse_all f [] = Some []"
| "parse_all f (x # xs) =
     (case f x of None \<Rightarrow> None | Some y \<Rightarrow> (case parse_all f xs of None \<Rightarrow> None | Some ys \<Rightarrow> Some (y # ys)))"

definition rstrip_dots :: "string \<Rightarrow> string" where
  "rstrip_dots s = rev (dropWhile (\<lambda>c. c = CHR ''.'') (rev s))"

text \<open>The octets are combined as bits; \<open>IPv4Address\<close> refuses what is beyond 32 bits.\<close>

definition add_octet :: "nat \<times> nat \<Rightarrow> nat \<Rightarrow> nat" where
  "add_octet entry t = (case entry of (index, v) \<Rightarrow> t OR push_bit (8 * (3 - index)) v)"

definition parse_relaxed_ipv4 :: "string \<Rightarrow> 32 word option" where
  "parse_relaxed_ipv4 host =
     (let candidate = rstrip_dots host; parts = split_on (CHR ''.'') candidate
      in if candidate = [] then None
         else if length parts > 4 then None
         else (case parse_all parse_int_token parts of
                 None \<Rightarrow> None
               | Some values \<Rightarrow>
                   if list_ex (\<lambda>v. v > 0xFF) (butlast values) then None
                   else if last values > 256 ^ (4 - (length values - 1)) - 1 then None
                   else (let t = fold add_octet (enumerate 0 (butlast values)) 0 OR last values
                         in if t < 2 ^ 32 then Some (of_nat t) else None)))"

definition parse_octet :: "string \<Rightarrow> nat option" where
  "parse_octet s =
     (if s = [] then None
      else if \<not> list_all is_digit s then None
      else if length s > 3 then None
      else if s \<noteq> ''0'' \<and> hd s = CHR ''0'' then None
      else if digits_value 10 s > 255 then None
      else Some (digits_value 10 s))"

definition parse_ipv4 :: "string \<Rightarrow> 32 word option" where
  "parse_ipv4 s =
     (let octets = split_on (CHR ''.'') s
      in if length octets \<noteq> 4 then None else map_option quad (parse_all parse_octet octets))"

definition parse_hextet :: "string \<Rightarrow> nat option" where
  "parse_hextet s = (if \<not> list_all is_hex s \<or> length s > 4 \<or> s = [] then None else Some (digits_value 16 s))"

fun hex_text :: "nat \<Rightarrow> string" where
  "hex_text n = (if n < 16 then [hex_digit n] else hex_text (n div 16) @ [hex_digit (n mod 16)])"

declare hex_text.simps [simp del]

definition add_hextet :: "string \<Rightarrow> nat option \<Rightarrow> nat option" where
  "add_hextet s acc =
     (case acc of None \<Rightarrow> None | Some n \<Rightarrow> map_option (\<lambda>h. push_bit 16 n OR h) (parse_hextet s))"

text \<open>The hextets after a trailing IPv4 address is written as two of them.\<close>

definition split_hextets :: "string \<Rightarrow> string list option" where
  "split_hextets s =
     (let parts = split_on (CHR '':'') s
      in if length parts < 3 then None
         else if CHR ''.'' \<in> set (last parts)
         then map_option (\<lambda>v. butlast parts @ [hex_text (unat (drop_bit 16 v)), hex_text (unat (v AND 0xFFFF))])
                (parse_ipv4 (last parts))
         else Some parts)"

text \<open>How many hextets stand before and after a double colon, which stands for at least one.\<close>

definition hextet_counts :: "string list \<Rightarrow> (nat \<times> nat) option" where
  "hextet_counts parts =
     (case filter (\<lambda>i. parts ! i = []) [1..<length parts - 1] of
        [] \<Rightarrow> if length parts \<noteq> 8 \<or> hd parts = [] \<or> last parts = [] then None else Some (8, 0)
      | [skip] \<Rightarrow>
          (let hi = skip; lo = length parts - skip - 1
           in if (hd parts = [] \<and> hi \<noteq> 1) \<or> (last parts = [] \<and> lo \<noteq> 1) then None
              else (let hi = (if hd parts = [] then 0 else hi); lo = (if last parts = [] then 0 else lo)
                    in if hi + lo > 7 then None else Some (hi, lo)))
      | _ \<Rightarrow> None)"

definition parse_ipv6 :: "string \<Rightarrow> 128 word option" where
  "parse_ipv6 s =
     (case split_hextets s of
        None \<Rightarrow> None
      | Some parts \<Rightarrow>
          if length parts > 9 then None
          else (case hextet_counts parts of
                  None \<Rightarrow> None
                | Some (hi, lo) \<Rightarrow>
                    map_option of_nat
                      (fold add_hextet (drop (length parts - lo) parts)
                        (map_option (push_bit (16 * (8 - (hi + lo)))) (fold add_hextet (take hi parts) (Some 0))))))"

text \<open>\<open>ip_address\<close>; an IPv6 literal may carry a zone after one percent sign.\<close>

definition ip_address :: "string \<Rightarrow> ip option" where
  "ip_address s =
     (if CHR ''/'' \<in> set s then None
      else (case parse_ipv4 s of
              Some w \<Rightarrow> Some (IPv4 w)
            | None \<Rightarrow>
                (case split_on (CHR ''%'') s of
                   [a] \<Rightarrow> map_option IPv6 (parse_ipv6 a)
                 | [a, zone] \<Rightarrow> if zone = [] then None else map_option IPv6 (parse_ipv6 a)
                 | _ \<Rightarrow> None)))"

definition strip_brackets :: "string \<Rightarrow> string" where
  "strip_brackets s =
     (let edge = (\<lambda>c. c = CHR ''['' \<or> c = CHR '']'') in rev (dropWhile edge (rev (dropWhile edge s))))"

definition parse_host_as_ip :: "string \<Rightarrow> ip option" where
  "parse_host_as_ip host =
     (let stripped = strip_brackets (str_strip host); cleaned = takeWhile (\<lambda>c. c \<noteq> CHR ''%'') stripped
      in if stripped = [] then None
         else (case ip_address cleaned of
                 Some a \<Rightarrow> Some a
               | None \<Rightarrow> map_option IPv4 (parse_relaxed_ipv4 cleaned)))"

end
