(* ===== verification/Destination.thy ===== *)
theory Destination
  imports Addresses
begin

text \<open>
  Validation of a destination before it is stored, \<^verbatim>\<open>runs/demo-brownfield/workspace/app/validation.py\<close>: the parts of
  the URL, the literal or the resolved addresses of its host, and the error a client gets. The resolver is
  an argument. The parts are those of \<open>urlsplit\<close> of Python 3.13.0 on Latin-1 text.
\<close>

section \<open>Parts of a URL\<close>

text \<open>\<open>s.partition(c)\<close> and \<open>s.rpartition(c)\<close>: the side before, whether the separator is there, the side after.\<close>

definition partition_at :: "char \<Rightarrow> string \<Rightarrow> string \<times> bool \<times> string" where
  "partition_at c s = (takeWhile (\<lambda>x. x \<noteq> c) s, c \<in> set s, drop 1 (dropWhile (\<lambda>x. x \<noteq> c) s))"

definition after_last :: "char \<Rightarrow> string \<Rightarrow> string" where
  "after_last c s = rev (takeWhile (\<lambda>x. x \<noteq> c) (rev s))"

definition scheme_char :: "char \<Rightarrow> bool" where
  "scheme_char c \<longleftrightarrow> is_alnum c \<or> c \<in> {CHR ''+'', CHR ''-'', CHR ''.''}"

definition split_scheme :: "string \<Rightarrow> string \<times> string" where
  "split_scheme url =
     (case partition_at (CHR '':'') url of
        (before, found, after) \<Rightarrow>
          if found \<and> before \<noteq> [] \<and> is_alpha (hd before) \<and> list_all scheme_char before
          then (str_lower before, after) else ([], url))"

definition ends_netloc :: "char \<Rightarrow> bool" where
  "ends_netloc c \<longleftrightarrow> c \<in> {CHR ''/'', CHR ''?'', CHR ''#''}"

text \<open>What stands in brackets must be an IPv6 address, or look like one of a later version.\<close>

definition future_address :: "string \<Rightarrow> bool" where
  "future_address s =
     (case partition_at (CHR ''.'') (drop 1 s) of
        (version, found, rest) \<Rightarrow> found \<and> version \<noteq> [] \<and> list_all is_hex version \<and> rest \<noteq> [])"

definition bracketed_host_ok :: "string \<Rightarrow> bool" where
  "bracketed_host_ok s =
     (if str_startswith s ''v'' then future_address s
      else (case ip_address s of Some (IPv6 _) \<Rightarrow> True | _ \<Rightarrow> False))"

text \<open>The scheme and the network location; \<open>None\<close> is a \<open>ValueError\<close>.\<close>

definition urlsplit :: "string \<Rightarrow> (string \<times> string) option" where
  "urlsplit url =
     (case split_scheme url of
        (scheme, rest) \<Rightarrow>
          if \<not> str_startswith rest ''//'' then Some (scheme, [])
          else
            (let netloc = takeWhile (\<lambda>c. \<not> ends_netloc c) (drop 2 rest);
                 opened = CHR ''['' \<in> set netloc; closed = CHR '']'' \<in> set netloc;
                 bracketed = fst (partition_at (CHR '']'') (snd (snd (partition_at (CHR ''['') netloc))))
             in if opened \<noteq> closed then None
                else if opened \<and> \<not> bracketed_host_ok bracketed then None
                else Some (scheme, netloc)))"

definition has_userinfo :: "string \<Rightarrow> bool" where
  "has_userinfo netloc \<longleftrightarrow> CHR ''@'' \<in> set netloc"

definition host_and_port :: "string \<Rightarrow> string \<times> string" where
  "host_and_port netloc =
     (let info = after_last (CHR ''@'') netloc
      in case partition_at (CHR ''['') info of
           (_, True, bracketed) \<Rightarrow>
             (case partition_at (CHR '']'') bracketed of
                (host, _, rest) \<Rightarrow> (host, snd (snd (partition_at (CHR '':'') rest))))
         | (_, False, _) \<Rightarrow> (case partition_at (CHR '':'') info of (host, _, port) \<Rightarrow> (host, port)))"

text \<open>A missing or empty port is no port; the left side is a \<open>ValueError\<close>.\<close>

definition port_of :: "string \<Rightarrow> unit + nat option" where
  "port_of netloc =
     (let port = snd (host_and_port netloc)
      in if port = [] then Inr None
         else if \<not> list_all is_digit port then Inl ()
         else if digits_value 10 port > 65535 then Inl ()
         else Inr (Some (digits_value 10 port)))"

text \<open>The host is lower case up to a zone.\<close>

definition hostname :: "string \<Rightarrow> string" where
  "hostname netloc =
     (let host = fst (host_and_port netloc)
      in str_lower (takeWhile (\<lambda>c. c \<noteq> CHR ''%'') host) @ dropWhile (\<lambda>c. c \<noteq> CHR ''%'') host)"

section \<open>Resolving a name\<close>

datatype sock_item = ItemText string | ItemBytes string | ItemOther

datatype sockaddr = SockSequence "sock_item list" | SockText string | SockOther

datatype addr_info = InfoText string | InfoEntry "sockaddr option"

definition info_address :: "addr_info \<Rightarrow> string" where
  "info_address info =
     (case info of
        InfoText s \<Rightarrow> s
      | InfoEntry (Some (SockSequence (ItemText s # _))) \<Rightarrow> s
      | InfoEntry (Some (SockSequence (ItemBytes s # _))) \<Rightarrow> filter (\<lambda>c. c < CHR 0x80) s
      | InfoEntry (Some (SockText s)) \<Rightarrow> s
      | _ \<Rightarrow> [])"

text \<open>\<open>None\<close>: the resolver raised.\<close>

definition resolve_host :: "(string \<Rightarrow> addr_info list option) \<Rightarrow> string \<Rightarrow> string list" where
  "resolve_host getaddrinfo host =
     (case getaddrinfo host of
        None \<Rightarrow> []
      | Some infos \<Rightarrow>
          map (takeWhile (\<lambda>c. c \<noteq> CHR ''%'')) (filter (\<lambda>a. a \<noteq> []) (map info_address infos)))"

section \<open>Validation\<close>

record api_error =
  ape_status :: nat
  ape_code :: string
  ape_message :: string

definition bad_request :: "string \<Rightarrow> string \<Rightarrow> api_error" where
  "bad_request code message = \<lparr>ape_status = 400, ape_code = code, ape_message = message\<rparr>"

definition ALLOWED_SCHEMES :: "string list" where
  "ALLOWED_SCHEMES = [''http'', ''https'']"

definition MAX_HOST_LENGTH :: nat where
  "MAX_HOST_LENGTH = 253"

definition BLOCKED_MESSAGE :: string where
  "BLOCKED_MESSAGE = ''The destination host is not a permitted public address.''"

definition has_forbidden_characters :: "string \<Rightarrow> bool" where
  "has_forbidden_characters url \<longleftrightarrow> list_ex (\<lambda>c. is_space c \<or> c < CHR 0x20 \<or> c = CHR 0x7F) url"

definition blocked_destination :: "api_error" where
  "blocked_destination = bad_request ''blocked_destination'' BLOCKED_MESSAGE"

definition invalid_url :: "string \<Rightarrow> api_error" where
  "invalid_url message = bad_request ''invalid_url'' message"

fun check_addresses :: "string list \<Rightarrow> string \<Rightarrow> api_error + string" where
  "check_addresses [] url = Inr url"
| "check_addresses (a # as) url =
     (case ip_address a of
        None \<Rightarrow> Inl blocked_destination
      | Some resolved \<Rightarrow> if is_blocked_address resolved then Inl blocked_destination else check_addresses as url)"

definition check_host ::
  "(string \<Rightarrow> addr_info list option) \<Rightarrow> bool \<Rightarrow> string \<Rightarrow> string \<Rightarrow> api_error + string" where
  "check_host getaddrinfo dns_enabled host url =
     (case parse_host_as_ip host of
        Some a \<Rightarrow> if is_blocked_address a then Inl blocked_destination else Inr url
      | None \<Rightarrow>
          if \<not> dns_enabled then Inr url
          else (let addresses = resolve_host getaddrinfo host
                in if addresses = []
                   then Inl (bad_request ''blocked_destination'' ''The destination host could not be resolved.'')
                   else check_addresses addresses url))"

definition validate_destination_url ::
  "(string \<Rightarrow> addr_info list option) \<Rightarrow> bool \<Rightarrow> string \<Rightarrow> api_error + string" where
  "validate_destination_url getaddrinfo dns_enabled url =
     (if has_forbidden_characters url then Inl (invalid_url ''The url contains invalid characters.'')
      else (case urlsplit url of
        None \<Rightarrow> Inl (invalid_url ''The url could not be parsed.'')
      | Some (scheme, netloc) \<Rightarrow>
          if scheme \<notin> set ALLOWED_SCHEMES
          then Inl (bad_request ''unsupported_scheme'' ''Only http and https URLs are supported.'')
          else if has_userinfo netloc then Inl (invalid_url ''Embedded credentials are not allowed in the url.'')
          else (case port_of netloc of
            Inl _ \<Rightarrow> Inl (invalid_url ''The url contains an invalid port.'')
          | Inr port \<Rightarrow>
              if port = Some 0 then Inl (invalid_url ''The url contains an invalid port.'')
              else if hostname netloc = [] then Inl (invalid_url ''The url must include a host.'')
              else if length (hostname netloc) > MAX_HOST_LENGTH then Inl (invalid_url ''The url host is too long.'')
              else check_host getaddrinfo dns_enabled (hostname netloc) url)))"

end
