(* ===== verification/DestinationProps.thy ===== *)
theory DestinationProps
  imports Destination
begin

text \<open>
  Every way of writing an IPv4 address that resolvers read, with one to four parts in decimal, octal or
  hexadecimal, leading zeros, capitals and trailing dots, is decoded to that address, so no spelling of a
  denied address is let through.
\<close>

section \<open>Digits\<close>

fun digits_text :: "nat \<Rightarrow> nat \<Rightarrow> string" where
  "digits_text b n = (if b < 2 \<or> n < b then [hex_digit n] else digits_text b (n div b) @ [hex_digit (n mod b)])"

declare digits_text.simps [simp del]

lemma digits_value_snoc: "digits_value b (s @ [c]) = b * digits_value b s + hex_digit_value c"
  by (simp add: digits_value_def)

lemma less_16: "n < 16 \<Longrightarrow> n \<in> {0, 1, 2, 3, 4, 5, 6, 7, 8, 9, 10, 11, 12, 13, 14, 15 :: nat}"
  by (simp, presburger)

lemma hex_digit_nth: "n < 16 \<Longrightarrow> hex_digit n = ''0123456789abcdef'' ! n"
  by (drule less_16) (auto simp: hex_digit_def char_of_eq_iff)

lemma hex_digit_value_digit: "n < 16 \<Longrightarrow> hex_digit_value (hex_digit n) = n"
  by (frule hex_digit_nth, drule less_16) (auto simp: hex_digit_value_def is_digit_def)

lemma digits_value_text: "2 \<le> b \<Longrightarrow> b \<le> 16 \<Longrightarrow> digits_value b (digits_text b n) = n"
proof (induction b n rule: digits_text.induct)
  case (1 b n)
  show ?case
  proof (cases "n < b")
    case True
    with 1 show ?thesis by (subst digits_text.simps) (simp add: digits_value_def hex_digit_value_digit)
  next
    case False
    with 1 have "digits_value b (digits_text b (n div b)) = n div b" by simp
    moreover have "n mod b < b" using 1(2) by simp
    then have "n mod b < 16" using 1(3) by linarith
    ultimately show ?thesis using False 1(2)
      by (subst digits_text.simps) (simp add: digits_value_snoc hex_digit_value_digit)
  qed
qed

lemma digits_value_zeros: "digits_value b (replicate z (CHR ''0'') @ s) = digits_value b s"
proof (induction z)
  case (Suc z)
  have "hex_digit_value (CHR ''0'') = 0" by (simp add: hex_digit_value_def is_digit_def)
  with Suc show ?case by (simp add: digits_value_def)
qed simp

lemma digits_text_set: "2 \<le> b \<Longrightarrow> b \<le> 16 \<Longrightarrow> set (digits_text b n) \<subseteq> hex_digit ` {..<b}"
proof (induction b n rule: digits_text.induct)
  case (1 b n)
  then show ?case by (subst digits_text.simps) auto
qed

lemma digits_text_not_Nil [simp]: "digits_text b n \<noteq> []"
  by (subst digits_text.simps) simp

lemma hex_digit_image: "b \<le> 16 \<Longrightarrow> hex_digit ` {..<b} \<subseteq> set (take b ''0123456789abcdef'')"
proof
  fix c assume b: "b \<le> 16" and "c \<in> hex_digit ` {..<b}"
  then obtain n where n: "n < b" "c = hex_digit n" by auto
  with b have "c = take b ''0123456789abcdef'' ! n" by (simp add: hex_digit_nth)
  moreover have "n < length (take b ''0123456789abcdef'')" using n(1) b by simp
  ultimately show "c \<in> set (take b ''0123456789abcdef'')" by (metis nth_mem)
qed

lemma digits_text_take: "2 \<le> b \<Longrightarrow> b \<le> 16 \<Longrightarrow> set (digits_text b n) \<subseteq> set (take b ''0123456789abcdef'')"
  using digits_text_set hex_digit_image by blast

lemma digits_text_hex: "2 \<le> b \<Longrightarrow> b \<le> 16 \<Longrightarrow> set (digits_text b n) \<subseteq> set ''0123456789abcdef''"
  using digits_text_take set_take_subset by (rule order_trans)

lemma octal_digits: "set (digits_text 8 n) \<subseteq> set ''01234567''"
  using digits_text_take [of 8 n] by simp

lemma hex_digits: "set (digits_text 16 n) \<subseteq> set ''0123456789abcdef''"
  using digits_text_take [of 16 n] by simp

lemma str_nat_text: "str_nat n = digits_text 10 n"
proof (induction n rule: str_nat.induct)
  case (1 n)
  then show ?case by (subst str_nat.simps, subst digits_text.simps) (simp add: hex_digit_def)
qed

lemma str_nat_ascii: "set (str_nat n) \<subseteq> set ''0123456789''"
  using digits_text_take [of 10 n] by (simp add: str_nat_text)

lemma decimal_digits: "list_all is_digit (str_nat n)"
proof -
  have "list_all is_digit ''0123456789''" by (simp add: is_digit_def)
  with str_nat_ascii [of n] show ?thesis unfolding list_all_iff by blast
qed

lemma digits_text_first: "2 \<le> b \<Longrightarrow> b \<le> 16 \<Longrightarrow> 0 < n \<Longrightarrow> hd (digits_text b n) \<noteq> CHR ''0''"
proof (induction b n rule: digits_text.induct)
  case (1 b n)
  have nz: "hex_digit k \<noteq> CHR ''0''" if "0 < k" "k < 16" for k
    using hex_digit_value_digit [of k] that by (auto simp: hex_digit_value_def is_digit_def)
  show ?case
  proof (cases "n < b")
    case True
    with 1 nz show ?thesis by (subst digits_text.simps) simp
  next
    case False
    with 1 have "hd (digits_text b (n div b)) \<noteq> CHR ''0''" by (simp add: div_greater_zero_iff)
    with False "1.prems"(1) show ?thesis by (subst digits_text.simps) simp
  qed
qed

section \<open>Spellings of a number\<close>

datatype radix = Decimal | Octal | Hexadecimal

fun spell :: "radix \<Rightarrow> nat \<Rightarrow> nat \<Rightarrow> string" where
  "spell Decimal _ n = str_nat n"
| "spell Octal zeros n = CHR ''0'' # replicate zeros (CHR ''0'') @ digits_text 8 n"
| "spell Hexadecimal zeros n = ''0x'' @ replicate zeros (CHR ''0'') @ digits_text 16 n"

definition token_of :: "string \<Rightarrow> nat \<Rightarrow> bool" where
  "token_of t n \<longleftrightarrow> (\<exists>r zeros. str_lower t = spell r zeros n)"

lemma zeros_digits: "set s \<subseteq> set ds \<Longrightarrow> CHR ''0'' \<in> set ds \<Longrightarrow> set (replicate z (CHR ''0'') @ s) \<subseteq> set ds"
  by auto

lemma spell_set: "set (spell r zeros n) \<subseteq> insert (CHR ''x'') (set ''0123456789abcdef'')"
proof (cases r)
  case Decimal
  have "set (str_nat n) \<subseteq> set ''0123456789abcdef''" unfolding str_nat_text by (rule digits_text_hex) simp_all
  then have "set (spell Decimal zeros n) \<subseteq> insert (CHR ''x'') (set ''0123456789abcdef'')" unfolding spell.simps by blast
  with Decimal show ?thesis by blast
next
  case Octal
  have "set (digits_text 8 n) \<subseteq> set ''0123456789abcdef''" by (rule digits_text_hex) simp_all
  from zeros_digits [OF this, of "Suc zeros"] have "set (spell Octal zeros n) \<subseteq> set ''0123456789abcdef''" by simp
  with Octal show ?thesis by blast
next
  case Hexadecimal
  from zeros_digits [OF hex_digits, of zeros n] have "set (replicate zeros (CHR ''0'') @ digits_text 16 n) \<subseteq> set ''0123456789abcdef''" by simp
  with Hexadecimal show ?thesis by (simp add: subset_insertI2)
qed

lemma spell_not_Nil [simp]: "spell r zeros n \<noteq> []"
  by (cases r) (simp_all add: str_nat_text)

lemma in_range_small: "n \<le> 0xFFFFFFFF \<Longrightarrow> in_range n = Some n"
  by (simp add: in_range_def)

lemma prefix_0x: "str_startswith s ''0x'' \<longleftrightarrow> (\<exists>t. s = CHR ''0'' # CHR ''x'' # t)"
  by (simp add: str_startswith_iff)

lemma decimal_not_prefixed:
  assumes "list_all is_digit s" shows "\<not> str_startswith s ''0x''"
  using assms by (auto simp: prefix_0x is_digit_def)

lemma octal_token:
  assumes "str_lower t = CHR ''0'' # w" and "list_all (\<lambda>c. c \<in> set ''01234567'') w" and "w \<noteq> []"
  shows "parse_int_token t = in_range (digits_value 8 w)"
proof -
  have "CHR ''x'' \<notin> set w" using assms(2) unfolding list_all_iff by force
  then have "str_startswith (CHR ''0'' # w) ''0x'' = False" by (auto simp: prefix_0x)
  moreover have "(length (CHR ''0'' # w) > 1 \<and> str_startswith (CHR ''0'' # w) ''0'') = True" using assms(3) by simp
  moreover have "(t = []) = False" using assms(1) by (auto simp: str_lower_def)
  moreover have "drop 1 (CHR ''0'' # w) = w" by simp
  ultimately show ?thesis
    unfolding parse_int_token_def Let_def assms(1) by (simp only: if_False if_True assms(2) not_True_eq_False)
qed

lemma hex_token:
  assumes "str_lower t = CHR ''0'' # CHR ''x'' # w" and "list_all (\<lambda>c. c \<in> set ''0123456789abcdef'') w" and "w \<noteq> []"
  shows "parse_int_token t = in_range (digits_value 16 w)"
proof -
  have "str_startswith (CHR ''0'' # CHR ''x'' # w) ''0x'' = True" by simp
  moreover have "(t = []) = False" using assms(1) by (auto simp: str_lower_def)
  moreover have "drop 2 (CHR ''0'' # CHR ''x'' # w) = w" by simp
  moreover have "(w = []) = False" using assms(3) by simp
  ultimately show ?thesis
    unfolding parse_int_token_def Let_def assms(1) by (simp only: if_False if_True assms(2) not_True_eq_False simp_thms)
qed

lemma list_all_zeros:
  assumes "set s \<subseteq> set ds" and "CHR ''0'' \<in> set ds"
  shows "list_all (\<lambda>c. c \<in> set ds) (replicate z (CHR ''0'') @ s)"
  using zeros_digits [OF assms, of z] unfolding list_all_iff by blast

lemma parse_int_token_spelled:
  assumes "token_of t n" and "n \<le> 0xFFFFFFFF" shows "parse_int_token t = Some n"
proof -
  from assms(1) obtain r zeros where l: "str_lower t = spell r zeros n" by (auto simp: token_of_def)
  have t: "t \<noteq> []" using l spell_not_Nil [of r zeros n] by (auto simp: str_lower_def simp del: spell_not_Nil)
  show ?thesis
  proof (cases r)
    case Decimal
    have d: "list_all is_digit (str_nat n)" by (rule decimal_digits)
    have first: "(length (str_nat n) > 1 \<and> str_startswith (str_nat n) ''0'') = False"
    proof (cases "n = 0")
      case True
      then show ?thesis by (simp add: str_nat.simps)
    next
      case False
      with digits_text_first [of 10 n] show ?thesis by (auto simp: str_nat_text str_startswith_iff)
    qed
    have "str_lower t = str_nat n" using l Decimal by simp
    then show ?thesis
      using t d first decimal_not_prefixed [OF d] digits_value_text [of 10 n] in_range_small [OF assms(2)]
      unfolding parse_int_token_def Let_def by (simp only: if_False if_True str_nat_text not_True_eq_False)
  next
    case Octal
    have low: "str_lower t = CHR ''0'' # replicate zeros (CHR ''0'') @ digits_text 8 n" using l Octal by simp
    have "CHR ''0'' \<in> set ''01234567''" by simp
    from octal_token [OF low list_all_zeros [OF octal_digits this]]
    have "parse_int_token t = in_range (digits_value 8 (replicate zeros (CHR ''0'') @ digits_text 8 n))" by simp
    then show ?thesis using digits_value_text [of 8 n] in_range_small [OF assms(2)] by (simp add: digits_value_zeros)
  next
    case Hexadecimal
    have low: "str_lower t = CHR ''0'' # CHR ''x'' # replicate zeros (CHR ''0'') @ digits_text 16 n" using l Hexadecimal by simp
    have "CHR ''0'' \<in> set ''0123456789abcdef''" by simp
    from hex_token [OF low list_all_zeros [OF hex_digits this]]
    have "parse_int_token t = in_range (digits_value 16 (replicate zeros (CHR ''0'') @ digits_text 16 n))" by simp
    then show ?thesis using digits_value_text [of 16 n] in_range_small [OF assms(2)] by (simp add: digits_value_zeros)
  qed
qed

section \<open>Spellings of an address\<close>

text \<open>One to four parts; the last one fills the octets that are left.\<close>

definition parts_value :: "nat list \<Rightarrow> nat" where
  "parts_value vs = foldl (\<lambda>n b. 256 * n + b) 0 (butlast vs) * 256 ^ (5 - length vs) + last vs"

definition spells_address :: "string \<Rightarrow> 32 word \<Rightarrow> bool" where
  "spells_address h w \<longleftrightarrow>
     (\<exists>ts vs k. h = str_join ''.'' ts @ replicate k (CHR ''.'') \<and> list_all2 token_of ts vs
        \<and> 1 \<le> length vs \<and> length vs \<le> 4 \<and> (\<forall>v \<in> set (butlast vs). v \<le> 255)
        \<and> last vs < 256 ^ (5 - length vs) \<and> w = of_nat (parts_value vs))"

lemma or_low: "b < 2 ^ k \<Longrightarrow> push_bit k a OR b = 2 ^ k * a + (b :: nat)"
proof -
  assume b: "b < 2 ^ k"
  have "\<not> bit (push_bit k a) n \<or> \<not> bit b n" for n
  proof (cases "n < k")
    case False
    then have "(2 :: nat) ^ k \<le> 2 ^ n" by simp
    with b have "b < 2 ^ n" by linarith
    then show ?thesis by (simp add: bit_iff_odd)
  qed (simp add: bit_push_bit_iff)
  then have "push_bit k a + b = push_bit k a OR b" by (rule disjunctive_add)
  then show ?thesis by (simp add: push_bit_eq_mult mult.commute)
qed

lemma list_length_cases:
  assumes "1 \<le> length vs" and "length vs \<le> 4"
  obtains a where "vs = [a]" | a b where "vs = [a, b]" | a b c where "vs = [a, b, c]" | a b c d where "vs = [a, b, c, d]"
proof -
  from assms have "length vs = 1 \<or> length vs = 2 \<or> length vs = 3 \<or> length vs = 4" by linarith
  with that show thesis by (auto simp: length_Suc_conv numeral_2_eq_2 numeral_3_eq_3 numeral_eq_Suc)
qed

lemma shift_octets: "push_bit 24 a = push_bit 8 (push_bit 16 (a :: nat))" "push_bit 16 a = push_bit 8 (push_bit 8 (a :: nat))"
  by (simp_all add: push_bit_push_bit)

lemma octets_value:
  assumes "1 \<le> length vs" and "length vs \<le> 4" and "\<forall>v \<in> set (butlast vs). v \<le> 255" and "last vs < 256 ^ (5 - length vs)"
  shows "fold add_octet (enumerate 0 (butlast vs)) 0 OR last vs = parts_value vs" and "parts_value vs < 2 ^ 32"
proof -
  have "fold add_octet (enumerate 0 (butlast vs)) 0 OR last vs = parts_value vs \<and> parts_value vs < 2 ^ 32"
  proof (cases rule: list_length_cases [OF assms(1,2)])
    case (1 a)
    with assms(4) show ?thesis by (simp add: parts_value_def)
  next
    case (2 a b)
    have "push_bit 24 a OR b = 2 ^ 24 * a + b" by (rule or_low) (use 2 assms(4) in simp)
    with 2 assms show ?thesis by (simp add: parts_value_def add_octet_def)
  next
    case (3 a b c)
    have "push_bit 24 a OR push_bit 16 b OR c = push_bit 16 (push_bit 8 a OR b) OR c"
      by (simp add: push_bit_or push_bit_push_bit or.assoc)
    also have "\<dots> = 2 ^ 16 * (2 ^ 8 * a + b) + c"
      using 3 assms by (simp add: or_low)
    finally show ?thesis using 3 assms by (simp add: parts_value_def add_octet_def or.assoc)
  next
    case (4 a b c d)
    have "push_bit 24 a OR push_bit 16 b OR push_bit 8 c OR d = push_bit 8 (push_bit 8 (push_bit 8 a OR b) OR c) OR d"
      by (simp add: push_bit_or push_bit_push_bit or.assoc)
    also have "\<dots> = 2 ^ 8 * (2 ^ 8 * (2 ^ 8 * a + b) + c) + d"
      using 4 assms by (simp add: or_low)
    finally show ?thesis using 4 assms by (simp add: parts_value_def add_octet_def or.assoc)
  qed
  then show "fold add_octet (enumerate 0 (butlast vs)) 0 OR last vs = parts_value vs" and "parts_value vs < 2 ^ 32" by simp_all
qed

lemma split_on_join: "ts \<noteq> [] \<Longrightarrow> \<forall>t \<in> set ts. c \<notin> set t \<Longrightarrow> split_on c (str_join [c] ts) = ts"
  by (induction "[c]" ts rule: str_join.induct) (simp_all add: split_on_line split_on_plain)

lemma last_join: "ts \<noteq> [] \<Longrightarrow> last ts \<noteq> [] \<Longrightarrow> str_join sep ts \<noteq> [] \<and> last (str_join sep ts) = last (last ts)"
  by (induction sep ts rule: str_join.induct) auto

lemma parse_all_list_all2: "list_all2 (\<lambda>x y. f x = Some y) xs ys \<Longrightarrow> parse_all f xs = Some ys"
  by (induction rule: list_all2_induct) simp_all

lemma parse_all_Some: "parse_all f xs = Some ys \<Longrightarrow> list_all2 (\<lambda>x y. f x = Some y) xs ys"
  by (induction xs arbitrary: ys) (auto split: option.splits)

lemma rstrip_dots_dotted:
  assumes "s \<noteq> []" and "last s \<noteq> CHR ''.''" shows "rstrip_dots (s @ replicate k (CHR ''.'')) = s"
proof -
  obtain u c where s: "s = u @ [c]" using assms(1) by (metis rev_exhaust)
  have "dropWhile (\<lambda>c. c = CHR ''.'') (replicate k (CHR ''.'') @ c # rev u) = c # rev u"
    using assms(2) s by (induction k) auto
  then show ?thesis by (simp add: rstrip_dots_def s)
qed

text \<open>The characters of a spelled address.\<close>

definition host_char :: "char \<Rightarrow> bool" where
  "host_char c \<longleftrightarrow> latin_lower c \<in> insert (CHR ''x'') (set ''0123456789abcdef'') \<or> c = CHR ''.''"

definition special :: "char \<Rightarrow> bool" where
  "special c \<longleftrightarrow> c \<in> set '':/?#@[]%'' \<or> is_space c \<or> c < CHR 0x20 \<or> c = CHR 0x7F"

lemma lower_alphabet: "d \<in> insert (CHR ''x'') (set ''0123456789abcdef'') \<Longrightarrow> latin_lower d = d \<and> (is_lower d \<or> is_digit d)"
proof -
  have "\<forall>d \<in> insert (CHR ''x'') (set ''0123456789abcdef''). latin_lower d = d \<and> (is_lower d \<or> is_digit d)"
    by (simp add: latin_lower_def to_lower_def is_upper_def is_lower_def is_digit_def)
  then show "d \<in> insert (CHR ''x'') (set ''0123456789abcdef'') \<Longrightarrow> latin_lower d = d \<and> (is_lower d \<or> is_digit d)" ..
qed

lemma ascii_lower:
  assumes "is_lower (latin_lower c) \<or> is_digit (latin_lower c)" shows "is_alnum c"
proof (cases "CHR 0xC0 \<le> c \<and> c \<le> CHR 0xDE \<and> c \<noteq> CHR 0xD7")
  case True
  then have n: "192 \<le> (of_char c :: nat)" "(of_char c :: nat) \<le> 222" by (simp_all add: less_eq_char_def)
  have "latin_lower c = char_of (of_char c + 32 :: nat)" using True by (simp add: latin_lower_def)
  with assms n show ?thesis by (simp add: is_lower_def is_digit_def less_eq_char_def)
next
  case False
  then have "latin_lower c = to_lower c" by (auto simp: latin_lower_def)
  with assms show ?thesis by (auto simp: to_lower_def is_alnum_def is_alpha_def split: if_splits)
qed

lemma alnum_range: "is_alnum c \<Longrightarrow> CHR ''0'' \<le> c \<and> c \<le> CHR ''z''"
  by (auto simp: is_alnum_def is_alpha_def is_digit_def is_upper_def is_lower_def less_eq_char_def)

lemma alnum_plain: "is_alnum c \<Longrightarrow> c \<notin> set '':/?#@[]%'' \<and> \<not> is_space c"
proof -
  have "\<forall>c \<in> set '':/?#@[]%''. \<not> is_alnum c"
    by (simp add: is_alnum_def is_alpha_def is_digit_def is_upper_def is_lower_def)
  moreover have "\<forall>c \<in> Collect is_space. \<not> is_alnum c"
    by (simp add: is_space_def is_alnum_def is_alpha_def is_digit_def is_upper_def is_lower_def)
  ultimately show "is_alnum c \<Longrightarrow> c \<notin> set '':/?#@[]%'' \<and> \<not> is_space c" by blast
qed

lemma alnum_allowed: "is_alnum c \<Longrightarrow> \<not> c < CHR 0x20 \<and> c \<noteq> CHR 0x7F"
  by (drule alnum_range) (auto simp: less_eq_char_def less_char_def)

lemma host_char_plain:
  assumes "host_char c" shows "\<not> special c"
proof (cases "c = CHR ''.''")
  case True
  then show ?thesis by (simp add: special_def is_space_def less_char_def)
next
  case False
  with assms have "latin_lower c \<in> insert (CHR ''x'') (set ''0123456789abcdef'')" by (simp add: host_char_def)
  from lower_alphabet [OF this] have "is_alnum c" by (blast intro: ascii_lower)
  from alnum_plain [OF this] alnum_allowed [OF this] show ?thesis unfolding special_def by blast
qed

lemma token_chars:
  assumes "token_of t n" and "c \<in> set t" shows "host_char c \<and> c \<noteq> CHR ''.''"
proof -
  from assms(1) obtain r zeros where l: "str_lower t = spell r zeros n" by (auto simp: token_of_def)
  have "latin_lower c \<in> set (spell r zeros n)" unfolding l [symmetric] using assms(2) by (simp add: str_lower_def)
  note subsetD [OF spell_set this]
  moreover have "latin_lower (CHR ''.'') \<notin> insert (CHR ''x'') (set ''0123456789abcdef'')" by code_simp
  ultimately show ?thesis unfolding host_char_def by metis
qed

lemma token_not_Nil: "token_of t n \<Longrightarrow> t \<noteq> []"
  using spell_not_Nil by (auto simp: token_of_def str_lower_def simp del: spell_not_Nil) metis

lemma tokens_chars: "list_all2 token_of ts vs \<Longrightarrow> t \<in> set ts \<Longrightarrow> t \<noteq> [] \<and> (\<forall>c \<in> set t. host_char c \<and> c \<noteq> CHR ''.'')"
  by (induction rule: list_all2_induct) (auto dest: token_chars token_not_Nil)

lemma spelled_host_chars: "spells_address h w \<Longrightarrow> c \<in> set h \<Longrightarrow> host_char c"
proof -
  have "host_char (CHR ''.'')" by (simp add: host_char_def)
  then have "c \<in> set (str_join ''.'' ts) \<Longrightarrow> \<forall>t \<in> set ts. \<forall>c \<in> set t. host_char c \<Longrightarrow> host_char c" for ts c
    by (induction "''.''" ts rule: str_join.induct) auto
  with \<open>host_char (CHR ''.'')\<close> show "spells_address h w \<Longrightarrow> c \<in> set h \<Longrightarrow> host_char c"
    unfolding spells_address_def using tokens_chars by fastforce
qed

lemma pow_bound: "1 \<le> k \<Longrightarrow> k \<le> 4 \<Longrightarrow> (256 :: nat) ^ (5 - k) \<le> 0x100000000"
  using power_increasing [of "5 - k" 4 "256 :: nat"] by simp

lemma parse_relaxed_parts:
  assumes s: "rstrip_dots h = s" "s \<noteq> []" and parts: "split_on (CHR ''.'') s = ts" "parse_all parse_int_token ts = Some vs"
    and len: "1 \<le> length vs" "length vs \<le> 4" and low: "\<forall>v \<in> set (butlast vs). v \<le> 255"
    and last: "last vs < 256 ^ (5 - length vs)"
  shows "parse_relaxed_ipv4 h = Some (of_nat (parts_value vs))"
proof -
  have n: "length ts = length vs" using parse_all_Some [OF parts(2)] by (rule list_all2_lengthD)
  have e: "\<not> list_ex (\<lambda>v. v > 0xFF) (butlast vs)" using low by (auto simp: list_ex_iff)
  have e2: "\<not> last vs > 256 ^ (4 - (length vs - 1)) - 1" using last len by (simp add: Suc_diff_le)
  show ?thesis
    unfolding parse_relaxed_ipv4_def Let_def s parts
    using s(2) n len e e2 octets_value [OF len low last] by simp
qed

text \<open>Every spelling of an address is decoded to it.\<close>

lemma parse_relaxed_spelled:
  assumes "spells_address h w" shows "parse_relaxed_ipv4 h = Some w"
proof -
  from assms obtain ts vs k where h: "h = str_join ''.'' ts @ replicate k (CHR ''.'')" and tok: "list_all2 token_of ts vs"
    and len: "1 \<le> length vs" "length vs \<le> 4" and low: "\<forall>v \<in> set (butlast vs). v \<le> 255"
    and last: "last vs < 256 ^ (5 - length vs)" and w: "w = of_nat (parts_value vs)"
    by (auto simp: spells_address_def)
  have n: "length ts = length vs" "ts \<noteq> []" using tok len(1) by (auto dest: list_all2_lengthD)
  have t: "\<forall>t \<in> set ts. t \<noteq> [] \<and> (\<forall>c \<in> set t. c \<noteq> CHR ''.'')" using tokens_chars [OF tok] by blast
  then have lastt: "last ts \<noteq> []" "last (last ts) \<noteq> CHR ''.''" using n(2) by (metis last_in_set)+
  note join = last_join [OF n(2) lastt(1), of "''.''"]
  have s: "rstrip_dots h = str_join ''.'' ts"
    unfolding h using rstrip_dots_dotted join lastt(2) by metis
  have parts: "split_on (CHR ''.'') (str_join ''.'' ts) = ts" by (rule split_on_join) (use n(2) t in auto)
  have small: "v \<le> 0xFFFFFFFF" if "v \<in> set vs" for v
  proof (cases "v \<in> set (butlast vs)")
    case False
    with that len(1) have "v = last vs" by (cases vs rule: rev_cases) auto
    with last pow_bound [OF len] show ?thesis by simp
  qed (use low in auto)
  have vals: "parse_all parse_int_token ts = Some vs"
    by (rule parse_all_list_all2)
      (use tok small in \<open>simp add: list_all2_conv_all_nth parse_int_token_spelled\<close>)
  show ?thesis using parse_relaxed_parts [OF s _ parts vals len low last] join w by simp
qed

lemma spelled_lower:
  assumes "spells_address h w" shows "spells_address (str_lower h) w"
proof -
  have tok: "token_of (str_lower t) n" if t: "token_of t n" for t n
  proof -
    obtain r zeros where l: "str_lower t = spell r zeros n" using t by (auto simp: token_of_def)
    have "str_lower (spell r zeros n) = spell r zeros n"
      unfolding str_lower_def by (rule map_idI) (use spell_set [of r zeros n] lower_alphabet in blast)
    with l show ?thesis by (auto simp: token_of_def)
  qed
  have dot: "latin_lower (CHR ''.'') = CHR ''.''" by code_simp
  have join: "str_lower (str_join ''.'' ts) = str_join ''.'' (map str_lower ts)" for ts
    by (induction "''.''" ts rule: str_join.induct) (simp_all add: str_lower_def dot)
  from assms obtain ts vs k where h: "h = str_join ''.'' ts @ replicate k (CHR ''.'')" and all: "list_all2 token_of ts vs"
    and rest: "1 \<le> length vs" "length vs \<le> 4" "\<forall>v \<in> set (butlast vs). v \<le> 255" "last vs < 256 ^ (5 - length vs)"
      "w = of_nat (parts_value vs)"
    by (auto simp: spells_address_def)
  have "str_lower h = str_join ''.'' (map str_lower ts) @ replicate k (CHR ''.'')"
    using join [of ts] by (simp add: h str_lower_def dot)
  moreover have "list_all2 token_of (map str_lower ts) vs"
    using all tok by (simp add: list_all2_map1 list_all2_mono)
  ultimately show ?thesis unfolding spells_address_def using rest by blast
qed

section \<open>Canonical literals\<close>

lemma join_split: "str_join [c] (split_on c s) = s"
proof (induction s)
  case (Cons x s)
  show ?case
  proof (cases "split_on c s")
    case (Cons w ws)
    with Cons.IH show ?thesis by (cases ws) auto
  qed simp
qed simp

lemma split_on_parts: "t \<in> set (split_on c s) \<Longrightarrow> c \<notin> set t"
proof (induction s arbitrary: t)
  case (Cons x s)
  then show ?case by (cases "split_on c s") (auto split: if_splits)
qed simp

lemma digits_lower: "list_all is_digit s \<Longrightarrow> str_lower s = s"
proof -
  have "latin_lower c = c" if "is_digit c" for c
    using that by (auto simp: latin_lower_def to_lower_def is_upper_def is_digit_def less_eq_char_def)
  then show "list_all is_digit s \<Longrightarrow> str_lower s = s" by (simp add: str_lower_def list_all_iff map_idI)
qed

lemma parse_octet_token: "parse_octet s = Some v \<Longrightarrow> parse_int_token s = Some v \<and> v \<le> 255 \<and> s \<noteq> []"
proof -
  assume p: "parse_octet s = Some v"
  then have s: "s \<noteq> []" "list_all is_digit s" "s = ''0'' \<or> hd s \<noteq> CHR ''0''" "digits_value 10 s \<le> 255" "v = digits_value 10 s"
    by (auto simp: parse_octet_def split: if_splits)
  have "(length s > 1 \<and> str_startswith s ''0'') = False" using s(1,3) by (auto simp: str_startswith_iff)
  then have "parse_int_token s = in_range v"
    using s(1,2) decimal_not_prefixed [OF s(2)] unfolding parse_int_token_def Let_def digits_lower [OF s(2)] s(5)
    by (simp only: if_False if_True not_True_eq_False)
  with s show ?thesis by (simp add: in_range_def)
qed

lemma canonical_is_relaxed:
  assumes "parse_ipv4 s = Some w" shows "parse_relaxed_ipv4 s = Some w"
proof -
  let ?ts = "split_on (CHR ''.'') s"
  from assms obtain vs where len: "length ?ts = 4" and p: "parse_all parse_octet ?ts = Some vs" and w: "w = quad vs"
    by (auto simp: parse_ipv4_def Let_def split: if_splits)
  note all = parse_all_Some [OF p]
  then have n: "length vs = 4" using len by (simp add: list_all2_lengthD)
  have vals: "parse_all parse_int_token ?ts = Some vs"
    by (rule parse_all_list_all2, rule list_all2_mono [OF all]) (simp add: parse_octet_token)
  have octets: "\<forall>v \<in> set vs. v \<le> 255" "\<forall>t \<in> set ?ts. t \<noteq> []"
    using all parse_octet_token by (auto simp: list_all2_conv_all_nth in_set_conv_nth) blast+
  then have lastt: "last ?ts \<noteq> []" by simp
  have "last (last ?ts) \<noteq> CHR ''.''" using split_on_parts [of "last ?ts"] lastt by (metis last_in_set split_on_not_Nil)
  with last_join [OF split_on_not_Nil lastt, of "''.''"] have s: "s \<noteq> []" "last s \<noteq> CHR ''.''" by (simp_all add: join_split)
  have "rstrip_dots s = s" using rstrip_dots_dotted [OF s, of 0] by simp
  moreover obtain a b c d where vs: "vs = [a, b, c, d]" using n by (auto simp: length_Suc_conv numeral_eq_Suc)
  have "parts_value vs = foldl (\<lambda>n b. 256 * n + b) 0 vs" by (simp add: vs parts_value_def)
  moreover have "last vs < 256 ^ (5 - length vs)" "\<forall>v \<in> set (butlast vs). v \<le> 255" using octets(1) by (simp_all add: vs)
  ultimately show ?thesis using parse_relaxed_parts [OF _ s(1) refl vals] n w by (simp add: quad_def)
qed

section \<open>The host of a URL\<close>

lemma takeWhile_absent: "c \<notin> set s \<Longrightarrow> takeWhile (\<lambda>x. x \<noteq> c) s = s"
  by (induction s) auto

lemma dropWhile_absent: "c \<notin> set s \<Longrightarrow> dropWhile (\<lambda>x. x \<noteq> c) s = []"
  by (induction s) auto

lemma takeWhile_sep: "c \<notin> set s \<Longrightarrow> takeWhile (\<lambda>x. x \<noteq> c) (s @ c # r) = s"
  by (induction s) auto

lemma dropWhile_sep: "c \<notin> set s \<Longrightarrow> dropWhile (\<lambda>x. x \<noteq> c) (s @ c # r) = c # r"
  by (induction s) auto

lemma after_last_plain: "c \<notin> set s \<Longrightarrow> after_last c s = s"
  by (simp only: after_last_def takeWhile_absent set_rev rev_rev_ident simp_thms)

lemma partition_plain: "c \<notin> set s \<Longrightarrow> partition_at c s = (s, False, [])"
  by (simp add: partition_at_def takeWhile_absent dropWhile_absent)

lemma partition_line: "c \<notin> set s \<Longrightarrow> partition_at c (s @ c # r) = (s, True, r)"
  by (simp add: partition_at_def takeWhile_sep dropWhile_sep)

definition web_scheme :: "string \<Rightarrow> bool" where
  "web_scheme scheme \<longleftrightarrow> scheme = ''http'' \<or> scheme = ''https''"

text \<open>No port, or one that a client can connect to.\<close>

definition port_text :: "string \<Rightarrow> bool" where
  "port_text port \<longleftrightarrow> port = [] \<or> (\<exists>p. 1 \<le> p \<and> p \<le> 65535 \<and> port = CHR '':'' # str_nat p)"

definition url_tail :: "string \<Rightarrow> bool" where
  "url_tail rest \<longleftrightarrow> rest = [] \<or> ends_netloc (hd rest)"

lemma split_scheme_web: "web_scheme scheme \<Longrightarrow> split_scheme (scheme @ ''://'' @ r) = (scheme, ''//'' @ r)"
proof -
  assume w: "web_scheme scheme"
  then have "partition_at (CHR '':'') (scheme @ CHR '':'' # ''//'' @ r) = (scheme, True, ''//'' @ r)"
    by (intro partition_line) (auto simp: web_scheme_def)
  moreover have "scheme \<noteq> [] \<and> is_alpha (hd scheme) \<and> list_all scheme_char scheme \<and> str_lower scheme = scheme"
    using w unfolding web_scheme_def by (elim disjE) (simp_all, code_simp+)
  ultimately show ?thesis by (simp add: split_scheme_def)
qed

lemma takeWhile_until: "\<forall>c \<in> set s. P c \<Longrightarrow> r = [] \<or> \<not> P (hd r) \<Longrightarrow> takeWhile P (s @ r) = s"
  by (cases r) (auto simp: takeWhile_append2)

lemma urlsplit_web:
  assumes "web_scheme scheme" and "\<forall>c \<in> set netloc. \<not> ends_netloc c \<and> c \<noteq> CHR ''['' \<and> c \<noteq> CHR '']''" and "url_tail rest"
  shows "urlsplit (scheme @ ''://'' @ netloc @ rest) = Some (scheme, netloc)"
proof -
  have "takeWhile (\<lambda>c. \<not> ends_netloc c) (netloc @ rest) = netloc"
    by (rule takeWhile_until) (use assms(2,3) in \<open>auto simp: url_tail_def\<close>)
  moreover have "CHR ''['' \<notin> set netloc" "CHR '']'' \<notin> set netloc" using assms(2) by auto
  ultimately show ?thesis
    unfolding urlsplit_def split_scheme_web [OF assms(1)] by (simp add: Let_def)
qed

lemma host_and_port_plain:
  assumes "CHR ''@'' \<notin> set h" and "CHR ''['' \<notin> set h" and "CHR '':'' \<notin> set h" and "port_text port"
  shows "host_and_port (h @ port) = (h, drop 1 port)"
proof -
  have d: "CHR ''@'' \<notin> set (str_nat p)" "CHR ''['' \<notin> set (str_nat p)" for p
    using decimal_digits [of p] by (auto simp: list_all_iff is_digit_def)
  with assms have "CHR ''@'' \<notin> set (h @ port)" "CHR ''['' \<notin> set (h @ port)" by (auto simp: port_text_def)
  then show ?thesis
    using assms(3,4) unfolding host_and_port_def Let_def
    by (auto simp: after_last_plain partition_plain partition_line port_text_def simp del: set_append)
qed

lemma port_of_plain:
  assumes "snd (host_and_port netloc) = drop 1 port" and "port_text port"
  shows "\<exists>p. port_of netloc = Inr p \<and> p \<noteq> Some 0"
proof (cases "port = []")
  case False
  with assms(2) obtain p where p: "1 \<le> p" "p \<le> 65535" "port = CHR '':'' # str_nat p" by (auto simp: port_text_def)
  have "digits_value 10 (str_nat p) = p" by (simp add: str_nat_text digits_value_text)
  with p assms(1) decimal_digits [of p] show ?thesis by (simp add: port_of_def str_nat_text)
qed (use assms in \<open>simp add: port_of_def\<close>)

lemma no_edges:
  assumes "s \<noteq> []" and "\<forall>c \<in> set s. \<not> is_space c \<and> c \<noteq> CHR ''['' \<and> c \<noteq> CHR '']''"
  shows "strip_brackets (str_strip s) = s"
proof -
  obtain c t where s: "s = c # t" using assms(1) by (cases s) auto
  obtain u d where r: "s = u @ [d]" using assms(1) by (cases s rule: rev_cases) auto
  have c: "\<not> is_space c" "c \<noteq> CHR ''[''" "c \<noteq> CHR '']''" using assms(2) s by auto
  have d: "\<not> is_space d" "d \<noteq> CHR ''[''" "d \<noteq> CHR '']''" using assms(2) r by auto
  have "str_lstrip s = s" using s c by (simp add: str_lstrip_def)
  moreover have "str_rstrip s = s" using r d by (simp add: str_rstrip_def)
  moreover have "dropWhile (\<lambda>c. c = CHR ''['' \<or> c = CHR '']'') s = s" using s c by simp
  moreover have "dropWhile (\<lambda>c. c = CHR ''['' \<or> c = CHR '']'') (rev s) = rev s" using r d by simp
  ultimately show ?thesis by (simp add: strip_brackets_def str_strip_def Let_def)
qed

lemma spelled_literal:
  assumes h: "spells_address h w" shows "parse_host_as_ip h = Some (IPv4 w)"
proof -
  have plain: "\<not> special c" if "c \<in> set h" for c using spelled_host_chars [OF h that] by (rule host_char_plain)
  then have chars: "\<forall>c \<in> set h. \<not> is_space c \<and> c \<notin> set '':/?#@[]%''" unfolding special_def by blast
  have "h \<noteq> []" using parse_relaxed_spelled [OF h] by (auto simp: parse_relaxed_ipv4_def rstrip_dots_def Let_def)
  moreover have edges: "strip_brackets (str_strip h) = h" by (rule no_edges) (use \<open>h \<noteq> []\<close> chars in auto)
  moreover have tw: "takeWhile (\<lambda>c. c \<noteq> CHR ''%'') h = h" by (rule takeWhile_absent) (use chars in auto)
  moreover have "ip_address h = (case parse_ipv4 h of Some v \<Rightarrow> Some (IPv4 v) | None \<Rightarrow> None)"
  proof -
    have "split_on (CHR ''%'') h = [h]" "split_on (CHR '':'') h = [h]" "CHR ''/'' \<notin> set h"
      using chars by (auto intro!: split_on_plain)
    then show ?thesis by (simp add: ip_address_def parse_ipv6_def split_hextets_def split: option.split)
  qed
  ultimately have "parse_host_as_ip h = (case parse_ipv4 h of Some v \<Rightarrow> Some (IPv4 v) | None \<Rightarrow> Some (IPv4 w))"
    unfolding parse_host_as_ip_def Let_def edges tw using parse_relaxed_spelled [OF h] by (simp split: option.split)
  then show ?thesis
    using parse_relaxed_spelled [OF h] canonical_is_relaxed [of h] by (cases "parse_ipv4 h") simp_all
qed

section \<open>Destinations\<close>

definition denied_range :: "ip \<Rightarrow> bool" where
  "denied_range a \<longleftrightarrow> (\<exists>net \<in> set BLOCKED_NETWORKS. in_network a net)"

lemma denied_is_blocked: "denied_range a \<Longrightarrow> is_blocked_address a"
  by (auto simp: denied_range_def is_blocked_address_def single_address_blocked_def in_any_def list_ex_iff)

lemma colon_allowed: "\<not> CHR '':'' < CHR 0x20" "CHR '':'' \<noteq> CHR 0x7F"
  by (simp_all add: less_char_def)

lemma not_forbidden:
  assumes "\<forall>c \<in> set s. \<not> special c" shows "\<not> has_forbidden_characters s"
  using assms by (auto simp: has_forbidden_characters_def list_ex_iff special_def)

text \<open>
  C40: However an IPv4 address of a denied range is spelled, in one to four parts, each decimal, octal or
  hexadecimal, with leading zeros, capitals or trailing dots, a URL with it is refused as a blocked
  destination, with any port, path, query and fragment and whatever the resolver would say.
\<close>

theorem no_spelling_passes:
  assumes "spells_address h w" and "denied_range (IPv4 w)" and "length h \<le> MAX_HOST_LENGTH"
    and "web_scheme scheme" and "port_text port" and "url_tail rest" and "\<not> has_forbidden_characters rest"
  shows "validate_destination_url getaddrinfo dns_enabled (scheme @ ''://'' @ h @ port @ rest) = Inl blocked_destination"
proof -
  have plain: "\<not> special c" if "c \<in> set h" for c using spelled_host_chars [OF assms(1) that] by (rule host_char_plain)
  then have h: "\<forall>c \<in> set h. c \<notin> set '':/?#@[]%''" unfolding special_def by blast
  have digits: "is_alnum c" if "c \<in> set (str_nat p)" for c p
    using decimal_digits [of p] that by (auto simp: list_all_iff is_alnum_def)
  have port: "c = CHR '':'' \<or> is_alnum c" if "c \<in> set port" for c using assms(5) that digits by (auto simp: port_text_def)
  have p: "c \<notin> set ''/?#@[]''" if "c \<in> set port" for c using port [OF that] alnum_plain [of c] by auto
  have netloc: "\<forall>c \<in> set (h @ port). \<not> ends_netloc c \<and> c \<noteq> CHR ''['' \<and> c \<noteq> CHR '']''"
    using h p by (force simp: ends_netloc_def)
  have hp: "host_and_port (h @ port) = (h, drop 1 port)"
    by (rule host_and_port_plain) (use h assms(5) in auto)
  have user: "\<not> has_userinfo (h @ port)" using h p by (force simp: has_userinfo_def)
  obtain q where q: "port_of (h @ port) = Inr q" "q \<noteq> Some 0" using port_of_plain [of "h @ port" port] hp assms(5) by auto
  have pc: "CHR ''%'' \<notin> set h" using h by auto
  have name: "hostname (h @ port) = str_lower h"
    by (simp only: hostname_def hp Let_def fst_conv takeWhile_absent [OF pc] dropWhile_absent [OF pc] append_Nil2)
  have ok: "\<not> has_forbidden_characters (scheme @ ''://'' @ h @ port @ rest)"
  proof -
    have "\<not> has_forbidden_characters h" by (rule not_forbidden) (use plain in blast)
    moreover have "\<not> has_forbidden_characters port"
    proof -
      have "\<not> is_space (CHR '':'')" by code_simp
      with port alnum_plain alnum_allowed show ?thesis
        unfolding has_forbidden_characters_def list_ex_iff by (metis colon_allowed)
    qed
    moreover have "\<not> has_forbidden_characters (scheme @ ''://'')" using assms(4) unfolding web_scheme_def by (elim disjE) (simp_all, code_simp+)
    ultimately show ?thesis using assms(7) by (simp add: has_forbidden_characters_def)
  qed
  have low: "length (str_lower h) \<le> MAX_HOST_LENGTH" "str_lower h \<noteq> []"
    using assms(3) parse_relaxed_spelled [OF assms(1)]
    by (auto simp: str_lower_def parse_relaxed_ipv4_def rstrip_dots_def Let_def)
  have "validate_destination_url getaddrinfo dns_enabled (scheme @ ''://'' @ (h @ port) @ rest)
      = check_host getaddrinfo dns_enabled (str_lower h) (scheme @ ''://'' @ (h @ port) @ rest)"
    unfolding validate_destination_url_def urlsplit_web [OF assms(4) netloc assms(6)]
    using ok assms(4) user q low by (auto simp: name web_scheme_def ALLOWED_SCHEMES_def)
  then show ?thesis
    using spelled_literal [OF spelled_lower [OF assms(1)]] denied_is_blocked [OF assms(2)] by (simp add: check_host_def)
qed

text \<open>An octal and a hexadecimal part, the other two octets in the last: 127.0.0.1.\<close>

lemma sample_spelling: "spells_address ''0177.0X0.1.'' (quad [127, 0, 0, 1])"
proof -
  have "token_of ''0177'' 127" unfolding token_of_def by (intro exI [of _ Octal] exI [of _ 0]) code_simp
  moreover have "token_of ''0X0'' 0" unfolding token_of_def by (intro exI [of _ Hexadecimal] exI [of _ 0]) code_simp
  moreover have "token_of ''1'' 1" unfolding token_of_def by (intro exI [of _ Decimal] exI [of _ 0]) code_simp
  ultimately show ?thesis
    unfolding spells_address_def
    by (intro exI [of _ "[''0177'', ''0X0'', ''1'']"] exI [of _ "[127, 0, 1]"] exI [of _ 1]) (simp add: parts_value_def quad_def)
qed

theorem no_spelling_passes_witness:
  "validate_destination_url (\<lambda>_. None) True ''https://0177.0X0.1.:8080/admin?a=1'' = Inl blocked_destination"
proof -
  have "denied_range (IPv4 (quad [127, 0, 0, 1]))"
    unfolding denied_range_def
  proof
    show "in_network (IPv4 (quad [127, 0, 0, 1])) (Net4 (quad [127, 0, 0, 0]) 8)" by (simp add: in_network_def quad_def)
    show "Net4 (quad [127, 0, 0, 0]) 8 \<in> set BLOCKED_NETWORKS" unfolding BLOCKED_NETWORKS_def by simp
  qed
  moreover have "port_text '':8080''"
    unfolding port_text_def by (intro disjI2 exI [of _ 8080]) (simp add: str_nat.simps, simp add: char_of_def bit_0)
  moreover have "\<not> has_forbidden_characters ''/admin?a=1''" by code_simp
  ultimately show ?thesis
    using no_spelling_passes [OF sample_spelling, of "''https''" "'':8080''" "''/admin?a=1''" "\<lambda>_. None" True]
    by (simp add: MAX_HOST_LENGTH_def web_scheme_def url_tail_def ends_netloc_def)
qed

text \<open>
  What is accepted is stored as it was sent: a web address without credentials whose host, if it is a
  literal, denotes no address of a denied range, also not inside an IPv6 address; and if names are
  resolved, every address the name has is such.
\<close>

definition public :: "ip \<Rightarrow> bool" where
  "public a \<longleftrightarrow> \<not> denied_range a \<and> (\<forall>b \<in> set (embedded_addresses a). \<not> denied_range b)"

lemma unblocked_public: "\<not> is_blocked_address a \<Longrightarrow> public a"
  using denied_is_blocked
  by (auto simp: public_def is_blocked_address_def single_address_blocked_def list_ex_iff in_any_def denied_range_def split: if_splits)

lemma check_addresses_ok:
  "check_addresses as url = Inr u \<Longrightarrow> u = url \<and> (\<forall>a \<in> set as. \<exists>ip. ip_address a = Some ip \<and> public ip)"
  by (induction as) (auto dest: unblocked_public split: option.splits if_splits)

theorem accepted_destination_is_public:
  assumes "validate_destination_url getaddrinfo dns_enabled url = Inr u"
  shows "u = url \<and> (\<exists>scheme netloc. urlsplit url = Some (scheme, netloc) \<and> scheme \<in> set ALLOWED_SCHEMES \<and> \<not> has_userinfo netloc
    \<and> (case parse_host_as_ip (hostname netloc) of
         Some a \<Rightarrow> public a
       | None \<Rightarrow> dns_enabled \<longrightarrow> resolve_host getaddrinfo (hostname netloc) \<noteq> []
           \<and> (\<forall>s \<in> set (resolve_host getaddrinfo (hostname netloc)). \<exists>a. ip_address s = Some a \<and> public a)))"
proof -
  from assms obtain scheme netloc where parts: "urlsplit url = Some (scheme, netloc)" "scheme \<in> set ALLOWED_SCHEMES"
      "\<not> has_userinfo netloc" and host: "check_host getaddrinfo dns_enabled (hostname netloc) url = Inr u"
    by (auto simp: validate_destination_url_def split: if_splits option.splits prod.splits sum.splits)
  from host have "u = url \<and> (case parse_host_as_ip (hostname netloc) of
         Some a \<Rightarrow> public a
       | None \<Rightarrow> dns_enabled \<longrightarrow> resolve_host getaddrinfo (hostname netloc) \<noteq> []
           \<and> (\<forall>s \<in> set (resolve_host getaddrinfo (hostname netloc)). \<exists>a. ip_address s = Some a \<and> public a))"
    by (auto simp: check_host_def Let_def dest: unblocked_public check_addresses_ok split: option.splits if_splits)
  with parts show ?thesis by blast
qed

end
