(* ===== verification/Spec2Isabelle.thy ===== *)
theory Spec2Isabelle
  imports GraphProps PlannerProps Policy Approvals Lineage WorkspaceProps AuditReopen Dispatch ExecutorProps Agents ReplayProps A2AProps IntakeProps MetricsProps SchemaProps Prompts LiveProps ReportLog CliOutput RateLimitProps DestinationProps
begin

text \<open>
  Keel is an orchestrator: it turns an engineering requirement into a plan of stages, runs the
  stages on language models, checks what they produce, and keeps evidence of everything it did. This
  library models the program as it is written under \<open>src/keel\<close> and proves what makes its parts correct.
  This theory only joins the others; each of them opens with what it holds.

  \<^bold>\<open>The program and its parts.\<close> \<open>cli.py\<close> seeds a workspace and builds the services of a run. \<open>intake.py\<close>
  has the requirement analysed and parks the run as long as a blocking question is open. \<open>planner.py\<close>
  turns the analysed problem into a plan, \<open>graph.py\<close> accepts or refuses it and schedules it.
  \<open>executor.py\<close> runs batches of ready nodes concurrently: a node asks for approval
  (\<open>governance/approvals.py\<close>), passes an entry gate (\<open>governance/policy.py\<close>), is dispatched
  (\<open>dispatch.py\<close>, or over a wire in \<open>a2a\<close>), writes its artifacts into the sandbox (\<open>workspace.py\<close>),
  passes an exit gate, and is rolled back, retried, repaired or replanned when it does not. A stage is
  a prompt and a schema (\<open>agents/definitions.py\<close>) answered by an adapter (\<open>adapters\<close>): live, or a replay
  of recorded answers. Every step is an event of the audit log (\<open>governance/audit.py\<close>), every consumed
  revision an edge of the lineage (\<open>governance/lineage.py\<close>); metrics (\<open>governance/metrics.py\<close>), the live
  view and the report (\<open>ui\<close>) are computed from them.

  \<^bold>\<open>How the model corresponds to the code.\<close> A dataclass is a record whose fields carry a prefix, an enum a
  datatype with its values as a function, a method a function of the same name that takes the state and
  returns it updated. A dictionary is an association list in insertion order (\<open>Prelude\<close>). An exception is
  the left side of a sum or a branch of a result type; where a mutation that came before it matters, the
  state is returned with it. Python's integers are \<open>int\<close> or \<open>nat\<close>, floats are reals with the exceptional
  values of \<open>Json\<close> where the code can meet them, strings are lists of the Latin-1 characters.

  \<^item> \<open>Prelude\<close>, \<open>Json\<close>, \<open>Models\<close>: dictionaries, strings, rounding, JSON values and their printing, the records
    of \<open>models.py\<close>.
  \<^item> \<open>Graph\<close>, \<open>GraphQueries\<close>: construction of a \<open>PlanGraph\<close> with cycle detection and levels, and its queries;
    \<open>GraphCycles\<close>, \<open>GraphLevels\<close>, \<open>GraphBuild\<close>, \<open>GraphPaths\<close>, \<open>GraphProps\<close> prove them: a plan is accepted exactly
    when it is well formed and acyclic, the levels are the batches of the ready set, something is ready
    while something is left, staleness is reachability, the critical path is longest.
  \<^item> \<open>Planner\<close>, \<open>PlannerProps\<close>: \<open>planner.py\<close>; every plan of a run is accepted and revised at most once.
  \<^item> \<open>Regex\<close>, \<open>PolicyRules\<close>, \<open>Policy\<close>: the part of \<open>re\<close> the rules use as a backtracking matcher, the guardrails,
    and the engine; a gate opens exactly when every rule could be evaluated and none blocks.
  \<^item> \<open>Approvals\<close>: the three brokers and their shared contract; \<open>Lineage\<close>: the provenance store and its
    soundness.
  \<^item> \<open>Workspace\<close>, \<open>WorkspaceFrame\<close>, \<open>WorkspaceProps\<close>: the sandbox on an explicit file system with symbolic links;
    containment of writes and both directions of the scoped rollback, by composing frames. What is excepted is
    bytecode, which writing a module deletes, even outside the sandbox where \<^verbatim>\<open>__pycache__\<close> is a link.
  \<^item> \<open>AuditTrail\<close>, \<open>JsonParse\<close>, \<open>AuditFile\<close>, \<open>AuditReopen\<close>: emitting with redaction, a JSON parser, loading a log and
    checking its integrity; a printed log reopens to itself and a removed line is reported.
  \<^item> \<open>Dispatch\<close>, \<open>Agents\<close>, \<open>Prompts\<close>, \<open>Schemas\<close>, \<open>SchemaProps\<close>: the dispatch boundary, the prompts and schemas
    verbatim, rendering, and what a conforming answer becomes.
  \<^item> \<open>Executor\<close>, \<open>ExecutorRun\<close>: one node as a task with a step per suspension point, and the run as batches
    of tasks that the event loop resumes in any order. \<open>ExecutorTask\<close>, \<open>ExecutorLoop\<close>, \<open>ExecutorFrame\<close>,
    \<open>ExecutorTrail\<close>, \<open>ExecutorOutcome\<close>, \<open>ExecutorProtocol\<close>, \<open>ExecutorProps\<close> prove that a run ends, stays within
    its budgets, writes nothing before an approval, keeps a sound log and lineage, reports the truth about
    how it ended, and that a batch refines the abstract lives of its nodes step by step.
  \<^item> \<open>AdapterBase\<close>, \<open>ExtractProps\<close>, \<open>Claude\<close>, \<open>ClaudeProps\<close>, \<open>Replay\<close>, \<open>ReplayProps\<close>: the environment file and the
    extraction of JSON from an answer, the live adapter with its bounded retry, and replay: it reproduces
    what was recorded once and never invents an answer. A key recorded twice is answered differently from the
    log and from its file (\<open>file_replay_takes_the_last\<close>), and a fence inside an object is taken for one around
    it (\<open>fence_in_content_wins\<close>).
  \<^item> \<open>Cards\<close>, \<open>A2AServer\<close>, \<open>A2AClient\<close>, \<open>A2AProps\<close>: agent cards, the lifecycle calls of a served stage, the client
    and both transports, which agree.
  \<^item> \<open>Intake\<close>, \<open>IntakeProps\<close>, \<open>Metrics\<close>, \<open>MetricsProps\<close>: the pre-flight stage and the metrics of a run.
  \<^item> \<open>Live\<close>, \<open>LiveProps\<close>, \<open>Report\<close>, \<open>ReportProps\<close>, \<open>ReportLog\<close>: the live view, which never raises and shows an
    abstract board of the calls it got, and the HTML report, which is inert whatever it displays; the file
    both commands write, and what the report makes of the events the executor really logs.
  \<^item> \<open>Scenarios\<close>, \<open>Cli\<close>, \<open>CliProps\<close>, \<open>CliOutput\<close>: the scenarios, \<open>keel run\<close> as the composition of the above, and
    the options, output and exit code of the commands; the command the README opens with is refused.
  \<^item> \<open>RateLimit\<close>, \<open>RateLimitProps\<close>, \<open>Addresses\<close>, \<open>Destination\<close>, \<open>DestinationProps\<close>: two parts of what a recorded
    run delivered, under \<open>src/runs/demo-brownfield\<close>. The rate limiter keeps the quota of a key in every
    window and tells a client how long to wait; the validation of a destination lets no spelling of a denied
    IPv4 address through. Addresses are machine words.

  \<^bold>\<open>Interfaces.\<close> What several components rely on is a locale, interpreted where the code provides it:
  \<open>schedulable\<close> for anything that hands out ready nodes (the adjacency tables and the accepted graph),
  \<open>approval_broker\<close> for the brokers (each of the three and the choice among them), \<open>world_ops\<close>, \<open>node_world\<close>,
  \<open>loop_world\<close> and \<open>world_inv\<close> for a property of the shared world that every operation of a run keeps (the
  audit log, the lineage, granted approvals), and \<open>stage_transport\<close> for the ways of reaching a stage (in
  process and over the wire).

  \<^bold>\<open>The environment.\<close> Clocks, fresh ids, hashes, the answers of models, of the test process and of the
  SDKs, the order in which the event loop resumes tasks, and the text of a float are arguments, mostly
  functions of a counter so that two readings are unrelated. The theorems hold for all of them; where one
  needs documented behaviour of such an argument it is a hypothesis of the theorem.

  \<^bold>\<open>Bounds.\<close> Path resolution follows 40 links, the limit of the operating system, and reports an error beyond
  it. The matcher takes one unit of fuel per required round and character, which \<open>rep_m_fuel\<close> shows to be
  enough. The JSON parser takes twice the length of its input, and \<open>loads_fuel\<close> shows it never runs out. A run
  takes one unit per scheduling round; \<open>run_terminates\<close> shows that more than the nodes of the plan, three
  times the repair budget and twice the revision budget together is enough. Waiting for an agent takes one
  unit per reading of the clock; \<open>wait_until_ready_ends\<close> shows that it ends once the clock passes the deadline.
  Everything else terminates by structure or by a measure.

  \<^bold>\<open>Not modelled.\<close>
  \<^item> How \<open>argparse\<close> splits a command line; what it finds is an argument of \<open>parse_run\<close>.
  \<^item> The web application a stage is served with and the card resolver of the client, which only wire up the
    A2A SDK; the SDK and the model provider's client are arguments.
  \<^item> The terminal library: \<open>Live\<close> ends with the content of a frame. A glyph is its code point.
  \<^item> Rounding in float arithmetic, code points beyond Latin-1, the recursion limit and the digit limit of
    Python's decoder, symbolic links inside a seed.
  \<^item> A run whose \<^verbatim>\<open>--run-id\<close> names an earlier log, which the code appends to, and two runs that share an id:
    \<open>cli_run\<close> starts from an empty log.
  \<^item> A stream that fails: printing and the lines of the live view always succeed.
  \<^item> The calls of the executor to the live view, which return nothing; \<open>LiveProps\<close> speaks of every sequence of
    calls.
  \<^item> The other code under \<open>src/runs\<close>, which recorded runs produced and which is kept as evidence, and the
    tests.
\<close>

end
